(* ===== verification/Prelude.thy ===== *)
theory Prelude
  imports Main "HOL-Library.Word" "HOL-Library.Monad_Syntax"
begin

text \<open>
  Shared vocabulary of the development: the machine integer types of the C++ sources,
  the collections of simplification and introduction rules the components feed, the
  C++ integer conversions used everywhere (\<open>sign_extend\<close>, \<open>__builtin_parity\<close>,
  little-endian byte copies as \<open>memcpy\<close> performs them) and the generic lemmas on words
  and on the option monad.

  A computation of the program is a function into \<open>'a option\<close>: the value \<^term>\<open>None\<close> means
  that the process does not get past this point (an \<open>assert\<close> aborts it, an exception leaves
  the emulator, or a loop does not end).
\<close>

unbundle bit_operations_syntax

section \<open>Types and rule collections\<close>

type_synonym u8 = "8 word"
type_synonym u16 = "16 word"
type_synonym u32 = "32 word"
type_synonym u64 = "64 word"

named_theorems flag_defs \<open>the enumerators of the flag masks, as powers of two\<close>
named_theorems state_simps \<open>how the accessors of the emulator read an updated state\<close>
named_theorems run_simps \<open>evaluation of the emulator's helpers on states where they succeed\<close>
named_theorems insn_defs \<open>definitions of the instruction handlers\<close>

section \<open>C++ integer helpers\<close>

text \<open>\<open>!__builtin_parity(x)\<close> is the condition for PF: an even number of one bits.\<close>

definition builtin_parity :: "'a::len word \<Rightarrow> bool" where
  "builtin_parity w = odd (length (filter (bit w) [0..<LENGTH('a)]))"

text \<open>
  \<open>memcpy\<close> between an unsigned integer of \<open>n\<close> bytes and memory on a little-endian host:
  the bytes in address order, and the integer they form.
\<close>

primrec word_to_bytes :: "nat \<Rightarrow> 'a::len word \<Rightarrow> u8 list" where
  "word_to_bytes 0 v = []"
| "word_to_bytes (Suc n) v = ucast v # word_to_bytes n (drop_bit 8 v)"

primrec bytes_to_word :: "u8 list \<Rightarrow> 'a::len word" where
  "bytes_to_word [] = 0"
| "bytes_to_word (b # bs) = ucast b OR push_bit 8 (bytes_to_word bs)"

section \<open>Generic lemmas\<close>

subsection \<open>The option monad\<close>

lemma bind_eq_Some: "(m \<bind> f) = Some y \<longleftrightarrow> (\<exists>x. m = Some x \<and> f x = Some y)"
  by (cases m) auto

lemma pred_option_bind:
  assumes "pred_option Q m" and "\<And>x. Q x \<Longrightarrow> pred_option P (f x)"
  shows "pred_option P (m \<bind> f)"
  using assms by (cases m) auto

lemma pred_option_Some [simp]: "pred_option P (Some x) = P x"
  by simp

lemma pred_option_iff: "pred_option P m \<longleftrightarrow> (\<forall>x. m = Some x \<longrightarrow> P x)"
  by (cases m) auto

subsection \<open>Bytes and words\<close>

lemma length_word_to_bytes [simp]: "length (word_to_bytes n v) = n"
  by (induction n arbitrary: v) auto

lemma bytes_to_word_to_bytes:
  "bytes_to_word (word_to_bytes n v) = take_bit (8 * n) v"
proof (induction n arbitrary: v)
  case 0
  then show ?case by simp
next
  case (Suc n)
  have "bit (ucast (ucast v :: u8) OR push_bit 8 (take_bit (8 * n) (drop_bit 8 v))) i
      = bit (take_bit (8 * Suc n) v) i" if "i < LENGTH('a)" for i
    using that by (auto simp: bit_simps)
  then have "ucast (ucast v :: u8) OR push_bit 8 (take_bit (8 * n) (drop_bit 8 v))
      = take_bit (8 * Suc n) v"
    by (intro bit_word_eqI) blast
  with Suc show ?case by simp
qed

lemma bytes_to_word_inverse:
  fixes v :: "'a::len word"
  assumes "LENGTH('a) \<le> 8 * n"
  shows "bytes_to_word (word_to_bytes n v) = v"
  using assms by (simp add: bytes_to_word_to_bytes take_bit_word_eq_self)

lemma nth_word_to_bytes:
  "i < n \<Longrightarrow> word_to_bytes n v ! i = ucast (drop_bit (8 * i) v)"
proof (induction n arbitrary: v i)
  case 0
  then show ?case by simp
next
  case (Suc n)
  then show ?case
    by (cases i) (simp_all add: add.commute)
qed

subsection \<open>Literal masks as bit predicates\<close>

lemma mask_literals:
  "(0xff :: 'a::len word) = mask 8" "(0xffff :: 'b::len word) = mask 16"
  "(0xf :: 'c::len word) = mask 4" "(0x7 :: 'd::len word) = mask 3"
  "(0x3 :: 'e::len word) = mask 2" "(0x1f :: 'f::len word) = mask 5"
  "(0xff00 :: u16) = NOT (mask 8)" "(0x0fff :: u16) = mask 12" "(0xf000 :: u16) = NOT (mask 12)"
  by (simp_all add: mask_eq_exp_minus_1)

lemma bit_single: "bit (push_bit k (1 :: 'a::len word)) n \<longleftrightarrow> n = k \<and> k < LENGTH('a)"
  by (auto simp: bit_simps)

lemma and_exp_nonzero: "(w AND push_bit n 1 \<noteq> 0) = bit w n" for w :: "'a::len word"
  by (metis and_exp_eq_0_iff_not_bit push_bit_of_1)

lemma bit_u16_high: "bit (w :: u16) (8 + n) \<Longrightarrow> n < 8"
  using bit_imp_le_length [of w "8 + n"] by simp

subsection \<open>Addresses\<close>

lemma unat_bounds:
  "unat (a :: u8) < 256" "unat (b :: u16) < 65536" "unat (c :: u32) < 4294967296"
  using unsigned_less [of a, where 'a = nat] unsigned_less [of b, where 'a = nat]
    unsigned_less [of c, where 'a = nat] by simp_all

lemma word_add_of_nat_inj:
  fixes a :: "'a::len word"
  assumes "i < 2 ^ LENGTH('a)" and "j < 2 ^ LENGTH('a)"
  shows "a + of_nat i = a + of_nat j \<longleftrightarrow> i = j"
proof -
  have "(of_nat i :: 'a word) = of_nat j \<longleftrightarrow> i = j"
    using assms by (metis of_nat_inverse)
  then show ?thesis by simp
qed

subsection \<open>Bit-blasting of small words\<close>

text \<open>Equality and order of fixed-width words, bit by bit, for goals over symbolic bytes and words.\<close>

lemma all_less_8: "(\<forall>n<8. P n) \<longleftrightarrow>
    P 0 \<and> P 1 \<and> P 2 \<and> P 3 \<and> P 4 \<and> P 5 \<and> P 6 \<and> P (7::nat)"
  by (simp add: eval_nat_numeral All_less_Suc conj_comms conj_ac)

lemma all_less_16: "(\<forall>n<16. P n) \<longleftrightarrow> (\<forall>n<8. P n) \<and> (\<forall>n<8. P (8 + n :: nat))"
proof (intro iffI conjI allI impI)
  fix n :: nat
  assume P: "(\<forall>n<8. P n) \<and> (\<forall>n<8. P (8 + n))" and n: "n < 16"
  show "P n"
  proof (cases "n < 8")
    case True
    with P show ?thesis by simp
  next
    case False
    with n have "n = 8 + (n - 8)" and "n - 8 < 8" by simp_all
    with P show ?thesis by metis
  qed
qed simp_all

lemma u8_eq_bits: "(a :: u8) = b \<longleftrightarrow> (\<forall>n<8. bit a n = bit b n)"
  by (auto intro: bit_word_eqI)

lemma u16_eq_bits: "(a :: u16) = b \<longleftrightarrow> (\<forall>n<16. bit a n = bit b n)"
  by (auto intro: bit_word_eqI)

lemma bit_beyond: "LENGTH('a) \<le> n \<Longrightarrow> bit w n = False" for w :: "'a::len word"
  using bit_imp_le_length by fastforce

lemmas bitblast = u8_eq_bits u16_eq_bits all_less_16 all_less_8 bit_simps bit_beyond

lemma all_u8: "(\<And>n. n < 256 \<Longrightarrow> P (of_nat n)) \<Longrightarrow> P b" for b :: u8
proof -
  assume "\<And>n. n < 256 \<Longrightarrow> P (of_nat n)"
  then have "P (of_nat (unat b))" using unat_bounds(1) by blast
  then show ?thesis by simp
qed

lemma unat_minus_one_word: "unat (- 1 :: u16) = 65535"
  by (simp add: unsigned_minus_1_eq_mask mask_eq_exp_minus_1)

lemma ucast_u16_u64_u32: "(ucast (ucast w :: u64) :: u32) = ucast w" for w :: u16
  by (rule bit_word_eqI) (auto simp: bit_simps dest: bit_imp_le_length)

lemma ex_less_2: "(\<exists>i < 2. P i) \<longleftrightarrow> P 0 \<or> P (1 :: nat)"
  by (auto simp: less_2_cases_iff)

lemma all_less_2: "(\<forall>i < 2. P i) \<longleftrightarrow> P 0 \<and> P (1 :: nat)"
  by (auto simp: less_2_cases_iff)

lemma ucast_byte_and: "(ucast (ucast w :: u8) :: u16) = w AND 0xff" for w :: u16
  by (rule bit_word_eqI) (auto simp: mask_literals bit_simps)

end
