(* ===== verification/RegisterFile.thy ===== *)
theory RegisterFile
  imports Prelude
begin

text \<open>
  The register file of the software CPU (sim/common/RegisterFile.h and .cpp): the sixteen-bit
  registers with their byte halves, and the flags word with its stuck and reserved bits.

  The array \<open>registers[NUM_16BIT_REGS]\<close> is a function on the enumeration \<open>GPR\<close> of which only the
  thirteen sixteen-bit names are ever read or written. The build constant \<open>S80X86_PSEUDO_286\<close> of the
  generated config.h is the field \<open>pseudo_286\<close>, which no operation changes. Both
  \<open>assert(regnum < NUM_REGS)\<close> hold by the type of \<open>GPR\<close>.
\<close>

section \<open>Data\<close>

datatype GPR =
    AX | CX | DX | BX | SP | BP | SI | DI | ES | CS | SS | DS | IP
  | AL | CL | DL | BL | AH | CH | DH | BH

text \<open>The enumerators in order: a position in this list is the enumerator's value.\<close>

definition GPR_enum :: "GPR list" where
  "GPR_enum = [AX, CX, DX, BX, SP, BP, SI, DI, ES, CS, SS, DS, IP,
               AL, CL, DL, BL, AH, CH, DH, BH]"

text \<open>\<open>static_cast<GPR>(n)\<close>, only ever applied to values below \<open>NUM_REGS\<close>.\<close>

definition GPR_of :: "nat \<Rightarrow> GPR" where
  "GPR_of n = GPR_enum ! n"

fun GPR_val :: "GPR \<Rightarrow> nat" where
  "GPR_val AX = 0" | "GPR_val CX = 1" | "GPR_val DX = 2" | "GPR_val BX = 3"
| "GPR_val SP = 4" | "GPR_val BP = 5" | "GPR_val SI = 6" | "GPR_val DI = 7"
| "GPR_val ES = 8" | "GPR_val CS = 9" | "GPR_val SS = 10" | "GPR_val DS = 11"
| "GPR_val IP = 12" | "GPR_val AL = 13" | "GPR_val CL = 14" | "GPR_val DL = 15"
| "GPR_val BL = 16" | "GPR_val AH = 17" | "GPR_val CH = 18" | "GPR_val DH = 19"
| "GPR_val BH = 20"

definition NUM_16BIT_REGS :: nat where "NUM_16BIT_REGS = 13"
definition NUM_REGS :: nat where "NUM_REGS = 21"

text \<open>The flag bits of \<open>enum Flag\<close>: one bit each, at the positions of \<open>enum FlagBitPos\<close>.\<close>

definition CF :: u16 where [flag_defs]: "CF = push_bit 0 1"
definition PF :: u16 where [flag_defs]: "PF = push_bit 2 1"
definition AF :: u16 where [flag_defs]: "AF = push_bit 4 1"
definition ZF :: u16 where [flag_defs]: "ZF = push_bit 6 1"
definition SF :: u16 where [flag_defs]: "SF = push_bit 7 1"
definition TF :: u16 where [flag_defs]: "TF = push_bit 8 1"
definition IF :: u16 where [flag_defs]: "IF = push_bit 9 1"
definition DF :: u16 where [flag_defs]: "DF = push_bit 10 1"
definition OF :: u16 where [flag_defs]: "OF = push_bit 11 1"

definition FLAGS_STUCK_BITS :: "bool \<Rightarrow> u16" where
  "FLAGS_STUCK_BITS pseudo286 =
     (if pseudo286 then 0x0000 OR push_bit 1 1 else 0xf000 OR push_bit 1 1)"

record RegisterFile =
  registers :: "GPR \<Rightarrow> u16"
  rflags :: u16
  reg_written :: bool
  pseudo_286 :: bool

section \<open>Operations\<close>

definition reg_reset :: "RegisterFile \<Rightarrow> RegisterFile" where
  "reg_reset r = r\<lparr>registers := (\<lambda>_. 0),
                   rflags := FLAGS_STUCK_BITS (pseudo_286 r),
                   reg_written := False\<rparr>"

text \<open>The constructor, for a build with the given configuration.\<close>

definition RegisterFile_new :: "bool \<Rightarrow> RegisterFile" where
  "RegisterFile_new pseudo286 =
     reg_reset \<lparr>registers = (\<lambda>_. 0), rflags = FLAGS_STUCK_BITS pseudo286,
                reg_written = False, pseudo_286 = pseudo286\<rparr>"

definition set_low :: "RegisterFile \<Rightarrow> GPR \<Rightarrow> u16 \<Rightarrow> RegisterFile" where
  "set_low r x v = r\<lparr>registers := (registers r)(x := (registers r x AND 0xff00) OR (v AND 0x00ff))\<rparr>"

definition set_high :: "RegisterFile \<Rightarrow> GPR \<Rightarrow> u16 \<Rightarrow> RegisterFile" where
  "set_high r x v = r\<lparr>registers := (registers r)(x := (registers r x AND 0x00ff) OR push_bit 8 v)\<rparr>"

definition reg_set :: "RegisterFile \<Rightarrow> GPR \<Rightarrow> u16 \<Rightarrow> RegisterFile" where
  "reg_set r0 regnum v =
     (let r = (if regnum \<noteq> IP then r0\<lparr>reg_written := False\<rparr> else r0) in
      case regnum of
        AL \<Rightarrow> set_low r AX v | CL \<Rightarrow> set_low r CX v | DL \<Rightarrow> set_low r DX v | BL \<Rightarrow> set_low r BX v
      | AH \<Rightarrow> set_high r AX v | CH \<Rightarrow> set_high r CX v | DH \<Rightarrow> set_high r DX v | BH \<Rightarrow> set_high r BX v
      | _ \<Rightarrow> r\<lparr>registers := (registers r)(regnum := v)\<rparr>)"

definition reg_get :: "RegisterFile \<Rightarrow> GPR \<Rightarrow> u16" where
  "reg_get r regnum =
     (case regnum of
        AL \<Rightarrow> registers r AX AND 0x00ff | CL \<Rightarrow> registers r CX AND 0x00ff
      | DL \<Rightarrow> registers r DX AND 0x00ff | BL \<Rightarrow> registers r BX AND 0x00ff
      | AH \<Rightarrow> drop_bit 8 (registers r AX) | CH \<Rightarrow> drop_bit 8 (registers r CX)
      | DH \<Rightarrow> drop_bit 8 (registers r DX) | BH \<Rightarrow> drop_bit 8 (registers r BX)
      | _ \<Rightarrow> registers r regnum)"

definition get_flags :: "RegisterFile \<Rightarrow> u16" where
  "get_flags r = rflags r OR FLAGS_STUCK_BITS (pseudo_286 r)"

definition get_flag :: "RegisterFile \<Rightarrow> u16 \<Rightarrow> bool" where
  "get_flag r f = (rflags r AND f \<noteq> 0)"

definition reserved_mask :: "bool \<Rightarrow> u16" where
  "reserved_mask pseudo286 =
     (if pseudo286 then 0xf000 else 0) OR (push_bit 1 1 OR push_bit 3 1 OR push_bit 5 1)"

definition valid_mask :: u16 where
  "valid_mask = CF OR PF OR AF OR ZF OR SF OR TF OR IF OR DF OR OF"

definition set_flags :: "RegisterFile \<Rightarrow> u16 \<Rightarrow> u16 \<Rightarrow> RegisterFile" where
  "set_flags r val mask0 =
     (let mask = mask0 AND NOT (reserved_mask (pseudo_286 r));
          mask = mask AND valid_mask;
          fl = rflags r AND NOT mask;
          fl = fl OR (((val AND mask) OR FLAGS_STUCK_BITS (pseudo_286 r)) AND 0x0fff)
      in r\<lparr>rflags := fl, reg_written := True\<rparr>)"

definition reg_has_written :: "RegisterFile \<Rightarrow> bool" where
  "reg_has_written r = reg_written r"

definition reg_clear_has_written :: "RegisterFile \<Rightarrow> RegisterFile" where
  "reg_clear_has_written r = r\<lparr>reg_written := False\<rparr>"

section \<open>The sixteen-bit registers and their byte halves\<close>

text \<open>
  \<open>is16\<close> holds of the enumerators below \<open>NUM_16BIT_REGS\<close>; \<open>whole\<close> is the register an enumerator
  lives in and \<open>is_high\<close> says which half a byte register is.
\<close>

definition is16 :: "GPR \<Rightarrow> bool" where
  "is16 x \<longleftrightarrow> GPR_val x < NUM_16BIT_REGS"

fun whole :: "GPR \<Rightarrow> GPR" where
  "whole AL = AX" | "whole CL = CX" | "whole DL = DX" | "whole BL = BX"
| "whole AH = AX" | "whole CH = CX" | "whole DH = DX" | "whole BH = BX"
| "whole x = x"

definition is_high :: "GPR \<Rightarrow> bool" where
  "is_high x \<longleftrightarrow> x \<in> {AH, CH, DH, BH}"

lemma is16_simps [simp]:
  "is16 AX" "is16 CX" "is16 DX" "is16 BX" "is16 SP" "is16 BP" "is16 SI" "is16 DI"
  "is16 ES" "is16 CS" "is16 SS" "is16 DS" "is16 IP"
  "\<not> is16 AL" "\<not> is16 CL" "\<not> is16 DL" "\<not> is16 BL"
  "\<not> is16 AH" "\<not> is16 CH" "\<not> is16 DH" "\<not> is16 BH"
  by (simp_all add: is16_def NUM_16BIT_REGS_def)

lemma is_high_simps [simp]:
  "is_high AH" "is_high CH" "is_high DH" "is_high BH"
  "\<not> is_high AL" "\<not> is_high CL" "\<not> is_high DL" "\<not> is_high BL"
  by (simp_all add: is_high_def)

lemma GPR_of_val [simp]: "GPR_of (GPR_val x) = x"
  by (cases x) (simp_all add: GPR_of_def GPR_enum_def)

lemma GPR_val_of: "n < NUM_REGS \<Longrightarrow> GPR_val (GPR_of n) = n"
proof -
  assume n: "n < NUM_REGS"
  have "\<forall>i \<in> {..<NUM_REGS}. GPR_val (GPR_of i) = i"
    unfolding NUM_REGS_def GPR_of_def GPR_enum_def
    by (simp add: lessThan_nat_numeral lessThan_Suc)
  with n show ?thesis by simp
qed

instantiation GPR :: linorder
begin

definition less_eq_GPR :: "GPR \<Rightarrow> GPR \<Rightarrow> bool" where
  "less_eq_GPR x y \<longleftrightarrow> GPR_val x \<le> GPR_val y"

definition less_GPR :: "GPR \<Rightarrow> GPR \<Rightarrow> bool" where
  "less_GPR x y \<longleftrightarrow> GPR_val x < GPR_val y"

instance
proof
  fix x y :: GPR
  assume "x \<le> y" "y \<le> x"
  then have "GPR_val x = GPR_val y" by (simp add: less_eq_GPR_def)
  then show "x = y" by (metis GPR_of_val)
qed (auto simp: less_eq_GPR_def less_GPR_def)

end

lemma GPR_byte_in_range:
  "n < 8 \<Longrightarrow> \<not> is16 (GPR_of (GPR_val AL + n))"
proof -
  assume "n < 8"
  then have "GPR_val (GPR_of (GPR_val AL + n)) = 13 + n"
    by (subst GPR_val_of) (simp_all add: NUM_REGS_def)
  then show ?thesis by (simp add: is16_def NUM_16BIT_REGS_def)
qed

lemma GPR_word_in_range:
  "n < 8 \<Longrightarrow> is16 (GPR_of (GPR_val AX + n))"
proof -
  assume "n < 8"
  then have "GPR_val (GPR_of (GPR_val AX + n)) = n"
    by (subst GPR_val_of) (simp_all add: NUM_REGS_def)
  with \<open>n < 8\<close> show ?thesis by (simp add: is16_def NUM_16BIT_REGS_def)
qed

section \<open>Reading what was written\<close>

lemma reg_get_set16 [simp]:
  "is16 x \<Longrightarrow> is16 y \<Longrightarrow> reg_get (reg_set r x v) y = (if x = y then v else reg_get r y)"
  by (cases x; cases y) (simp_all add: reg_get_def reg_set_def)

lemma reg_set_same: "is16 x \<Longrightarrow> reg_set (reg_set r x v) x w = reg_set r x w"
  by (cases x) (simp_all add: reg_set_def)

lemma reg_get_set_byte_same [simp]:
  "\<not> is16 x \<Longrightarrow> reg_get (reg_set r x v) x = v AND 0xff"
  by (cases x) (auto simp: reg_get_def reg_set_def set_low_def set_high_def
      mask_literals bit_simps intro!: bit_word_eqI)


lemma reg_get_set_wide_byte:
  "is16 x \<Longrightarrow> \<not> is16 y \<Longrightarrow> reg_get (reg_set r x v) y =
     (if x = whole y then (if is_high y then drop_bit 8 v else v AND 0xff) else reg_get r y)"
  by (cases x; cases y) (simp_all add: reg_get_def reg_set_def)

lemma reg_get_set_byte_byte:
  "\<not> is16 x \<Longrightarrow> \<not> is16 y \<Longrightarrow> x \<noteq> y \<Longrightarrow> reg_get (reg_set r x v) y = reg_get r y"
  by (cases x; cases y)
    (auto simp: reg_get_def reg_set_def set_low_def set_high_def
      mask_literals bit_simps intro!: bit_word_eqI dest: bit_u16_high)

lemma reg_get_set_byte_wide:
  "\<not> is16 x \<Longrightarrow> is16 y \<Longrightarrow> reg_get (reg_set r x v) y =
     (if y = whole x
      then (if is_high x then (reg_get r y AND 0xff) OR push_bit 8 v
            else (reg_get r y AND 0xff00) OR (v AND 0xff))
      else reg_get r y)"
  by (cases x; cases y) (simp_all add: reg_get_def reg_set_def set_low_def set_high_def)

lemma reg_get_byte_and: "\<not> is16 x \<Longrightarrow> reg_get r x AND 0xff = reg_get r x"
  by (cases x) (auto simp: reg_get_def mask_literals bit_simps
      intro!: bit_word_eqI dest: bit_u16_high)

section \<open>The flags word\<close>

lemma flag_bits [bit_simps]:
  "bit CF n \<longleftrightarrow> n = 0" "bit PF n \<longleftrightarrow> n = 2" "bit AF n \<longleftrightarrow> n = 4" "bit ZF n \<longleftrightarrow> n = 6"
  "bit SF n \<longleftrightarrow> n = 7" "bit TF n \<longleftrightarrow> n = 8" "bit IF n \<longleftrightarrow> n = 9" "bit DF n \<longleftrightarrow> n = 10"
  "bit OF n \<longleftrightarrow> n = 11"
  unfolding flag_defs by (simp_all only: bit_single) auto

lemma get_flag_bit [simp]:
  "get_flag r CF = bit (rflags r) 0" "get_flag r PF = bit (rflags r) 2"
  "get_flag r AF = bit (rflags r) 4" "get_flag r ZF = bit (rflags r) 6"
  "get_flag r SF = bit (rflags r) 7" "get_flag r TF = bit (rflags r) 8"
  "get_flag r IF = bit (rflags r) 9" "get_flag r DF = bit (rflags r) 10"
  "get_flag r OF = bit (rflags r) 11"
  unfolding get_flag_def flag_defs by (simp_all only: and_exp_nonzero)

definition flag_positions :: "nat list" where
  "flag_positions = [0, 2, 4, 6, 7, 8, 9, 10, 11]"

lemma bit_valid_mask [bit_simps]: "bit valid_mask n \<longleftrightarrow> n \<in> set flag_positions"
  by (auto simp: valid_mask_def flag_positions_def bit_simps)

lemma bit_stuck [bit_simps]:
  "bit (FLAGS_STUCK_BITS p) n \<longleftrightarrow> n = 1 \<or> (\<not> p \<and> 12 \<le> n \<and> n < 16)"
  by (auto simp: FLAGS_STUCK_BITS_def mask_literals bit_simps)

lemma bit_reserved_mask [bit_simps]:
  "bit (reserved_mask p) n \<longleftrightarrow> n \<in> {1, 3, 5} \<or> (p \<and> 12 \<le> n \<and> n < 16)"
  unfolding reserved_mask_def mask_literals
  by (auto simp only: bit_or_iff bit_single bit_not_iff bit_mask_iff bit_0_eq split: if_splits)
     (auto simp: bit_simps)

text \<open>The bits outside the nine flags never differ from the stuck pattern.\<close>

definition flags_ok :: "RegisterFile \<Rightarrow> bool" where
  "flags_ok r \<longleftrightarrow> rflags r AND NOT valid_mask = FLAGS_STUCK_BITS (pseudo_286 r)"

lemma flags_ok_bits:
  "flags_ok r \<longleftrightarrow> (\<forall>n < 16. n \<notin> set flag_positions \<longrightarrow>
     bit (rflags r) n = bit (FLAGS_STUCK_BITS (pseudo_286 r)) n)"
proof
  assume ok: "flags_ok r"
  then have "bit (rflags r AND NOT valid_mask) n = bit (FLAGS_STUCK_BITS (pseudo_286 r)) n" for n
    by (simp add: flags_ok_def)
  then show "\<forall>n < 16. n \<notin> set flag_positions \<longrightarrow>
      bit (rflags r) n = bit (FLAGS_STUCK_BITS (pseudo_286 r)) n"
    by (auto simp: bit_simps)
next
  assume "\<forall>n < 16. n \<notin> set flag_positions \<longrightarrow>
      bit (rflags r) n = bit (FLAGS_STUCK_BITS (pseudo_286 r)) n"
  then show "flags_ok r"
    unfolding flags_ok_def
    by (intro bit_word_eqI) (auto simp: bit_simps flag_positions_def)
qed

lemma flags_ok_reset [simp]: "flags_ok (reg_reset r)"
  by (auto simp: flags_ok_bits reg_reset_def)

lemma flags_ok_reg_set [simp]: "flags_ok (reg_set r x v) = flags_ok r"
  by (cases x) (simp_all add: reg_set_def set_low_def set_high_def flags_ok_def)

lemma bit_set_flags:
  "n < 16 \<Longrightarrow> bit (rflags (set_flags r v m)) n =
     (if n \<in> set flag_positions \<and> bit m n then bit v n else bit (rflags r) n \<or> n = 1)"
  unfolding set_flags_def Let_def
  by (auto simp: bit_simps mask_literals flag_positions_def)

lemma flags_ok_set_flags [simp]: "flags_ok r \<Longrightarrow> flags_ok (set_flags r v m)"
  by (auto simp: flags_ok_bits bit_set_flags bit_stuck) (simp_all add: set_flags_def Let_def)

lemma get_flags_eq: "flags_ok r \<Longrightarrow> get_flags r = rflags r"
  by (intro bit_word_eqI) (auto simp: get_flags_def flags_ok_bits bit_simps flag_positions_def)

lemma reg_get_set_DI: "x \<noteq> DI \<Longrightarrow> reg_get (reg_set r DI v) x = reg_get r x"
  by (cases x) (simp_all add: reg_get_set_wide_byte)

lemma reg_set_AL_same: "reg_get (reg_set r AL (reg_get r AL)) x = reg_get r x"
  by (cases x) (auto simp: reg_get_def reg_set_def set_low_def mask_literals bit_simps intro!: bit_word_eqI
      dest: bit_u16_high)

end
