(* ===== verification/Memory.thy ===== *)
theory Memory
  imports Prelude
begin

text \<open>
  The one megabyte of memory (sim/common/Memory.h and .cpp) and the segmented address computation
  (\<open>get_phys_addr\<close> of sim/common/CPU.h). The templates \<open>read<T>\<close> and \<open>write<T>\<close> are polymorphic in the
  width of the word; \<open>sizeof(T)\<close> is \<open>LENGTH('a) div 8\<close>. The range \<open>assert\<close> is the guard that makes
  an access \<^term>\<open>None\<close>: its sum is computed in \<open>size_t\<close>, so it does not wrap.
\<close>

section \<open>Data and operations\<close>

definition MEMORY_SIZE :: nat where "MEMORY_SIZE = 1 * 1024 * 1024"

record Memory =
  mem_bytes :: "u32 \<Rightarrow> u8"
  mem_written :: bool

abbreviation sizeof_T :: "'a::len itself \<Rightarrow> nat" where
  "sizeof_T T \<equiv> LENGTH('a) div 8"

definition mem_init_8 :: u8 where "mem_init_8 = 0x00"

text \<open>
  The constructor fills the array and clears 128 bytes at \<open>0x1000\<close>; it leaves \<open>written\<close>
  uninitialised, so its first value is an argument.
\<close>

definition Memory_new :: "bool \<Rightarrow> Memory" where
  "Memory_new w =
     \<lparr>mem_bytes = (\<lambda>a. if 0x1000 \<le> a \<and> a < 0x1000 + 128 then 0 else mem_init_8), mem_written = w\<rparr>"

fun store_bytes :: "(u32 \<Rightarrow> u8) \<Rightarrow> u32 \<Rightarrow> u8 list \<Rightarrow> (u32 \<Rightarrow> u8)" where
  "store_bytes m a [] = m"
| "store_bytes m a (b # bs) = store_bytes (m(a := b)) (a + 1) bs"

fun load_bytes :: "(u32 \<Rightarrow> u8) \<Rightarrow> u32 \<Rightarrow> nat \<Rightarrow> u8 list" where
  "load_bytes m a 0 = []"
| "load_bytes m a (Suc n) = m a # load_bytes m (a + 1) n"

definition mem_write :: "Memory \<Rightarrow> u32 \<Rightarrow> 'a::len word \<Rightarrow> Memory option" where
  "mem_write m addr val =
     (if unat addr + sizeof_T TYPE('a) \<le> MEMORY_SIZE
      then Some (m\<lparr>mem_bytes := store_bytes (mem_bytes m) addr (word_to_bytes (sizeof_T TYPE('a)) val),
                   mem_written := True\<rparr>)
      else None)"

definition mem_read :: "Memory \<Rightarrow> u32 \<Rightarrow> 'a::len word option" where
  "mem_read m addr =
     (if unat addr + sizeof_T TYPE('a) \<le> MEMORY_SIZE
      then Some (bytes_to_word (load_bytes (mem_bytes m) addr (sizeof_T TYPE('a))))
      else None)"

abbreviation mem_read8 :: "Memory \<Rightarrow> u32 \<Rightarrow> u8 option" where "mem_read8 \<equiv> mem_read"
abbreviation mem_read16 :: "Memory \<Rightarrow> u32 \<Rightarrow> u16 option" where "mem_read16 \<equiv> mem_read"
abbreviation mem_read32 :: "Memory \<Rightarrow> u32 \<Rightarrow> u32 option" where "mem_read32 \<equiv> mem_read"
abbreviation mem_write8 :: "Memory \<Rightarrow> u32 \<Rightarrow> u8 \<Rightarrow> Memory option" where "mem_write8 \<equiv> mem_write"
abbreviation mem_write16 :: "Memory \<Rightarrow> u32 \<Rightarrow> u16 \<Rightarrow> Memory option" where "mem_write16 \<equiv> mem_write"

definition mem_has_written :: "Memory \<Rightarrow> bool" where
  "mem_has_written m = mem_written m"

definition mem_clear_has_written :: "Memory \<Rightarrow> Memory" where
  "mem_clear_has_written m = m\<lparr>mem_written := False\<rparr>"

text \<open>\<open>get_phys_addr\<close> of CPU.h: a twenty-bit address, computed in \<open>uint32_t\<close>.\<close>

definition get_phys_addr :: "u16 \<Rightarrow> u32 \<Rightarrow> u32" where
  "get_phys_addr segment displacement =
     (push_bit 4 (ucast segment) + displacement) mod (1 * 1024 * 1024)"

section \<open>Addresses\<close>

lemma get_phys_addr_less: "unat (get_phys_addr s d) < MEMORY_SIZE"
  by (simp add: get_phys_addr_def MEMORY_SIZE_def unat_mod_distrib)

lemma get_phys_addr_wrap:
  assumes "unat d < 2 ^ 31"
  shows "unat (get_phys_addr s d) = (16 * unat s + unat d) mod MEMORY_SIZE"
proof -
  have "unat s < 65536" by (rule unat_bounds)
  then have "unat (push_bit 4 (ucast s :: u32)) = 16 * unat s"
    by (simp add: unat_word_ariths unsigned_ucast_eq take_bit_eq_mod push_bit_eq_mult)
  moreover have "16 * unat s + unat d < 2 ^ 32"
    using \<open>unat s < 65536\<close> assms by simp
  ultimately have "unat (push_bit 4 (ucast s :: u32) + d) = 16 * unat s + unat d"
    by (simp add: unat_word_ariths)
  then show ?thesis
    by (simp add: get_phys_addr_def MEMORY_SIZE_def unat_mod_distrib)
qed

lemma mod_memory_size_inj:
  assumes "(c + a) mod MEMORY_SIZE = (c + b) mod MEMORY_SIZE" "a < 65536" "b < 65536"
  shows "a = b"
proof (rule ccontr)
  assume ne: "a \<noteq> b"
  have "int (c + a) mod int MEMORY_SIZE = int (c + b) mod int MEMORY_SIZE"
    unfolding zmod_int [symmetric] assms(1) ..
  then have "int MEMORY_SIZE dvd int (c + a) - int (c + b)"
    by (simp only: mod_eq_dvd_iff)
  then have "1048576 dvd int a - int b" by (simp add: MEMORY_SIZE_def)
  from dvd_imp_le_int [OF _ this] ne assms(2,3) show False by auto
qed

section \<open>Loads and stores\<close>

lemma unat_plus_one: "unat a + n < 2 ^ 32 \<Longrightarrow> 0 < n \<Longrightarrow> unat (a + 1) = Suc (unat a)" for a :: u32
  by (simp add: unat_word_ariths)

lemma store_bytes_apply:
  assumes "unat a + length bs < 2 ^ 32"
  shows "store_bytes m a bs x =
    (if unat a \<le> unat x \<and> unat x < unat a + length bs then bs ! (unat x - unat a) else m x)"
  using assms
proof (induction bs arbitrary: m a)
  case Nil
  then show ?case by auto
next
  case (Cons b bs)
  have a1: "unat (a + 1) = Suc (unat a)"
    using Cons.prems by (intro unat_plus_one [where n = "length (b # bs)"]) auto
  have IH: "store_bytes (m(a := b)) (a + 1) bs x =
    (if unat (a + 1) \<le> unat x \<and> unat x < unat (a + 1) + length bs
     then bs ! (unat x - unat (a + 1)) else (m(a := b)) x)"
    using Cons.prems by (intro Cons.IH) (simp add: a1)
  have eq: "x = a \<longleftrightarrow> unat x = unat a" by (rule word_unat_eq_iff)
  show ?case
    unfolding store_bytes.simps IH a1
    by (cases "unat x = unat a") (auto simp: eq nth_Cons' Suc_le_eq diff_Suc)
qed

lemma load_bytes_map: "load_bytes m a n = map (\<lambda>i. m (a + of_nat i)) [0..<n]"
proof (induction n arbitrary: a)
  case 0
  then show ?case by simp
next
  case (Suc n)
  have "[0..<Suc n] = 0 # map Suc [0..<n]" by (simp add: map_Suc_upt upt_conv_Cons)
  then show ?case by (simp add: Suc.IH add.assoc comp_def)
qed

lemma length_load_bytes [simp]: "length (load_bytes m a n) = n"
  by (simp add: load_bytes_map)

lemma unat_add_of_nat: "unat a + n < 2 ^ 32 \<Longrightarrow> i \<le> n \<Longrightarrow> unat (a + of_nat i) = unat a + i"
  for a :: u32
  by (simp add: unat_word_ariths unat_of_nat)

lemma load_store_same:
  assumes "unat a + length bs < 2 ^ 32"
  shows "load_bytes (store_bytes m a bs) a (length bs) = bs"
  using assms
  by (intro nth_equalityI)
    (auto simp: load_bytes_map store_bytes_apply unat_add_of_nat [where n = "length bs"])

lemma load_store_disjoint:
  assumes "unat a + length bs < 2 ^ 32" "unat c + n < 2 ^ 32"
    and "unat a + length bs \<le> unat c \<or> unat c + n \<le> unat a"
  shows "load_bytes (store_bytes m a bs) c n = load_bytes m c n"
  using assms
  by (intro nth_equalityI)
    (auto simp: load_bytes_map store_bytes_apply unat_add_of_nat [where n = n])

section \<open>What a read returns after a write\<close>

lemma mem_write_bytes:
  "mem_write m a (v :: 'a::len word) = Some m' \<Longrightarrow>
     mem_bytes m' = store_bytes (mem_bytes m) a (word_to_bytes (LENGTH('a) div 8) v)
     \<and> unat a + LENGTH('a) div 8 \<le> MEMORY_SIZE"
  by (auto simp: mem_write_def split: if_splits)

lemma mem_read_write_same:
  fixes v :: "'a::len word"
  assumes w: "mem_write m a v = Some m'" and n: "8 dvd LENGTH('a)"
  shows "mem_read m' a = Some v"
proof -
  let ?bs = "word_to_bytes (LENGTH('a) div 8) v"
  from mem_write_bytes [OF w] have r: "unat a + length ?bs \<le> MEMORY_SIZE"
    and b: "mem_bytes m' = store_bytes (mem_bytes m) a ?bs" by auto
  have "load_bytes (mem_bytes m') a (length ?bs) = ?bs"
    unfolding b using r by (intro load_store_same) (simp add: MEMORY_SIZE_def)
  moreover have "bytes_to_word ?bs = v"
    using n by (intro bytes_to_word_inverse) simp
  ultimately show ?thesis using r by (simp add: mem_read_def)
qed

lemma mem_read_write_disjoint:
  fixes v :: "'a::len word"
  assumes w: "mem_write m a v = Some m'"
    and d: "unat a + LENGTH('a) div 8 \<le> unat c \<or> unat c + LENGTH('b) div 8 \<le> unat a"
  shows "(mem_read m' c :: 'b::len word option) = mem_read m c"
proof (cases "unat c + LENGTH('b) div 8 \<le> MEMORY_SIZE")
  case True
  let ?bs = "word_to_bytes (LENGTH('a) div 8) v"
  from mem_write_bytes [OF w] have r: "unat a + length ?bs \<le> MEMORY_SIZE"
    and b: "mem_bytes m' = store_bytes (mem_bytes m) a ?bs" by auto
  have "load_bytes (mem_bytes m') c (LENGTH('b) div 8) = load_bytes (mem_bytes m) c (LENGTH('b) div 8)"
    unfolding b using r True d
    by (intro load_store_disjoint) (simp_all add: MEMORY_SIZE_def)
  then show ?thesis by (simp add: mem_read_def)
qed (simp add: mem_read_def)

lemma mem_read_eq_None: "(mem_read m a :: 'a::len word option) = None \<longleftrightarrow>
    MEMORY_SIZE < unat a + LENGTH('a) div 8"
  by (auto simp: mem_read_def)

lemma mem_write_eq_None: "mem_write m a (v :: 'a::len word) = None \<longleftrightarrow>
    MEMORY_SIZE < unat a + LENGTH('a) div 8"
  by (auto simp: mem_write_def)

lemma mem_read8_phys [simp]: "mem_read8 m (get_phys_addr s d) = Some (mem_bytes m (get_phys_addr s d))"
  using get_phys_addr_less [of s d] by (simp add: mem_read_def ucast_id)

lemma mem_write8_phys [simp]: "mem_write8 m (get_phys_addr s d) v =
   Some (m\<lparr>mem_bytes := (mem_bytes m)(get_phys_addr s d := v), mem_written := True\<rparr>)"
  using get_phys_addr_less [of s d] by (simp add: mem_write_def ucast_id)

section \<open>The store interface\<close>

text \<open>
  What the stack and the string instructions rely on: accesses of one width at addresses that are
  in range succeed, a read returns the last value written there, and a write elsewhere does not
  disturb it. \<open>dis\<close> says that two accesses do not overlap.
\<close>

locale store =
  fixes rd :: "'m \<Rightarrow> u32 \<Rightarrow> 'v option"
    and wr :: "'m \<Rightarrow> u32 \<Rightarrow> 'v \<Rightarrow> 'm option"
    and ok :: "u32 \<Rightarrow> bool"
    and dis :: "u32 \<Rightarrow> u32 \<Rightarrow> bool"
  assumes rd_ok: "rd m a \<noteq> None \<longleftrightarrow> ok a"
    and wr_ok: "wr m a v \<noteq> None \<longleftrightarrow> ok a"
    and rd_wr_same: "wr m a v = Some m' \<Longrightarrow> rd m' a = Some v"
    and rd_wr_dis: "wr m a v = Some m' \<Longrightarrow> dis a c \<Longrightarrow> rd m' c = rd m c"
begin

text \<open>Writing a list of values at a list of pairwise disjoint addresses, then reading them back.\<close>

fun wr_list :: "'m \<Rightarrow> (u32 \<times> 'v) list \<Rightarrow> 'm option" where
  "wr_list m [] = Some m"
| "wr_list m ((a, v) # xs) = wr m a v \<bind> (\<lambda>m'. wr_list m' xs)"

lemma wr_list_ok: "list_all (\<lambda>(a, v). ok a) xs \<Longrightarrow> \<exists>m'. wr_list m xs = Some m'"
proof (induction xs arbitrary: m)
  case (Cons x xs)
  obtain a v where [simp]: "x = (a, v)" by force
  from Cons.prems have "ok a" by simp
  then obtain m1 where "wr m a v = Some m1" using wr_ok by blast
  with Cons show ?case by simp
qed simp

lemma rd_wr_list_frame:
  "wr_list m xs = Some m' \<Longrightarrow> list_all (\<lambda>(a, v). dis a c) xs \<Longrightarrow> rd m' c = rd m c"
  by (induction xs arbitrary: m) (auto simp: bind_eq_Some rd_wr_dis)

lemma rd_wr_list:
  "wr_list m xs = Some m' \<Longrightarrow> pairwise (\<lambda>a b. dis a b \<and> dis b a) (fst ` set xs) \<Longrightarrow>
   distinct (map fst xs) \<Longrightarrow> (c, w) \<in> set xs \<Longrightarrow> rd m' c = Some w"
proof (induction xs arbitrary: m)
  case (Cons x xs)
  obtain a v where [simp]: "x = (a, v)" by force
  from Cons.prems(1) obtain m1 where m1: "wr m a v = Some m1" and rest: "wr_list m1 xs = Some m'"
    by (auto simp: bind_eq_Some)
  show ?case
  proof (cases "(c, w) \<in> set xs")
    case True
    with Cons.IH [OF rest] Cons.prems show ?thesis by (simp add: pairwise_insert)
  next
    case False
    with Cons.prems have [simp]: "c = a" "w = v" by auto
    have "list_all (\<lambda>(b, u). dis b a) xs"
      using Cons.prems(2,3) by (fastforce simp: list_all_iff pairwise_insert)
    with rd_wr_list_frame [OF rest] rd_wr_same [OF m1] show ?thesis by simp
  qed
qed simp

end

interpretation mem8: store mem_read8 mem_write8
  "\<lambda>a. unat a < MEMORY_SIZE" "\<lambda>a c. a \<noteq> c"
proof
  fix m m' :: Memory and a c :: u32 and v :: u8
  show "(mem_read8 m a \<noteq> None) = (unat a < MEMORY_SIZE)" by (simp add: mem_read_def)
  show "(mem_write8 m a v \<noteq> None) = (unat a < MEMORY_SIZE)" by (simp add: mem_write_def)
  assume w: "mem_write8 m a v = Some m'"
  then show "mem_read8 m' a = Some v" by (rule mem_read_write_same) simp
  assume "a \<noteq> c"
  then have "unat a < unat c \<or> unat c < unat a" by (simp add: word_unat_eq_iff nat_neq_iff)
  then show "mem_read8 m' c = mem_read8 m c"
    by (intro mem_read_write_disjoint [OF w]) auto
qed

interpretation mem16: store mem_read16 mem_write16
  "\<lambda>a. unat a + 2 \<le> MEMORY_SIZE" "\<lambda>a c. unat a + 2 \<le> unat c \<or> unat c + 2 \<le> unat a"
proof
  fix m m' :: Memory and a c :: u32 and v :: u16
  show "(mem_read16 m a \<noteq> None) = (unat a + 2 \<le> MEMORY_SIZE)" by (simp add: mem_read_def)
  show "(mem_write16 m a v \<noteq> None) = (unat a + 2 \<le> MEMORY_SIZE)" by (simp add: mem_write_def)
  assume w: "mem_write16 m a v = Some m'"
  then show "mem_read16 m' a = Some v" by (rule mem_read_write_same) simp
  assume "unat a + 2 \<le> unat c \<or> unat c + 2 \<le> unat a"
  then show "mem_read16 m' c = mem_read16 m c"
    by (intro mem_read_write_disjoint [OF w]) auto
qed

end
