(* ===== verification/ModRM.thy ===== *)
theory ModRM
  imports RegisterFile
begin

text \<open>
  The mod/rm decoder (sim/cppmodel/ModRM.h and ModRM.cpp). The constructor's callback \<open>get_byte\<close> is
  the parameter \<open>gb\<close>: it takes and returns the state \<open>'s\<close> of whoever supplies the bytes (the emulator's
  instruction length). Where the source calls the callback twice in one expression, the operands are
  evaluated from left to right. The \<open>assert\<close>s are the \<^term>\<open>None\<close> branches.

  The locale \<open>byte_source\<close> is what the decoder relies on, and its lemmas give the decoder's function:
  the table of effective addresses and the number of bytes consumed.
\<close>

section \<open>Data\<close>

datatype OperandType = OP_REG | OP_MEM

datatype OperandWidth = OP_WIDTH_8 | OP_WIDTH_16

record ModRMDecoder =
  width :: OperandWidth
  modrm :: u8
  cached_address :: u16
  addr_is_cached :: bool
  is_decoded :: bool

section \<open>Operations\<close>

text \<open>
  The constructor sets the width and the byte only; the other members start with whatever the
  memory held, here the arguments.
\<close>

definition ModRMDecoder_new :: "u16 \<Rightarrow> bool \<Rightarrow> bool \<Rightarrow> ModRMDecoder" where
  "ModRMDecoder_new ca ac dec =
     \<lparr>width = OP_WIDTH_16, modrm = 0, cached_address = ca, addr_is_cached = ac, is_decoded = dec\<rparr>"

definition modrm_clear :: "ModRMDecoder \<Rightarrow> ModRMDecoder" where
  "modrm_clear d = d\<lparr>is_decoded := False\<rparr>"

definition modrm_set_width :: "ModRMDecoder \<Rightarrow> OperandWidth \<Rightarrow> ModRMDecoder" where
  "modrm_set_width d w = d\<lparr>width := w\<rparr>"

definition rm_type :: "ModRMDecoder \<Rightarrow> OperandType option" where
  "rm_type d =
     (if is_decoded d
      then Some (if modrm d AND 0xc0 = 0xc0 then OP_REG else OP_MEM)
      else None)"

definition raw_reg :: "ModRMDecoder \<Rightarrow> nat option" where
  "raw_reg d = (if is_decoded d then Some (unat (drop_bit 3 (modrm d) AND 0x7)) else None)"

definition modrm_reg :: "ModRMDecoder \<Rightarrow> GPR option" where
  "modrm_reg d = do {
     n \<leftarrow> raw_reg d;
     Some (if width d = OP_WIDTH_8 then GPR_of (GPR_val AL + n) else GPR_of (GPR_val AX + n))
   }"

definition rm_reg :: "ModRMDecoder \<Rightarrow> GPR option" where
  "rm_reg d =
     (if is_decoded d \<and> rm_type d = Some OP_REG
      then let n = unat (modrm d AND 0x7)
           in Some (if width d = OP_WIDTH_8 then GPR_of (GPR_val AL + n) else GPR_of (GPR_val AX + n))
      else None)"

definition mod00 :: "('s \<Rightarrow> (u8 \<times> 's) option) \<Rightarrow> RegisterFile \<Rightarrow> ModRMDecoder \<Rightarrow> 's
    \<Rightarrow> (u16 \<times> 's) option" where
  "mod00 gb r d s =
     (let rm = modrm d AND 0x7 in
      if rm = 0x0 then Some (reg_get r BX + reg_get r SI, s)
      else if rm = 0x1 then Some (reg_get r BX + reg_get r DI, s)
      else if rm = 0x2 then Some (reg_get r BP + reg_get r SI, s)
      else if rm = 0x3 then Some (reg_get r BP + reg_get r DI, s)
      else if rm = 0x4 then Some (reg_get r SI, s)
      else if rm = 0x5 then Some (reg_get r DI, s)
      else if rm = 0x6 then do {
        (lo, s) \<leftarrow> gb s;
        (hi, s) \<leftarrow> gb s;
        Some (ucast lo OR push_bit 8 (ucast hi), s)
      }
      else Some (reg_get r BX, s))"

definition mod01 :: "('s \<Rightarrow> (u8 \<times> 's) option) \<Rightarrow> RegisterFile \<Rightarrow> ModRMDecoder \<Rightarrow> 's
    \<Rightarrow> (u16 \<times> 's) option" where
  "mod01 gb r d s = do {
     (b, s) \<leftarrow> gb s;
     let displacement = scast b;
     let rm = modrm d AND 0x7;
     Some (if rm = 0x0 then reg_get r BX + reg_get r SI + displacement
           else if rm = 0x1 then reg_get r BX + reg_get r DI + displacement
           else if rm = 0x2 then reg_get r BP + reg_get r SI + displacement
           else if rm = 0x3 then reg_get r BP + reg_get r DI + displacement
           else if rm = 0x4 then reg_get r SI + displacement
           else if rm = 0x5 then reg_get r DI + displacement
           else if rm = 0x6 then reg_get r BP + displacement
           else reg_get r BX + displacement, s)
   }"

definition mod10 :: "('s \<Rightarrow> (u8 \<times> 's) option) \<Rightarrow> RegisterFile \<Rightarrow> ModRMDecoder \<Rightarrow> 's
    \<Rightarrow> (u16 \<times> 's) option" where
  "mod10 gb r d s = do {
     (lo, s) \<leftarrow> gb s;
     (hi, s) \<leftarrow> gb s;
     let displacement = ucast lo OR push_bit 8 (ucast hi);
     let rm = modrm d AND 0x7;
     Some (if rm = 0x0 then reg_get r BX + reg_get r SI + displacement
           else if rm = 0x1 then reg_get r BX + reg_get r DI + displacement
           else if rm = 0x2 then reg_get r BP + reg_get r SI + displacement
           else if rm = 0x3 then reg_get r BP + reg_get r DI + displacement
           else if rm = 0x4 then reg_get r SI + displacement
           else if rm = 0x5 then reg_get r DI + displacement
           else if rm = 0x6 then reg_get r BP + displacement
           else reg_get r BX + displacement, s)
   }"

definition calculate_effective_address :: "('s \<Rightarrow> (u8 \<times> 's) option) \<Rightarrow> RegisterFile
    \<Rightarrow> ModRMDecoder \<Rightarrow> 's \<Rightarrow> (u16 \<times> 's) option" where
  "calculate_effective_address gb r d s =
     (if rm_type d = Some OP_MEM \<and> drop_bit 6 (modrm d) \<noteq> 0x03
      then let md = drop_bit 6 (modrm d) AND 0x3 in
           if md = 0x00 then mod00 gb r d s
           else if md = 0x01 then mod01 gb r d s
           else mod10 gb r d s
      else None)"

definition effective_address :: "('s \<Rightarrow> (u8 \<times> 's) option) \<Rightarrow> RegisterFile
    \<Rightarrow> ModRMDecoder \<Rightarrow> 's \<Rightarrow> (u16 \<times> ModRMDecoder \<times> 's) option" where
  "effective_address gb r d s =
     (if \<not> is_decoded d then None
      else if addr_is_cached d then Some (cached_address d, d, s)
      else do {
        (a, s) \<leftarrow> calculate_effective_address gb r d s;
        Some (a, d\<lparr>cached_address := a, addr_is_cached := True\<rparr>, s)
      })"

definition modrm_decode :: "('s \<Rightarrow> (u8 \<times> 's) option) \<Rightarrow> RegisterFile
    \<Rightarrow> ModRMDecoder \<Rightarrow> 's \<Rightarrow> (ModRMDecoder \<times> 's) option" where
  "modrm_decode gb r d s = do {
     let d = d\<lparr>is_decoded := True\<rparr>;
     (b, s) \<leftarrow> gb s;
     let d = d\<lparr>modrm := b, addr_is_cached := False\<rparr>;
     t \<leftarrow> rm_type d;
     if t = OP_MEM then do {
       (_, d, s) \<leftarrow> effective_address gb r d s;
       Some (d, s)
     } else Some (d, s)
   }"

definition uses_bp_as_base :: "ModRMDecoder \<Rightarrow> bool" where
  "uses_bp_as_base d =
     (if \<not> is_decoded d then False
      else if rm_type d \<noteq> Some OP_MEM then False
      else let md = drop_bit 6 (modrm d); rm = modrm d AND 0x7 in
           if md = 0 then rm = 0x2 \<or> rm = 0x3
           else rm = 0x2 \<or> rm = 0x3 \<or> rm = 0x6)"

section \<open>The fields of a mod/rm byte\<close>

text \<open>
  Two bits of mode, three of register, three of register or memory. The tables give the registers
  whose sum is the base of an address and the number of displacement bytes that follow.
\<close>

definition modrm_mod :: "u8 \<Rightarrow> nat" where "modrm_mod b = unat (drop_bit 6 b)"
definition modrm_rm :: "u8 \<Rightarrow> nat" where "modrm_rm b = unat (b AND 0x7)"

definition ea_bases :: "nat \<Rightarrow> nat \<Rightarrow> GPR list" where
  "ea_bases md rm =
     (if md = 0 \<and> rm = 6 then []
      else [[BX, SI], [BX, DI], [BP, SI], [BP, DI], [SI], [DI], [BP], [BX]] ! rm)"

definition disp_size :: "nat \<Rightarrow> nat \<Rightarrow> nat" where
  "disp_size md rm = (if md = 0 then if rm = 6 then 2 else 0 else if md = 1 then 1
                      else if md = 2 then 2 else 0)"

lemma and_c0_iff: "b AND 0xc0 = 0xc0 \<longleftrightarrow> drop_bit 6 b = 3" for b :: u8
  by (simp add: bitblast)

lemma drop_6_and_3: "drop_bit 6 b AND 3 = drop_bit 6 b" for b :: u8
  by (simp add: bitblast)

lemma and_7_cases: "b AND 7 \<in> {0, 1, 2, 3, 4, 5, 6, 7}" for b :: u8
  by (simp add: bitblast) blast

lemma drop_6_cases: "drop_bit 6 b \<in> {0, 1, 2, 3}" for b :: u8
  by (simp add: bitblast) blast

lemma modrm_mod_3 [simp]: "modrm_mod b = 3 \<longleftrightarrow> drop_bit 6 b = 3"
  using drop_6_cases [of b] by (auto simp: modrm_mod_def)

lemma raw_reg_less: "raw_reg d = Some n \<Longrightarrow> n < 8"
  using and_7_cases [of "drop_bit 3 (modrm d)"] by (auto simp: raw_reg_def split: if_splits)

lemma modrm_reg_kind: "modrm_reg d = Some x \<Longrightarrow> is16 x \<longleftrightarrow> width d = OP_WIDTH_16"
  by (cases "width d")
    (auto simp: modrm_reg_def bind_eq_Some dest!: raw_reg_less
      dest: GPR_byte_in_range GPR_word_in_range split: if_splits)

lemma rm_reg_kind: "rm_reg d = Some x \<Longrightarrow> is16 x \<longleftrightarrow> width d = OP_WIDTH_16"
proof -
  have "unat (modrm d AND 7) < 8" using and_7_cases [of "modrm d"] by auto
  then show "rm_reg d = Some x \<Longrightarrow> ?thesis"
    by (cases "width d")
      (auto simp: rm_reg_def Let_def dest: GPR_byte_in_range GPR_word_in_range split: if_splits)
qed

section \<open>The decoder over a byte source\<close>

lemma funpow_2: "(f ^^ 2) x = f (f x)"
  by (simp add: numeral_2_eq_2)

text \<open>
  What \<open>get_byte\<close> promises: it always delivers the byte under the cursor and moves the cursor on.
\<close>

locale byte_source =
  fixes gb :: "'s \<Rightarrow> (u8 \<times> 's) option"
    and peek :: "'s \<Rightarrow> u8"
    and nxt :: "'s \<Rightarrow> 's"
  assumes gb: "gb s = Some (peek s, nxt s)"
begin

definition disp_value :: "nat \<Rightarrow> 's \<Rightarrow> u16" where
  "disp_value n s =
     (if n = 0 then 0 else if n = 1 then scast (peek s)
      else ucast (peek s) OR push_bit 8 (ucast (peek (nxt s))))"

lemma mod00_ea:
  assumes "modrm_mod (modrm d) = 0" and "rm = modrm_rm (modrm d)"
  shows "mod00 gb r d s =
    Some (sum_list (map (reg_get r) (ea_bases 0 rm)) + disp_value (disp_size 0 rm) s,
          (nxt ^^ disp_size 0 rm) s)"
  using and_7_cases [of "modrm d"] assms
  by (elim insertE emptyE)
    (simp_all add: mod00_def gb Let_def modrm_rm_def ea_bases_def disp_size_def disp_value_def
      funpow_2)

lemma mod01_ea:
  assumes "rm = modrm_rm (modrm d)"
  shows "mod01 gb r d s =
    Some (sum_list (map (reg_get r) (ea_bases 1 rm)) + disp_value (disp_size 1 rm) s,
          (nxt ^^ disp_size 1 rm) s)"
  using and_7_cases [of "modrm d"] assms
  by (elim insertE emptyE)
    (simp_all add: mod01_def gb Let_def modrm_rm_def ea_bases_def disp_size_def disp_value_def
      add.assoc)

lemma mod10_ea:
  assumes "rm = modrm_rm (modrm d)"
  shows "mod10 gb r d s =
    Some (sum_list (map (reg_get r) (ea_bases 2 rm)) + disp_value (disp_size 2 rm) s,
          (nxt ^^ disp_size 2 rm) s)"
  using and_7_cases [of "modrm d"] assms
  by (elim insertE emptyE)
    (simp_all add: mod10_def gb Let_def modrm_rm_def ea_bases_def disp_size_def disp_value_def
      add.assoc funpow_2)

lemma calculate_ea:
  fixes d :: ModRMDecoder
  assumes "is_decoded d" and m3: "modrm_mod (modrm d) \<noteq> 3"
    and "md = modrm_mod (modrm d)" and "rm = modrm_rm (modrm d)"
  shows "calculate_effective_address gb r d s =
    Some (sum_list (map (reg_get r) (ea_bases md rm)) + disp_value (disp_size md rm) s,
          (nxt ^^ disp_size md rm) s)"
proof -
  from m3 have "rm_type d = Some OP_MEM"
    using assms(1) by (simp add: rm_type_def and_c0_iff)
  then show ?thesis
    using drop_6_cases [of "modrm d"] m3 assms(3,4)
    by (auto simp: calculate_effective_address_def drop_6_and_3 Let_def modrm_mod_def
        mod00_ea mod01_ea mod10_ea)
qed

lemma decode_mem:
  assumes "modrm_mod (peek s) \<noteq> 3"
  shows "modrm_decode gb r d s =
    (let b = peek s; md = modrm_mod b; rm = modrm_rm b; n = disp_size md rm in
     Some (d\<lparr>is_decoded := True, modrm := b, addr_is_cached := True,
             cached_address := sum_list (map (reg_get r) (ea_bases md rm)) + disp_value n (nxt s)\<rparr>,
           (nxt ^^ Suc n) s))"
proof -
  let ?d = "d\<lparr>is_decoded := True, modrm := peek s, addr_is_cached := False\<rparr>"
  from assms have "rm_type ?d = Some OP_MEM" by (simp add: rm_type_def and_c0_iff)
  with calculate_ea [where d = ?d and r = r and s = "nxt s", OF _ _ refl refl] assms show ?thesis
    by (simp add: modrm_decode_def gb effective_address_def Let_def funpow_swap1)
qed

lemma decode_reg:
  assumes "modrm_mod (peek s) = 3"
  shows "modrm_decode gb r d s =
    Some (d\<lparr>is_decoded := True, modrm := peek s, addr_is_cached := False\<rparr>, nxt s)"
proof -
  from assms show ?thesis
    by (simp add: modrm_decode_def gb rm_type_def and_c0_iff)
qed

end

text \<open>Once decoded, the address of a memory operand is cached: asking again reads nothing.\<close>

definition modrm_ready :: "ModRMDecoder \<Rightarrow> bool" where
  "modrm_ready d \<longleftrightarrow> is_decoded d \<and> (modrm_mod (modrm d) = 3 \<or> addr_is_cached d)"

lemma effective_address_cached:
  "modrm_ready d \<Longrightarrow> rm_type d = Some OP_MEM \<Longrightarrow>
     effective_address gb r d s = Some (cached_address d, d, s)"
  by (auto simp: modrm_ready_def effective_address_def rm_type_def and_c0_iff
      split: if_splits)

end
