(* ===== verification/IOPorts.thy ===== *)
theory IOPorts
  imports Prelude
begin

text \<open>
  The I/O port interface (\<open>class IOPorts\<close> of sim/common/CPU.h). A device is the table of its virtual
  methods; the state of all devices together is the type \<open>'d\<close>. A method takes and returns that state,
  and also returns the interrupt numbers it raised on the CPU while it ran, in order (a device reaches
  \<open>SimCPU::raise_irq\<close> through the interrupt controller). \<^term>\<open>None\<close> is a device whose code aborts
  or throws. The methods a class does not override are the functions \<open>IOPorts_read16\<close> and
  \<open>IOPorts_write16\<close>.
\<close>

type_synonym ('a, 'd) io_op = "'d \<Rightarrow> ('a \<times> 'd \<times> int list) option"

record 'd IOPorts =
  port_base :: u16
  num_ports :: nat
  io_read8 :: "u16 \<Rightarrow> nat \<Rightarrow> (u8, 'd) io_op"
  io_read16 :: "u16 \<Rightarrow> (u16, 'd) io_op"
  io_write8 :: "u16 \<Rightarrow> nat \<Rightarrow> u8 \<Rightarrow> (unit, 'd) io_op"
  io_write16 :: "u16 \<Rightarrow> u16 \<Rightarrow> (unit, 'd) io_op"

definition IOPorts_read16 :: "(u16 \<Rightarrow> nat \<Rightarrow> (u8, 'd) io_op) \<Rightarrow> u16 \<Rightarrow> (u16, 'd) io_op" where
  "IOPorts_read16 rd8 port_num d = do {
     (lo, d, irqs) \<leftarrow> rd8 port_num 0 d;
     (hi, d, irqs') \<leftarrow> rd8 port_num 1 d;
     Some (ucast lo OR push_bit 8 (ucast hi), d, irqs @ irqs')
   }"

definition IOPorts_write16 :: "(u16 \<Rightarrow> nat \<Rightarrow> u8 \<Rightarrow> (unit, 'd) io_op) \<Rightarrow> u16 \<Rightarrow> u16
    \<Rightarrow> (unit, 'd) io_op" where
  "IOPorts_write16 wr8 port_num v d = do {
     (_, d, irqs) \<leftarrow> wr8 port_num 0 (ucast v) d;
     (_, d, irqs') \<leftarrow> wr8 port_num 1 (ucast (drop_bit 8 v)) d;
     Some ((), d, irqs @ irqs')
   }"

end
