(* ===== verification/EmuState.thy ===== *)
theory EmuState
  imports RegisterFile Memory ModRM IOPorts
begin

text \<open>
  The state of the instruction emulator (\<open>class EmulatorPimpl\<close> of sim/cppmodel/Emulate.cpp) and the
  helpers every instruction uses: fetching, the mod/rm operand, the segment rule, the stack, the
  I/O space, the entry of an interrupt and the repeat loop of the string instructions.

  Fields that point to other objects in the source (\<open>mem\<close>, \<open>io\<close>, \<open>registers\<close>, the decoder) hold
  those objects. \<open>devs\<close> and \<open>inta_handler\<close> stand for what the emulator reaches outside itself: the
  devices behind the I/O map and the interrupt acknowledge callback of \<open>SimCPU\<close>. \<open>trap_escape\<close> is
  the build constant \<open>S80X86_TRAP_ESCAPE\<close>; no operation changes it.
\<close>

section \<open>State\<close>

datatype RepMode = REPNE | REPE

record 'd emu =
  mem :: Memory
  io :: "u16 \<rightharpoonup> 'd IOPorts"
  regs :: RegisterFile
  instr_length :: u64
  modrm_decoder :: ModRMDecoder
  opcode :: u8
  jump_taken :: bool
  default_segment_overriden :: bool
  override_segment :: GPR
  rep_mode :: RepMode
  has_rep_prefix :: bool
  nmi_pending :: bool
  ext_int_inhibit :: bool
  pending_irq :: u8
  tf_was_set :: bool
  devs :: 'd
  inta_handler :: "int \<Rightarrow> (unit, 'd) io_op"
  trap_escape :: bool

text \<open>\<open>registers->get\<close>, \<open>registers->set\<close> and \<open>registers->set_flags\<close> through the emulator.\<close>

abbreviation rget :: "'d emu \<Rightarrow> GPR \<Rightarrow> u16" where
  "rget s x \<equiv> reg_get (regs s) x"

abbreviation rset :: "'d emu \<Rightarrow> GPR \<Rightarrow> u16 \<Rightarrow> 'd emu" where
  "rset s x v \<equiv> s\<lparr>regs := reg_set (regs s) x v\<rparr>"

abbreviation sflags :: "'d emu \<Rightarrow> u16 \<Rightarrow> u16 \<Rightarrow> 'd emu" where
  "sflags s v m \<equiv> s\<lparr>regs := set_flags (regs s) v m\<rparr>"

abbreviation fget :: "'d emu \<Rightarrow> u16 \<Rightarrow> bool" where
  "fget s f \<equiv> get_flag (regs s) f"

text \<open>\<open>InterruptVectorOffset\<close> of CPU.h.\<close>

definition VEC_DIVIDE_ERROR :: u32 where "VEC_DIVIDE_ERROR = 0"
definition VEC_SINGLE_STEP :: u32 where "VEC_SINGLE_STEP = 4"
definition VEC_NMI :: u32 where "VEC_NMI = 8"
definition VEC_INT :: u32 where "VEC_INT = 12"
definition VEC_OVERFLOW :: u32 where "VEC_OVERFLOW = 16"
definition VEC_BOUND :: u32 where "VEC_BOUND = 20"
definition VEC_INVALID_OPCODE :: u32 where "VEC_INVALID_OPCODE = 24"
definition VEC_ESCAPE :: u32 where "VEC_ESCAPE = 28"

section \<open>Fetching\<close>

definition fetch_byte :: "'d emu \<Rightarrow> (u8 \<times> 'd emu) option" where
  "fetch_byte s = do {
     b \<leftarrow> mem_read8 (mem s)
           (get_phys_addr (rget s CS) (ucast (ucast (rget s IP) + instr_length s)));
     Some (b, s\<lparr>instr_length := instr_length s + 1\<rparr>)
   }"

definition fetch_16bit :: "'d emu \<Rightarrow> (u16 \<times> 'd emu) option" where
  "fetch_16bit s = do {
     (lo, s) \<leftarrow> fetch_byte s;
     (hi, s) \<leftarrow> fetch_byte s;
     Some (ucast lo OR push_bit 8 (ucast hi), s)
   }"

section \<open>The mod/rm operand\<close>

text \<open>The decoder's methods, called on the emulator's decoder with \<open>fetch_byte\<close> as \<open>get_byte\<close>.\<close>

definition set_width :: "'d emu \<Rightarrow> OperandWidth \<Rightarrow> 'd emu" where
  "set_width s w = s\<lparr>modrm_decoder := modrm_set_width (modrm_decoder s) w\<rparr>"

definition decode :: "'d emu \<Rightarrow> 'd emu option" where
  "decode s = do {
     (d, s) \<leftarrow> modrm_decode fetch_byte (regs s) (modrm_decoder s) s;
     Some (s\<lparr>modrm_decoder := d\<rparr>)
   }"

definition ea :: "'d emu \<Rightarrow> (u16 \<times> 'd emu) option" where
  "ea s = do {
     (a, d, s) \<leftarrow> effective_address fetch_byte (regs s) (modrm_decoder s) s;
     Some (a, s\<lparr>modrm_decoder := d\<rparr>)
   }"

abbreviation rmtype :: "'d emu \<Rightarrow> OperandType option" where
  "rmtype s \<equiv> rm_type (modrm_decoder s)"

abbreviation rawreg :: "'d emu \<Rightarrow> nat option" where
  "rawreg s \<equiv> raw_reg (modrm_decoder s)"

abbreviation mreg :: "'d emu \<Rightarrow> GPR option" where
  "mreg s \<equiv> modrm_reg (modrm_decoder s)"

definition get_segment :: "'d emu \<Rightarrow> bool \<Rightarrow> GPR" where
  "get_segment s is_stack_reference =
     (if is_stack_reference then SS
      else if default_segment_overriden s then override_segment s
      else if uses_bp_as_base (modrm_decoder s) \<or> is_stack_reference then SS else DS)"

definition set_override_segment :: "'d emu \<Rightarrow> GPR \<Rightarrow> 'd emu" where
  "set_override_segment s segment =
     s\<lparr>default_segment_overriden := True, override_segment := segment\<rparr>"

definition mwrite :: "'d emu \<Rightarrow> u32 \<Rightarrow> 'a::len word \<Rightarrow> 'd emu option" where
  "mwrite s addr v = do { m \<leftarrow> mem_write (mem s) addr v; Some (s\<lparr>mem := m\<rparr>) }"

definition write_data :: "'d emu \<Rightarrow> 'a::len word \<Rightarrow> bool \<Rightarrow> 'd emu option" where
  "write_data s val stack = do {
     t \<leftarrow> rmtype s;
     if t = OP_REG then do {
       dest \<leftarrow> rm_reg (modrm_decoder s);
       Some (rset s dest (ucast val))
     } else do {
       (a, s) \<leftarrow> ea s;
       let segment = get_segment s stack;
       let addr = get_phys_addr (rget s segment) (ucast a);
       mwrite s addr val
     }
   }"

definition read_data :: "'d emu \<Rightarrow> bool \<Rightarrow> ('a::len word \<times> 'd emu) option" where
  "read_data s stack = do {
     t \<leftarrow> rmtype s;
     if t = OP_MEM then do {
       (displacement, s) \<leftarrow> ea s;
       let segment = get_segment s stack;
       let addr = get_phys_addr (rget s segment) (ucast displacement);
       v \<leftarrow> mem_read (mem s) addr;
       Some (v, s)
     } else do {
       source \<leftarrow> rm_reg (modrm_decoder s);
       Some (ucast (rget s source), s)
     }
   }"

abbreviation read_data8 :: "'d emu \<Rightarrow> (u8 \<times> 'd emu) option" where
  "read_data8 s \<equiv> read_data s False"
abbreviation read_data16 :: "'d emu \<Rightarrow> (u16 \<times> 'd emu) option" where
  "read_data16 s \<equiv> read_data s False"
abbreviation read_data32 :: "'d emu \<Rightarrow> (u32 \<times> 'd emu) option" where
  "read_data32 s \<equiv> read_data s False"
abbreviation write_data8 :: "'d emu \<Rightarrow> u8 \<Rightarrow> 'd emu option" where
  "write_data8 s v \<equiv> write_data s v False"
abbreviation write_data16 :: "'d emu \<Rightarrow> u16 \<Rightarrow> 'd emu option" where
  "write_data16 s v \<equiv> write_data s v False"

section \<open>The stack\<close>

definition push_word :: "'d emu \<Rightarrow> u16 \<Rightarrow> 'd emu option" where
  "push_word s v = do {
     let s = rset s SP (rget s SP - 2);
     let addr = get_phys_addr (rget s SS) (ucast (rget s SP));
     mwrite s addr v
   }"

definition pop_word :: "'d emu \<Rightarrow> (u16 \<times> 'd emu) option" where
  "pop_word s = do {
     let addr = get_phys_addr (rget s SS) (ucast (rget s SP));
     v \<leftarrow> mem_read16 (mem s) addr;
     let s = rset s SP (rget s SP + 2);
     Some (v, s)
   }"

section \<open>Interrupt lines and the I/O space\<close>

definition raise_nmi :: "'d emu \<Rightarrow> 'd emu" where
  "raise_nmi s = s\<lparr>nmi_pending := True\<rparr>"

definition raise_irq :: "'d emu \<Rightarrow> int \<Rightarrow> 'd emu" where
  "raise_irq s irq_num = s\<lparr>pending_irq := word_of_int irq_num\<rparr>"

text \<open>A call of a device method: the interrupts it raises reach \<open>raise_irq\<close> in order.\<close>

definition io_call :: "('a, 'd) io_op \<Rightarrow> 'd emu \<Rightarrow> ('a \<times> 'd emu) option" where
  "io_call f s = do {
     (v, d, irqs) \<leftarrow> f (devs s);
     Some (v, foldl raise_irq (s\<lparr>devs := d\<rparr>) irqs)
   }"

definition write_io8 :: "'d emu \<Rightarrow> u32 \<Rightarrow> u8 \<Rightarrow> 'd emu option" where
  "write_io8 s addr val =
     (case io s (ucast (addr AND NOT 1)) of
        None \<Rightarrow> Some s
      | Some p \<Rightarrow> do {
          (_, s) \<leftarrow> io_call (io_write8 p (ucast (addr AND NOT 1) - port_base p) (unat (addr AND 1)) val) s;
          Some s })"

definition write_io16 :: "'d emu \<Rightarrow> u32 \<Rightarrow> u16 \<Rightarrow> 'd emu option" where
  "write_io16 s addr val =
     (case io s (ucast (addr AND NOT 1)) of
        None \<Rightarrow> Some s
      | Some p \<Rightarrow> do {
          (_, s) \<leftarrow> io_call (io_write16 p (ucast (addr AND NOT 1) - port_base p) val) s;
          Some s })"

definition read_io8 :: "'d emu \<Rightarrow> u32 \<Rightarrow> (u8 \<times> 'd emu) option" where
  "read_io8 s addr =
     (case io s (ucast (addr AND NOT 1)) of
        None \<Rightarrow> Some (0, s)
      | Some p \<Rightarrow> io_call (io_read8 p (ucast (addr AND NOT 1) - port_base p) (unat (addr AND 1))) s)"

definition read_io16 :: "'d emu \<Rightarrow> u32 \<Rightarrow> (u16 \<times> 'd emu) option" where
  "read_io16 s addr =
     (case io s (ucast (addr AND NOT 1)) of
        None \<Rightarrow> Some (0, s)
      | Some p \<Rightarrow> io_call (io_read16 p (ucast (addr AND NOT 1) - port_base p)) s)"

section \<open>Entering an interrupt\<close>

text \<open>
  The block that every interrupt entry of the source repeats: push the flags, CS and the return
  address, clear IF and TF, load CS:IP from the vector and mark the jump. The callers differ in the
  vector and in the return address (\<open>IP\<close> or \<open>IP + instr_length\<close>).
\<close>

definition interrupt_entry :: "'d emu \<Rightarrow> u16 \<Rightarrow> u16 \<Rightarrow> u32 \<Rightarrow> 'd emu option" where
  "interrupt_entry s flags ret_ip vec = do {
     s \<leftarrow> push_word s flags;
     s \<leftarrow> push_word s (rget s CS);
     s \<leftarrow> push_word s ret_ip;
     let flags = flags AND NOT (IF OR TF);
     let s = sflags s flags (IF OR TF);
     new_cs \<leftarrow> mem_read16 (mem s) (vec + 2);
     new_ip \<leftarrow> mem_read16 (mem s) (vec + 0);
     let s = rset s CS new_cs;
     let s = rset s IP new_ip;
     Some (s\<lparr>jump_taken := True\<rparr>)
   }"

text \<open>\<open>registers->get(IP) + instr_length\<close>, as a \<open>uint16_t\<close>.\<close>

abbreviation next_ip :: "'d emu \<Rightarrow> u16" where
  "next_ip s \<equiv> rget s IP + ucast (instr_length s)"

definition invalid_opcode :: "'d emu \<Rightarrow> 'd emu option" where
  "invalid_opcode s = interrupt_entry s (get_flags (regs s)) (next_ip s) VEC_INVALID_OPCODE"

section \<open>Repeating a string instruction\<close>

partial_function (option) rep_loop ::
    "('d emu \<Rightarrow> 'd emu option) \<Rightarrow> ('d emu \<Rightarrow> bool) \<Rightarrow> 'd emu \<Rightarrow> 'd emu option" where
  "rep_loop primitive should_terminate s =
     (if rget s CX \<noteq> 0 then do {
        s \<leftarrow> primitive s;
        let s = rset s CX (rget s CX - 1);
        if should_terminate s then Some s else rep_loop primitive should_terminate s
      } else Some s)"

definition do_rep ::
    "('d emu \<Rightarrow> 'd emu option) \<Rightarrow> ('d emu \<Rightarrow> bool) \<Rightarrow> 'd emu \<Rightarrow> 'd emu option" where
  "do_rep primitive should_terminate s =
     (if \<not> has_rep_prefix s then primitive s else rep_loop primitive should_terminate s)"

definition string_rep_complete :: "'d emu \<Rightarrow> bool" where
  "string_rep_complete s =
     (if rep_mode s = REPE \<and> \<not> fget s ZF then True
      else if rep_mode s = REPNE \<and> fget s ZF then True
      else False)"

section \<open>Construction and reset\<close>

definition reset :: "'d emu \<Rightarrow> 'd emu" where
  "reset s = s\<lparr>regs := reg_reset (regs s), opcode := 0, instr_length := 0, nmi_pending := False,
               ext_int_inhibit := False, pending_irq := 0\<rparr>"

text \<open>
  The constructor, followed by the \<open>set_memory\<close> and \<open>set_io\<close> of \<open>SoftwareCPU\<close>. The members that have
  no initial value in the source (\<open>override_segment\<close> and those of the decoder) are arguments.
\<close>

definition EmulatorPimpl_new :: "RegisterFile \<Rightarrow> Memory \<Rightarrow> (u16 \<rightharpoonup> 'd IOPorts) \<Rightarrow> 'd
    \<Rightarrow> (int \<Rightarrow> (unit, 'd) io_op) \<Rightarrow> bool \<Rightarrow> GPR \<Rightarrow> ModRMDecoder \<Rightarrow> 'd emu" where
  "EmulatorPimpl_new rf m ports d inta te seg0 dec =
     reset \<lparr>mem = m, io = ports, regs = rf, instr_length = 0, modrm_decoder = dec,
            opcode = 0, jump_taken = False, default_segment_overriden = False,
            override_segment = seg0, rep_mode = REPE, has_rep_prefix = False,
            nmi_pending = False, ext_int_inhibit = False, pending_irq = 0, tf_was_set = False,
            devs = d, inta_handler = inta, trap_escape = te\<rparr>"

text \<open>A machine without devices, for examples.\<close>

definition bare_emu :: "unit emu" where
  "bare_emu = EmulatorPimpl_new (RegisterFile_new False) (Memory_new False) Map.empty ()
     (\<lambda>_ d. Some ((), d, [])) False DS (ModRMDecoder_new 0 False False)"

text \<open>The same machine with a program at address zero, where execution starts.\<close>

definition code_emu :: "u8 list \<Rightarrow> unit emu" where
  "code_emu bs = bare_emu\<lparr>mem := \<lparr>mem_bytes = store_bytes (\<lambda>_. 0) 0 bs, mem_written = False\<rparr>\<rparr>"

end
