(* ===== verification/EmuRun.thy ===== *)
theory EmuRun
  imports EmuState
begin

text \<open>
  How the emulator's helpers run: what \<open>fetch_byte\<close> returns (it never fails, so it is a source of bytes
  for the mod/rm decoder), the word stack that \<open>push_word\<close> and \<open>pop_word\<close> implement, and the repeat
  loop as an iteration.
\<close>

section \<open>Registers under the updates\<close>

lemma rflags_reg_set [simp]: "rflags (reg_set r x v) = rflags r"
  by (cases x) (simp_all add: reg_set_def set_low_def set_high_def)

lemma pseudo_286_reg_set [simp]: "pseudo_286 (reg_set r x v) = pseudo_286 r"
  by (cases x) (simp_all add: reg_set_def set_low_def set_high_def)

lemma get_flags_reg_set [simp]: "get_flags (reg_set r x v) = get_flags r"
  by (simp add: get_flags_def)

lemma get_flag_reg_set [simp]: "get_flag (reg_set r x v) f = get_flag r f"
  by (simp add: get_flag_def)

lemma reg_get_set_flags [simp]: "reg_get (set_flags r v m) x = reg_get r x"
  by (cases x) (simp_all add: reg_get_def set_flags_def Let_def)

lemma pseudo_286_set_flags [simp]: "pseudo_286 (set_flags r v m) = pseudo_286 r"
  by (simp add: set_flags_def Let_def)

lemma get_flag_set_flags:
  "get_flag (set_flags r v m) CF = (if bit m 0 then bit v 0 else get_flag r CF)"
  "get_flag (set_flags r v m) PF = (if bit m 2 then bit v 2 else get_flag r PF)"
  "get_flag (set_flags r v m) AF = (if bit m 4 then bit v 4 else get_flag r AF)"
  "get_flag (set_flags r v m) ZF = (if bit m 6 then bit v 6 else get_flag r ZF)"
  "get_flag (set_flags r v m) SF = (if bit m 7 then bit v 7 else get_flag r SF)"
  "get_flag (set_flags r v m) TF = (if bit m 8 then bit v 8 else get_flag r TF)"
  "get_flag (set_flags r v m) IF = (if bit m 9 then bit v 9 else get_flag r IF)"
  "get_flag (set_flags r v m) DF = (if bit m 10 then bit v 10 else get_flag r DF)"
  "get_flag (set_flags r v m) OF = (if bit m 11 then bit v 11 else get_flag r OF)"
  by (simp_all add: bit_set_flags flag_positions_def)

section \<open>Fetching\<close>

definition code_byte :: "'d emu \<Rightarrow> u8" where
  "code_byte s = mem_bytes (mem s)
     (get_phys_addr (rget s CS) (ucast (ucast (rget s IP) + instr_length s)))"

definition fetched :: "'d emu \<Rightarrow> 'd emu" where
  "fetched s = s\<lparr>instr_length := instr_length s + 1\<rparr>"

lemma fetch_byte_eq [run_simps]: "fetch_byte s = Some (code_byte s, fetched s)"
  by (simp add: fetch_byte_def code_byte_def fetched_def)

lemma fetched_sel [simp]:
  "mem (fetched s) = mem s" "regs (fetched s) = regs s" "opcode (fetched s) = opcode s"
  "modrm_decoder (fetched s) = modrm_decoder s" "instr_length (fetched s) = instr_length s + 1"
  "jump_taken (fetched s) = jump_taken s" "io (fetched s) = io s" "devs (fetched s) = devs s"
  by (simp_all add: fetched_def)

lemma fetch_16bit_eq [run_simps]:
  "fetch_16bit s = Some (ucast (code_byte s) OR push_bit 8 (ucast (code_byte (fetched s))), fetched (fetched s))"
  by (simp add: fetch_16bit_def fetch_byte_eq)

text \<open>The emulator is a byte source for the decoder.\<close>

interpretation emu_fetch: byte_source fetch_byte code_byte fetched
  by unfold_locales (rule fetch_byte_eq)

section \<open>The stack\<close>

text \<open>
  The abstract stack: \<open>stack_word s k\<close> is the word \<open>k\<close> places below the top. \<open>push_word\<close> and
  \<open>pop_word\<close> implement the push and the pop of a list on it, for the 32767 words that do not overlap
  the word just pushed; a word that would cross the end of memory has no value.
\<close>

definition stack_addr :: "'d emu \<Rightarrow> nat \<Rightarrow> u32" where
  "stack_addr s k = get_phys_addr (rget s SS) (ucast (rget s SP + 2 * of_nat k))"

definition stack_word :: "'d emu \<Rightarrow> nat \<Rightarrow> u16 option" where
  "stack_word s k = mem_read16 (mem s) (stack_addr s k)"

lemma unat_ucast_u16 [simp]: "unat (ucast (x :: u16) :: u32) = unat x"
  by (simp add: unsigned_ucast_eq take_bit_eq_mod) (use unat_bounds(2) [of x] in simp)

lemma phys_words_apart:
  fixes a b g :: u16
  assumes "unat a + 2 \<le> unat b \<or> unat b + 2 \<le> unat a"
  shows "unat (get_phys_addr g (ucast a)) + 2 \<le> unat (get_phys_addr g (ucast b)) \<or>
    unat (get_phys_addr g (ucast b)) + 2 \<le> unat (get_phys_addr g (ucast a))"
proof -
  have "unat (get_phys_addr g (ucast a)) = (16 * unat g + unat a) mod 1048576"
    "unat (get_phys_addr g (ucast b)) = (16 * unat g + unat b) mod 1048576"
    using unat_bounds(2) [of a] unat_bounds(2) [of b]
    by (simp_all add: get_phys_addr_wrap MEMORY_SIZE_def)
  moreover have "x mod 1048576 = (if x < 1048576 then x else x - 1048576)" if "x < 2097152" for x :: nat
    using that by (simp add: mod_if)
  ultimately show ?thesis
    using assms unat_bounds(2) [of a] unat_bounds(2) [of b] unat_bounds(2) [of g] by auto
qed

text \<open>Stack slots \<open>k\<close> places apart do not overlap, for less than \<open>2 ^ 15\<close> places.\<close>

lemma stack_slots_apart:
  fixes x :: u16
  assumes "0 < k" "k < 32768"
  shows "unat x + 2 \<le> unat (x + 2 * of_nat k) \<or> unat (x + 2 * of_nat k) + 2 \<le> unat x"
proof -
  have k: "unat (2 * of_nat k :: u16) = 2 * k"
    using assms by (simp add: unat_word_ariths unat_of_nat)
  have "unat (x + 2 * of_nat k) = (unat x + 2 * k) mod 65536"
    by (simp add: unat_word_ariths(1) [of x] k)
  then show ?thesis
    using assms unat_bounds(2) [of x] by (auto simp: mod_if split: if_splits)
qed

lemma stack_addr_push:
  assumes "rget s' SP = rget s SP - 2" "rget s' SS = rget s SS"
  shows "stack_addr s' (Suc k) = stack_addr s k"
proof -
  have "rget s SP - 2 + 2 * of_nat (Suc k) = rget s SP + 2 * of_nat k"
    by (simp add: algebra_simps)
  then show ?thesis by (simp only: stack_addr_def assms)
qed

text \<open>What a successful push does, and when it succeeds.\<close>

definition stack_room :: "'d emu \<Rightarrow> bool" where
  "stack_room s \<longleftrightarrow> unat (get_phys_addr (rget s SS) (ucast (rget s SP - 2))) + 2 \<le> MEMORY_SIZE"

lemma push_word_Some:
  assumes "push_word s v = Some s'"
  obtains m where "s' = s\<lparr>regs := reg_set (regs s) SP (rget s SP - 2), mem := m\<rparr>"
    "mem_write16 (mem s) (get_phys_addr (rget s SS) (ucast (rget s SP - 2))) v = Some m"
  using assms by (auto simp: push_word_def mwrite_def bind_eq_Some Let_def)

lemma push_word_succeeds: "(\<exists>s'. push_word s v = Some s') \<longleftrightarrow> stack_room s"
  by (auto simp: push_word_def mwrite_def stack_room_def Let_def mem_write_def)

lemma push_word_regs:
  assumes "push_word s v = Some s'"
  shows "regs s' = reg_set (regs s) SP (rget s SP - 2)" "rget s' SP = rget s SP - 2"
    "is16 x \<Longrightarrow> x \<noteq> SP \<Longrightarrow> rget s' x = rget s x" "instr_length s' = instr_length s"
    "get_flags (regs s') = get_flags (regs s)" "io s' = io s" "devs s' = devs s"
    "modrm_decoder s' = modrm_decoder s" "trap_escape s' = trap_escape s"
  by (rule push_word_Some [OF assms], simp)+

lemma push_word_top:
  assumes "push_word s v = Some s'"
  shows "stack_word s' 0 = Some v"
proof -
  obtain m where s': "s' = s\<lparr>regs := reg_set (regs s) SP (rget s SP - 2), mem := m\<rparr>"
    and m: "mem_write16 (mem s) (get_phys_addr (rget s SS) (ucast (rget s SP - 2))) v = Some m"
    by (rule push_word_Some [OF assms])
  show ?thesis
    using mem16.rd_wr_same [OF m] by (simp add: stack_word_def stack_addr_def s')
qed

lemma push_word_below:
  assumes "push_word s v = Some s'" "k < 32767"
  shows "stack_word s' (Suc k) = stack_word s k"
proof -
  obtain m where s': "s' = s\<lparr>regs := reg_set (regs s) SP (rget s SP - 2), mem := m\<rparr>"
    and m: "mem_write16 (mem s) (get_phys_addr (rget s SS) (ucast (rget s SP - 2))) v = Some m"
    by (rule push_word_Some [OF assms(1)])
  have "stack_addr s' (Suc k) = stack_addr s k"
    by (rule stack_addr_push) (simp_all add: s')
  moreover have "stack_addr s k = get_phys_addr (rget s SS) (ucast (rget s SP - 2 + 2 * of_nat (Suc k)))"
    by (simp add: stack_addr_def algebra_simps)
  ultimately show ?thesis
    using mem16.rd_wr_dis [OF m] phys_words_apart [OF stack_slots_apart [of "Suc k" "rget s SP - 2"]] assms(2)
    by (simp add: stack_word_def s')
qed

text \<open>The state after a pop.\<close>

definition popped :: "'d emu \<Rightarrow> 'd emu" where
  "popped s = s\<lparr>regs := reg_set (regs s) SP (rget s SP + 2)\<rparr>"

lemma pop_word_eq:
  "pop_word s = (case stack_word s 0 of None \<Rightarrow> None | Some v \<Rightarrow> Some (v, popped s))"
  by (simp add: pop_word_def popped_def stack_word_def stack_addr_def Let_def bind_eq_Some split: option.split)

lemma popped_sel [simp]:
  "mem (popped s) = mem s" "rget (popped s) SP = rget s SP + 2" "is16 x \<Longrightarrow> x \<noteq> SP \<Longrightarrow> rget (popped s) x = rget s x"
  "rflags (regs (popped s)) = rflags (regs s)" "get_flags (regs (popped s)) = get_flags (regs s)"
  "instr_length (popped s) = instr_length s" "pseudo_286 (regs (popped s)) = pseudo_286 (regs s)"
  by (simp_all add: popped_def)

lemma stack_word_cong:
  "mem s' = mem s \<Longrightarrow> rget s' SS = rget s SS \<Longrightarrow> rget s' SP = rget s SP \<Longrightarrow> stack_word s' k = stack_word s k"
  by (simp add: stack_word_def stack_addr_def)

lemma stack_word_popped [simp]: "stack_word (popped s) k = stack_word s (Suc k)"
  by (simp add: stack_word_def stack_addr_def algebra_simps)

lemma stack_word_other [simp]:
  "is16 x \<Longrightarrow> x \<noteq> SP \<Longrightarrow> x \<noteq> SS \<Longrightarrow> stack_word (s\<lparr>regs := reg_set (regs s) x v\<rparr>) k = stack_word s k"
  by (simp add: stack_word_def stack_addr_def)

lemma stack_word_flags [simp]:
  "stack_word (s\<lparr>regs := set_flags (regs s) v m\<rparr>) k = stack_word s k"
  "stack_word (s\<lparr>jump_taken := b\<rparr>) k = stack_word s k"
  by (simp_all add: stack_word_def stack_addr_def)

text \<open>Pushing a list of words, the last one on top.\<close>

fun push_words :: "'d emu \<Rightarrow> u16 list \<Rightarrow> 'd emu option" where
  "push_words s [] = Some s"
| "push_words s (v # vs) = push_word s v \<bind> (\<lambda>s. push_words s vs)"

lemma push_words_regs:
  assumes "push_words s vs = Some s'"
  shows "rget s' SP = rget s SP - 2 * of_nat (length vs)" "is16 x \<Longrightarrow> x \<noteq> SP \<Longrightarrow> rget s' x = rget s x"
    "get_flags (regs s') = get_flags (regs s)" "instr_length s' = instr_length s"
  using assms
  by (induction vs arbitrary: s) (auto simp: bind_eq_Some push_word_regs algebra_simps)

lemma push_words_below:
  "push_words s vs = Some s' \<Longrightarrow> k + length vs \<le> 32767 \<Longrightarrow> stack_word s' (k + length vs) = stack_word s k"
proof (induction vs arbitrary: s k)
  case (Cons v vs)
  then obtain s1 where s1: "push_word s v = Some s1" "push_words s1 vs = Some s'"
    by (auto simp: bind_eq_Some)
  have "stack_word s' (Suc k + length vs) = stack_word s1 (Suc k)"
    using Cons.prems by (intro Cons.IH [OF s1(2)]) simp
  also have "\<dots> = stack_word s k"
    using Cons.prems by (intro push_word_below [OF s1(1)]) simp
  finally show ?case by simp
qed simp

lemma push_words_top:
  "push_words s vs = Some s' \<Longrightarrow> length vs \<le> 32767 \<Longrightarrow> k < length vs \<Longrightarrow> stack_word s' k = Some (rev vs ! k)"
proof (induction vs arbitrary: s)
  case (Cons v vs)
  then obtain s1 where s1: "push_word s v = Some s1" "push_words s1 vs = Some s'"
    by (auto simp: bind_eq_Some)
  show ?case
  proof (cases "k < length vs")
    case True
    with Cons.IH [OF s1(2)] Cons.prems show ?thesis by (simp add: nth_append)
  next
    case False
    with Cons.prems have "k = length vs" by simp
    with push_words_below [OF s1(2), of 0] push_word_top [OF s1(1)] Cons.prems
    show ?thesis by (simp add: nth_append)
  qed
qed simp

text \<open>
  C13. The stack discipline: after a push, the value is on top, the 32767 words below it are the words
  that were on the stack before, and a pop returns the value and restores the stack pointer.
\<close>

theorem push_pop_stack:
  assumes "push_word s v = Some s'"
  shows "pop_word s' = Some (v, popped s') \<and> rget (popped s') SP = rget s SP \<and>
    stack_word s' 0 = Some v \<and> (\<forall>k < 32767. stack_word s' (Suc k) = stack_word s k)"
  using push_word_top [OF assms] push_word_below [OF assms] push_word_regs(2) [OF assms]
  by (simp add: pop_word_eq)

theorem push_pop_stack_witness:
  "\<exists>s'. push_word bare_emu 0x1234 = Some s' \<and> pop_word s' = Some (0x1234, popped s') \<and>
     rget (popped s') SP = rget bare_emu SP"
proof -
  have "stack_room bare_emu"
    by (simp add: stack_room_def bare_emu_def EmulatorPimpl_new_def reset_def RegisterFile_new_def reg_reset_def
        reg_get_def get_phys_addr_def MEMORY_SIZE_def)
  then obtain s' where "push_word bare_emu 0x1234 = Some s'"
    unfolding push_word_succeeds [symmetric, of bare_emu "0x1234"] by blast
  with push_pop_stack [OF this] show ?thesis by blast
qed

lemma bind_push_cong:
  "v = w \<Longrightarrow> (\<And>s'. push_word s w = Some s' \<Longrightarrow> f s' = g s') \<Longrightarrow> push_word s v \<bind> f = push_word s w \<bind> g"
  by (cases "push_word s w") auto

lemma push_word_gpr:
  "push_word s v = Some s' \<Longrightarrow> is16 x \<Longrightarrow> x \<noteq> SP \<Longrightarrow> rget s' x = rget s x"
  by (rule push_word_regs)

lemma flags_ok_popped [simp]: "flags_ok (regs (popped s)) = flags_ok (regs s)"
  by (simp add: popped_def)

text \<open>Writing back a flags word that was read from a register file of the same build restores it.\<close>

lemma get_flags_set_all:
  assumes "flags_ok r" "flags_ok r'" "pseudo_286 r = pseudo_286 r'"
  shows "get_flags (set_flags r (get_flags r') 0xffff) = get_flags r'"
proof -
  have "bit (rflags (set_flags r (rflags r') 0xffff)) n = bit (rflags r') n" if "n < 16" for n
  proof (cases "n \<in> set flag_positions")
    case True
    then show ?thesis using that by (simp add: bit_set_flags mask_literals bit_simps)
  next
    case False
    have "flags_ok (set_flags r (rflags r') 0xffff)" using assms(1) by simp
    then show ?thesis
      using False that assms unfolding flags_ok_bits by simp
  qed
  then have "rflags (set_flags r (rflags r') 0xffff) = rflags r'"
    by (intro bit_word_eqI) simp
  then show ?thesis
    using assms get_flags_eq [OF assms(2)] get_flags_eq [OF flags_ok_set_flags [OF assms(1)]] by simp
qed

lemma stack_room_low: "unat (rget s SS) \<le> 0xeffe \<Longrightarrow> stack_room s"
proof -
  assume "unat (rget s SS) \<le> 0xeffe"
  then show ?thesis
    using unat_bounds(2) [of "rget s SP - 2"]
    by (simp add: stack_room_def get_phys_addr_wrap MEMORY_SIZE_def)
qed

lemma push_words_low: "unat (rget s SS) \<le> 0xeffe \<Longrightarrow> \<exists>s'. push_words s vs = Some s'"
proof (induction vs arbitrary: s)
  case (Cons v vs)
  from stack_room_low [OF Cons.prems] obtain s1 where s1: "push_word s v = Some s1"
    using push_word_succeeds by blast
  with Cons.prems push_word_gpr [OF s1, of SS] Cons.IH [of s1] show ?case by auto
qed simp

lemma mwrite8_phys: "mwrite s (get_phys_addr g d) (v :: u8) =
   Some (s\<lparr>mem := (mem s)\<lparr>mem_bytes := (mem_bytes (mem s))(get_phys_addr g d := v), mem_written := True\<rparr>\<rparr>)"
  by (simp add: mwrite_def)

section \<open>Interrupt entry\<close>

lemma interrupt_entry_pushes:
  "interrupt_entry s flags ip vec = push_words s [flags, rget s CS, ip] \<bind> (\<lambda>s1.
     mem_read16 (mem s1) (vec + 2) \<bind> (\<lambda>cs. mem_read16 (mem s1) vec \<bind> (\<lambda>new_ip.
       Some ((rset (rset (sflags s1 (flags AND NOT (IF OR TF)) (IF OR TF)) CS cs) IP new_ip)\<lparr>jump_taken := True\<rparr>))))"
  unfolding interrupt_entry_def Let_def
  by (simp add: push_word_gpr cong: bind_push_cong)

lemma interrupt_entry_Some:
  assumes "interrupt_entry s flags ip vec = Some s1"
  obtains p cs new_ip where "push_words s [flags, rget s CS, ip] = Some p"
    "mem_read16 (mem p) (vec + 2) = Some cs" "mem_read16 (mem p) vec = Some new_ip"
    "s1 = (rset (rset (sflags p (flags AND NOT (IF OR TF)) (IF OR TF)) CS cs) IP new_ip)\<lparr>jump_taken := True\<rparr>"
  using assms by (auto simp: interrupt_entry_pushes bind_eq_Some)

lemma interrupt_entry_low:
  assumes "unat (rget s SS) \<le> 0xeffe" "unat vec + 4 \<le> MEMORY_SIZE"
  shows "\<exists>s'. interrupt_entry s f ip vec = Some s'"
proof -
  obtain p where "push_words s [f, rget s CS, ip] = Some p"
    using push_words_low [OF assms(1)] by blast
  moreover have "unat (vec + 2) = unat vec + 2"
    using assms(2) by (simp add: unat_word_ariths MEMORY_SIZE_def)
  ultimately show ?thesis
    using assms(2) by (simp add: interrupt_entry_pushes mem_read_def)
qed

lemma push_words_frame: "push_words s vs = Some s' \<Longrightarrow> s' = s\<lparr>mem := mem s', regs := regs s'\<rparr>"
proof (induction vs arbitrary: s)
  case (Cons v vs)
  then obtain s1 where s1: "push_word s v = Some s1" "push_words s1 vs = Some s'" by (auto simp: bind_eq_Some)
  from s1(1) have "s1 = s\<lparr>mem := mem s1, regs := regs s1\<rparr>"
    by (auto simp: push_word_def mwrite_def Let_def bind_eq_Some)
  then have "s1\<lparr>mem := mem s', regs := regs s'\<rparr> = s\<lparr>mem := mem s', regs := regs s'\<rparr>"
    by (rule ssubst) simp
  with Cons.IH [OF s1(2)] show ?case by simp
qed simp

lemma interrupt_entry_frame:
  assumes "interrupt_entry s f ip vec = Some s1"
  shows "s1 = s\<lparr>mem := mem s1, regs := regs s1, jump_taken := True\<rparr>"
  using assms
proof (rule interrupt_entry_Some)
  fix p cs new_ip
  assume p: "push_words s [f, rget s CS, ip] = Some p"
    and s1: "s1 = (rset (rset (sflags p (f AND NOT (IF OR TF)) (IF OR TF)) CS cs) IP new_ip)\<lparr>jump_taken := True\<rparr>"
  show ?thesis unfolding s1 by (subst push_words_frame [OF p]) simp
qed

lemma interrupt_entry_keeps:
  assumes "interrupt_entry s f ip vec = Some s1"
  shows "nmi_pending s1 = nmi_pending s" "pending_irq s1 = pending_irq s" "ext_int_inhibit s1 = ext_int_inhibit s"
    "tf_was_set s1 = tf_was_set s" "devs s1 = devs s" "inta_handler s1 = inta_handler s"
  by (subst interrupt_entry_frame [OF assms], simp)+

lemma interrupt_entry_effect:
  assumes "interrupt_entry s f ip vec = Some s1"
  shows "mem_read16 (mem s1) vec = Some (rget s1 IP)" "mem_read16 (mem s1) (vec + 2) = Some (rget s1 CS)"
    "\<not> fget s1 IF" "\<not> fget s1 TF"
  using assms
  by (auto elim!: interrupt_entry_Some
      simp: get_flag_set_flags bit_or_iff bit_and_iff bit_not_iff flag_bits simp del: get_flag_bit)

section \<open>The example machine\<close>

lemma bare_emu_sel [simp]:
  "rget bare_emu x = 0" "flags_ok (regs bare_emu)" "instr_length bare_emu = 0" "pseudo_286 (regs bare_emu) = False"
  "io bare_emu = Map.empty" "nmi_pending bare_emu = False" "pending_irq bare_emu = 0" "ext_int_inhibit bare_emu = False"
  by (cases x) (simp_all add: bare_emu_def EmulatorPimpl_new_def reset_def RegisterFile_new_def reg_reset_def reg_get_def
      flags_ok_def FLAGS_STUCK_BITS_def valid_mask_def flag_defs)

lemma code_byte_bare [simp]: "code_byte bare_emu = 0" "code_byte (fetched bare_emu) = 0"
  "code_byte (fetched (fetched bare_emu)) = 0"
  by (simp_all add: code_byte_def get_phys_addr_def bare_emu_def EmulatorPimpl_new_def reset_def RegisterFile_new_def
      reg_reset_def reg_get_def Memory_new_def mem_init_8_def)

lemma bare_flags [simp]: "rflags (regs bare_emu) = 0xf002" "inta_handler bare_emu = (\<lambda>_ d. Some ((), d, []))"
  by (simp_all add: bare_emu_def EmulatorPimpl_new_def reset_def RegisterFile_new_def reg_reset_def FLAGS_STUCK_BITS_def)

lemma bare_TF: "\<not> fget bare_emu TF"
  by simp

lemma bare_mem: "mem_bytes (mem bare_emu) a = 0"
  by (simp add: bare_emu_def EmulatorPimpl_new_def reset_def Memory_new_def mem_init_8_def)

lemma code_emu_sel [simp]:
  "rget (code_emu bs) x = 0" "flags_ok (regs (code_emu bs))" "instr_length (code_emu bs) = 0"
  "pseudo_286 (regs (code_emu bs)) = False" "io (code_emu bs) = Map.empty" "nmi_pending (code_emu bs) = False"
  "pending_irq (code_emu bs) = 0" "ext_int_inhibit (code_emu bs) = False"
  "mem_bytes (mem (code_emu bs)) = store_bytes (\<lambda>_. 0) 0 bs"
  by (simp_all add: code_emu_def)

lemma code_emu_byte:
  assumes "rget s CS = 0" "rget s IP = 0" "mem_bytes (mem s) = store_bytes (\<lambda>_. 0) 0 bs"
    and "instr_length s = of_nat n" "n < 65536"
  shows "code_byte s = store_bytes (\<lambda>_. 0) 0 bs (of_nat n)"
proof -
  have "unat (get_phys_addr 0 (of_nat n)) = unat (of_nat n :: u32)"
    using assms(5) by (subst get_phys_addr_wrap) (simp_all add: unat_of_nat MEMORY_SIZE_def)
  moreover have "(ucast (of_nat n :: u64) :: u32) = of_nat n"
    using assms(5) by (simp add: word_unat_eq_iff unsigned_ucast_eq unat_of_nat take_bit_eq_mod)
  ultimately show ?thesis
    using assms by (simp add: code_byte_def word_unat_eq_iff [symmetric])
qed

section \<open>The repeat loop\<close>

text \<open>The repeat loop with its turns counted: the reference for \<open>rep_loop\<close>.\<close>

fun rep_iter :: "('d emu \<Rightarrow> 'd emu option) \<Rightarrow> ('d emu \<Rightarrow> bool) \<Rightarrow> nat \<Rightarrow> 'd emu \<Rightarrow> 'd emu option" where
  "rep_iter p t 0 s = Some s"
| "rep_iter p t (Suc n) s = do {
     s \<leftarrow> p s;
     let s = rset s CX (rget s CX - 1);
     if t s then Some s else rep_iter p t n s
   }"

definition keeps_CX :: "('d emu \<Rightarrow> 'd emu option) \<Rightarrow> bool" where
  "keeps_CX p \<longleftrightarrow> (\<forall>s s'. p s = Some s' \<longrightarrow> rget s' CX = rget s CX)"

lemma rep_loop_iter:
  assumes "keeps_CX p"
  shows "rep_loop p t s = rep_iter p t (unat (rget s CX)) s"
proof (induction "unat (rget s CX)" arbitrary: s)
  case 0
  then have "rget s CX = 0" by (simp add: unat_eq_0)
  then show ?case by (simp add: rep_loop.simps)
next
  case (Suc n)
  have step: "rep_loop p t (rset s1 CX (rget s1 CX - 1)) = rep_iter p t n (rset s1 CX (rget s1 CX - 1))"
    if "p s = Some s1" for s1
  proof -
    from that assms have "rget s1 CX = rget s CX" by (simp add: keeps_CX_def)
    with Suc(2) have "n = unat (rget (rset s1 CX (rget s1 CX - 1)) CX)"
      by (simp add: unat_minus_one unat_eq_0 [symmetric])
    with Suc(1) show ?thesis by auto
  qed
  from Suc(2) have "rget s CX \<noteq> 0" by auto
  then show ?case
    unfolding Suc(2) [symmetric] rep_loop.simps [of p t s] rep_iter.simps
    by (cases "p s") (simp_all add: Let_def step)
qed

end
