(* ===== verification/ALU.thy ===== *)
theory ALU
  imports RegisterFile
begin

text \<open>
  The arithmetic unit (\<open>do_alu\<close> and its six instances, sim/cppmodel/Emulate.cpp) and \<open>sign_extend\<close>.
  The template parameter \<open>T\<close> is the width of the result word, with a flag for the signed instances:
  \<open>static_cast<T>(-1)\<close> converted to \<open>uint32_t\<close> is all ones for a signed \<open>T\<close>.

  The instances with a 32-bit \<open>T\<close> (\<open>mul\<close>, \<open>imul\<close>) shift an \<open>int\<close> by 32 to test the carry. The model
  gives that shift the value zero; it only reaches CF, and from there OF, and every caller of those
  instances discards both (see \<open>mulf7\<close>, \<open>imulf7\<close>, \<open>imul69\<close> and \<open>imul6b\<close>).

  The locale \<open>alu_operation\<close> is the contract of an \<open>alu_op\<close>: it computes an integer function modulo
  \<open>2 ^ 32\<close>. From it the locale derives what \<open>do_alu\<close> returns in terms of that function.
\<close>

section \<open>Definitions\<close>

definition sign_extend :: "'a::len word \<Rightarrow> 'b::len word" where
  "sign_extend v =
     (let bit_shift = LENGTH('b) - LENGTH('a);
          out = ucast v;
          out = push_bit bit_shift out
      in signed_drop_bit bit_shift out)"

definition T_minus_one :: "'a::len itself \<Rightarrow> bool \<Rightarrow> u32" where
  "T_minus_one T is_signed = (if is_signed then NOT 0 else mask LENGTH('a))"

definition do_alu :: "RegisterFile \<Rightarrow> bool \<Rightarrow> u32 \<Rightarrow> u32 \<Rightarrow> u32 \<Rightarrow> (u32 \<Rightarrow> u32 \<Rightarrow> u32 \<Rightarrow> u32)
    \<Rightarrow> u16 \<times> 'a::len word" where
  "do_alu r is_signed v1 v2 carry alu_op =
     (let flags = get_flags r;
          flags = flags AND NOT (AF OR CF OR OF OR PF OR SF OR ZF);
          result32 = alu_op v1 v2 carry;
          af = (alu_op (v1 AND 0xf) (v2 AND 0xf) carry AND push_bit 4 1 \<noteq> 0);
          sign_bit = LENGTH('a) - 1;
          carry_bit = LENGTH('a);
          flags = (if af then flags OR AF else flags);
          flags = (if result32 AND push_bit carry_bit 1 \<noteq> 0 then flags OR CF else flags);
          flags = (if result32 AND push_bit sign_bit 1 \<noteq> 0 then flags OR SF else flags);
          flags = (if result32 AND T_minus_one TYPE('a) is_signed = 0 then flags OR ZF else flags);
          flags = (if \<not> builtin_parity (result32 AND 0xff) then flags OR PF else flags);
          carry_in = (alu_op (v1 AND NOT (push_bit sign_bit 1)) (v2 AND NOT (push_bit sign_bit 1)) carry
                      AND push_bit sign_bit 1 \<noteq> 0);
          flags = (if carry_in \<noteq> (flags AND CF \<noteq> 0) then flags OR OF else flags)
      in (flags, ucast result32))"

definition do_add :: "RegisterFile \<Rightarrow> u16 \<Rightarrow> u16 \<Rightarrow> u16 \<Rightarrow> u16 \<times> 'a::len word" where
  "do_add r v1 v2 carry_in =
     do_alu r False (ucast v1) (ucast v2) (ucast carry_in) (\<lambda>a b c. a + b + c)"

definition do_xor :: "RegisterFile \<Rightarrow> u16 \<Rightarrow> u16 \<Rightarrow> u16 \<times> 'a::len word" where
  "do_xor r v1 v2 = do_alu r False (ucast v1) (ucast v2) 0 (\<lambda>a b c. a XOR b)"

definition do_or :: "RegisterFile \<Rightarrow> u16 \<Rightarrow> u16 \<Rightarrow> u16 \<times> 'a::len word" where
  "do_or r v1 v2 = do_alu r False (ucast v1) (ucast v2) 0 (\<lambda>a b c. a OR b)"

definition do_and :: "RegisterFile \<Rightarrow> u16 \<Rightarrow> u16 \<Rightarrow> u16 \<times> 'a::len word" where
  "do_and r v1 v2 = do_alu r False (ucast v1) (ucast v2) 0 (\<lambda>a b c. a AND b)"

definition do_sub :: "RegisterFile \<Rightarrow> u16 \<Rightarrow> u16 \<Rightarrow> u16 \<Rightarrow> u16 \<times> 'a::len word" where
  "do_sub r v1 v2 carry_in =
     do_alu r False (ucast v1) (ucast v2) (ucast carry_in) (\<lambda>a b c. a - b - c)"

definition do_mul :: "RegisterFile \<Rightarrow> bool \<Rightarrow> u32 \<Rightarrow> u32 \<Rightarrow> u16 \<times> 'a::len word" where
  "do_mul r is_signed v1 v2 = do_alu r is_signed v1 v2 0 (\<lambda>a b c. a * b)"

abbreviation do_add8 :: "RegisterFile \<Rightarrow> u16 \<Rightarrow> u16 \<Rightarrow> u16 \<Rightarrow> u16 \<times> u8" where "do_add8 \<equiv> do_add"
abbreviation do_add16 :: "RegisterFile \<Rightarrow> u16 \<Rightarrow> u16 \<Rightarrow> u16 \<Rightarrow> u16 \<times> u16" where "do_add16 \<equiv> do_add"
abbreviation do_sub8 :: "RegisterFile \<Rightarrow> u16 \<Rightarrow> u16 \<Rightarrow> u16 \<Rightarrow> u16 \<times> u8" where "do_sub8 \<equiv> do_sub"
abbreviation do_sub16 :: "RegisterFile \<Rightarrow> u16 \<Rightarrow> u16 \<Rightarrow> u16 \<Rightarrow> u16 \<times> u16" where "do_sub16 \<equiv> do_sub"
abbreviation do_xor8 :: "RegisterFile \<Rightarrow> u16 \<Rightarrow> u16 \<Rightarrow> u16 \<times> u8" where "do_xor8 \<equiv> do_xor"
abbreviation do_xor16 :: "RegisterFile \<Rightarrow> u16 \<Rightarrow> u16 \<Rightarrow> u16 \<times> u16" where "do_xor16 \<equiv> do_xor"
abbreviation do_or8 :: "RegisterFile \<Rightarrow> u16 \<Rightarrow> u16 \<Rightarrow> u16 \<times> u8" where "do_or8 \<equiv> do_or"
abbreviation do_or16 :: "RegisterFile \<Rightarrow> u16 \<Rightarrow> u16 \<Rightarrow> u16 \<times> u16" where "do_or16 \<equiv> do_or"
abbreviation do_and8 :: "RegisterFile \<Rightarrow> u16 \<Rightarrow> u16 \<Rightarrow> u16 \<times> u8" where "do_and8 \<equiv> do_and"
abbreviation do_and16 :: "RegisterFile \<Rightarrow> u16 \<Rightarrow> u16 \<Rightarrow> u16 \<times> u16" where "do_and16 \<equiv> do_and"

section \<open>The contract of an operation of the unit\<close>

lemma bit_int_odd_div: "bit (x :: int) n \<longleftrightarrow> odd (x div 2 ^ n)"
  by (simp add: bit_iff_odd)

lemma and_not_top:
  "(ucast v :: u32) AND NOT (push_bit (LENGTH('a) - 1) 1) = word_of_int (take_bit (LENGTH('a) - 1) (uint v))"
  if "LENGTH('a) \<le> 32" for v :: "'a::len word"
proof (rule bit_word_eqI)
  fix n assume "n < LENGTH(32)"
  have "bit v n \<Longrightarrow> n < LENGTH('a)" by (rule bit_imp_le_length)
  then show "bit ((ucast v :: u32) AND NOT (push_bit (LENGTH('a) - 1) 1)) n =
      bit (word_of_int (take_bit (LENGTH('a) - 1) (uint v)) :: u32) n"
    using \<open>n < LENGTH(32)\<close>
    by (auto simp: bit_exp_iff bit_simps)
qed

lemma and_low_nibble: "(ucast v :: u32) AND 0xf = word_of_int (take_bit 4 (uint v))"
  for v :: "'a::len word"
  by (rule bit_word_eqI)
    (auto simp: mask_literals bit_simps)

text \<open>The parity of the low byte does not depend on the width it is taken from.\<close>

lemma parity_low_byte:
  fixes w :: "'a::len word"
  assumes "8 \<le> LENGTH('a)"
  shows "builtin_parity (w AND 0xff) = builtin_parity (ucast w :: u8)"
proof -
  have "[0..<LENGTH('a)] = [0..<8] @ [8..<LENGTH('a)]"
    using upt_add_eq_append [of 0 8 "LENGTH('a) - 8"] assms by simp
  moreover have "filter (bit (w AND 0xff)) [8..<LENGTH('a)] = []"
    by (auto simp: filter_empty_conv mask_literals bit_simps)
  moreover have "filter (bit (w AND 0xff)) [0..<8] = filter (bit (ucast w :: u8)) [0..<8]"
    by (intro filter_cong) (auto simp: mask_literals bit_simps dest: bit_imp_le_length)
  ultimately show ?thesis by (simp add: builtin_parity_def)
qed

lemma bit_if_or: "bit (if b then f OR m else f) n \<longleftrightarrow> bit f n \<or> (b \<and> bit m n)"
  for f m :: "'a::len word"
  by (simp add: bit_or_iff)

lemma and_CF_nonzero: "(f AND CF \<noteq> 0) = bit f 0"
  unfolding CF_def by (rule and_exp_nonzero)

text \<open>The flags word \<open>do_alu\<close> returns, bit by bit, for any operation.\<close>

lemma bit_do_alu_flags:
  "bit (fst (do_alu r sg v1 v2 c alu_op :: u16 \<times> 'a::len word)) n \<longleftrightarrow>
    (if n = 0 then bit (alu_op v1 v2 c) LENGTH('a)
     else if n = 2 then \<not> builtin_parity (alu_op v1 v2 c AND 0xff)
     else if n = 4 then bit (alu_op (v1 AND 0xf) (v2 AND 0xf) c) 4
     else if n = 6 then alu_op v1 v2 c AND T_minus_one TYPE('a) sg = 0
     else if n = 7 then bit (alu_op v1 v2 c) (LENGTH('a) - 1)
     else if n = 11 then
       bit (alu_op (v1 AND NOT (push_bit (LENGTH('a) - 1) 1)) (v2 AND NOT (push_bit (LENGTH('a) - 1) 1)) c)
           (LENGTH('a) - 1) \<noteq> bit (alu_op v1 v2 c) LENGTH('a)
     else bit (get_flags r) n)"
  unfolding do_alu_def Let_def fst_conv and_exp_nonzero and_CF_nonzero bit_if_or
  by (auto simp: bit_and_iff bit_not_iff bit_or_iff flag_bits dest: bit_imp_le_length)

locale alu_operation =
  fixes alu_op :: "u32 \<Rightarrow> u32 \<Rightarrow> u32 \<Rightarrow> u32"
    and iop :: "int \<Rightarrow> int \<Rightarrow> int \<Rightarrow> int"
  assumes alu_op_int: "alu_op (word_of_int a) (word_of_int b) (word_of_int c) = word_of_int (iop a b c)"
begin

lemma op_ucast:
  "alu_op (ucast v1) (ucast v2) (ucast c) = word_of_int (iop (uint v1) (uint v2) (uint c))"
  using alu_op_int [of "uint v1" "uint v2" "uint c"]
  by simp

text \<open>The result and each flag, for operands of the width of the result (at most 16 bits).\<close>

lemma do_alu_result:
  "LENGTH('a) \<le> 32 \<Longrightarrow>
   snd (do_alu r False (ucast v1) (ucast v2) (ucast (c :: u16)) alu_op :: u16 \<times> 'a::len word) =
     word_of_int (iop (uint v1) (uint v2) (uint c))"
  for v1 v2 :: "'a::len word"
  unfolding do_alu_def Let_def op_ucast snd_conv
  by (rule bit_word_eqI) (simp add: bit_ucast_iff bit_word_of_int_iff)

text \<open>Each flag of \<open>do_alu\<close>, read off the integer function.\<close>

lemma do_alu_flags:
  fixes v1 v2 :: "'a::len word" and c :: u16 and r :: RegisterFile
  assumes "LENGTH('a) \<le> 16" "8 \<le> LENGTH('a)"
  defines "f \<equiv> fst (do_alu r False (ucast v1) (ucast v2) (ucast c) alu_op :: u16 \<times> 'a word)"
    and "x \<equiv> iop (uint v1) (uint v2) (uint c)"
    and "N \<equiv> LENGTH('a)"
  shows "bit f 0 \<longleftrightarrow> bit x N"
    and "bit f 2 \<longleftrightarrow> \<not> builtin_parity (ucast (word_of_int x :: 'a word) :: u8)"
    and "bit f 4 \<longleftrightarrow> bit (iop (take_bit 4 (uint v1)) (take_bit 4 (uint v2)) (uint c)) 4"
    and "bit f 6 \<longleftrightarrow> (word_of_int x :: 'a word) = 0"
    and "bit f 7 \<longleftrightarrow> bit x (N - 1)"
    and "bit f 11 \<longleftrightarrow>
      bit (iop (take_bit (N - 1) (uint v1)) (take_bit (N - 1) (uint v2)) (uint c)) (N - 1) \<noteq> bit x N"
    and "n \<notin> {0, 2, 4, 6, 7, 11} \<Longrightarrow> bit f n \<longleftrightarrow> bit (get_flags r) n"
proof -
  have op: "alu_op (ucast v1) (ucast v2) (ucast c) = word_of_int x"
    by (simp add: x_def op_ucast)
  show "bit f 0 \<longleftrightarrow> bit x N"
    using assms(1) by (simp add: f_def bit_do_alu_flags op bit_word_of_int_iff N_def)
  have "builtin_parity ((word_of_int x :: u32) AND 0xff) = builtin_parity (ucast (word_of_int x :: u32) :: u8)"
    by (rule parity_low_byte) simp
  also have "(ucast (word_of_int x :: u32) :: u8) = ucast (word_of_int x :: 'a word)"
    using assms(2) by (intro bit_word_eqI) (auto simp: bit_simps)
  finally show "bit f 2 \<longleftrightarrow> \<not> builtin_parity (ucast (word_of_int x :: 'a word) :: u8)"
    by (simp add: f_def bit_do_alu_flags op)
  show "bit f 4 \<longleftrightarrow> bit (iop (take_bit 4 (uint v1)) (take_bit 4 (uint v2)) (uint c)) 4"
    using alu_op_int [of "take_bit 4 (uint v1)" "take_bit 4 (uint v2)" "uint c"]
    by (simp add: f_def bit_do_alu_flags and_low_nibble bit_word_of_int_iff)
  have "n < LENGTH('a) \<Longrightarrow> n < 32" for n
    using assms(1) by simp
  then have "(word_of_int x :: u32) AND mask N = 0 \<longleftrightarrow> (word_of_int x :: 'a word) = 0"
    by (auto simp: N_def bit_eq_iff bit_simps)
  then show "bit f 6 \<longleftrightarrow> (word_of_int x :: 'a word) = 0"
    by (simp add: f_def bit_do_alu_flags op T_minus_one_def N_def)
  show "bit f 7 \<longleftrightarrow> bit x (N - 1)"
    using assms(1) by (simp add: f_def bit_do_alu_flags op bit_word_of_int_iff N_def)
  show "bit f 11 \<longleftrightarrow>
      bit (iop (take_bit (N - 1) (uint v1)) (take_bit (N - 1) (uint v2)) (uint c)) (N - 1) \<noteq> bit x N"
    using assms(1) alu_op_int [of "take_bit (N - 1) (uint v1)" "take_bit (N - 1) (uint v2)" "uint c"]
    by (simp add: f_def bit_do_alu_flags op and_not_top [simplified] bit_word_of_int_iff N_def)
  show "n \<notin> {0, 2, 4, 6, 7, 11} \<Longrightarrow> bit f n \<longleftrightarrow> bit (get_flags r) n"
    by (simp add: f_def bit_do_alu_flags)
qed

end

interpretation alu_add: alu_operation "\<lambda>a b c. a + b + c" "\<lambda>a b c. a + b + c"
  by unfold_locales simp

interpretation alu_sub: alu_operation "\<lambda>a b c. a - b - c" "\<lambda>a b c. a - b - c"
  by unfold_locales simp

interpretation alu_and: alu_operation "\<lambda>a b c. a AND b" "\<lambda>a b c. a AND b"
  by unfold_locales (simp add: bit_eq_iff bit_simps)

interpretation alu_or: alu_operation "\<lambda>a b c. a OR b" "\<lambda>a b c. a OR b"
  by unfold_locales (simp add: bit_eq_iff bit_simps)

interpretation alu_xor: alu_operation "\<lambda>a b c. a XOR b" "\<lambda>a b c. a XOR b"
  by unfold_locales (simp add: bit_eq_iff bit_simps)

section \<open>Addition and subtraction against the integers\<close>

text \<open>
  The reference: what the six status flags of an addition or a subtraction of \<open>N\<close>-bit operands mean,
  stated on the unsigned and the signed integers the operands denote.
\<close>

definition signed_overflow :: "'a::len itself \<Rightarrow> int \<Rightarrow> bool" where
  "signed_overflow T x \<longleftrightarrow> x < - (2 ^ (LENGTH('a) - 1)) \<or> 2 ^ (LENGTH('a) - 1) \<le> x"

lemma bit_carry: "0 \<le> x \<Longrightarrow> x < 2 ^ Suc n \<Longrightarrow> bit x n \<longleftrightarrow> 2 ^ n \<le> x" for x :: int
proof -
  assume x: "0 \<le> x" "x < 2 ^ Suc n"
  show ?thesis
  proof (cases "2 ^ n \<le> x")
    case True
    with x have "x div 2 ^ n = 1" by (intro int_div_pos_eq [where r = "x - 2 ^ n"]) auto
    with True show ?thesis by (simp add: bit_int_odd_div)
  next
    case False
    with x show ?thesis by (simp add: bit_int_odd_div)
  qed
qed

lemma bit_borrow: "- (2 ^ n) \<le> x \<Longrightarrow> x < 2 ^ n \<Longrightarrow> bit x n \<longleftrightarrow> x < 0" for x :: int
proof -
  assume x: "- (2 ^ n) \<le> x" "x < 2 ^ n"
  show ?thesis
  proof (cases "x < 0")
    case True
    with x have "x div 2 ^ n = -1" by (intro int_div_pos_eq [where r = "x + 2 ^ n"]) auto
    with True show ?thesis by (simp add: bit_int_odd_div)
  next
    case False
    with x show ?thesis by (simp add: bit_int_odd_div)
  qed
qed

lemma two_power_length: "(2 :: int) ^ LENGTH('a::len) = 2 * 2 ^ (LENGTH('a) - 1)"
  by (metis Suc_diff_1 len_gt_0 power_Suc)

lemma take_bit_uint: "take_bit LENGTH('a) (uint v) = uint v" for v :: "'a::len word"
  using uint_bounded [of v] by (simp add: take_bit_int_eq_self)

lemma uint_split: "uint v = take_bit (LENGTH('a) - 1) (uint v)
    + 2 ^ (LENGTH('a) - 1) * of_bool (bit v (LENGTH('a) - 1))" for v :: "'a::len word"
  using take_bit_Suc_from_most [of "LENGTH('a) - 1" "uint v"]
  by (simp add: bit_uint_iff take_bit_uint)

lemma sint_split: "sint v = take_bit (LENGTH('a) - 1) (uint v)
    - 2 ^ (LENGTH('a) - 1) * of_bool (bit v (LENGTH('a) - 1))" for v :: "'a::len word"
proof -
  have "sint v = uint v - 2 ^ LENGTH('a) * of_bool (bit v (LENGTH('a) - 1))"
    using signed_take_bit_eq_take_bit_minus [of "LENGTH('a) - 1" "uint v"]
    by (simp add: sint_uint bit_uint_iff take_bit_uint)
  moreover have "(2 :: int) ^ LENGTH('a) * of_bool (bit v (LENGTH('a) - 1)) =
      2 * (2 ^ (LENGTH('a) - 1) * of_bool (bit v (LENGTH('a) - 1)))"
    by (simp add: two_power_length)
  ultimately show ?thesis using uint_split [of v] by linarith
qed

lemma take_top_bounds:
  "0 \<le> take_bit (LENGTH('a) - 1) (uint v)" "take_bit (LENGTH('a) - 1) (uint v) < 2 ^ (LENGTH('a) - 1)"
  for v :: "'a::len word"
  by simp_all

lemma uint_le_1: "uint (c :: u16) \<le> 1 \<Longrightarrow> uint c = 0 \<or> uint c = 1"
  using uint_ge_0 [of c] by linarith

lemma overflow_add_arith:
  fixes a b c H :: int
  assumes "0 \<le> a" "a < H" "0 \<le> b" "b < H" "0 \<le> c" "c \<le> 1"
  shows "((H \<le> a + b + c) \<noteq> (2 * H \<le> (a + H * of_bool p) + (b + H * of_bool q) + c)) \<longleftrightarrow>
    (a - H * of_bool p) + (b - H * of_bool q) + c < - H \<or> H \<le> (a - H * of_bool p) + (b - H * of_bool q) + c"
  using assms by (cases p; cases q) auto

lemma overflow_sub_arith:
  fixes a b c H :: int
  assumes "0 \<le> a" "a < H" "0 \<le> b" "b < H" "0 \<le> c" "c \<le> 1"
  shows "((a - b - c < 0) \<noteq> ((a + H * of_bool p) - (b + H * of_bool q) - c < 0)) \<longleftrightarrow>
    (a - H * of_bool p) - (b - H * of_bool q) - c < - H \<or> H \<le> (a - H * of_bool p) - (b - H * of_bool q) - c"
  using assms by (cases p; cases q) auto

text \<open>The carry into the sign bit differs from the carry out exactly on signed overflow.\<close>

lemma overflow_add:
  fixes v1 v2 :: "'a::len word"
  assumes "0 \<le> c" "c \<le> 1"
  shows "(bit (take_bit (LENGTH('a) - 1) (uint v1) + take_bit (LENGTH('a) - 1) (uint v2) + c) (LENGTH('a) - 1)
      \<noteq> bit (uint v1 + uint v2 + c) LENGTH('a)) \<longleftrightarrow> signed_overflow TYPE('a) (sint v1 + sint v2 + c)"
proof -
  let ?H = "(2 :: int) ^ (LENGTH('a) - 1)"
  let ?a = "take_bit (LENGTH('a) - 1) (uint v1)" and ?b = "take_bit (LENGTH('a) - 1) (uint v2)"
  have "0 \<le> ?a + ?b + c" "?a + ?b + c < 2 * ?H"
    using take_top_bounds [of v1] take_top_bounds [of v2] assms by linarith+
  then have A: "bit (?a + ?b + c) (LENGTH('a) - 1) \<longleftrightarrow> ?H \<le> ?a + ?b + c"
    using bit_carry [of "?a + ?b + c" "LENGTH('a) - 1", unfolded power_Suc] by blast
  have "0 \<le> uint v1 + uint v2 + c" "uint v1 + uint v2 + c < 2 * 2 ^ LENGTH('a)"
    using uint_bounded [of v1] uint_bounded [of v2] uint_ge_0 [of v1] uint_ge_0 [of v2] assms
    by linarith+
  then have B: "bit (uint v1 + uint v2 + c) LENGTH('a) \<longleftrightarrow> 2 * ?H \<le> uint v1 + uint v2 + c"
    unfolding two_power_length [symmetric]
    using bit_carry [of "uint v1 + uint v2 + c" "LENGTH('a)", unfolded power_Suc] by blast
  have C: "uint v1 + uint v2 + c =
      (?a + ?H * of_bool (bit v1 (LENGTH('a) - 1))) + (?b + ?H * of_bool (bit v2 (LENGTH('a) - 1))) + c"
    using uint_split [of v1] uint_split [of v2] by linarith
  show ?thesis
    unfolding A B
    unfolding C signed_overflow_def sint_split [of v1] sint_split [of v2]
    by (rule overflow_add_arith) (use take_top_bounds [of v1] take_top_bounds [of v2] assms in auto)
qed

lemma overflow_sub:
  fixes v1 v2 :: "'a::len word"
  assumes "0 \<le> c" "c \<le> 1"
  shows "(bit (take_bit (LENGTH('a) - 1) (uint v1) - take_bit (LENGTH('a) - 1) (uint v2) - c) (LENGTH('a) - 1)
      \<noteq> bit (uint v1 - uint v2 - c) LENGTH('a)) \<longleftrightarrow> signed_overflow TYPE('a) (sint v1 - sint v2 - c)"
proof -
  let ?H = "(2 :: int) ^ (LENGTH('a) - 1)"
  let ?a = "take_bit (LENGTH('a) - 1) (uint v1)" and ?b = "take_bit (LENGTH('a) - 1) (uint v2)"
  have "- ?H \<le> ?a - ?b - c" "?a - ?b - c < ?H"
    using take_top_bounds [of v1] take_top_bounds [of v2] assms by linarith+
  then have A: "bit (?a - ?b - c) (LENGTH('a) - 1) \<longleftrightarrow> ?a - ?b - c < 0"
    by (rule bit_borrow)
  have "- (2 ^ LENGTH('a)) \<le> uint v1 - uint v2 - c" "uint v1 - uint v2 - c < 2 ^ LENGTH('a)"
    using uint_bounded [of v1] uint_bounded [of v2] uint_ge_0 [of v1] uint_ge_0 [of v2] assms
    by linarith+
  then have B: "bit (uint v1 - uint v2 - c) LENGTH('a) \<longleftrightarrow> uint v1 - uint v2 - c < 0"
    by (rule bit_borrow)
  have C: "uint v1 - uint v2 - c =
      (?a + ?H * of_bool (bit v1 (LENGTH('a) - 1))) - (?b + ?H * of_bool (bit v2 (LENGTH('a) - 1))) - c"
    using uint_split [of v1] uint_split [of v2] by linarith
  show ?thesis
    unfolding A B
    unfolding C signed_overflow_def sint_split [of v1] sint_split [of v2]
    by (rule overflow_sub_arith) (use take_top_bounds [of v1] take_top_bounds [of v2] assms in auto)
qed

lemma ucast_via_u16: "LENGTH('a) \<le> 16 \<Longrightarrow> (ucast (ucast v :: u16) :: u32) = ucast v"
  for v :: "'a::len word"
  by (rule bit_word_eqI) (auto simp: bit_simps dest: bit_imp_le_length)

lemma flag_mask_bits:
  "(f AND CF = 0) = (\<not> bit f 0)" "(f AND PF = 0) = (\<not> bit f 2)" "(f AND AF = 0) = (\<not> bit f 4)"
  "(f AND ZF = 0) = (\<not> bit f 6)" "(f AND SF = 0) = (\<not> bit f 7)" "(f AND OF = 0) = (\<not> bit f 11)"
  unfolding flag_defs using and_exp_nonzero [of f] by metis+

text \<open>
  The reference for the flags that depend on the result only, and for the flags an operation of the
  unit must leave as they are.
\<close>

definition result_flags :: "u16 \<Rightarrow> 'a::len word \<Rightarrow> bool" where
  "result_flags f result \<longleftrightarrow>
     ((f AND SF \<noteq> 0) \<longleftrightarrow> sint result < 0) \<and>
     ((f AND ZF \<noteq> 0) \<longleftrightarrow> result = 0) \<and>
     ((f AND PF \<noteq> 0) \<longleftrightarrow> even (card {n. n < 8 \<and> bit result n}))"

definition other_flags_kept :: "u16 \<Rightarrow> RegisterFile \<Rightarrow> bool" where
  "other_flags_kept f r \<longleftrightarrow>
     f AND NOT (OF OR SF OR ZF OR AF OR CF OR PF) = get_flags r AND NOT (OF OR SF OR ZF OR AF OR CF OR PF)"

lemma builtin_parity_card:
  "builtin_parity (ucast w :: u8) \<longleftrightarrow> odd (card {n. n < 8 \<and> bit w n})" for w :: "'a::len word"
proof -
  have "{n. n < 8 \<and> bit w n} = set (filter (bit (ucast w :: u8)) [0..<8])"
    by (auto simp: bit_simps dest: bit_imp_le_length)
  then have "card {n. n < 8 \<and> bit w n} = length (filter (bit (ucast w :: u8)) [0..<8])"
    by (simp only: distinct_card distinct_filter distinct_upt)
  then show ?thesis by (simp add: builtin_parity_def)
qed

lemma sint_negative: "sint w < 0 \<longleftrightarrow> bit w (LENGTH('a) - 1)" for w :: "'a::len word"
  by (simp add: bit_last_iff)

lemma result_flagsI:
  fixes x :: int
  assumes "bit f 2 \<longleftrightarrow> \<not> builtin_parity (ucast (word_of_int x :: 'a::len word) :: u8)"
    "bit f 6 \<longleftrightarrow> (word_of_int x :: 'a word) = 0" "bit f 7 \<longleftrightarrow> bit x (LENGTH('a) - 1)"
  shows "result_flags f (word_of_int x :: 'a word)"
  using assms builtin_parity_card [of "word_of_int x :: 'a word"]
  unfolding result_flags_def flag_mask_bits sint_negative bit_word_of_int_iff by simp

lemma other_flags_keptI:
  "(\<And>n. n \<notin> {0, 2, 4, 6, 7, 11} \<Longrightarrow> bit f n \<longleftrightarrow> bit (get_flags r) n) \<Longrightarrow> other_flags_kept f r"
  unfolding other_flags_kept_def by (rule bit_word_eqI) (auto simp: bit_simps)

lemma carry_bounds: "(c :: u16) \<le> 1 \<Longrightarrow> 0 \<le> uint c \<and> uint c \<le> 1"
  by (simp add: word_le_def)

lemma nibble_bounds: "0 \<le> take_bit 4 x \<and> take_bit 4 x < (16 :: int)"
  using take_bit_int_less_exp [of 4 x] by simp

lemma nibble_borrow: "- 16 \<le> x \<Longrightarrow> x < 16 \<Longrightarrow> bit x 4 \<longleftrightarrow> x < 0" for x :: int
  using bit_borrow [of 4 x] by simp

lemma word_of_int_add3: "(word_of_int (uint v1 + uint v2 + uint (c :: u16)) :: 'a::len word) = v1 + v2 + ucast c"
  for v1 v2 :: "'a::len word" by simp

lemma word_of_int_sub3: "(word_of_int (uint v1 - uint v2 - uint (c :: u16)) :: 'a::len word) = v1 - v2 - ucast c"
  for v1 v2 :: "'a::len word" by simp

lemma do_add_spec:
  fixes v1 v2 :: "'a::len word" and c :: u16
  assumes "8 \<le> LENGTH('a)" "LENGTH('a) \<le> 16" "c \<le> 1"
  shows "case do_add r (ucast v1) (ucast v2) c of (f, result :: 'a word) \<Rightarrow>
      result = v1 + v2 + ucast c \<and>
      ((f AND CF \<noteq> 0) \<longleftrightarrow> 2 ^ LENGTH('a) \<le> uint v1 + uint v2 + uint c) \<and>
      ((f AND OF \<noteq> 0) \<longleftrightarrow> signed_overflow TYPE('a) (sint v1 + sint v2 + uint c)) \<and>
      ((f AND AF \<noteq> 0) \<longleftrightarrow> 16 \<le> uint v1 mod 16 + uint v2 mod 16 + uint c) \<and>
      result_flags f result \<and> other_flags_kept f r"
proof -
  let ?x = "uint v1 + uint v2 + uint c"
  let ?d = "do_alu r False (ucast v1) (ucast v2) (ucast c) (\<lambda>a b c. a + b + c) :: u16 \<times> 'a word"
  have d: "do_add r (ucast v1) (ucast v2) c = ?d"
    using assms by (simp add: do_add_def ucast_via_u16)
  note F = alu_add.do_alu_flags [OF assms(2,1), where r = r and ?v1.0 = v1 and ?v2.0 = v2 and c = c]
  have res: "snd ?d = word_of_int ?x"
    using assms by (intro alu_add.do_alu_result) simp
  have cf: "bit ?x LENGTH('a) \<longleftrightarrow> 2 ^ LENGTH('a) \<le> ?x"
    using carry_bounds [OF assms(3)] uint_bounded [of v1] uint_bounded [of v2] uint_ge_0 [of v1] uint_ge_0 [of v2]
    by (intro bit_carry) (simp_all only: power_Suc, linarith+)
  have af: "bit (take_bit 4 (uint v1) + take_bit 4 (uint v2) + uint c) 4 \<longleftrightarrow>
      16 \<le> take_bit 4 (uint v1) + take_bit 4 (uint v2) + uint c"
    using carry_bounds [OF assms(3)] nibble_bounds [of "uint v1"] nibble_bounds [of "uint v2"]
      bit_carry [of "take_bit 4 (uint v1) + take_bit 4 (uint v2) + uint c" 4] by simp
  have ovf: "bit (fst ?d) 11 \<longleftrightarrow> signed_overflow TYPE('a) (sint v1 + sint v2 + uint c)"
    unfolding F(6) using carry_bounds [OF assms(3)] by (intro overflow_add) auto
  have rf: "result_flags (fst ?d) (word_of_int ?x :: 'a word)"
    using F(2,4,5) by (rule result_flagsI)
  have ok: "other_flags_kept (fst ?d) r"
    using F(7) by (rule other_flags_keptI)
  show ?thesis
    unfolding case_prod_beta d flag_mask_bits res using F(1) F(3) cf af ovf rf ok
    unfolding word_of_int_add3 by (simp add: take_bit_eq_mod)
qed

text \<open>
  C1. Addition: for 8- and 16-bit operands and a carry of 0 or 1, \<open>do_add\<close> returns the wrapped sum;
  CF is the unsigned overflow, OF the signed overflow, AF the carry out of the low nibble; SF, ZF and PF
  describe the result, and the flags that are not status flags are those of the register file.
\<close>

theorem do_add_correct:
  fixes v1 v2 :: "'a::len word" and c :: u16
  assumes "8 \<le> LENGTH('a)" "LENGTH('a) \<le> 16" "c \<le> 1"
  shows "case do_add r (ucast v1) (ucast v2) c of (f, result :: 'a word) \<Rightarrow>
      result = v1 + v2 + ucast c \<and>
      ((f AND CF \<noteq> 0) \<longleftrightarrow> 2 ^ LENGTH('a) \<le> uint v1 + uint v2 + uint c) \<and>
      ((f AND OF \<noteq> 0) \<longleftrightarrow> signed_overflow TYPE('a) (sint v1 + sint v2 + uint c)) \<and>
      ((f AND AF \<noteq> 0) \<longleftrightarrow> 16 \<le> uint v1 mod 16 + uint v2 mod 16 + uint c) \<and>
      result_flags f result \<and> other_flags_kept f r"
  using assms by (rule do_add_spec)

theorem do_add_correct_witness:
  "snd (do_add (RegisterFile_new False) 0x7f 0x01 0 :: u16 \<times> u8) = 0x80 \<and>
   fst (do_add (RegisterFile_new False) 0x7f 0x01 0 :: u16 \<times> u8) AND OF \<noteq> 0 \<and>
   fst (do_add (RegisterFile_new False) 0x7f 0x01 0 :: u16 \<times> u8) AND CF = 0"
  using do_add_correct [where r = "RegisterFile_new False" and ?v1.0 = "0x7f :: u8" and ?v2.0 = "0x01" and c = 0]
  by (simp add: case_prod_beta signed_overflow_def)

lemma do_sub_spec:
  fixes v1 v2 :: "'a::len word" and c :: u16
  assumes "8 \<le> LENGTH('a)" "LENGTH('a) \<le> 16" "c \<le> 1"
  shows "case do_sub r (ucast v1) (ucast v2) c of (f, result :: 'a word) \<Rightarrow>
      result = v1 - v2 - ucast c \<and>
      ((f AND CF \<noteq> 0) \<longleftrightarrow> uint v1 < uint v2 + uint c) \<and>
      ((f AND OF \<noteq> 0) \<longleftrightarrow> signed_overflow TYPE('a) (sint v1 - sint v2 - uint c)) \<and>
      ((f AND AF \<noteq> 0) \<longleftrightarrow> uint v1 mod 16 < uint v2 mod 16 + uint c) \<and>
      result_flags f result \<and> other_flags_kept f r"
proof -
  let ?x = "uint v1 - uint v2 - uint c"
  let ?d = "do_alu r False (ucast v1) (ucast v2) (ucast c) (\<lambda>a b c. a - b - c) :: u16 \<times> 'a word"
  have d: "do_sub r (ucast v1) (ucast v2) c = ?d"
    using assms by (simp add: do_sub_def ucast_via_u16)
  note F = alu_sub.do_alu_flags [OF assms(2,1), where r = r and ?v1.0 = v1 and ?v2.0 = v2 and c = c]
  have res: "snd ?d = word_of_int ?x"
    using assms by (intro alu_sub.do_alu_result) simp
  have cf: "bit ?x LENGTH('a) \<longleftrightarrow> ?x < 0"
    using carry_bounds [OF assms(3)] uint_bounded [of v1] uint_bounded [of v2] uint_ge_0 [of v1] uint_ge_0 [of v2]
    by (intro bit_borrow; linarith)
  have af: "bit (take_bit 4 (uint v1) - take_bit 4 (uint v2) - uint c) 4 \<longleftrightarrow>
      take_bit 4 (uint v1) - take_bit 4 (uint v2) - uint c < 0"
    using carry_bounds [OF assms(3)] nibble_bounds [of "uint v1"] nibble_bounds [of "uint v2"]
    by (intro nibble_borrow) linarith+
  have ovf: "bit (fst ?d) 11 \<longleftrightarrow> signed_overflow TYPE('a) (sint v1 - sint v2 - uint c)"
    unfolding F(6) using carry_bounds [OF assms(3)] by (intro overflow_sub) auto
  have rf: "result_flags (fst ?d) (word_of_int ?x :: 'a word)"
    using F(2,4,5) by (rule result_flagsI)
  have ok: "other_flags_kept (fst ?d) r"
    using F(7) by (rule other_flags_keptI)
  show ?thesis
    unfolding case_prod_beta d flag_mask_bits res using F(1) F(3) cf af ovf rf ok
    unfolding word_of_int_sub3 by (auto simp: take_bit_eq_mod)
qed

text \<open>
  C2. Subtraction: \<open>do_sub\<close> returns the wrapped difference; CF is the unsigned borrow, OF the signed
  overflow, AF the borrow of the low nibble; SF, ZF and PF describe the result.
\<close>

theorem do_sub_correct:
  fixes v1 v2 :: "'a::len word" and c :: u16
  assumes "8 \<le> LENGTH('a)" "LENGTH('a) \<le> 16" "c \<le> 1"
  shows "case do_sub r (ucast v1) (ucast v2) c of (f, result :: 'a word) \<Rightarrow>
      result = v1 - v2 - ucast c \<and>
      ((f AND CF \<noteq> 0) \<longleftrightarrow> uint v1 < uint v2 + uint c) \<and>
      ((f AND OF \<noteq> 0) \<longleftrightarrow> signed_overflow TYPE('a) (sint v1 - sint v2 - uint c)) \<and>
      ((f AND AF \<noteq> 0) \<longleftrightarrow> uint v1 mod 16 < uint v2 mod 16 + uint c) \<and>
      result_flags f result \<and> other_flags_kept f r"
  using assms by (rule do_sub_spec)

theorem do_sub_correct_witness:
  "snd (do_sub (RegisterFile_new False) 0x8000 0x0001 0 :: u16 \<times> u16) = 0x7fff \<and>
   fst (do_sub (RegisterFile_new False) 0x8000 0x0001 0 :: u16 \<times> u16) AND OF \<noteq> 0 \<and>
   fst (do_sub (RegisterFile_new False) 0x8000 0x0001 0 :: u16 \<times> u16) AND CF = 0"
  using do_sub_correct [where r = "RegisterFile_new False" and ?v1.0 = "0x8000 :: u16" and ?v2.0 = "0x0001" and c = 0]
  by (simp add: case_prod_beta signed_overflow_def)

text \<open>After a subtraction the sign and the overflow together decide the signed order.\<close>

lemma sint_diff_sign:
  fixes a b :: "'a::len word"
  shows "((sint (a - b) < 0) \<noteq> signed_overflow TYPE('a) (sint a - sint b)) \<longleftrightarrow> sint a < sint b"
proof -
  let ?H = "(2 :: int) ^ (LENGTH('a) - 1)"
  have r: "- ?H \<le> sint w" "sint w < ?H" for w :: "'a word"
    using sint_range_size [of w] by (simp_all add: word_size)
  have "word_of_int (sint (a - b)) = (word_of_int (sint a - sint b) :: 'a word)"
    by simp
  then have "(sint (a - b)) mod 2 ^ LENGTH('a) = (sint a - sint b) mod 2 ^ LENGTH('a)"
    by (simp only: word_of_int_eq_iff take_bit_eq_mod)
  then obtain k where "sint (a - b) = sint a - sint b + 2 ^ LENGTH('a) * k"
    by (metis mod_eqE add_diff_cancel_left' diff_add_eq minus_mult_right uminus_add_conv_diff)
  then have k: "sint (a - b) = sint a - sint b + 2 * ?H * k"
    by (simp only: two_power_length)
  have "0 < ?H" by simp
  have "k < 2"
  proof (rule ccontr)
    assume "\<not> k < 2"
    then have "2 * ?H * 2 \<le> 2 * ?H * k" using \<open>0 < ?H\<close> by (intro mult_left_mono) auto
    with k r[of a] r[of b] r[of "a - b"] show False by linarith
  qed
  moreover have "- 2 < k"
  proof (rule ccontr)
    assume "\<not> - 2 < k"
    then have "2 * ?H * k \<le> 2 * ?H * (- 2)" using \<open>0 < ?H\<close> by (intro mult_left_mono) auto
    with k r[of a] r[of b] r[of "a - b"] show False by linarith
  qed
  ultimately have "k = - 1 \<or> k = 0 \<or> k = 1" by linarith
  then show ?thesis
    using k r[of a] r[of b] r[of "a - b"] unfolding signed_overflow_def by auto
qed

section \<open>The bitwise operations\<close>

lemma logic_no_carry:
  fixes v1 v2 :: "'a::len word"
  shows "\<not> bit (uint v1 AND uint v2) LENGTH('a)" "\<not> bit (uint v1 OR uint v2) LENGTH('a)"
    "\<not> bit (uint v1 XOR uint v2) LENGTH('a)"
  by (simp_all add: bit_simps bit_uint_iff)

lemma logic_no_top:
  "\<not> bit (take_bit n x AND take_bit n y) n" "\<not> bit (take_bit n x OR take_bit n y) n"
  "\<not> bit (take_bit n x XOR take_bit n y) n" for x y :: int
  by (simp_all add: bit_simps)

lemma logic_word_of_int:
  fixes v1 v2 :: "'a::len word"
  shows "word_of_int (uint v1 AND uint v2) = v1 AND v2" "word_of_int (uint v1 OR uint v2) = v1 OR v2"
    "word_of_int (uint v1 XOR uint v2) = v1 XOR v2"
  by (auto simp: bit_eq_iff bit_simps)

lemmas logic_facts = logic_no_carry logic_no_top logic_word_of_int

text \<open>What the three bitwise instances have in common, for any operation of the contract.\<close>

context alu_operation
begin

lemma logic_flags:
  fixes v1 v2 :: "'a::len word"
  assumes "8 \<le> LENGTH('a)" "LENGTH('a) \<le> 16"
    and "\<And>n. \<not> bit (iop (take_bit n (uint v1)) (take_bit n (uint v2)) 0) n"
    and "\<not> bit (iop (uint v1) (uint v2) 0) LENGTH('a)"
  shows "case do_alu r False (ucast v1) (ucast v2) 0 alu_op of (f, result :: 'a word) \<Rightarrow>
      result = word_of_int (iop (uint v1) (uint v2) 0) \<and> f AND CF = 0 \<and> f AND OF = 0 \<and> f AND AF = 0 \<and>
      result_flags f result \<and> other_flags_kept f r"
proof -
  let ?d = "do_alu r False (ucast v1) (ucast v2) (ucast (0 :: u16)) alu_op :: u16 \<times> 'a word"
  note F = do_alu_flags [OF assms(2,1), where r = r and ?v1.0 = v1 and ?v2.0 = v2 and c = 0, unfolded unsigned_0]
  have res: "snd ?d = word_of_int (iop (uint v1) (uint v2) (uint (0 :: u16)))"
    using assms by (intro do_alu_result) simp
  have z: "\<not> bit (fst ?d) 0" "\<not> bit (fst ?d) 4" "\<not> bit (fst ?d) 11"
    using F(1,3,6) assms(3)[of 4] assms(3)[of "LENGTH('a) - 1"] assms(4) by simp_all
  have "result_flags (fst ?d) (word_of_int (iop (uint v1) (uint v2) 0) :: 'a word)"
    using F(2,4,5) by (intro result_flagsI) simp_all
  moreover have "other_flags_kept (fst ?d) r"
    using F(7) by (intro other_flags_keptI) simp
  ultimately show ?thesis
    using res z by (simp add: case_prod_beta flag_mask_bits)
qed

end

lemma do_logic_spec:
  fixes v1 v2 :: "'a::len word"
  assumes "8 \<le> LENGTH('a)" "LENGTH('a) \<le> 16"
    and "(op, spec) \<in> {(do_and, (AND)), (do_or, (OR)), (do_xor, (XOR))}"
  shows "case op r (ucast v1) (ucast v2) of (f, result :: 'a word) \<Rightarrow>
      result = spec v1 v2 \<and> f AND CF = 0 \<and> f AND OF = 0 \<and> f AND AF = 0 \<and> result_flags f result \<and> other_flags_kept f r"
  using assms(3) alu_and.logic_flags [OF assms(1,2), of v1 v2 r] alu_or.logic_flags [OF assms(1,2), of v1 v2 r]
    alu_xor.logic_flags [OF assms(1,2), of v1 v2 r]
  by (auto simp: do_and_def do_or_def do_xor_def ucast_via_u16 [OF assms(2)] logic_facts)

text \<open>
  The bitwise operations return the bitwise result with CF, OF and AF clear, SF, ZF and PF
  describing the result and the other flags unchanged.
\<close>

theorem do_logic_correct:
  fixes v1 v2 :: "'a::len word"
  assumes "8 \<le> LENGTH('a)" "LENGTH('a) \<le> 16"
    and "(op, spec) \<in> {(do_and, (AND)), (do_or, (OR)), (do_xor, (XOR))}"
  shows "case op r (ucast v1) (ucast v2) of (f, result :: 'a word) \<Rightarrow>
      result = spec v1 v2 \<and> f AND CF = 0 \<and> f AND OF = 0 \<and> f AND AF = 0 \<and> result_flags f result \<and> other_flags_kept f r"
  using assms by (rule do_logic_spec)

theorem do_logic_correct_witness:
  "snd (do_xor (RegisterFile_new False) 0xff 0x0f :: u16 \<times> u8) = 0xf0"
  using do_logic_correct [where op = do_xor and spec = "(XOR)" and r = "RegisterFile_new False"
      and ?v1.0 = "0xff :: u8" and ?v2.0 = "0x0f"]
  by (simp add: case_prod_beta)

end
