(* ===== verification/EmuInv.thy ===== *)
theory EmuInv
  imports EmuRun ALU
begin

text \<open>
  What every instruction keeps. The handlers change the emulator only through a handful of updates:
  \<open>RegisterFile::set\<close> and \<open>set_flags\<close>, memory writes, the decoder, the fields the control unit keeps,
  and the state of the devices. The locale \<open>emu_invariant\<close> is that contract for a predicate on states:
  its laws say the predicate survives each of those updates, its lemmas that it then survives the
  helpers, and (in the theories of the instructions) every handler, and finally a whole step.
  It is interpreted with the stuck bits of the flags register and with the parts of the state that
  are configuration.
\<close>

named_theorems inv_intros \<open>introduction rules that follow the syntax of a handler\<close>

lemma pred_option_SomeI [inv_intros]: "P x \<Longrightarrow> pred_option P (Some x)"
  by simp

lemma pred_option_NoneI [inv_intros]: "pred_option P None"
  by simp

lemma pred_option_ifI [inv_intros]:
  "(b \<Longrightarrow> pred_option P x) \<Longrightarrow> (\<not> b \<Longrightarrow> pred_option P y) \<Longrightarrow> pred_option P (if b then x else y)"
  by simp

lemma pred_option_case_prodI [inv_intros]:
  "(\<And>a b. pred_option P (f a b)) \<Longrightarrow> pred_option P (case x of (a, b) \<Rightarrow> f a b)"
  by (cases x) simp

text \<open>Binding a value that carries no state.\<close>

lemma bind_pure: "(\<And>v. pred_option P (f v)) \<Longrightarrow> pred_option P (m \<bind> f)"
  by (cases m) auto

lemma bind_word [inv_intros]: "(\<And>v. pred_option P (f v)) \<Longrightarrow> pred_option P (m \<bind> f)"
  for m :: "'a::len word option" by (rule bind_pure)

lemma bind_nat [inv_intros]: "(\<And>v. pred_option P (f v)) \<Longrightarrow> pred_option P (m \<bind> f)"
  for m :: "nat option" by (rule bind_pure)

lemma bind_GPR [inv_intros]: "(\<And>v. pred_option P (f v)) \<Longrightarrow> pred_option P (m \<bind> f)"
  for m :: "GPR option" by (rule bind_pure)

lemma bind_OperandType [inv_intros]: "(\<And>v. pred_option P (f v)) \<Longrightarrow> pred_option P (m \<bind> f)"
  for m :: "OperandType option" by (rule bind_pure)

lemma bind_Memory [inv_intros]: "(\<And>v. pred_option P (f v)) \<Longrightarrow> pred_option P (m \<bind> f)"
  for m :: "Memory option" by (rule bind_pure)

locale emu_invariant =
  fixes I :: "'d emu \<Rightarrow> bool"
  assumes inv_reg_set: "I s \<Longrightarrow> I (s\<lparr>regs := reg_set (regs s) x v\<rparr>)"
    and inv_set_flags: "I s \<Longrightarrow> I (s\<lparr>regs := set_flags (regs s) f m\<rparr>)"
    and inv_mem: "I s \<Longrightarrow> I (s\<lparr>mem := mm\<rparr>)"
    and inv_instr_length: "I s \<Longrightarrow> I (s\<lparr>instr_length := n\<rparr>)"
    and inv_modrm_decoder: "I s \<Longrightarrow> I (s\<lparr>modrm_decoder := d\<rparr>)"
    and inv_opcode: "I s \<Longrightarrow> I (s\<lparr>opcode := oc\<rparr>)"
    and inv_jump_taken: "I s \<Longrightarrow> I (s\<lparr>jump_taken := b\<rparr>)"
    and inv_segment: "I s \<Longrightarrow> I (s\<lparr>default_segment_overriden := b\<rparr>)"
      "I s \<Longrightarrow> I (s\<lparr>override_segment := g\<rparr>)"
    and inv_rep: "I s \<Longrightarrow> I (s\<lparr>rep_mode := rm\<rparr>)" "I s \<Longrightarrow> I (s\<lparr>has_rep_prefix := b\<rparr>)"
    and inv_lines: "I s \<Longrightarrow> I (s\<lparr>nmi_pending := b\<rparr>)" "I s \<Longrightarrow> I (s\<lparr>ext_int_inhibit := b\<rparr>)"
      "I s \<Longrightarrow> I (s\<lparr>pending_irq := q\<rparr>)" "I s \<Longrightarrow> I (s\<lparr>tf_was_set := b\<rparr>)"
    and inv_devs: "I s \<Longrightarrow> I (s\<lparr>devs := dd\<rparr>)"
begin

text \<open>Binding a new state, and a value with a new state.\<close>

lemma bind_state:
  "pred_option I m \<Longrightarrow> (\<And>s. I s \<Longrightarrow> pred_option P (f s)) \<Longrightarrow> pred_option P (m \<bind> f)"
  by (rule pred_option_bind)

lemma bind_value_state:
  "pred_option (\<lambda>(v, s). I s) m \<Longrightarrow> (\<And>v s. I s \<Longrightarrow> pred_option P (f v s)) \<Longrightarrow>
     pred_option P (m \<bind> (\<lambda>(v, s). f v s))"
  by (cases m) auto

lemma value_state: "I s \<Longrightarrow> case (v, s) of (v, s) \<Rightarrow> I s"
  by simp

lemmas inv_binds = bind_state bind_value_state value_state inv_intros

lemmas inv_updates = inv_reg_set inv_set_flags inv_mem inv_instr_length inv_modrm_decoder inv_opcode
  inv_jump_taken inv_segment inv_rep inv_lines inv_devs

lemma inv_fetch_byte: "I s \<Longrightarrow> pred_option (\<lambda>(v, s). I s) (fetch_byte s)"
  unfolding fetch_byte_def by (intro inv_binds inv_updates)

lemma inv_fetch_16bit: "I s \<Longrightarrow> pred_option (\<lambda>(v, s). I s) (fetch_16bit s)"
  unfolding fetch_16bit_def by (intro inv_fetch_byte inv_binds)

lemma inv_set_width: "I s \<Longrightarrow> I (set_width s w)"
  unfolding set_width_def by (rule inv_modrm_decoder)

lemma inv_calculate_ea: "I s \<Longrightarrow> pred_option (\<lambda>(v, s). I s) (calculate_effective_address fetch_byte r d s)"
  unfolding calculate_effective_address_def mod00_def mod01_def mod10_def Let_def
  by (intro inv_fetch_byte inv_binds)

lemma inv_effective_address:
  "I s \<Longrightarrow> pred_option (\<lambda>(v, d, s). I s) (effective_address fetch_byte r d s)"
  unfolding effective_address_def using inv_calculate_ea [of s r d]
  by (auto simp: pred_option_iff bind_eq_Some)

lemma inv_decode: "I s \<Longrightarrow> pred_option I (decode s)"
  unfolding decode_def modrm_decode_def Let_def
  using inv_fetch_byte [of s]
  by (auto simp: pred_option_iff bind_eq_Some split: if_splits
      intro!: inv_modrm_decoder dest: inv_effective_address [unfolded pred_option_iff, rule_format, rotated])

lemma inv_ea: "I s \<Longrightarrow> pred_option (\<lambda>(v, s). I s) (ea s)"
  unfolding ea_def using inv_effective_address [of s "regs s" "modrm_decoder s"]
  by (auto simp: pred_option_iff bind_eq_Some intro!: inv_modrm_decoder)

lemma inv_mwrite: "I s \<Longrightarrow> pred_option I (mwrite s a v)"
  unfolding mwrite_def by (intro inv_binds inv_updates)

lemma inv_write_data: "I s \<Longrightarrow> pred_option I (write_data s v st)"
  unfolding write_data_def Let_def
  by (intro inv_ea inv_mwrite inv_binds inv_updates)

lemma inv_read_data: "I s \<Longrightarrow> pred_option (\<lambda>(v, s). I s) (read_data s st :: ('a::len word \<times> 'd emu) option)"
  unfolding read_data_def Let_def
  by (intro inv_ea inv_binds)

lemma inv_push_word: "I s \<Longrightarrow> pred_option I (push_word s v)"
  unfolding push_word_def Let_def by (intro inv_mwrite inv_updates)

lemma inv_pop_word: "I s \<Longrightarrow> pred_option (\<lambda>(v, s). I s) (pop_word s)"
  unfolding pop_word_def Let_def by (intro inv_binds inv_updates)

lemma inv_raise_irqs: "I s \<Longrightarrow> I (foldl raise_irq s irqs)"
  by (induction irqs arbitrary: s) (simp_all add: raise_irq_def inv_lines)

lemma inv_io_call: "I s \<Longrightarrow> pred_option (\<lambda>(v, s). I s) (io_call f s)"
  by (auto simp: io_call_def pred_option_iff bind_eq_Some intro!: inv_raise_irqs inv_devs)

lemma inv_write_io:
  "I s \<Longrightarrow> pred_option I (write_io8 s a b)" "I s \<Longrightarrow> pred_option I (write_io16 s a v)"
  unfolding write_io8_def write_io16_def
  by (auto split: option.split intro!: inv_io_call inv_binds)

lemma inv_read_io:
  "I s \<Longrightarrow> pred_option (\<lambda>(v, s). I s) (read_io8 s a)" "I s \<Longrightarrow> pred_option (\<lambda>(v, s). I s) (read_io16 s a)"
  unfolding read_io8_def read_io16_def
  by (auto split: option.split intro!: inv_io_call)

lemmas inv_helpers = inv_fetch_byte inv_fetch_16bit inv_set_width inv_decode inv_ea inv_mwrite
  inv_write_data inv_read_data inv_push_word inv_pop_word inv_write_io inv_read_io

lemma inv_interrupt_entry: "I s \<Longrightarrow> pred_option I (interrupt_entry s f r v)"
  unfolding interrupt_entry_def Let_def
  by (intro inv_helpers inv_binds inv_updates)

lemma inv_invalid_opcode: "I s \<Longrightarrow> pred_option I (invalid_opcode s)"
  unfolding invalid_opcode_def by (rule inv_interrupt_entry)

text \<open>The repeat loop, by induction over its fixed point.\<close>

lemma inv_rep_loop_Some:
  assumes "rep_loop p t s = Some s'"
  shows "(\<forall>s. I s \<longrightarrow> pred_option I (p s)) \<longrightarrow> I s \<longrightarrow> I s'"
proof (rule rep_loop.raw_induct
    [where P = "\<lambda>p t s s'. (\<forall>s. I s \<longrightarrow> pred_option I (p s)) \<longrightarrow> I s \<longrightarrow> I s'", OF _ assms], intro impI)
  fix loop :: "('d emu \<Rightarrow> 'd emu option) \<Rightarrow> ('d emu \<Rightarrow> bool) \<Rightarrow> 'd emu \<Rightarrow> 'd emu option"
    and p :: "'d emu \<Rightarrow> 'd emu option" and t s s'
  assume IH: "\<And>p t s s'. loop p t s = Some s' \<Longrightarrow> (\<forall>s. I s \<longrightarrow> pred_option I (p s)) \<longrightarrow> I s \<longrightarrow> I s'"
    and body: "(if rget s CX \<noteq> 0 then p s \<bind> (\<lambda>s. let s = rset s CX (rget s CX - 1)
        in if t s then Some s else loop p t s) else Some s) = Some s'"
    and p: "\<forall>s. I s \<longrightarrow> pred_option I (p s)" and "I s"
  have step: "p s = Some s1 \<Longrightarrow> I (rset s1 CX v)" for s1 v
    using p \<open>I s\<close> by (auto simp: pred_option_iff intro: inv_reg_set)
  from body \<open>I s\<close> show "I s'"
    by (auto simp: bind_eq_Some Let_def step split: if_splits dest!: IH [rule_format, OF _ p [rule_format]])
qed

lemma inv_rep_loop:
  "I s \<Longrightarrow> (\<And>s. I s \<Longrightarrow> pred_option I (p s)) \<Longrightarrow> pred_option I (rep_loop p t s)"
  unfolding pred_option_iff [of I "rep_loop p t s"] by (blast intro: inv_rep_loop_Some [rule_format])

lemma inv_do_rep:
  "I s \<Longrightarrow> (\<And>s. I s \<Longrightarrow> pred_option I (p s)) \<Longrightarrow> pred_option I (do_rep p t s)"
  unfolding do_rep_def by (simp add: inv_rep_loop)

lemmas inv_rules = inv_helpers inv_interrupt_entry inv_invalid_opcode inv_do_rep inv_binds inv_updates

end

section \<open>The two instances\<close>

text \<open>The stuck bits of the flags register, and the parts of the state that no instruction changes.\<close>

definition config :: "'d emu \<Rightarrow> bool \<times> bool \<times> (u16 \<rightharpoonup> 'd IOPorts) \<times> (int \<Rightarrow> (unit, 'd) io_op)" where
  "config s = (pseudo_286 (regs s), trap_escape s, io s, inta_handler s)"

interpretation flags_inv: emu_invariant "\<lambda>s. flags_ok (regs s)"
  by unfold_locales simp_all

interpretation config_inv: emu_invariant "\<lambda>s. config s = c" for c
  by unfold_locales (simp_all add: config_def)

end
