(* ===== verification/InsnMov.thy ===== *)
theory InsnMov
  imports EmuInv
begin

text \<open>
  Data movement (mov.cpp, push.cpp, pop.cpp, xchg.cpp, io.cpp, xlat.cpp, lea.cpp, lahf_sahf.cpp,
  cbw.cpp and cwd.cpp of sim/cppmodel/instructions). One definition per handler, under the handler's
  name; a handler is a function from the state to the state it leaves, or \<^term>\<open>None\<close> where an
  assertion fails or a device aborts.
\<close>

text \<open>\<open>static_cast<GPR>(static_cast<int>(base) + n)\<close>\<close>

abbreviation GPR_from :: "GPR \<Rightarrow> nat \<Rightarrow> GPR" where
  "GPR_from base n \<equiv> GPR_of (GPR_val base + n)"

section \<open>mov\<close>

definition mov88 :: "'d emu \<Rightarrow> 'd emu option" where [insn_defs]:
  "mov88 s = do {
     s \<leftarrow> decode (set_width s OP_WIDTH_8);
     source \<leftarrow> mreg s;
     let val = rget s source;
     write_data8 s (ucast val)
   }"

definition mov89 :: "'d emu \<Rightarrow> 'd emu option" where [insn_defs]:
  "mov89 s = do {
     s \<leftarrow> decode (set_width s OP_WIDTH_16);
     source \<leftarrow> mreg s;
     let val = rget s source;
     write_data16 s val
   }"

definition mov8a :: "'d emu \<Rightarrow> 'd emu option" where [insn_defs]:
  "mov8a s = do {
     s \<leftarrow> decode (set_width s OP_WIDTH_8);
     (val, s) \<leftarrow> read_data8 s;
     dest \<leftarrow> mreg s;
     Some (rset s dest (ucast val))
   }"

definition mov8b :: "'d emu \<Rightarrow> 'd emu option" where [insn_defs]:
  "mov8b s = do {
     s \<leftarrow> decode (set_width s OP_WIDTH_16);
     (val, s) \<leftarrow> read_data16 s;
     dest \<leftarrow> mreg s;
     Some (rset s dest val)
   }"

definition movc6 :: "'d emu \<Rightarrow> 'd emu option" where [insn_defs]:
  "movc6 s = do {
     s \<leftarrow> decode (set_width s OP_WIDTH_8);
     n \<leftarrow> rawreg s;
     if n = 0 then do {
       (immed, s) \<leftarrow> fetch_byte s;
       write_data8 s immed
     } else Some s
   }"

definition movc7 :: "'d emu \<Rightarrow> 'd emu option" where [insn_defs]:
  "movc7 s = do {
     s \<leftarrow> decode (set_width s OP_WIDTH_16);
     n \<leftarrow> rawreg s;
     if n = 0 then do {
       (immed, s) \<leftarrow> fetch_16bit s;
       write_data16 s immed
     } else Some s
   }"

definition movb0_b7 :: "'d emu \<Rightarrow> 'd emu option" where [insn_defs]:
  "movb0_b7 s = do {
     (immed, s) \<leftarrow> fetch_byte s;
     let reg = GPR_from AL (unat (opcode s AND 0x7));
     Some (rset s reg (ucast immed))
   }"

definition movb8_bf :: "'d emu \<Rightarrow> 'd emu option" where [insn_defs]:
  "movb8_bf s = do {
     (immed, s) \<leftarrow> fetch_16bit s;
     let reg = GPR_from AX (unat (opcode s AND 0x7));
     Some (rset s reg immed)
   }"

definition mova0 :: "'d emu \<Rightarrow> 'd emu option" where [insn_defs]:
  "mova0 s = do {
     (displacement, s) \<leftarrow> fetch_16bit s;
     let addr = get_phys_addr (rget s (get_segment s False)) (ucast displacement);
     val \<leftarrow> mem_read8 (mem s) addr;
     Some (rset s AL (ucast val))
   }"

definition mova1 :: "'d emu \<Rightarrow> 'd emu option" where [insn_defs]:
  "mova1 s = do {
     (displacement, s) \<leftarrow> fetch_16bit s;
     let addr = get_phys_addr (rget s (get_segment s False)) (ucast displacement);
     val \<leftarrow> mem_read16 (mem s) addr;
     Some (rset s AX val)
   }"

definition mova2 :: "'d emu \<Rightarrow> 'd emu option" where [insn_defs]:
  "mova2 s = do {
     (displacement, s) \<leftarrow> fetch_16bit s;
     let val = rget s AL;
     let addr = get_phys_addr (rget s (get_segment s False)) (ucast displacement);
     mwrite s addr (ucast val :: u8)
   }"

definition mova3 :: "'d emu \<Rightarrow> 'd emu option" where [insn_defs]:
  "mova3 s = do {
     (displacement, s) \<leftarrow> fetch_16bit s;
     let val = rget s AX;
     let addr = get_phys_addr (rget s (get_segment s False)) (ucast displacement);
     mwrite s addr val
   }"

definition mov8e :: "'d emu \<Rightarrow> 'd emu option" where [insn_defs]:
  "mov8e s = do {
     s \<leftarrow> decode (set_width s OP_WIDTH_16);
     (val, s) \<leftarrow> read_data16 s;
     n \<leftarrow> rawreg s;
     let segnum = n AND 0x3;
     let reg = GPR_from ES segnum;
     let s = rset s reg val;
     Some (s\<lparr>ext_int_inhibit := True\<rparr>)
   }"

definition mov8c :: "'d emu \<Rightarrow> 'd emu option" where [insn_defs]:
  "mov8c s = do {
     s \<leftarrow> decode (set_width s OP_WIDTH_16);
     n \<leftarrow> rawreg s;
     let segnum = n AND 0x3;
     let reg = GPR_from ES segnum;
     let val = rget s reg;
     write_data16 s val
   }"

section \<open>push\<close>

definition pushff :: "'d emu \<Rightarrow> 'd emu option" where [insn_defs]:
  "pushff s = do {
     n \<leftarrow> rawreg s;
     if n \<noteq> 6 then None else do {
       let s = rset s SP (rget s SP - 2);
       (val, s) \<leftarrow> read_data16 s;
       let addr = get_phys_addr (rget s SS) (ucast (rget s SP));
       mwrite s addr val
     }
   }"

definition push68 :: "'d emu \<Rightarrow> 'd emu option" where [insn_defs]:
  "push68 s = do {
     (val, s) \<leftarrow> fetch_16bit s;
     let s = rset s SP (rget s SP - 2);
     let addr = get_phys_addr (rget s SS) (ucast (rget s SP));
     mwrite s addr val
   }"

definition push6a :: "'d emu \<Rightarrow> 'd emu option" where [insn_defs]:
  "push6a s = do {
     (b, s) \<leftarrow> fetch_byte s;
     let val = (sign_extend b :: u16);
     let s = rset s SP (rget s SP - 2);
     let addr = get_phys_addr (rget s SS) (ucast (rget s SP));
     mwrite s addr val
   }"

definition push50_57 :: "'d emu \<Rightarrow> 'd emu option" where [insn_defs]:
  "push50_57 s = do {
     let reg = GPR_from AX (unat (opcode s AND 0x7));
     let s = rset s SP (rget s SP - 2);
     let val = rget s reg;
     let addr = get_phys_addr (rget s SS) (ucast (rget s SP));
     mwrite s addr val
   }"

definition pushsr :: "'d emu \<Rightarrow> 'd emu option" where [insn_defs]:
  "pushsr s = do {
     let reg = GPR_from ES (unat (drop_bit 3 (opcode s) AND 0x3));
     let val = rget s reg;
     let s = rset s SP (rget s SP - 2);
     let addr = get_phys_addr (rget s SS) (ucast (rget s SP));
     mwrite s addr val
   }"

definition pushf9c :: "'d emu \<Rightarrow> 'd emu option" where [insn_defs]:
  "pushf9c s = do {
     let val = get_flags (regs s);
     let s = rset s SP (rget s SP - 2);
     let addr = get_phys_addr (rget s SS) (ucast (rget s SP));
     mwrite s addr val
   }"

definition pusha60 :: "'d emu \<Rightarrow> 'd emu option" where [insn_defs]:
  "pusha60 s = do {
     let sp = rget s SP;
     s \<leftarrow> push_word s (rget s AX);
     s \<leftarrow> push_word s (rget s CX);
     s \<leftarrow> push_word s (rget s DX);
     s \<leftarrow> push_word s (rget s BX);
     s \<leftarrow> push_word s sp;
     s \<leftarrow> push_word s (rget s BP);
     s \<leftarrow> push_word s (rget s SI);
     push_word s (rget s DI)
   }"

definition popa61 :: "'d emu \<Rightarrow> 'd emu option" where [insn_defs]:
  "popa61 s = do {
     (v, s) \<leftarrow> pop_word s;
     let s = rset s DI v;
     (v, s) \<leftarrow> pop_word s;
     let s = rset s SI v;
     (v, s) \<leftarrow> pop_word s;
     let s = rset s BP v;
     (_, s) \<leftarrow> pop_word s;
     (v, s) \<leftarrow> pop_word s;
     let s = rset s BX v;
     (v, s) \<leftarrow> pop_word s;
     let s = rset s DX v;
     (v, s) \<leftarrow> pop_word s;
     let s = rset s CX v;
     (v, s) \<leftarrow> pop_word s;
     Some (rset s AX v)
   }"

section \<open>pop\<close>

definition pop8f :: "'d emu \<Rightarrow> 'd emu option" where [insn_defs]:
  "pop8f s = do {
     s \<leftarrow> decode (set_width s OP_WIDTH_16);
     n \<leftarrow> rawreg s;
     if n \<noteq> 0 then Some s else do {
       let addr = get_phys_addr (rget s SS) (ucast (rget s SP));
       val \<leftarrow> mem_read16 (mem s) addr;
       let s = rset s SP (rget s SP + 2);
       write_data16 s val
     }
   }"

definition pop58_5f :: "'d emu \<Rightarrow> 'd emu option" where [insn_defs]:
  "pop58_5f s = do {
     let reg = GPR_from AX (unat (opcode s AND 0x7));
     let addr = get_phys_addr (rget s SS) (ucast (rget s SP));
     val \<leftarrow> mem_read16 (mem s) addr;
     let s = rset s SP (rget s SP + 2);
     Some (rset s reg val)
   }"

definition popsr :: "'d emu \<Rightarrow> 'd emu option" where [insn_defs]:
  "popsr s = do {
     let reg = GPR_from ES (unat (drop_bit 3 (opcode s) AND 0x3));
     let addr = get_phys_addr (rget s SS) (ucast (rget s SP));
     val \<leftarrow> mem_read16 (mem s) addr;
     let s = rset s reg val;
     let s = rset s SP (rget s SP + 2);
     Some (s\<lparr>ext_int_inhibit := True\<rparr>)
   }"

definition popf9d :: "'d emu \<Rightarrow> 'd emu option" where [insn_defs]:
  "popf9d s = do {
     let addr = get_phys_addr (rget s SS) (ucast (rget s SP));
     val \<leftarrow> mem_read16 (mem s) addr;
     let s = sflags s val 0xffff;
     Some (rset s SP (rget s SP + 2))
   }"

section \<open>xchg\<close>

definition xchg86 :: "'d emu \<Rightarrow> 'd emu option" where [insn_defs]:
  "xchg86 s = do {
     s \<leftarrow> decode (set_width s OP_WIDTH_8);
     (v1, s) \<leftarrow> read_data8 s;
     reg \<leftarrow> mreg s;
     let v2 = rget s reg;
     s \<leftarrow> write_data8 s (ucast v2);
     reg \<leftarrow> mreg s;
     Some (rset s reg (ucast v1))
   }"

definition xchg87 :: "'d emu \<Rightarrow> 'd emu option" where [insn_defs]:
  "xchg87 s = do {
     s \<leftarrow> decode (set_width s OP_WIDTH_16);
     (v1, s) \<leftarrow> read_data16 s;
     reg \<leftarrow> mreg s;
     let v2 = rget s reg;
     s \<leftarrow> write_data16 s v2;
     reg \<leftarrow> mreg s;
     Some (rset s reg v1)
   }"

definition xchg90_97 :: "'d emu \<Rightarrow> 'd emu option" where [insn_defs]:
  "xchg90_97 s = do {
     let reg = GPR_from AX (unat (opcode s AND 0x7));
     let v1 = rget s AX;
     let v2 = rget s reg;
     let s = rset s AX v2;
     Some (rset s reg v1)
   }"

section \<open>in and out\<close>

definition ine4 :: "'d emu \<Rightarrow> 'd emu option" where [insn_defs]:
  "ine4 s = do {
     (port_num, s) \<leftarrow> fetch_byte s;
     (v, s) \<leftarrow> read_io8 s (ucast port_num);
     Some (rset s AL (ucast v))
   }"

definition ine5 :: "'d emu \<Rightarrow> 'd emu option" where [insn_defs]:
  "ine5 s = do {
     (port_num, s) \<leftarrow> fetch_byte s;
     (v, s) \<leftarrow> read_io16 s (ucast port_num);
     Some (rset s AX v)
   }"

definition inec :: "'d emu \<Rightarrow> 'd emu option" where [insn_defs]:
  "inec s = do {
     (v, s) \<leftarrow> read_io8 s (ucast (rget s DX));
     Some (rset s AL (ucast v))
   }"

definition ined :: "'d emu \<Rightarrow> 'd emu option" where [insn_defs]:
  "ined s = do {
     (v, s) \<leftarrow> read_io16 s (ucast (rget s DX));
     Some (rset s AX v)
   }"

definition oute6 :: "'d emu \<Rightarrow> 'd emu option" where [insn_defs]:
  "oute6 s = do {
     (port_num, s) \<leftarrow> fetch_byte s;
     write_io8 s (ucast port_num) (ucast (rget s AL))
   }"

definition oute7 :: "'d emu \<Rightarrow> 'd emu option" where [insn_defs]:
  "oute7 s = do {
     (port_num, s) \<leftarrow> fetch_byte s;
     write_io16 s (ucast port_num) (rget s AX)
   }"

definition outee :: "'d emu \<Rightarrow> 'd emu option" where [insn_defs]:
  "outee s = write_io8 s (ucast (rget s DX)) (ucast (rget s AL))"

definition outef :: "'d emu \<Rightarrow> 'd emu option" where [insn_defs]:
  "outef s = write_io16 s (ucast (rget s DX)) (rget s AX)"

section \<open>xlat, lea, lds, les, lahf, sahf, cbw, cwd\<close>

text \<open>\<open>table_addr + v\<close> is an \<open>int\<close>: the sum is not cut to 16 bits before the segment is added.\<close>

definition xlatd7 :: "'d emu \<Rightarrow> 'd emu option" where [insn_defs]:
  "xlatd7 s = do {
     let v = rget s AL;
     let table_addr = rget s BX;
     xlated_val \<leftarrow> mem_read8 (mem s)
       (get_phys_addr (rget s (get_segment s False)) (ucast table_addr + ucast v));
     Some (rset s AL (ucast xlated_val))
   }"

definition lea8d :: "'d emu \<Rightarrow> 'd emu option" where [insn_defs]:
  "lea8d s = do {
     s \<leftarrow> decode (set_width s OP_WIDTH_16);
     t \<leftarrow> rmtype s;
     if t \<noteq> OP_REG then do {
       (a, s) \<leftarrow> ea s;
       reg \<leftarrow> mreg s;
       Some (rset s reg a)
     } else Some s
   }"

definition ldsc5 :: "'d emu \<Rightarrow> 'd emu option" where [insn_defs]:
  "ldsc5 s = do {
     s \<leftarrow> decode (set_width s OP_WIDTH_16);
     t \<leftarrow> rmtype s;
     if t = OP_REG then Some s else do {
       (a, s) \<leftarrow> ea s;
       let p32 = get_phys_addr (rget s (get_segment s False)) (ucast a);
       displacement \<leftarrow> mem_read16 (mem s) p32;
       seg \<leftarrow> mem_read16 (mem s) (p32 + 2);
       reg \<leftarrow> mreg s;
       let s = rset s reg displacement;
       Some (rset s DS seg)
     }
   }"

definition lesc4 :: "'d emu \<Rightarrow> 'd emu option" where [insn_defs]:
  "lesc4 s = do {
     s \<leftarrow> decode (set_width s OP_WIDTH_16);
     t \<leftarrow> rmtype s;
     if t = OP_REG then Some s else do {
       (a, s) \<leftarrow> ea s;
       let p32 = get_phys_addr (rget s (get_segment s False)) (ucast a);
       displacement \<leftarrow> mem_read16 (mem s) p32;
       seg \<leftarrow> mem_read16 (mem s) (p32 + 2);
       reg \<leftarrow> mreg s;
       let s = rset s reg displacement;
       Some (rset s ES seg)
     }
   }"

definition lahf9f :: "'d emu \<Rightarrow> 'd emu option" where [insn_defs]:
  "lahf9f s = do {
     let flags = get_flags (regs s);
     Some (rset s AH (flags AND 0xff))
   }"

definition sahf9e :: "'d emu \<Rightarrow> 'd emu option" where [insn_defs]:
  "sahf9e s = do {
     let flags = rget s AH;
     Some (sflags s flags 0xff)
   }"

definition cbw98 :: "'d emu \<Rightarrow> 'd emu option" where [insn_defs]:
  "cbw98 s = Some (rset s AX (sign_extend (ucast (rget s AL) :: u8)))"

definition cwd99 :: "'d emu \<Rightarrow> 'd emu option" where [insn_defs]:
  "cwd99 s = do {
     let v = (sign_extend (rget s AX) :: u32);
     Some (rset s DX (ucast (signed_drop_bit 16 v AND 0xffff)))
   }"

section \<open>Invariants of the handlers\<close>

context emu_invariant
begin

lemma inv_InsnMov_1:
  "I s \<Longrightarrow> pred_option I (mov88 s)" "I s \<Longrightarrow> pred_option I (mov89 s)"
  "I s \<Longrightarrow> pred_option I (mov8a s)" "I s \<Longrightarrow> pred_option I (mov8b s)"
  "I s \<Longrightarrow> pred_option I (movc6 s)" "I s \<Longrightarrow> pred_option I (movc7 s)"
  "I s \<Longrightarrow> pred_option I (movb0_b7 s)" "I s \<Longrightarrow> pred_option I (movb8_bf s)"
  "I s \<Longrightarrow> pred_option I (mova0 s)" "I s \<Longrightarrow> pred_option I (mova1 s)"
  "I s \<Longrightarrow> pred_option I (mova2 s)" "I s \<Longrightarrow> pred_option I (mova3 s)"
  "I s \<Longrightarrow> pred_option I (mov8e s)" "I s \<Longrightarrow> pred_option I (mov8c s)"
  "I s \<Longrightarrow> pred_option I (pushff s)" "I s \<Longrightarrow> pred_option I (push68 s)"
  "I s \<Longrightarrow> pred_option I (push6a s)" "I s \<Longrightarrow> pred_option I (push50_57 s)"
  "I s \<Longrightarrow> pred_option I (pushsr s)" "I s \<Longrightarrow> pred_option I (pushf9c s)"
  "I s \<Longrightarrow> pred_option I (pusha60 s)" "I s \<Longrightarrow> pred_option I (popa61 s)"
  "I s \<Longrightarrow> pred_option I (pop8f s)" "I s \<Longrightarrow> pred_option I (pop58_5f s)"
  unfolding insn_defs Let_def by (intro inv_rules; assumption?)+

lemma inv_InsnMov_2:
  "I s \<Longrightarrow> pred_option I (popsr s)" "I s \<Longrightarrow> pred_option I (popf9d s)"
  "I s \<Longrightarrow> pred_option I (xchg86 s)" "I s \<Longrightarrow> pred_option I (xchg87 s)"
  "I s \<Longrightarrow> pred_option I (xchg90_97 s)" "I s \<Longrightarrow> pred_option I (ine4 s)"
  "I s \<Longrightarrow> pred_option I (ine5 s)" "I s \<Longrightarrow> pred_option I (inec s)"
  "I s \<Longrightarrow> pred_option I (ined s)" "I s \<Longrightarrow> pred_option I (oute6 s)"
  "I s \<Longrightarrow> pred_option I (oute7 s)" "I s \<Longrightarrow> pred_option I (outee s)"
  "I s \<Longrightarrow> pred_option I (outef s)" "I s \<Longrightarrow> pred_option I (xlatd7 s)"
  "I s \<Longrightarrow> pred_option I (lea8d s)" "I s \<Longrightarrow> pred_option I (ldsc5 s)"
  "I s \<Longrightarrow> pred_option I (lesc4 s)" "I s \<Longrightarrow> pred_option I (lahf9f s)"
  "I s \<Longrightarrow> pred_option I (sahf9e s)" "I s \<Longrightarrow> pred_option I (cbw98 s)"
  "I s \<Longrightarrow> pred_option I (cwd99 s)"
  unfolding insn_defs Let_def by (intro inv_rules; assumption?)+

lemmas inv_InsnMov = inv_InsnMov_1 inv_InsnMov_2

end

section \<open>Saving and restoring the registers\<close>

lemma pusha60_push_words:
  "pusha60 s = push_words s (map (rget s) [AX, CX, DX, BX, SP, BP, SI, DI])"
  unfolding pusha60_def Let_def
  by (simp add: push_word_gpr cong: bind_push_cong)

text \<open>
  Registers saved by \<open>pusha\<close> come back with \<open>popa\<close>, whatever happened to them in between, as long
  as memory and the stack pointer are those \<open>pusha\<close> left.
\<close>

theorem pusha_popa:
  assumes "pusha60 s = Some s1" "mem t = mem s1" "rget t SS = rget s1 SS" "rget t SP = rget s1 SP"
  shows "\<exists>t'. popa61 t = Some t' \<and> (\<forall>x \<in> {AX, CX, DX, BX, SP, BP, SI, DI}. rget t' x = rget s x)"
proof -
  let ?vs = "map (rget s) [AX, CX, DX, BX, SP, BP, SI, DI]"
  have p: "push_words s ?vs = Some s1" using assms(1) by (simp only: pusha60_push_words)
  have top: "stack_word t k = Some (rev ?vs ! k)" if "k < 8" for k
    using push_words_top [OF p, of k] that stack_word_cong [OF assms(2-4)] by simp
  have "rget t SP = rget s SP - 16" using push_words_regs(1) [OF p] assms(4) by simp
  then show ?thesis
    using top [of 0] top [of 1] top [of 2] top [of 3] top [of 4] top [of 5] top [of 6] top [of 7]
    by (simp add: popa61_def pop_word_eq Let_def numeral_2_eq_2 numeral_3_eq_3 eval_nat_numeral)
qed

theorem pusha_popa_witness:
  "\<exists>s1 t'. pusha60 (rset bare_emu BX 7) = Some s1 \<and> popa61 s1 = Some t' \<and> rget t' BX = 7 \<and> rget t' SP = 0"
proof -
  have "unat (rget (rset bare_emu BX 7) SS) \<le> 0xeffe" by simp
  from push_words_low [OF this] obtain s1 where s1: "pusha60 (rset bare_emu BX 7) = Some s1"
    unfolding pusha60_push_words by blast
  from pusha_popa [OF this refl refl refl] s1 show ?thesis by auto
qed

end
