(* ===== verification/InsnArith.thy ===== *)
theory InsnArith
  imports InsnMov
begin

text \<open>
  The arithmetic and logical instructions (add.cpp, adc.cpp, sub.cpp, sbb.cpp, and.cpp, or.cpp, xor.cpp,
  cmp.cpp, test.cpp, not.cpp, inc_dec.cpp, neg.cpp, and the immediate groups 80 to 83 of Emulate.cpp).
  Each handler reads its operands, calls the arithmetic unit, updates the flags it names in its mask and
  stores the result.
\<close>

section \<open>The six forms of each operation\<close>

subsection \<open>add\<close>

definition add00 :: "'d emu \<Rightarrow> 'd emu option" where [insn_defs]:
  "add00 s = do {
     s \<leftarrow> decode (set_width s OP_WIDTH_8);
     (v1, s) \<leftarrow> read_data8 s;
     reg \<leftarrow> mreg s;
     let v2 = (ucast (rget s reg) :: u8);
     let (flags, result) = do_add8 (regs s) (ucast v1) (ucast v2) 0;
     let s = sflags s flags (OF OR SF OR ZF OR AF OR CF OR PF);
     write_data8 s (result AND 0xff)
   }"

definition add01 :: "'d emu \<Rightarrow> 'd emu option" where [insn_defs]:
  "add01 s = do {
     s \<leftarrow> decode (set_width s OP_WIDTH_16);
     (v1, s) \<leftarrow> read_data16 s;
     reg \<leftarrow> mreg s;
     let v2 = rget s reg;
     let (flags, result) = do_add16 (regs s) v1 v2 0;
     let s = sflags s flags (OF OR SF OR ZF OR AF OR CF OR PF);
     write_data16 s (result AND 0xffff)
   }"

definition add02 :: "'d emu \<Rightarrow> 'd emu option" where [insn_defs]:
  "add02 s = do {
     s \<leftarrow> decode (set_width s OP_WIDTH_8);
     (v1, s) \<leftarrow> read_data8 s;
     reg \<leftarrow> mreg s;
     let v2 = (ucast (rget s reg) :: u8);
     let (flags, result) = do_add8 (regs s) (ucast v1) (ucast v2) 0;
     let s = sflags s flags (OF OR SF OR ZF OR AF OR CF OR PF);
     reg \<leftarrow> mreg s;
     Some (rset s reg (ucast (result AND 0xff)))
   }"

definition add03 :: "'d emu \<Rightarrow> 'd emu option" where [insn_defs]:
  "add03 s = do {
     s \<leftarrow> decode (set_width s OP_WIDTH_16);
     (v1, s) \<leftarrow> read_data16 s;
     reg \<leftarrow> mreg s;
     let v2 = rget s reg;
     let (flags, result) = do_add16 (regs s) v1 v2 0;
     let s = sflags s flags (OF OR SF OR ZF OR AF OR CF OR PF);
     reg \<leftarrow> mreg s;
     Some (rset s reg (result AND 0xffff))
   }"

definition add04 :: "'d emu \<Rightarrow> 'd emu option" where [insn_defs]:
  "add04 s = do {
     let v1 = rget s AL;
     (v2, s) \<leftarrow> fetch_byte s;
     let (flags, result) = do_add8 (regs s) v1 (ucast v2) 0;
     let s = sflags s flags (OF OR SF OR ZF OR AF OR CF OR PF);
     Some (rset s AL (ucast result))
   }"

definition add05 :: "'d emu \<Rightarrow> 'd emu option" where [insn_defs]:
  "add05 s = do {
     let v1 = rget s AX;
     (v2, s) \<leftarrow> fetch_16bit s;
     let (flags, result) = do_add16 (regs s) v1 v2 0;
     let s = sflags s flags (OF OR SF OR ZF OR AF OR CF OR PF);
     Some (rset s AX result)
   }"

subsection \<open>adc\<close>

definition adc10 :: "'d emu \<Rightarrow> 'd emu option" where [insn_defs]:
  "adc10 s = do {
     s \<leftarrow> decode (set_width s OP_WIDTH_8);
     (v1, s) \<leftarrow> read_data8 s;
     reg \<leftarrow> mreg s;
     let v2 = (ucast (rget s reg) :: u8);
     let carry_in = (get_flags (regs s) AND CF \<noteq> 0);
     let (flags, result) = do_add8 (regs s) (ucast v1) (ucast v2) (of_bool carry_in);
     let s = sflags s flags (OF OR SF OR ZF OR AF OR CF OR PF);
     write_data8 s (result AND 0xff)
   }"

definition adc11 :: "'d emu \<Rightarrow> 'd emu option" where [insn_defs]:
  "adc11 s = do {
     s \<leftarrow> decode (set_width s OP_WIDTH_16);
     (v1, s) \<leftarrow> read_data16 s;
     reg \<leftarrow> mreg s;
     let v2 = rget s reg;
     let carry_in = (get_flags (regs s) AND CF \<noteq> 0);
     let (flags, result) = do_add16 (regs s) v1 v2 (of_bool carry_in);
     let s = sflags s flags (OF OR SF OR ZF OR AF OR CF OR PF);
     write_data16 s (result AND 0xffff)
   }"

definition adc12 :: "'d emu \<Rightarrow> 'd emu option" where [insn_defs]:
  "adc12 s = do {
     s \<leftarrow> decode (set_width s OP_WIDTH_8);
     (v1, s) \<leftarrow> read_data8 s;
     reg \<leftarrow> mreg s;
     let v2 = (ucast (rget s reg) :: u8);
     let carry_in = (get_flags (regs s) AND CF \<noteq> 0);
     let (flags, result) = do_add8 (regs s) (ucast v1) (ucast v2) (of_bool carry_in);
     let s = sflags s flags (OF OR SF OR ZF OR AF OR CF OR PF);
     reg \<leftarrow> mreg s;
     Some (rset s reg (ucast (result AND 0xff)))
   }"

definition adc13 :: "'d emu \<Rightarrow> 'd emu option" where [insn_defs]:
  "adc13 s = do {
     s \<leftarrow> decode (set_width s OP_WIDTH_16);
     (v1, s) \<leftarrow> read_data16 s;
     reg \<leftarrow> mreg s;
     let v2 = rget s reg;
     let carry_in = (get_flags (regs s) AND CF \<noteq> 0);
     let (flags, result) = do_add16 (regs s) v1 v2 (of_bool carry_in);
     let s = sflags s flags (OF OR SF OR ZF OR AF OR CF OR PF);
     reg \<leftarrow> mreg s;
     Some (rset s reg (result AND 0xffff))
   }"

definition adc14 :: "'d emu \<Rightarrow> 'd emu option" where [insn_defs]:
  "adc14 s = do {
     let v1 = rget s AL;
     (v2, s) \<leftarrow> fetch_byte s;
     let carry_in = (get_flags (regs s) AND CF \<noteq> 0);
     let (flags, result) = do_add8 (regs s) v1 (ucast v2) (of_bool carry_in);
     let s = sflags s flags (OF OR SF OR ZF OR AF OR CF OR PF);
     Some (rset s AL (ucast result))
   }"

definition adc15 :: "'d emu \<Rightarrow> 'd emu option" where [insn_defs]:
  "adc15 s = do {
     let v1 = rget s AX;
     (v2, s) \<leftarrow> fetch_16bit s;
     let carry_in = (get_flags (regs s) AND CF \<noteq> 0);
     let (flags, result) = do_add16 (regs s) v1 v2 (of_bool carry_in);
     let s = sflags s flags (OF OR SF OR ZF OR AF OR CF OR PF);
     Some (rset s AX result)
   }"

subsection \<open>sub\<close>

definition sub28 :: "'d emu \<Rightarrow> 'd emu option" where [insn_defs]:
  "sub28 s = do {
     s \<leftarrow> decode (set_width s OP_WIDTH_8);
     (v1, s) \<leftarrow> read_data8 s;
     reg \<leftarrow> mreg s;
     let v2 = (ucast (rget s reg) :: u8);
     let (flags, result) = do_sub8 (regs s) (ucast v1) (ucast v2) 0;
     let s = sflags s flags (OF OR SF OR ZF OR CF OR PF OR AF);
     write_data8 s (result AND 0xff)
   }"

definition sub29 :: "'d emu \<Rightarrow> 'd emu option" where [insn_defs]:
  "sub29 s = do {
     s \<leftarrow> decode (set_width s OP_WIDTH_16);
     (v1, s) \<leftarrow> read_data16 s;
     reg \<leftarrow> mreg s;
     let v2 = rget s reg;
     let (flags, result) = do_sub16 (regs s) v1 v2 0;
     let s = sflags s flags (OF OR SF OR ZF OR CF OR PF OR AF);
     write_data16 s (result AND 0xffff)
   }"

definition sub2a :: "'d emu \<Rightarrow> 'd emu option" where [insn_defs]:
  "sub2a s = do {
     s \<leftarrow> decode (set_width s OP_WIDTH_8);
     (v1, s) \<leftarrow> read_data8 s;
     reg \<leftarrow> mreg s;
     let v2 = (ucast (rget s reg) :: u8);
     let (flags, result) = do_sub8 (regs s) (ucast v2) (ucast v1) 0;
     let s = sflags s flags (OF OR SF OR ZF OR CF OR PF OR AF);
     reg \<leftarrow> mreg s;
     Some (rset s reg (ucast (result AND 0xff)))
   }"

definition sub2b :: "'d emu \<Rightarrow> 'd emu option" where [insn_defs]:
  "sub2b s = do {
     s \<leftarrow> decode (set_width s OP_WIDTH_16);
     (v1, s) \<leftarrow> read_data16 s;
     reg \<leftarrow> mreg s;
     let v2 = rget s reg;
     let (flags, result) = do_sub16 (regs s) v2 v1 0;
     let s = sflags s flags (OF OR SF OR ZF OR CF OR PF OR AF);
     reg \<leftarrow> mreg s;
     Some (rset s reg (result AND 0xffff))
   }"

definition sub2c :: "'d emu \<Rightarrow> 'd emu option" where [insn_defs]:
  "sub2c s = do {
     let v1 = rget s AL;
     (v2, s) \<leftarrow> fetch_byte s;
     let (flags, result) = do_sub8 (regs s) v1 (ucast v2) 0;
     let s = sflags s flags (OF OR SF OR ZF OR CF OR PF OR AF);
     Some (rset s AL (ucast result))
   }"

definition sub2d :: "'d emu \<Rightarrow> 'd emu option" where [insn_defs]:
  "sub2d s = do {
     let v1 = rget s AX;
     (v2, s) \<leftarrow> fetch_16bit s;
     let (flags, result) = do_sub16 (regs s) v1 v2 0;
     let s = sflags s flags (OF OR SF OR ZF OR CF OR PF OR AF);
     Some (rset s AX result)
   }"

subsection \<open>sbb\<close>

definition sbb18 :: "'d emu \<Rightarrow> 'd emu option" where [insn_defs]:
  "sbb18 s = do {
     s \<leftarrow> decode (set_width s OP_WIDTH_8);
     (v1, s) \<leftarrow> read_data8 s;
     reg \<leftarrow> mreg s;
     let v2 = (ucast (rget s reg) :: u8);
     let carry_in = (get_flags (regs s) AND CF \<noteq> 0);
     let (flags, result) = do_sub8 (regs s) (ucast v1) (ucast v2) (of_bool carry_in);
     let s = sflags s flags (OF OR SF OR ZF OR CF OR PF OR AF);
     write_data8 s (result AND 0xff)
   }"

definition sbb19 :: "'d emu \<Rightarrow> 'd emu option" where [insn_defs]:
  "sbb19 s = do {
     s \<leftarrow> decode (set_width s OP_WIDTH_16);
     (v1, s) \<leftarrow> read_data16 s;
     reg \<leftarrow> mreg s;
     let v2 = rget s reg;
     let carry_in = (get_flags (regs s) AND CF \<noteq> 0);
     let (flags, result) = do_sub16 (regs s) v1 v2 (of_bool carry_in);
     let s = sflags s flags (OF OR SF OR ZF OR CF OR PF OR AF);
     write_data16 s (result AND 0xffff)
   }"

definition sbb1a :: "'d emu \<Rightarrow> 'd emu option" where [insn_defs]:
  "sbb1a s = do {
     s \<leftarrow> decode (set_width s OP_WIDTH_8);
     (v1, s) \<leftarrow> read_data8 s;
     reg \<leftarrow> mreg s;
     let v2 = (ucast (rget s reg) :: u8);
     let carry_in = (get_flags (regs s) AND CF \<noteq> 0);
     let (flags, result) = do_sub8 (regs s) (ucast v2) (ucast v1) (of_bool carry_in);
     let s = sflags s flags (OF OR SF OR ZF OR CF OR PF OR AF);
     reg \<leftarrow> mreg s;
     Some (rset s reg (ucast (result AND 0xff)))
   }"

definition sbb1b :: "'d emu \<Rightarrow> 'd emu option" where [insn_defs]:
  "sbb1b s = do {
     s \<leftarrow> decode (set_width s OP_WIDTH_16);
     (v1, s) \<leftarrow> read_data16 s;
     reg \<leftarrow> mreg s;
     let v2 = rget s reg;
     let carry_in = (get_flags (regs s) AND CF \<noteq> 0);
     let (flags, result) = do_sub16 (regs s) v2 v1 (of_bool carry_in);
     let s = sflags s flags (OF OR SF OR ZF OR CF OR PF OR AF);
     reg \<leftarrow> mreg s;
     Some (rset s reg (result AND 0xffff))
   }"

definition sbb1c :: "'d emu \<Rightarrow> 'd emu option" where [insn_defs]:
  "sbb1c s = do {
     let v1 = rget s AL;
     (v2, s) \<leftarrow> fetch_byte s;
     let carry_in = (get_flags (regs s) AND CF \<noteq> 0);
     let (flags, result) = do_sub8 (regs s) v1 (ucast v2) (of_bool carry_in);
     let s = sflags s flags (OF OR SF OR ZF OR CF OR PF OR AF);
     Some (rset s AL (ucast result))
   }"

definition sbb1d :: "'d emu \<Rightarrow> 'd emu option" where [insn_defs]:
  "sbb1d s = do {
     let v1 = rget s AX;
     (v2, s) \<leftarrow> fetch_16bit s;
     let carry_in = (get_flags (regs s) AND CF \<noteq> 0);
     let (flags, result) = do_sub16 (regs s) v1 v2 (of_bool carry_in);
     let s = sflags s flags (OF OR SF OR ZF OR CF OR PF OR AF);
     Some (rset s AX result)
   }"

subsection \<open>and\<close>

definition and20 :: "'d emu \<Rightarrow> 'd emu option" where [insn_defs]:
  "and20 s = do {
     s \<leftarrow> decode (set_width s OP_WIDTH_8);
     (v1, s) \<leftarrow> read_data8 s;
     reg \<leftarrow> mreg s;
     let v2 = (ucast (rget s reg) :: u8);
     let (flags, result) = do_and8 (regs s) (ucast v1) (ucast v2);
     let flags = flags AND NOT (CF OR OF);
     let s = sflags s flags (OF OR SF OR ZF OR CF OR PF);
     write_data8 s (result AND 0xff)
   }"

definition and21 :: "'d emu \<Rightarrow> 'd emu option" where [insn_defs]:
  "and21 s = do {
     s \<leftarrow> decode (set_width s OP_WIDTH_16);
     (v1, s) \<leftarrow> read_data16 s;
     reg \<leftarrow> mreg s;
     let v2 = rget s reg;
     let (flags, result) = do_and16 (regs s) v1 v2;
     let flags = flags AND NOT (CF OR OF);
     let s = sflags s flags (OF OR SF OR ZF OR CF OR PF);
     write_data16 s (result AND 0xffff)
   }"

definition and22 :: "'d emu \<Rightarrow> 'd emu option" where [insn_defs]:
  "and22 s = do {
     s \<leftarrow> decode (set_width s OP_WIDTH_8);
     (v1, s) \<leftarrow> read_data8 s;
     reg \<leftarrow> mreg s;
     let v2 = (ucast (rget s reg) :: u8);
     let (flags, result) = do_and8 (regs s) (ucast v1) (ucast v2);
     let flags = flags AND NOT (CF OR OF);
     let s = sflags s flags (OF OR SF OR ZF OR CF OR PF);
     reg \<leftarrow> mreg s;
     Some (rset s reg (ucast (result AND 0xff)))
   }"

definition and23 :: "'d emu \<Rightarrow> 'd emu option" where [insn_defs]:
  "and23 s = do {
     s \<leftarrow> decode (set_width s OP_WIDTH_16);
     (v1, s) \<leftarrow> read_data16 s;
     reg \<leftarrow> mreg s;
     let v2 = rget s reg;
     let (flags, result) = do_and16 (regs s) v1 v2;
     let flags = flags AND NOT (CF OR OF);
     let s = sflags s flags (OF OR SF OR ZF OR CF OR PF);
     reg \<leftarrow> mreg s;
     Some (rset s reg (result AND 0xffff))
   }"

definition and24 :: "'d emu \<Rightarrow> 'd emu option" where [insn_defs]:
  "and24 s = do {
     let v1 = rget s AL;
     (v2, s) \<leftarrow> fetch_byte s;
     let (flags, result) = do_and8 (regs s) v1 (ucast v2);
     let flags = flags AND NOT (CF OR OF);
     let s = sflags s flags (OF OR SF OR ZF OR CF OR PF);
     Some (rset s AL (ucast result))
   }"

definition and25 :: "'d emu \<Rightarrow> 'd emu option" where [insn_defs]:
  "and25 s = do {
     let v1 = rget s AX;
     (v2, s) \<leftarrow> fetch_16bit s;
     let (flags, result) = do_and16 (regs s) v1 v2;
     let flags = flags AND NOT (CF OR OF);
     let s = sflags s flags (OF OR SF OR ZF OR CF OR PF);
     Some (rset s AX result)
   }"

subsection \<open>or\<close>

definition or08 :: "'d emu \<Rightarrow> 'd emu option" where [insn_defs]:
  "or08 s = do {
     s \<leftarrow> decode (set_width s OP_WIDTH_8);
     (v1, s) \<leftarrow> read_data8 s;
     reg \<leftarrow> mreg s;
     let v2 = (ucast (rget s reg) :: u8);
     let (flags, result) = do_or8 (regs s) (ucast v1) (ucast v2);
     let flags = flags AND NOT (CF OR OF);
     let s = sflags s flags (OF OR SF OR ZF OR CF OR PF);
     write_data8 s (result AND 0xff)
   }"

definition or09 :: "'d emu \<Rightarrow> 'd emu option" where [insn_defs]:
  "or09 s = do {
     s \<leftarrow> decode (set_width s OP_WIDTH_16);
     (v1, s) \<leftarrow> read_data16 s;
     reg \<leftarrow> mreg s;
     let v2 = rget s reg;
     let (flags, result) = do_or16 (regs s) v1 v2;
     let flags = flags AND NOT (CF OR OF);
     let s = sflags s flags (OF OR SF OR ZF OR CF OR PF);
     write_data16 s (result AND 0xffff)
   }"

definition or0a :: "'d emu \<Rightarrow> 'd emu option" where [insn_defs]:
  "or0a s = do {
     s \<leftarrow> decode (set_width s OP_WIDTH_8);
     (v1, s) \<leftarrow> read_data8 s;
     reg \<leftarrow> mreg s;
     let v2 = (ucast (rget s reg) :: u8);
     let (flags, result) = do_or8 (regs s) (ucast v1) (ucast v2);
     let flags = flags AND NOT (CF OR OF);
     let s = sflags s flags (OF OR SF OR ZF OR CF OR PF);
     reg \<leftarrow> mreg s;
     Some (rset s reg (ucast (result AND 0xff)))
   }"

definition or0b :: "'d emu \<Rightarrow> 'd emu option" where [insn_defs]:
  "or0b s = do {
     s \<leftarrow> decode (set_width s OP_WIDTH_16);
     (v1, s) \<leftarrow> read_data16 s;
     reg \<leftarrow> mreg s;
     let v2 = rget s reg;
     let (flags, result) = do_or16 (regs s) v1 v2;
     let flags = flags AND NOT (CF OR OF);
     let s = sflags s flags (OF OR SF OR ZF OR CF OR PF);
     reg \<leftarrow> mreg s;
     Some (rset s reg (result AND 0xffff))
   }"

definition or0c :: "'d emu \<Rightarrow> 'd emu option" where [insn_defs]:
  "or0c s = do {
     let v1 = rget s AL;
     (v2, s) \<leftarrow> fetch_byte s;
     let (flags, result) = do_or8 (regs s) v1 (ucast v2);
     let flags = flags AND NOT (CF OR OF);
     let s = sflags s flags (OF OR SF OR ZF OR CF OR PF);
     Some (rset s AL (ucast result))
   }"

definition or0d :: "'d emu \<Rightarrow> 'd emu option" where [insn_defs]:
  "or0d s = do {
     let v1 = rget s AX;
     (v2, s) \<leftarrow> fetch_16bit s;
     let (flags, result) = do_or16 (regs s) v1 v2;
     let flags = flags AND NOT (CF OR OF);
     let s = sflags s flags (OF OR SF OR ZF OR CF OR PF);
     Some (rset s AX result)
   }"

subsection \<open>xor\<close>

definition xor30 :: "'d emu \<Rightarrow> 'd emu option" where [insn_defs]:
  "xor30 s = do {
     s \<leftarrow> decode (set_width s OP_WIDTH_8);
     (v1, s) \<leftarrow> read_data8 s;
     reg \<leftarrow> mreg s;
     let v2 = (ucast (rget s reg) :: u8);
     let (flags, result) = do_xor8 (regs s) (ucast v1) (ucast v2);
     let flags = flags AND NOT (CF OR OF);
     let s = sflags s flags (OF OR SF OR ZF OR CF OR PF);
     write_data8 s (result AND 0xff)
   }"

definition xor31 :: "'d emu \<Rightarrow> 'd emu option" where [insn_defs]:
  "xor31 s = do {
     s \<leftarrow> decode (set_width s OP_WIDTH_16);
     (v1, s) \<leftarrow> read_data16 s;
     reg \<leftarrow> mreg s;
     let v2 = rget s reg;
     let (flags, result) = do_xor16 (regs s) v1 v2;
     let flags = flags AND NOT (CF OR OF);
     let s = sflags s flags (OF OR SF OR ZF OR CF OR PF);
     write_data16 s (result AND 0xffff)
   }"

definition xor32 :: "'d emu \<Rightarrow> 'd emu option" where [insn_defs]:
  "xor32 s = do {
     s \<leftarrow> decode (set_width s OP_WIDTH_8);
     (v1, s) \<leftarrow> read_data8 s;
     reg \<leftarrow> mreg s;
     let v2 = (ucast (rget s reg) :: u8);
     let (flags, result) = do_xor8 (regs s) (ucast v1) (ucast v2);
     let flags = flags AND NOT (CF OR OF);
     let s = sflags s flags (OF OR SF OR ZF OR CF OR PF);
     reg \<leftarrow> mreg s;
     Some (rset s reg (ucast (result AND 0xff)))
   }"

definition xor33 :: "'d emu \<Rightarrow> 'd emu option" where [insn_defs]:
  "xor33 s = do {
     s \<leftarrow> decode (set_width s OP_WIDTH_16);
     (v1, s) \<leftarrow> read_data16 s;
     reg \<leftarrow> mreg s;
     let v2 = rget s reg;
     let (flags, result) = do_xor16 (regs s) v1 v2;
     let flags = flags AND NOT (CF OR OF);
     let s = sflags s flags (OF OR SF OR ZF OR CF OR PF);
     reg \<leftarrow> mreg s;
     Some (rset s reg (result AND 0xffff))
   }"

definition xor34 :: "'d emu \<Rightarrow> 'd emu option" where [insn_defs]:
  "xor34 s = do {
     let v1 = rget s AL;
     (v2, s) \<leftarrow> fetch_byte s;
     let (flags, result) = do_xor8 (regs s) v1 (ucast v2);
     let flags = flags AND NOT (CF OR OF);
     let s = sflags s flags (OF OR SF OR ZF OR CF OR PF);
     Some (rset s AL (ucast result))
   }"

definition xor35 :: "'d emu \<Rightarrow> 'd emu option" where [insn_defs]:
  "xor35 s = do {
     let v1 = rget s AX;
     (v2, s) \<leftarrow> fetch_16bit s;
     let (flags, result) = do_xor16 (regs s) v1 v2;
     let flags = flags AND NOT (CF OR OF);
     let s = sflags s flags (OF OR SF OR ZF OR CF OR PF);
     Some (rset s AX result)
   }"

subsection \<open>cmp\<close>

definition cmp38 :: "'d emu \<Rightarrow> 'd emu option" where [insn_defs]:
  "cmp38 s = do {
     s \<leftarrow> decode (set_width s OP_WIDTH_8);
     (v1, s) \<leftarrow> read_data8 s;
     reg \<leftarrow> mreg s;
     let v2 = (ucast (rget s reg) :: u8);
     let (flags, result) = do_sub8 (regs s) (ucast v1) (ucast v2) 0;
     Some (sflags s flags (OF OR SF OR ZF OR AF OR CF OR PF))
   }"

definition cmp39 :: "'d emu \<Rightarrow> 'd emu option" where [insn_defs]:
  "cmp39 s = do {
     s \<leftarrow> decode (set_width s OP_WIDTH_16);
     (v1, s) \<leftarrow> read_data16 s;
     reg \<leftarrow> mreg s;
     let v2 = rget s reg;
     let (flags, result) = do_sub16 (regs s) v1 v2 0;
     Some (sflags s flags (OF OR SF OR ZF OR AF OR CF OR PF))
   }"

definition cmp3a :: "'d emu \<Rightarrow> 'd emu option" where [insn_defs]:
  "cmp3a s = do {
     s \<leftarrow> decode (set_width s OP_WIDTH_8);
     (v1, s) \<leftarrow> read_data8 s;
     reg \<leftarrow> mreg s;
     let v2 = (ucast (rget s reg) :: u8);
     let (flags, result) = do_sub8 (regs s) (ucast v2) (ucast v1) 0;
     Some (sflags s flags (OF OR SF OR ZF OR AF OR CF OR PF))
   }"

definition cmp3b :: "'d emu \<Rightarrow> 'd emu option" where [insn_defs]:
  "cmp3b s = do {
     s \<leftarrow> decode (set_width s OP_WIDTH_16);
     (v1, s) \<leftarrow> read_data16 s;
     reg \<leftarrow> mreg s;
     let v2 = rget s reg;
     let (flags, result) = do_sub16 (regs s) v2 v1 0;
     Some (sflags s flags (OF OR SF OR ZF OR AF OR CF OR PF))
   }"

definition cmp3c :: "'d emu \<Rightarrow> 'd emu option" where [insn_defs]:
  "cmp3c s = do {
     let v1 = rget s AL;
     (v2, s) \<leftarrow> fetch_byte s;
     let (flags, result) = do_sub8 (regs s) v1 (ucast v2) 0;
     Some (sflags s flags (OF OR SF OR ZF OR AF OR CF OR PF))
   }"

definition cmp3d :: "'d emu \<Rightarrow> 'd emu option" where [insn_defs]:
  "cmp3d s = do {
     let v1 = rget s AX;
     (v2, s) \<leftarrow> fetch_16bit s;
     let (flags, result) = do_sub16 (regs s) v1 v2 0;
     Some (sflags s flags (OF OR SF OR ZF OR AF OR CF OR PF))
   }"

subsection \<open>test\<close>

definition test84 :: "'d emu \<Rightarrow> 'd emu option" where [insn_defs]:
  "test84 s = do {
     s \<leftarrow> decode (set_width s OP_WIDTH_8);
     (v1, s) \<leftarrow> read_data8 s;
     reg \<leftarrow> mreg s;
     let v2 = (ucast (rget s reg) :: u8);
     let (flags, result) = do_and8 (regs s) (ucast v1) (ucast v2);
     let flags = flags AND NOT (CF OR OF);
     Some (sflags s flags (OF OR SF OR ZF OR CF OR PF))
   }"

definition test85 :: "'d emu \<Rightarrow> 'd emu option" where [insn_defs]:
  "test85 s = do {
     s \<leftarrow> decode (set_width s OP_WIDTH_16);
     (v1, s) \<leftarrow> read_data16 s;
     reg \<leftarrow> mreg s;
     let v2 = rget s reg;
     let (flags, result) = do_and16 (regs s) v1 v2;
     let flags = flags AND NOT (CF OR OF);
     Some (sflags s flags (OF OR SF OR ZF OR CF OR PF))
   }"

definition testa8 :: "'d emu \<Rightarrow> 'd emu option" where [insn_defs]:
  "testa8 s = do {
     let v1 = rget s AL;
     (v2, s) \<leftarrow> fetch_byte s;
     let (flags, result) = do_and8 (regs s) v1 (ucast v2);
     let flags = flags AND NOT (CF OR OF);
     Some (sflags s flags (OF OR SF OR ZF OR CF OR PF))
   }"

definition testa9 :: "'d emu \<Rightarrow> 'd emu option" where [insn_defs]:
  "testa9 s = do {
     let v1 = rget s AX;
     (v2, s) \<leftarrow> fetch_16bit s;
     let (flags, result) = do_and16 (regs s) v1 v2;
     let flags = flags AND NOT (CF OR OF);
     Some (sflags s flags (OF OR SF OR ZF OR CF OR PF))
   }"

definition testf6 :: "'d emu \<Rightarrow> 'd emu option" where [insn_defs]:
  "testf6 s = do {
     (v1, s) \<leftarrow> read_data8 s;
     (v2, s) \<leftarrow> fetch_byte s;
     let (flags, result) = do_and8 (regs s) (ucast v1) (ucast v2);
     let flags = flags AND NOT (CF OR OF);
     Some (sflags s flags (OF OR SF OR ZF OR CF OR PF))
   }"

definition testf7 :: "'d emu \<Rightarrow> 'd emu option" where [insn_defs]:
  "testf7 s = do {
     (v1, s) \<leftarrow> read_data16 s;
     (v2, s) \<leftarrow> fetch_16bit s;
     let (flags, result) = do_and16 (regs s) v1 v2;
     let flags = flags AND NOT (CF OR OF);
     Some (sflags s flags (OF OR SF OR ZF OR CF OR PF))
   }"

subsection \<open>not\<close>

definition notf6 :: "'d emu \<Rightarrow> 'd emu option" where [insn_defs]:
  "notf6 s = do {
     (v, s) \<leftarrow> read_data8 s;
     write_data8 s (NOT v)
   }"

definition notf7 :: "'d emu \<Rightarrow> 'd emu option" where [insn_defs]:
  "notf7 s = do {
     (v, s) \<leftarrow> read_data16 s;
     write_data16 s (NOT v)
   }"

section \<open>inc, dec and neg\<close>

definition inc_dec_fe :: "'d emu \<Rightarrow> 'd emu option" where [insn_defs]:
  "inc_dec_fe s = do {
     s \<leftarrow> decode (set_width s OP_WIDTH_8);
     n \<leftarrow> rawreg s;
     if n = 7 then invalid_opcode s
     else if n \<noteq> 0 \<and> n \<noteq> 1 then Some s
     else do {
       (v, s) \<leftarrow> read_data8 s;
       let (flags, result) = (if n = 0 then do_add8 (regs s) (ucast v) 1 0
                              else do_sub8 (regs s) (ucast v) 1 0);
       let s = sflags s flags (OF OR SF OR ZF OR AF OR PF);
       write_data8 s result
     }
   }"

definition incff :: "'d emu \<Rightarrow> 'd emu option" where [insn_defs]:
  "incff s = do {
     n \<leftarrow> rawreg s;
     if n \<noteq> 0 then None else do {
       (v, s) \<leftarrow> read_data16 s;
       let (flags, result) = do_add16 (regs s) v 1 0;
       let s = sflags s flags (OF OR SF OR ZF OR AF OR PF);
       write_data16 s result
     }
   }"

definition inc40_47 :: "'d emu \<Rightarrow> 'd emu option" where [insn_defs]:
  "inc40_47 s = do {
     let reg = GPR_from AX (unat (opcode s AND 0x7));
     let v = rget s reg;
     let (flags, result) = do_add16 (regs s) v 1 0;
     let s = sflags s flags (OF OR SF OR ZF OR AF OR PF);
     Some (rset s reg result)
   }"

definition decff :: "'d emu \<Rightarrow> 'd emu option" where [insn_defs]:
  "decff s = do {
     n \<leftarrow> rawreg s;
     if n \<noteq> 1 then None else do {
       (v, s) \<leftarrow> read_data16 s;
       let (flags, result) = do_sub16 (regs s) v 1 0;
       let s = sflags s flags (OF OR SF OR ZF OR AF OR PF);
       write_data16 s result
     }
   }"

definition dec48_4f :: "'d emu \<Rightarrow> 'd emu option" where [insn_defs]:
  "dec48_4f s = do {
     let reg = GPR_from AX (unat (opcode s AND 0x7));
     let v = rget s reg;
     let (flags, result) = do_sub16 (regs s) v 1 0;
     let s = sflags s flags (OF OR SF OR ZF OR AF OR PF);
     Some (rset s reg result)
   }"

definition negf6 :: "'d emu \<Rightarrow> 'd emu option" where [insn_defs]:
  "negf6 s = do {
     (v, s) \<leftarrow> read_data8 s;
     let (flags, result) = do_sub8 (regs s) 0 (ucast v) 0;
     let flags = flags AND NOT CF;
     let flags = (if v \<noteq> 0 then flags OR CF else flags);
     s \<leftarrow> write_data8 s result;
     Some (sflags s flags (OF OR SF OR ZF OR CF OR PF OR AF))
   }"

definition negf7 :: "'d emu \<Rightarrow> 'd emu option" where [insn_defs]:
  "negf7 s = do {
     (v, s) \<leftarrow> read_data16 s;
     let (flags, result) = do_sub16 (regs s) 0 v 0;
     let flags = flags AND NOT CF;
     let flags = (if v \<noteq> 0 then flags OR CF else flags);
     s \<leftarrow> write_data16 s result;
     Some (sflags s flags (OF OR SF OR ZF OR CF OR PF OR AF))
   }"

section \<open>The immediate groups\<close>

definition add_adc_sub_sbb_cmp_xor_or_and_80 :: "'d emu \<Rightarrow> 'd emu option" where [insn_defs]:
  "add_adc_sub_sbb_cmp_xor_or_and_80 s = do {
     s \<leftarrow> decode (set_width s OP_WIDTH_8);
     (v1, s) \<leftarrow> read_data8 s;
     (v2, s) \<leftarrow> fetch_byte s;
     n \<leftarrow> rawreg s;
     let carry_in = (if n = 2 \<or> n = 3 then get_flags (regs s) AND CF \<noteq> 0 else False);
     let update_mask = OF OR SF OR ZF OR CF OR PF OR AF;
     let (flags, result, update_mask) =
       (if n = 0 \<or> n = 2 then
          let (flags, result) = do_add8 (regs s) (ucast v1) (ucast v2) (of_bool carry_in)
          in (flags, result, update_mask)
        else if n = 6 then
          let (flags, result) = do_xor8 (regs s) (ucast v1) (ucast v2)
          in (flags AND NOT (CF OR OF), result, update_mask AND NOT AF)
        else if n = 1 then
          let (flags, result) = do_or8 (regs s) (ucast v1) (ucast v2)
          in (flags AND NOT (CF OR OF), result, update_mask AND NOT AF)
        else if n = 4 then
          let (flags, result) = do_and8 (regs s) (ucast v1) (ucast v2)
          in (flags AND NOT (CF OR OF), result, update_mask AND NOT AF)
        else
          let (flags, result) = do_sub8 (regs s) (ucast v1) (ucast v2) (of_bool carry_in)
          in (flags, result, update_mask));
     let s = sflags s flags update_mask;
     if n \<noteq> 7 then write_data8 s (result AND 0xff) else Some s
   }"

definition add_adc_sub_sbb_cmp_82 :: "'d emu \<Rightarrow> 'd emu option" where [insn_defs]:
  "add_adc_sub_sbb_cmp_82 s = add_adc_sub_sbb_cmp_xor_or_and_80 s"

definition add_adc_sub_sbb_cmp_xor_or_and_81 :: "'d emu \<Rightarrow> 'd emu option" where [insn_defs]:
  "add_adc_sub_sbb_cmp_xor_or_and_81 s = do {
     s \<leftarrow> decode (set_width s OP_WIDTH_16);
     (v1, s) \<leftarrow> read_data16 s;
     (v2, s) \<leftarrow> fetch_16bit s;
     n \<leftarrow> rawreg s;
     let carry_in = (if n = 2 \<or> n = 3 then get_flags (regs s) AND CF \<noteq> 0 else False);
     let update_mask = OF OR SF OR ZF OR CF OR PF OR AF;
     let (flags, result, update_mask) =
       (if n = 0 \<or> n = 2 then
          let (flags, result) = do_add16 (regs s) v1 v2 (of_bool carry_in)
          in (flags, result, update_mask)
        else if n = 6 then
          let (flags, result) = do_xor16 (regs s) v1 v2
          in (flags AND NOT (CF OR OF), result, update_mask AND NOT AF)
        else if n = 1 then
          let (flags, result) = do_or16 (regs s) v1 v2
          in (flags AND NOT (CF OR OF), result, update_mask AND NOT AF)
        else if n = 4 then
          let (flags, result) = do_and16 (regs s) v1 v2
          in (flags AND NOT (CF OR OF), result, update_mask AND NOT AF)
        else
          let (flags, result) = do_sub16 (regs s) v1 v2 (of_bool carry_in)
          in (flags, result, update_mask));
     let s = sflags s flags update_mask;
     if n \<noteq> 7 then write_data16 s (result AND 0xffff) else Some s
   }"

definition add_adc_sub_sbb_cmp_83 :: "'d emu \<Rightarrow> 'd emu option" where [insn_defs]:
  "add_adc_sub_sbb_cmp_83 s = do {
     s \<leftarrow> decode (set_width s OP_WIDTH_16);
     (v1, s) \<leftarrow> read_data16 s;
     (b, s) \<leftarrow> fetch_byte s;
     let v2 = (sign_extend b :: u16);
     n \<leftarrow> rawreg s;
     let carry_in = (if n = 2 \<or> n = 3 then get_flags (regs s) AND CF \<noteq> 0 else False);
     let update_mask = OF OR SF OR ZF OR CF OR PF OR AF;
     let (flags, result, update_mask) =
       (if n = 0 \<or> n = 2 then
          let (flags, result) = do_add16 (regs s) v1 v2 (of_bool carry_in)
          in (flags, result, update_mask)
        else if n = 6 then
          let (flags, result) = do_xor16 (regs s) v1 v2
          in (flags AND NOT (CF OR OF), result, update_mask AND NOT AF)
        else if n = 1 then
          let (flags, result) = do_or16 (regs s) v1 v2
          in (flags AND NOT (CF OR OF), result, update_mask AND NOT AF)
        else if n = 4 then
          let (flags, result) = do_and16 (regs s) v1 v2
          in (flags AND NOT (CF OR OF), result, update_mask AND NOT AF)
        else
          let (flags, result) = do_sub16 (regs s) v1 v2 (of_bool carry_in)
          in (flags, result, update_mask));
     let s = sflags s flags update_mask;
     if n \<noteq> 7 then write_data16 s (result AND 0xffff) else Some s
   }"

section \<open>Invariants of the handlers\<close>

context emu_invariant
begin

lemma inv_InsnArith_1:
  "I s \<Longrightarrow> pred_option I (add00 s)" "I s \<Longrightarrow> pred_option I (add01 s)"
  "I s \<Longrightarrow> pred_option I (add02 s)" "I s \<Longrightarrow> pred_option I (add03 s)"
  "I s \<Longrightarrow> pred_option I (add04 s)" "I s \<Longrightarrow> pred_option I (add05 s)"
  "I s \<Longrightarrow> pred_option I (adc10 s)" "I s \<Longrightarrow> pred_option I (adc11 s)"
  "I s \<Longrightarrow> pred_option I (adc12 s)" "I s \<Longrightarrow> pred_option I (adc13 s)"
  "I s \<Longrightarrow> pred_option I (adc14 s)" "I s \<Longrightarrow> pred_option I (adc15 s)"
  "I s \<Longrightarrow> pred_option I (sub28 s)" "I s \<Longrightarrow> pred_option I (sub29 s)"
  "I s \<Longrightarrow> pred_option I (sub2a s)" "I s \<Longrightarrow> pred_option I (sub2b s)"
  "I s \<Longrightarrow> pred_option I (sub2c s)" "I s \<Longrightarrow> pred_option I (sub2d s)"
  "I s \<Longrightarrow> pred_option I (sbb18 s)" "I s \<Longrightarrow> pred_option I (sbb19 s)"
  "I s \<Longrightarrow> pred_option I (sbb1a s)" "I s \<Longrightarrow> pred_option I (sbb1b s)"
  "I s \<Longrightarrow> pred_option I (sbb1c s)" "I s \<Longrightarrow> pred_option I (sbb1d s)"
  unfolding insn_defs Let_def by (intro inv_rules; assumption?)+

lemma inv_InsnArith_2:
  "I s \<Longrightarrow> pred_option I (and20 s)" "I s \<Longrightarrow> pred_option I (and21 s)"
  "I s \<Longrightarrow> pred_option I (and22 s)" "I s \<Longrightarrow> pred_option I (and23 s)"
  "I s \<Longrightarrow> pred_option I (and24 s)" "I s \<Longrightarrow> pred_option I (and25 s)"
  "I s \<Longrightarrow> pred_option I (or08 s)" "I s \<Longrightarrow> pred_option I (or09 s)"
  "I s \<Longrightarrow> pred_option I (or0a s)" "I s \<Longrightarrow> pred_option I (or0b s)"
  "I s \<Longrightarrow> pred_option I (or0c s)" "I s \<Longrightarrow> pred_option I (or0d s)"
  "I s \<Longrightarrow> pred_option I (xor30 s)" "I s \<Longrightarrow> pred_option I (xor31 s)"
  "I s \<Longrightarrow> pred_option I (xor32 s)" "I s \<Longrightarrow> pred_option I (xor33 s)"
  "I s \<Longrightarrow> pred_option I (xor34 s)" "I s \<Longrightarrow> pred_option I (xor35 s)"
  "I s \<Longrightarrow> pred_option I (cmp38 s)" "I s \<Longrightarrow> pred_option I (cmp39 s)"
  "I s \<Longrightarrow> pred_option I (cmp3a s)" "I s \<Longrightarrow> pred_option I (cmp3b s)"
  "I s \<Longrightarrow> pred_option I (cmp3c s)" "I s \<Longrightarrow> pred_option I (cmp3d s)"
  unfolding insn_defs Let_def by (intro inv_rules; assumption?)+

lemma inv_InsnArith_3:
  "I s \<Longrightarrow> pred_option I (test84 s)" "I s \<Longrightarrow> pred_option I (test85 s)"
  "I s \<Longrightarrow> pred_option I (testa8 s)" "I s \<Longrightarrow> pred_option I (testa9 s)"
  "I s \<Longrightarrow> pred_option I (testf6 s)" "I s \<Longrightarrow> pred_option I (testf7 s)"
  "I s \<Longrightarrow> pred_option I (notf6 s)" "I s \<Longrightarrow> pred_option I (notf7 s)"
  "I s \<Longrightarrow> pred_option I (inc_dec_fe s)" "I s \<Longrightarrow> pred_option I (incff s)"
  "I s \<Longrightarrow> pred_option I (inc40_47 s)" "I s \<Longrightarrow> pred_option I (decff s)"
  "I s \<Longrightarrow> pred_option I (dec48_4f s)" "I s \<Longrightarrow> pred_option I (negf6 s)"
  "I s \<Longrightarrow> pred_option I (negf7 s)" "I s \<Longrightarrow> pred_option I (add_adc_sub_sbb_cmp_xor_or_and_80 s)"
  "I s \<Longrightarrow> pred_option I (add_adc_sub_sbb_cmp_82 s)" "I s \<Longrightarrow> pred_option I (add_adc_sub_sbb_cmp_xor_or_and_81 s)"
  "I s \<Longrightarrow> pred_option I (add_adc_sub_sbb_cmp_83 s)"
  unfolding insn_defs Let_def by (intro inv_rules; assumption?)+

lemmas inv_InsnArith = inv_InsnArith_1 inv_InsnArith_2 inv_InsnArith_3

end

end
