(* ===== verification/InsnShift.thy ===== *)
theory InsnShift
  imports EmuInv
begin

text \<open>
  Shifts and rotations (shl.cpp, shr.cpp, sar.cpp, rol.cpp, rcl.cpp, ror.cpp, rcr.cpp and the groups
  \<open>shiftc0\<close> to \<open>shiftd3\<close> of Emulate.cpp). A \<open>do_\<close> function loops once per position; the lemmas give
  the closed form of each loop.
\<close>

text \<open>\<open>T sign_bit = 0x80 << (8 * (sizeof(T) - 1))\<close>\<close>

definition sign_bit_of :: "'a::len itself \<Rightarrow> 'a word" where
  "sign_bit_of T = push_bit (8 * (LENGTH('a) div 8 - 1)) 0x80"

section \<open>shl\<close>

fun shl_loop :: "nat \<Rightarrow> u16 \<Rightarrow> 'a::len word \<Rightarrow> u16 \<times> 'a word" where
  "shl_loop 0 flags v = (flags, v)"
| "shl_loop (Suc n) flags v =
     (let flags = flags AND NOT CF;
          flags = (if v AND sign_bit_of TYPE('a) \<noteq> 0 then flags OR CF else flags);
          v = push_bit 1 v
      in shl_loop n flags v)"

definition do_shl :: "'a::len word \<Rightarrow> nat \<Rightarrow> u16 \<times> 'a word" where
  "do_shl v count =
     (let flags = 0;
          overflow_test_bits = drop_bit (LENGTH('a) - 2) v AND 3;
          flags = (if overflow_test_bits = 1 \<or> overflow_test_bits = 2 then flags OR OF else flags);
          sign_bit = sign_bit_of TYPE('a);
          (flags, v) = shl_loop count flags v;
          flags = (if v = 0 then flags OR ZF else flags);
          flags = (if \<not> builtin_parity (v AND 0xff) then flags OR PF else flags);
          flags = (if v AND sign_bit \<noteq> 0 then flags OR SF else flags)
      in (flags, v))"

definition shlc0 :: "'d emu \<Rightarrow> 'd emu option" where [insn_defs]:
  "shlc0 s = do {
     (v, s) \<leftarrow> read_data8 s;
     (count, s) \<leftarrow> fetch_byte s;
     if count AND 0x1f = 0 then Some s else do {
       let (flags, v) = do_shl v (unat (count AND 0x1f));
       s \<leftarrow> write_data8 s v;
       Some (sflags s flags (CF OR ZF OR PF OR SF))
     }
   }"

definition shlc1 :: "'d emu \<Rightarrow> 'd emu option" where [insn_defs]:
  "shlc1 s = do {
     (v, s) \<leftarrow> read_data16 s;
     (count, s) \<leftarrow> fetch_byte s;
     if count AND 0x1f = 0 then Some s else do {
       let (flags, v) = do_shl v (unat (count AND 0x1f));
       s \<leftarrow> write_data16 s v;
       Some (sflags s flags (CF OR ZF OR PF OR SF))
     }
   }"

definition shld0 :: "'d emu \<Rightarrow> 'd emu option" where [insn_defs]:
  "shld0 s = do {
     (v, s) \<leftarrow> read_data8 s;
     let (flags, v) = do_shl v 1;
     s \<leftarrow> write_data8 s v;
     Some (sflags s flags (OF OR CF OR ZF OR PF OR SF))
   }"

definition shld1 :: "'d emu \<Rightarrow> 'd emu option" where [insn_defs]:
  "shld1 s = do {
     (v, s) \<leftarrow> read_data16 s;
     let (flags, v) = do_shl v 1;
     s \<leftarrow> write_data16 s v;
     Some (sflags s flags (CF OR OF OR ZF OR PF OR SF))
   }"

definition shld2 :: "'d emu \<Rightarrow> 'd emu option" where [insn_defs]:
  "shld2 s = do {
     (v, s) \<leftarrow> read_data8 s;
     if rget s CL = 0 then Some s else do {
       let (flags, v) = do_shl v (unat (rget s CL));
       s \<leftarrow> write_data8 s v;
       Some (sflags s flags (CF OR ZF OR PF OR SF))
     }
   }"

definition shld3 :: "'d emu \<Rightarrow> 'd emu option" where [insn_defs]:
  "shld3 s = do {
     (v, s) \<leftarrow> read_data16 s;
     if rget s CL = 0 then Some s else do {
       let (flags, result) = do_shl v (unat (rget s CL));
       s \<leftarrow> write_data16 s result;
       Some (sflags s flags (CF OR ZF OR PF OR SF))
     }
   }"

section \<open>shr\<close>

fun shr_loop :: "nat \<Rightarrow> u16 \<Rightarrow> 'a::len word \<Rightarrow> u16 \<times> 'a word" where
  "shr_loop 0 flags v = (flags, v)"
| "shr_loop (Suc n) flags v =
     (let flags = flags AND NOT CF;
          flags = (if v AND 1 \<noteq> 0 then flags OR CF else flags);
          v = drop_bit 1 v
      in shr_loop n flags v)"

definition do_shr :: "'a::len word \<Rightarrow> nat \<Rightarrow> u16 \<times> 'a word" where
  "do_shr v count =
     (let flags = 0;
          flags = (if v AND sign_bit_of TYPE('a) \<noteq> 0 then flags OR OF else flags);
          (flags, v) = shr_loop count flags v;
          flags = (if v = 0 then flags OR ZF else flags);
          flags = (if \<not> builtin_parity (v AND 0xff) then flags OR PF else flags)
      in (flags, v))"

definition shrc0 :: "'d emu \<Rightarrow> 'd emu option" where [insn_defs]:
  "shrc0 s = do {
     (v, s) \<leftarrow> read_data8 s;
     (count, s) \<leftarrow> fetch_byte s;
     if count AND 0x1f = 0 then Some s else do {
       let (flags, v) = do_shr v (unat (count AND 0x1f));
       s \<leftarrow> write_data8 s v;
       Some (sflags s flags (CF OR ZF OR PF OR SF))
     }
   }"

definition shrc1 :: "'d emu \<Rightarrow> 'd emu option" where [insn_defs]:
  "shrc1 s = do {
     (v, s) \<leftarrow> read_data16 s;
     (count, s) \<leftarrow> fetch_byte s;
     if count AND 0x1f = 0 then Some s else do {
       let (flags, v) = do_shr v (unat (count AND 0x1f));
       s \<leftarrow> write_data16 s v;
       Some (sflags s flags (CF OR ZF OR PF OR SF))
     }
   }"

definition shrd0 :: "'d emu \<Rightarrow> 'd emu option" where [insn_defs]:
  "shrd0 s = do {
     (v, s) \<leftarrow> read_data8 s;
     let (flags, v) = do_shr v 1;
     s \<leftarrow> write_data8 s v;
     Some (sflags s flags (OF OR CF OR ZF OR PF OR SF))
   }"

definition shrd1 :: "'d emu \<Rightarrow> 'd emu option" where [insn_defs]:
  "shrd1 s = do {
     (v, s) \<leftarrow> read_data16 s;
     let (flags, v) = do_shr v 1;
     s \<leftarrow> write_data16 s v;
     Some (sflags s flags (OF OR CF OR ZF OR PF OR SF))
   }"

definition shrd2 :: "'d emu \<Rightarrow> 'd emu option" where [insn_defs]:
  "shrd2 s = do {
     (v, s) \<leftarrow> read_data8 s;
     if rget s CL = 0 then Some s else do {
       let (flags, v) = do_shr v (unat (rget s CL));
       s \<leftarrow> write_data8 s v;
       Some (sflags s flags (CF OR ZF OR PF OR SF))
     }
   }"

definition shrd3 :: "'d emu \<Rightarrow> 'd emu option" where [insn_defs]:
  "shrd3 s = do {
     (v, s) \<leftarrow> read_data16 s;
     if rget s CL = 0 then Some s else do {
       let (flags, v) = do_shr v (unat (rget s CL));
       s \<leftarrow> write_data16 s v;
       Some (sflags s flags (CF OR ZF OR PF OR SF))
     }
   }"

section \<open>sar\<close>

fun sar_loop :: "nat \<Rightarrow> bool \<Rightarrow> u16 \<Rightarrow> 'a::len word \<Rightarrow> u16 \<times> 'a word" where
  "sar_loop 0 is_negative flags v = (flags, v)"
| "sar_loop (Suc n) is_negative flags v =
     (let flags = flags AND NOT CF;
          flags = (if v AND 1 \<noteq> 0 then flags OR CF else flags);
          v = drop_bit 1 v;
          v = (if is_negative then v OR sign_bit_of TYPE('a) else v)
      in sar_loop n is_negative flags v)"

definition do_sar :: "'a::len word \<Rightarrow> nat \<Rightarrow> u16 \<times> 'a word" where
  "do_sar v count =
     (let flags = 0;
          sign_bit = sign_bit_of TYPE('a);
          is_negative = (v AND sign_bit \<noteq> 0);
          (flags, v) = sar_loop count is_negative flags v;
          flags = (if v = 0 then flags OR ZF else flags);
          flags = (if \<not> builtin_parity (v AND 0xff) then flags OR PF else flags);
          flags = (if v AND sign_bit \<noteq> 0 then flags OR SF else flags)
      in (flags, v))"

definition sarc0 :: "'d emu \<Rightarrow> 'd emu option" where [insn_defs]:
  "sarc0 s = do {
     (v, s) \<leftarrow> read_data8 s;
     (count, s) \<leftarrow> fetch_byte s;
     if count AND 0x1f = 0 then Some s else do {
       let (flags, v) = do_sar v (unat (count AND 0x1f));
       s \<leftarrow> write_data8 s v;
       Some (sflags s flags (CF OR ZF OR PF OR SF))
     }
   }"

definition sarc1 :: "'d emu \<Rightarrow> 'd emu option" where [insn_defs]:
  "sarc1 s = do {
     (v, s) \<leftarrow> read_data16 s;
     (count, s) \<leftarrow> fetch_byte s;
     if count AND 0x1f = 0 then Some s else do {
       let (flags, v) = do_sar v (unat (count AND 0x1f));
       s \<leftarrow> write_data16 s v;
       Some (sflags s flags (CF OR ZF OR PF OR SF))
     }
   }"

definition sard0 :: "'d emu \<Rightarrow> 'd emu option" where [insn_defs]:
  "sard0 s = do {
     (v, s) \<leftarrow> read_data8 s;
     let (flags, v) = do_sar v 1;
     s \<leftarrow> write_data8 s v;
     Some (sflags s flags (OF OR CF OR ZF OR PF OR SF))
   }"

definition sard1 :: "'d emu \<Rightarrow> 'd emu option" where [insn_defs]:
  "sard1 s = do {
     (v, s) \<leftarrow> read_data16 s;
     let (flags, v) = do_sar v 1;
     s \<leftarrow> write_data16 s v;
     Some (sflags s flags (OF OR CF OR ZF OR PF OR SF))
   }"

definition sard2 :: "'d emu \<Rightarrow> 'd emu option" where [insn_defs]:
  "sard2 s = do {
     (v, s) \<leftarrow> read_data8 s;
     if rget s CL = 0 then Some s else do {
       let (flags, v) = do_sar v (unat (rget s CL));
       s \<leftarrow> write_data8 s v;
       Some (sflags s flags (CF OR ZF OR PF OR SF))
     }
   }"

definition sard3 :: "'d emu \<Rightarrow> 'd emu option" where [insn_defs]:
  "sard3 s = do {
     (v, s) \<leftarrow> read_data16 s;
     if rget s CL = 0 then Some s else do {
       let (flags, v) = do_sar v (unat (rget s CL));
       s \<leftarrow> write_data16 s v;
       Some (sflags s flags (CF OR ZF OR PF OR SF))
     }
   }"

section \<open>rol\<close>

fun rol_loop :: "nat \<Rightarrow> u16 \<Rightarrow> 'a::len word \<Rightarrow> u16 \<times> 'a word" where
  "rol_loop 0 flags v = (flags, v)"
| "rol_loop (Suc n) flags v =
     (let sign_bit_set = (v AND sign_bit_of TYPE('a) \<noteq> 0);
          flags = flags AND NOT CF;
          flags = (if v AND sign_bit_of TYPE('a) \<noteq> 0 then flags OR CF else flags);
          v = push_bit 1 v;
          v = v + of_bool sign_bit_set
      in rol_loop n flags v)"

definition do_rol :: "'a::len word \<Rightarrow> nat \<Rightarrow> u16 \<times> 'a word" where
  "do_rol v count =
     (let flags = 0;
          sign_bit = sign_bit_of TYPE('a);
          (flags, v) = rol_loop (count AND 0x1f) flags v;
          flags = (if (flags AND CF \<noteq> 0) \<noteq> (v AND sign_bit \<noteq> 0) then flags OR OF else flags)
      in (flags, v))"

definition rolc0 :: "'d emu \<Rightarrow> 'd emu option" where [insn_defs]:
  "rolc0 s = do {
     (v, s) \<leftarrow> read_data8 s;
     (count, s) \<leftarrow> fetch_byte s;
     if count AND 0x1f = 0 then Some s else do {
       let (flags, v) = do_rol v (unat (count AND 0x1f));
       s \<leftarrow> write_data8 s v;
       Some (sflags s flags CF)
     }
   }"

definition rolc1 :: "'d emu \<Rightarrow> 'd emu option" where [insn_defs]:
  "rolc1 s = do {
     (v, s) \<leftarrow> read_data16 s;
     (count, s) \<leftarrow> fetch_byte s;
     if count AND 0x1f = 0 then Some s else do {
       let (flags, v) = do_rol v (unat (count AND 0x1f));
       s \<leftarrow> write_data16 s v;
       Some (sflags s flags CF)
     }
   }"

definition rold0 :: "'d emu \<Rightarrow> 'd emu option" where [insn_defs]:
  "rold0 s = do {
     (v, s) \<leftarrow> read_data8 s;
     let (flags, v) = do_rol v 1;
     s \<leftarrow> write_data8 s v;
     Some (sflags s flags (CF OR OF))
   }"

definition rold1 :: "'d emu \<Rightarrow> 'd emu option" where [insn_defs]:
  "rold1 s = do {
     (v, s) \<leftarrow> read_data16 s;
     let (flags, v) = do_rol v 1;
     s \<leftarrow> write_data16 s v;
     Some (sflags s flags (CF OR OF))
   }"

definition rold2 :: "'d emu \<Rightarrow> 'd emu option" where [insn_defs]:
  "rold2 s = do {
     (v, s) \<leftarrow> read_data8 s;
     if rget s CL = 0 then Some s else do {
       let (flags, v) = do_rol v (unat (rget s CL));
       s \<leftarrow> write_data8 s v;
       Some (sflags s flags CF)
     }
   }"

definition rold3 :: "'d emu \<Rightarrow> 'd emu option" where [insn_defs]:
  "rold3 s = do {
     (v, s) \<leftarrow> read_data16 s;
     if rget s CL = 0 then Some s else do {
       let (flags, v) = do_rol v (unat (rget s CL));
       s \<leftarrow> write_data16 s v;
       Some (sflags s flags CF)
     }
   }"

section \<open>rcl\<close>

fun rcl_loop :: "nat \<Rightarrow> u16 \<Rightarrow> 'a::len word \<Rightarrow> u16 \<times> 'a word" where
  "rcl_loop 0 flags v = (flags, v)"
| "rcl_loop (Suc n) flags v =
     (let carry_bit_set = (flags AND CF \<noteq> 0);
          flags = flags AND NOT CF;
          flags = (if v AND sign_bit_of TYPE('a) \<noteq> 0 then flags OR CF else flags);
          v = push_bit 1 v;
          v = v + of_bool carry_bit_set
      in rcl_loop n flags v)"

definition do_rcl :: "'a::len word \<Rightarrow> nat \<Rightarrow> bool \<Rightarrow> u16 \<times> 'a word" where
  "do_rcl v count carry_in =
     (let flags = (if carry_in then CF else 0);
          sign_bit = sign_bit_of TYPE('a);
          (flags, v) = rcl_loop (count AND 0x1f) flags v;
          flags = (if (flags AND CF \<noteq> 0) \<noteq> (v AND sign_bit \<noteq> 0) then flags OR OF else flags)
      in (flags, v))"

definition rclc0 :: "'d emu \<Rightarrow> 'd emu option" where [insn_defs]:
  "rclc0 s = do {
     (v, s) \<leftarrow> read_data8 s;
     (count, s) \<leftarrow> fetch_byte s;
     if count AND 0x1f = 0 then Some s else do {
       let (flags, v) = do_rcl v (unat (count AND 0x1f)) (fget s CF);
       s \<leftarrow> write_data8 s v;
       Some (sflags s flags CF)
     }
   }"

definition rclc1 :: "'d emu \<Rightarrow> 'd emu option" where [insn_defs]:
  "rclc1 s = do {
     (v, s) \<leftarrow> read_data16 s;
     (count, s) \<leftarrow> fetch_byte s;
     if count AND 0x1f = 0 then Some s else do {
       let (flags, v) = do_rcl v (unat (count AND 0x1f)) (fget s CF);
       s \<leftarrow> write_data16 s v;
       Some (sflags s flags CF)
     }
   }"

definition rcld0 :: "'d emu \<Rightarrow> 'd emu option" where [insn_defs]:
  "rcld0 s = do {
     (v, s) \<leftarrow> read_data8 s;
     let (flags, v) = do_rcl v 1 (fget s CF);
     s \<leftarrow> write_data8 s v;
     Some (sflags s flags (CF OR OF))
   }"

definition rcld1 :: "'d emu \<Rightarrow> 'd emu option" where [insn_defs]:
  "rcld1 s = do {
     (v, s) \<leftarrow> read_data16 s;
     let (flags, v) = do_rcl v 1 (fget s CF);
     s \<leftarrow> write_data16 s v;
     Some (sflags s flags (CF OR OF))
   }"

definition rcld2 :: "'d emu \<Rightarrow> 'd emu option" where [insn_defs]:
  "rcld2 s = do {
     (v, s) \<leftarrow> read_data8 s;
     if rget s CL = 0 then Some s else do {
       let (flags, v) = do_rcl v (unat (rget s CL)) (fget s CF);
       s \<leftarrow> write_data8 s v;
       Some (sflags s flags CF)
     }
   }"

definition rcld3 :: "'d emu \<Rightarrow> 'd emu option" where [insn_defs]:
  "rcld3 s = do {
     (v, s) \<leftarrow> read_data16 s;
     if rget s CL = 0 then Some s else do {
       let (flags, v) = do_rcl v (unat (rget s CL)) (fget s CF);
       s \<leftarrow> write_data16 s v;
       Some (sflags s flags CF)
     }
   }"

section \<open>ror\<close>

fun ror_loop :: "nat \<Rightarrow> u16 \<Rightarrow> 'a::len word \<Rightarrow> u16 \<times> 'a word" where
  "ror_loop 0 flags v = (flags, v)"
| "ror_loop (Suc n) flags v =
     (let flags = flags AND NOT CF;
          flags = (if v AND 1 \<noteq> 0 then flags OR CF else flags);
          lsb = v AND 1;
          v = drop_bit 1 v;
          v = v + push_bit (LENGTH('a) - 1) lsb
      in ror_loop n flags v)"

definition do_ror :: "'a::len word \<Rightarrow> nat \<Rightarrow> u16 \<times> 'a word" where
  "do_ror v count =
     (let flags = 0;
          (flags, v) = ror_loop count flags v;
          msbs = drop_bit (LENGTH('a) - 2) v AND 0x3;
          flags = (if msbs = 2 \<or> msbs = 1 then flags OR OF else flags)
      in (flags, v))"

definition rorc0 :: "'d emu \<Rightarrow> 'd emu option" where [insn_defs]:
  "rorc0 s = do {
     (v, s) \<leftarrow> read_data8 s;
     (count, s) \<leftarrow> fetch_byte s;
     if count AND 0x1f = 0 then Some s else do {
       let (flags, v) = do_ror v (unat (count AND 0x1f));
       s \<leftarrow> write_data8 s v;
       Some (sflags s flags CF)
     }
   }"

definition rorc1 :: "'d emu \<Rightarrow> 'd emu option" where [insn_defs]:
  "rorc1 s = do {
     (v, s) \<leftarrow> read_data16 s;
     (count, s) \<leftarrow> fetch_byte s;
     if count AND 0x1f = 0 then Some s else do {
       let (flags, v) = do_ror v (unat (count AND 0x1f));
       s \<leftarrow> write_data16 s v;
       Some (sflags s flags CF)
     }
   }"

definition rord0 :: "'d emu \<Rightarrow> 'd emu option" where [insn_defs]:
  "rord0 s = do {
     (v, s) \<leftarrow> read_data8 s;
     let (flags, v) = do_ror v 1;
     s \<leftarrow> write_data8 s v;
     Some (sflags s flags (CF OR OF))
   }"

definition rord1 :: "'d emu \<Rightarrow> 'd emu option" where [insn_defs]:
  "rord1 s = do {
     (v, s) \<leftarrow> read_data16 s;
     let (flags, v) = do_ror v 1;
     s \<leftarrow> write_data16 s v;
     Some (sflags s flags (CF OR OF))
   }"

definition rord2 :: "'d emu \<Rightarrow> 'd emu option" where [insn_defs]:
  "rord2 s = do {
     (v, s) \<leftarrow> read_data8 s;
     if rget s CL = 0 then Some s else do {
       let (flags, v) = do_ror v (unat (rget s CL));
       s \<leftarrow> write_data8 s v;
       Some (sflags s flags CF)
     }
   }"

definition rord3 :: "'d emu \<Rightarrow> 'd emu option" where [insn_defs]:
  "rord3 s = do {
     (v, s) \<leftarrow> read_data16 s;
     if rget s CL = 0 then Some s else do {
       let (flags, v) = do_ror v (unat (rget s CL));
       s \<leftarrow> write_data16 s v;
       Some (sflags s flags CF)
     }
   }"

section \<open>rcr\<close>

fun rcr_loop :: "nat \<Rightarrow> u16 \<Rightarrow> 'a::len word \<Rightarrow> u16 \<times> 'a word" where
  "rcr_loop 0 flags v = (flags, v)"
| "rcr_loop (Suc n) flags v =
     (let carry_bit_set = (flags AND CF \<noteq> 0);
          flags = flags AND NOT CF;
          lsb = v AND 1;
          v = drop_bit 1 v;
          v = v + push_bit (LENGTH('a) - 1) (of_bool carry_bit_set);
          flags = (if lsb \<noteq> 0 then flags OR CF else flags)
      in rcr_loop n flags v)"

definition do_rcr :: "'a::len word \<Rightarrow> nat \<Rightarrow> bool \<Rightarrow> u16 \<times> 'a word" where
  "do_rcr v count carry_in =
     (let flags = (if carry_in then CF else 0);
          (flags, v) = rcr_loop (count AND 0x1f) flags v;
          msbs = drop_bit (LENGTH('a) - 2) v AND 0x3;
          flags = (if msbs = 2 \<or> msbs = 1 then flags OR OF else flags)
      in (flags, v))"

definition rcrc0 :: "'d emu \<Rightarrow> 'd emu option" where [insn_defs]:
  "rcrc0 s = do {
     (v, s) \<leftarrow> read_data8 s;
     (count, s) \<leftarrow> fetch_byte s;
     if count AND 0x1f = 0 then Some s else do {
       let (flags, v) = do_rcr v (unat (count AND 0x1f)) (fget s CF);
       s \<leftarrow> write_data8 s v;
       Some (sflags s flags CF)
     }
   }"

definition rcrc1 :: "'d emu \<Rightarrow> 'd emu option" where [insn_defs]:
  "rcrc1 s = do {
     (v, s) \<leftarrow> read_data16 s;
     (count, s) \<leftarrow> fetch_byte s;
     if count AND 0x1f = 0 then Some s else do {
       let (flags, v) = do_rcr v (unat (count AND 0x1f)) (fget s CF);
       s \<leftarrow> write_data16 s v;
       Some (sflags s flags CF)
     }
   }"

definition rcrd0 :: "'d emu \<Rightarrow> 'd emu option" where [insn_defs]:
  "rcrd0 s = do {
     (v, s) \<leftarrow> read_data8 s;
     let (flags, v) = do_rcr v 1 (fget s CF);
     s \<leftarrow> write_data8 s v;
     Some (sflags s flags (CF OR OF))
   }"

definition rcrd1 :: "'d emu \<Rightarrow> 'd emu option" where [insn_defs]:
  "rcrd1 s = do {
     (v, s) \<leftarrow> read_data16 s;
     let (flags, v) = do_rcr v 1 (fget s CF);
     s \<leftarrow> write_data16 s v;
     Some (sflags s flags (CF OR OF))
   }"

definition rcrd2 :: "'d emu \<Rightarrow> 'd emu option" where [insn_defs]:
  "rcrd2 s = do {
     (v, s) \<leftarrow> read_data8 s;
     if rget s CL = 0 then Some s else do {
       let (flags, v) = do_rcr v (unat (rget s CL)) (fget s CF);
       s \<leftarrow> write_data8 s v;
       Some (sflags s flags CF)
     }
   }"

definition rcrd3 :: "'d emu \<Rightarrow> 'd emu option" where [insn_defs]:
  "rcrd3 s = do {
     (v, s) \<leftarrow> read_data16 s;
     if rget s CL = 0 then Some s else do {
       let (flags, v) = do_rcr v (unat (rget s CL)) (fget s CF);
       s \<leftarrow> write_data16 s v;
       Some (sflags s flags CF)
     }
   }"

section \<open>The groups\<close>

definition shiftc0 :: "'d emu \<Rightarrow> 'd emu option" where [insn_defs]:
  "shiftc0 s = do {
     s \<leftarrow> decode (set_width s OP_WIDTH_8);
     n \<leftarrow> rawreg s;
     if n = 4 \<or> n = 6 then shlc0 s
     else if n = 5 then shrc0 s
     else if n = 7 then sarc0 s
     else if n = 0 then rolc0 s
     else if n = 2 then rclc0 s
     else if n = 3 then rcrc0 s
     else if n = 1 then rorc0 s
     else Some s
   }"

definition shiftc1 :: "'d emu \<Rightarrow> 'd emu option" where [insn_defs]:
  "shiftc1 s = do {
     s \<leftarrow> decode (set_width s OP_WIDTH_16);
     n \<leftarrow> rawreg s;
     if n = 4 \<or> n = 6 then shlc1 s
     else if n = 5 then shrc1 s
     else if n = 7 then sarc1 s
     else if n = 0 then rolc1 s
     else if n = 2 then rclc1 s
     else if n = 3 then rcrc1 s
     else if n = 1 then rorc1 s
     else Some s
   }"

definition shiftd0 :: "'d emu \<Rightarrow> 'd emu option" where [insn_defs]:
  "shiftd0 s = do {
     s \<leftarrow> decode (set_width s OP_WIDTH_8);
     n \<leftarrow> rawreg s;
     if n = 4 \<or> n = 6 then shld0 s
     else if n = 5 then shrd0 s
     else if n = 7 then sard0 s
     else if n = 0 then rold0 s
     else if n = 2 then rcld0 s
     else if n = 3 then rcrd0 s
     else if n = 1 then rord0 s
     else Some s
   }"

definition shiftd1 :: "'d emu \<Rightarrow> 'd emu option" where [insn_defs]:
  "shiftd1 s = do {
     s \<leftarrow> decode (set_width s OP_WIDTH_16);
     n \<leftarrow> rawreg s;
     if n = 4 \<or> n = 6 then shld1 s
     else if n = 5 then shrd1 s
     else if n = 7 then sard1 s
     else if n = 0 then rold1 s
     else if n = 2 then rcld1 s
     else if n = 3 then rcrd1 s
     else if n = 1 then rord1 s
     else Some s
   }"

definition shiftd2 :: "'d emu \<Rightarrow> 'd emu option" where [insn_defs]:
  "shiftd2 s = do {
     s \<leftarrow> decode (set_width s OP_WIDTH_8);
     n \<leftarrow> rawreg s;
     if n = 4 \<or> n = 6 then shld2 s
     else if n = 5 then shrd2 s
     else if n = 7 then sard2 s
     else if n = 0 then rold2 s
     else if n = 2 then rcld2 s
     else if n = 1 then rord2 s
     else if n = 3 then rcrd2 s
     else Some s
   }"

definition shiftd3 :: "'d emu \<Rightarrow> 'd emu option" where [insn_defs]:
  "shiftd3 s = do {
     s \<leftarrow> decode (set_width s OP_WIDTH_16);
     n \<leftarrow> rawreg s;
     if n = 4 \<or> n = 6 then shld3 s
     else if n = 5 then shrd3 s
     else if n = 7 then sard3 s
     else if n = 0 then rold3 s
     else if n = 2 then rcld3 s
     else if n = 1 then rord3 s
     else if n = 3 then rcrd3 s
     else Some s
   }"

section \<open>Invariants of the handlers\<close>

context emu_invariant
begin

lemma inv_InsnShift_1:
  "I s \<Longrightarrow> pred_option I (shlc0 s)" "I s \<Longrightarrow> pred_option I (shlc1 s)"
  "I s \<Longrightarrow> pred_option I (shld0 s)" "I s \<Longrightarrow> pred_option I (shld1 s)"
  "I s \<Longrightarrow> pred_option I (shld2 s)" "I s \<Longrightarrow> pred_option I (shld3 s)"
  "I s \<Longrightarrow> pred_option I (shrc0 s)" "I s \<Longrightarrow> pred_option I (shrc1 s)"
  "I s \<Longrightarrow> pred_option I (shrd0 s)" "I s \<Longrightarrow> pred_option I (shrd1 s)"
  "I s \<Longrightarrow> pred_option I (shrd2 s)" "I s \<Longrightarrow> pred_option I (shrd3 s)"
  "I s \<Longrightarrow> pred_option I (sarc0 s)" "I s \<Longrightarrow> pred_option I (sarc1 s)"
  "I s \<Longrightarrow> pred_option I (sard0 s)" "I s \<Longrightarrow> pred_option I (sard1 s)"
  "I s \<Longrightarrow> pred_option I (sard2 s)" "I s \<Longrightarrow> pred_option I (sard3 s)"
  "I s \<Longrightarrow> pred_option I (rolc0 s)" "I s \<Longrightarrow> pred_option I (rolc1 s)"
  "I s \<Longrightarrow> pred_option I (rold0 s)" "I s \<Longrightarrow> pred_option I (rold1 s)"
  "I s \<Longrightarrow> pred_option I (rold2 s)" "I s \<Longrightarrow> pred_option I (rold3 s)"
  unfolding insn_defs Let_def by (intro inv_rules; assumption?)+

lemma inv_InsnShift_2:
  "I s \<Longrightarrow> pred_option I (rclc0 s)" "I s \<Longrightarrow> pred_option I (rclc1 s)"
  "I s \<Longrightarrow> pred_option I (rcld0 s)" "I s \<Longrightarrow> pred_option I (rcld1 s)"
  "I s \<Longrightarrow> pred_option I (rcld2 s)" "I s \<Longrightarrow> pred_option I (rcld3 s)"
  "I s \<Longrightarrow> pred_option I (rorc0 s)" "I s \<Longrightarrow> pred_option I (rorc1 s)"
  "I s \<Longrightarrow> pred_option I (rord0 s)" "I s \<Longrightarrow> pred_option I (rord1 s)"
  "I s \<Longrightarrow> pred_option I (rord2 s)" "I s \<Longrightarrow> pred_option I (rord3 s)"
  "I s \<Longrightarrow> pred_option I (rcrc0 s)" "I s \<Longrightarrow> pred_option I (rcrc1 s)"
  "I s \<Longrightarrow> pred_option I (rcrd0 s)" "I s \<Longrightarrow> pred_option I (rcrd1 s)"
  "I s \<Longrightarrow> pred_option I (rcrd2 s)" "I s \<Longrightarrow> pred_option I (rcrd3 s)"
  "I s \<Longrightarrow> pred_option I (shiftc0 s)" "I s \<Longrightarrow> pred_option I (shiftc1 s)"
  "I s \<Longrightarrow> pred_option I (shiftd0 s)" "I s \<Longrightarrow> pred_option I (shiftd1 s)"
  "I s \<Longrightarrow> pred_option I (shiftd2 s)" "I s \<Longrightarrow> pred_option I (shiftd3 s)"
  unfolding insn_defs Let_def by (intro inv_rules; assumption?)+

lemmas inv_InsnShift = inv_InsnShift_1 inv_InsnShift_2

end

section \<open>What the loops compute\<close>

lemma sign_bit_of_eq: "8 dvd LENGTH('a) \<Longrightarrow> sign_bit_of TYPE('a::len) = push_bit (LENGTH('a) - 1) 1"
proof -
  assume "8 dvd LENGTH('a)"
  then obtain k where k: "LENGTH('a) = 8 * k" by blast
  then have "0 < k" using len_gt_0 [where 'a = 'a] by (cases k) auto
  have "push_bit (8 * (k - 1)) (0x80 :: 'a word) = push_bit (8 * (k - 1)) (push_bit 7 1)"
    by simp
  also have "\<dots> = push_bit (8 * k - 1) 1"
    using \<open>0 < k\<close> by (simp only: push_bit_push_bit) (rule arg_cong2 [where f = push_bit]; simp)
  finally show ?thesis by (simp add: sign_bit_of_def k)
qed

lemma sign_bit_test: "8 dvd LENGTH('a) \<Longrightarrow> v AND sign_bit_of TYPE('a) \<noteq> 0 \<longleftrightarrow> bit v (LENGTH('a) - 1)"
  for v :: "'a::len word"
  by (simp only: sign_bit_of_eq and_exp_nonzero)

lemma low_bit_test: "v AND 1 \<noteq> 0 \<longleftrightarrow> bit v 0" for v :: "'a::len word"
  using and_exp_nonzero [of v 0] by simp

text \<open>Setting the carry: \<open>flags &= ~CF; if (c) flags |= CF;\<close>\<close>

definition set_carry :: "u16 \<Rightarrow> bool \<Rightarrow> u16" where
  "set_carry f c = (if c then f AND NOT CF OR CF else f AND NOT CF)"

lemma bit_set_carry: "bit (set_carry f c) i = (if i = 0 then c else bit f i)"
  by (auto simp: set_carry_def bit_simps dest: bit_imp_le_length)

subsection \<open>Shifts\<close>

lemma shl_loop_Suc:
  "8 dvd LENGTH('a) \<Longrightarrow> shl_loop (Suc n) f v = shl_loop n (set_carry f (bit v (LENGTH('a) - 1))) (push_bit 1 v)"
  for v :: "'a::len word"
  by (simp only: shl_loop.simps Let_def sign_bit_test set_carry_def)

lemma shl_carry_bit: "bit (push_bit n (uint v)) LENGTH('a) \<longleftrightarrow> n \<le> LENGTH('a) \<and> bit v (LENGTH('a) - n)"
  for v :: "'a::len word"
  by (auto simp: bit_push_bit_iff bit_uint_iff dest: bit_imp_le_length)

lemma bit_push_1: "bit (push_bit 1 v) i \<longleftrightarrow> 0 < i \<and> i < LENGTH('a) \<and> bit v (i - 1)" for v :: "'a::len word"
  unfolding bit_push_bit_iff by (auto dest: bit_imp_le_length)

lemma shl_loop_eq:
  fixes v :: "'a::len word"
  assumes "8 dvd LENGTH('a)"
  shows "snd (shl_loop n f v) = push_bit n v"
    and "bit (fst (shl_loop n f v)) i \<longleftrightarrow>
      (if i = 0 \<and> 0 < n then bit (push_bit n (uint v)) LENGTH('a) else bit f i)"
proof (induction n arbitrary: f v)
  case (Suc n)
  {
    case 1
    show ?case using Suc(1) by (simp add: shl_loop_Suc [OF assms] del: shl_loop.simps)
  next
    case 2
    show ?case
      unfolding shl_loop_Suc [OF assms] Suc(2) bit_set_carry shl_carry_bit bit_push_1
      by (auto simp: Suc_le_eq)
  }
qed simp_all

lemma shr_loop_Suc: "shr_loop (Suc n) f v = shr_loop n (set_carry f (bit v 0)) (drop_bit 1 v)"
  by (simp only: shr_loop.simps Let_def low_bit_test set_carry_def)

lemma shr_loop_eq:
  "snd (shr_loop n f v) = drop_bit n v"
  "bit (fst (shr_loop n f v)) i \<longleftrightarrow> (if i = 0 \<and> 0 < n then bit v (n - 1) else bit f i)"
proof (induction n arbitrary: f v)
  case (Suc n)
  {
    case 1
    show ?case using Suc(1) by (simp add: shr_loop_Suc del: shr_loop.simps)
  next
    case 2
    show ?case
      unfolding shr_loop_Suc Suc(2) bit_set_carry by (auto simp: bit_simps)
  }
qed simp_all

lemma sar_step: "8 dvd LENGTH('a) \<Longrightarrow> neg = bit v (LENGTH('a) - 1) \<Longrightarrow>
   (if neg then drop_bit 1 v OR sign_bit_of TYPE('a) else drop_bit 1 v) = signed_drop_bit 1 v"
  for v :: "'a::len word"
  by (intro bit_word_eqI) (auto simp: sign_bit_of_eq bit_single bit_simps split: if_splits dest: bit_imp_le_length)

lemma sar_loop_Suc:
  "8 dvd LENGTH('a) \<Longrightarrow> neg = bit v (LENGTH('a) - 1) \<Longrightarrow>
   sar_loop (Suc n) neg f v = sar_loop n neg (set_carry f (bit v 0)) (signed_drop_bit 1 v)"
  for v :: "'a::len word"
  by (simp only: sar_loop.simps Let_def low_bit_test set_carry_def sar_step)

lemma sar_loop_eq:
  fixes v :: "'a::len word"
  assumes "8 dvd LENGTH('a)" "neg = bit v (LENGTH('a) - 1)"
  shows "snd (sar_loop n neg f v) = signed_drop_bit n v"
    and "bit (fst (sar_loop n neg f v)) i \<longleftrightarrow> (if i = 0 \<and> 0 < n then bit (sint v) (n - 1) else bit f i)"
  using assms(2)
proof (induction n arbitrary: f v)
  case (Suc n)
  {
    case 1
    have neg: "neg = bit (signed_drop_bit 1 v) (LENGTH('a) - 1)"
      using 1 by (simp add: bit_signed_drop_bit_iff)
    have "signed_drop_bit n (signed_drop_bit 1 v) = signed_drop_bit (Suc n) v"
      by (intro bit_word_eqI) (auto simp: bit_signed_drop_bit_iff split: if_splits)
    then show ?case using Suc(1) [OF neg] by (simp add: sar_loop_Suc [OF assms(1) 1] del: sar_loop.simps)
  next
    case 2
    have neg: "neg = bit (signed_drop_bit 1 v) (LENGTH('a) - 1)"
      using 2 by (simp add: bit_signed_drop_bit_iff)
    show ?case
      unfolding sar_loop_Suc [OF assms(1) 2] Suc(2) [OF neg] bit_set_carry
      by (auto simp: bit_simps bit_sint_iff bit_signed_drop_bit_iff)
  }
qed simp_all

lemma top_two_bits:
  fixes v :: "'a::len word"
  assumes "2 \<le> LENGTH('a)"
  shows "drop_bit (LENGTH('a) - 2) v AND 3 = 1 \<or> drop_bit (LENGTH('a) - 2) v AND 3 = 2 \<longleftrightarrow>
    bit v (LENGTH('a) - 1) \<noteq> bit v (LENGTH('a) - 2)"
proof -
  let ?w = "drop_bit (LENGTH('a) - 2) v AND mask 2"
  have w: "bit ?w i \<longleftrightarrow> (i = 0 \<and> bit v (LENGTH('a) - 2)) \<or> (i = 1 \<and> bit v (LENGTH('a) - 1))" for i
    using assms by (auto simp: bit_simps less_2_cases_iff dest: bit_imp_le_length)
  have eq: "?w = u \<longleftrightarrow> bit u 0 = bit v (LENGTH('a) - 2) \<and> bit u 1 = bit v (LENGTH('a) - 1)"
    if "\<And>i. 2 \<le> i \<Longrightarrow> \<not> bit u i" for u
  proof
    assume "?w = u"
    then show "bit u 0 = bit v (LENGTH('a) - 2) \<and> bit u 1 = bit v (LENGTH('a) - 1)" using w by auto
  next
    assume u: "bit u 0 = bit v (LENGTH('a) - 2) \<and> bit u 1 = bit v (LENGTH('a) - 1)"
    show "?w = u"
    proof (rule bit_word_eqI)
      fix i show "bit ?w i = bit u i"
        using that [of i] u unfolding w by (cases "2 \<le> i") (auto simp: not_le less_2_cases_iff)
    qed
  qed
  have "?w = push_bit 0 1 \<longleftrightarrow> bit v (LENGTH('a) - 2) \<and> \<not> bit v (LENGTH('a) - 1)"
    "?w = push_bit 1 1 \<longleftrightarrow> \<not> bit v (LENGTH('a) - 2) \<and> bit v (LENGTH('a) - 1)"
    using eq [of "push_bit 0 1"] eq [of "push_bit 1 1"] assms unfolding bit_single by auto
  moreover have "mask 2 = (3 :: 'a word)" "push_bit 0 1 = (1 :: 'a word)" "push_bit 1 1 = (2 :: 'a word)"
    by (simp_all add: mask_eq_exp_minus_1)
  ultimately show ?thesis by auto
qed

lemma length_8: "8 dvd LENGTH('a::len) \<Longrightarrow> 8 \<le> LENGTH('a)"
  by (rule dvd_imp_le) simp_all

lemma parity_flag: "8 \<le> LENGTH('a) \<Longrightarrow>
    builtin_parity (v AND 0xff) \<longleftrightarrow> odd (card {n. n < 8 \<and> bit v n})" for v :: "'a::len word"
  by (simp only: parity_low_byte builtin_parity_card)

text \<open>
  C28. Left shift: \<open>do_shl\<close> with any count returns the word shifted left, CF is the last bit shifted out
  (the bit that reaches position \<open>N\<close> of the unbounded shift), SF, ZF and PF describe the result and OF says
  that the two top bits of the operand differ.
\<close>

theorem do_shl_correct:
  fixes v :: "'a::len word"
  assumes "8 dvd LENGTH('a)"
  shows "case do_shl v n of (f, r) \<Rightarrow> r = push_bit n v \<and> result_flags f r \<and>
    ((f AND CF \<noteq> 0) \<longleftrightarrow> bit (push_bit n (uint v)) LENGTH('a)) \<and>
    ((f AND OF \<noteq> 0) \<longleftrightarrow> bit v (LENGTH('a) - 1) \<noteq> bit v (LENGTH('a) - 2))"
proof -
  note L = shl_loop_eq [OF assms, of n _ v]
  note P = parity_flag [OF length_8 [OF assms]]
  have "2 \<le> LENGTH('a)" using length_8 [OF assms] by simp
  note T = top_two_bits [OF this, of v]
  show ?thesis
    unfolding do_shl_def Let_def case_prod_beta result_flags_def flag_mask_bits sint_negative T P
      sign_bit_test [OF assms] bit_if_or fst_conv snd_conv L
    by (auto simp: flag_bits bit_or_iff shl_carry_bit dest: bit_imp_le_length)
qed

theorem do_shl_correct_witness:
  "snd (do_shl (0xc1 :: u8) 3) = 0x08 \<and> fst (do_shl (0xc1 :: u8) 3) AND CF = 0 \<and>
   fst (do_shl (0xc1 :: u8) 2) AND CF \<noteq> 0"
  using do_shl_correct [where v = "0xc1 :: u8" and n = 3] do_shl_correct [where v = "0xc1 :: u8" and n = 2]
  by (simp add: case_prod_beta bit_simps)

text \<open>
  Logical right shift: for a count above zero, \<open>do_shr\<close> returns the word shifted right, CF is the last
  bit shifted out, OF the sign of the operand, and SF, ZF and PF describe the result.
\<close>

theorem do_shr_correct:
  fixes v :: "'a::len word"
  assumes "8 dvd LENGTH('a)" "0 < n"
  shows "case do_shr v n of (f, r) \<Rightarrow> r = drop_bit n v \<and> result_flags f r \<and>
    ((f AND CF \<noteq> 0) \<longleftrightarrow> bit v (n - 1)) \<and> ((f AND OF \<noteq> 0) \<longleftrightarrow> sint v < 0)"
proof -
  note P = parity_flag [OF length_8 [OF assms(1)]]
  have "\<not> bit (drop_bit n v) (LENGTH('a) - 1)"
    using assms(2) by (auto simp: bit_drop_bit_eq dest: bit_imp_le_length)
  then show ?thesis
    unfolding do_shr_def Let_def case_prod_beta result_flags_def flag_mask_bits sint_negative P
      sign_bit_test [OF assms(1)] bit_if_or fst_conv snd_conv shr_loop_eq
    using assms(2) by (auto simp: flag_bits bit_or_iff)
qed

theorem do_shr_correct_witness:
  "snd (do_shr (0x8003 :: u16) 1) = 0x4001 \<and> fst (do_shr (0x8003 :: u16) 1) AND CF \<noteq> 0"
  using do_shr_correct [where v = "0x8003 :: u16" and n = 1] by (simp add: case_prod_beta)

text \<open>
  Arithmetic right shift: the loop of \<open>do_sar\<close> divides the signed value by \<open>2 ^ n\<close>, rounding down, for
  every count; CF is the last bit shifted out of the sign-extended operand and OF is clear.
\<close>

theorem do_sar_correct:
  fixes v :: "'a::len word"
  assumes "8 dvd LENGTH('a)"
  shows "case do_sar v n of (f, r) \<Rightarrow> sint r = sint v div 2 ^ n \<and> result_flags f r \<and>
    ((f AND CF \<noteq> 0) \<longleftrightarrow> 0 < n \<and> bit (sint v) (n - 1)) \<and> f AND OF = 0"
proof -
  note P = parity_flag [OF length_8 [OF assms]]
  note L = sar_loop_eq [OF assms refl, where n = n and v = v]
  have "sint (signed_drop_bit n v) = sint v div 2 ^ n"
    by (simp add: sint_signed_drop_bit_eq drop_bit_eq_div)
  then show ?thesis
    unfolding do_sar_def Let_def case_prod_beta result_flags_def flag_mask_bits sint_negative P
      sign_bit_test [OF assms] bit_if_or fst_conv snd_conv L
    by (auto simp: flag_bits bit_or_iff)
qed

theorem do_sar_correct_witness:
  "sint (snd (do_sar (0xf1 :: u8) 2)) = - 4"
  using do_sar_correct [where v = "0xf1 :: u8" and n = 2] by (simp add: case_prod_beta)

subsection \<open>Rotations\<close>

lemma rol_step: "bit (push_bit 1 v + of_bool b) i \<longleftrightarrow> i < LENGTH('a) \<and> (if i = 0 then b else bit v (i - 1))"
  for v :: "'a::len word"
proof -
  have "push_bit 1 v + of_bool b = push_bit 1 v OR of_bool b"
    by (rule disjunctive_add) (unfold bit_push_1, auto simp: bit_of_bool_iff)
  then show ?thesis
    by (simp only: bit_or_iff bit_push_1 bit_of_bool_iff) auto
qed

lemma ror_step:
  "bit (drop_bit 1 v + push_bit (LENGTH('a) - 1) (of_bool b)) i \<longleftrightarrow>
     (if i = LENGTH('a) - 1 then b else bit v (Suc i))"
  for v :: "'a::len word"
proof -
  have "drop_bit 1 v + push_bit (LENGTH('a) - 1) (of_bool b) = drop_bit 1 v OR push_bit (LENGTH('a) - 1) (of_bool b)"
    by (rule disjunctive_add) (auto simp: bit_simps dest: bit_imp_le_length)
  then show ?thesis
    by (auto simp: bit_simps dest: bit_imp_le_length)
qed


text \<open>One turn of a rotation moves every bit by one place around the word.\<close>

lemma rol_loop_Suc:
  "8 dvd LENGTH('a) \<Longrightarrow> rol_loop (Suc n) f v =
     rol_loop n (set_carry f (bit v (LENGTH('a) - 1))) (push_bit 1 v + of_bool (bit v (LENGTH('a) - 1)))"
  for v :: "'a::len word"
  by (simp only: rol_loop.simps Let_def sign_bit_test set_carry_def)

lemma rotl_step: "push_bit 1 v + of_bool (bit v (LENGTH('a) - 1)) = word_rotl 1 v" for v :: "'a::len word"
proof (rule bit_word_eqI)
  fix i assume i: "i < LENGTH('a)"
  show "bit (push_bit 1 v + of_bool (bit v (LENGTH('a) - 1))) i = bit (word_rotl 1 v) i"
  proof (cases "LENGTH('a) = 1")
    case True
    with i show ?thesis unfolding rol_step bit_word_rotl_iff by simp
  next
    case False
    with i have "(i + (LENGTH('a) - 1 mod LENGTH('a))) mod LENGTH('a) = (if i = 0 then LENGTH('a) - 1 else i - 1)"
      by (auto simp: mod_if)
    with i show ?thesis unfolding rol_step bit_word_rotl_iff by simp
  qed
qed

lemma rotl_mod: "0 < N \<Longrightarrow> ((i + (N - n mod N)) mod N + (N - 1 mod N)) mod N = (i + (N - Suc n mod N)) mod (N :: nat)"
proof -
  assume N: "0 < N"
  have r: "n mod N < N" using N by simp
  show ?thesis
  proof (cases "Suc (n mod N) = N")
    case True
    have "((i + (N - n mod N)) mod N + (N - 1 mod N)) mod N = (i + (N - n mod N) + (N - 1 mod N)) mod N"
      by (simp add: mod_add_left_eq)
    also have "i + (N - n mod N) + (N - 1 mod N) = i + 1 + (N - 1 mod N)" using True by simp
    also have "(i + 1 + (N - 1 mod N)) mod N = (i + N) mod N"
      using N by (cases "N = 1") simp_all
    finally show ?thesis using True by (simp add: mod_Suc)
  next
    case False
    with r have "Suc (n mod N) < N" by simp
    then have "i + (N - n mod N) + (N - 1 mod N) = i + (N - Suc (n mod N)) + N" by simp
    then have "((i + (N - n mod N)) mod N + (N - 1 mod N)) mod N = (i + (N - Suc (n mod N)) + N) mod N"
      by (simp only: mod_add_left_eq)
    also have "\<dots> = (i + (N - Suc (n mod N))) mod N" by simp
    finally have "((i + (N - n mod N)) mod N + (N - 1 mod N)) mod N = (i + (N - Suc (n mod N))) mod N" .
    with False show ?thesis by (simp add: mod_Suc)
  qed
qed

lemma rotl_add: "word_rotl n (word_rotl 1 v) = word_rotl (Suc n) v" for v :: "'a::len word"
proof (rule bit_word_eqI)
  fix i assume "i < LENGTH('a)"
  then show "bit (word_rotl n (word_rotl 1 v)) i = bit (word_rotl (Suc n) v) i"
    unfolding bit_word_rotl_iff rotl_mod [OF len_gt_0] by simp
qed

lemma rotr_add: "word_rotr n (word_rotr 1 v) = word_rotr (Suc n) v" for v :: "'a::len word"
  by (rule bit_word_eqI) (simp add: bit_word_rotr_iff mod_Suc_eq)

lemma ror_loop_Suc:
  "ror_loop (Suc n) f v = ror_loop n (set_carry f (bit v 0)) (drop_bit 1 v + push_bit (LENGTH('a) - 1) (of_bool (bit v 0)))"
  for v :: "'a::len word"
  by (simp only: ror_loop.simps Let_def low_bit_test set_carry_def) (simp add: and_one_eq bit_0 mod_2_eq_odd)

lemma rotr_step: "drop_bit 1 v + push_bit (LENGTH('a) - 1) (of_bool (bit v 0)) = word_rotr 1 v" for v :: "'a::len word"
proof (rule bit_word_eqI)
  fix i assume i: "i < LENGTH('a)"
  then show "bit (drop_bit 1 v + push_bit (LENGTH('a) - 1) (of_bool (bit v 0))) i = bit (word_rotr 1 v) i"
    unfolding ror_step bit_word_rotr_iff by (auto simp: mod_if)
qed

lemma rot_0: "word_rotl 0 v = v" "word_rotr 0 v = v" for v :: "'a::len word"
  by (rule bit_word_eqI; simp add: bit_word_rotl_iff bit_word_rotr_iff)+

lemma rotl_first: "bit (word_rotl 1 v) 0 = bit v (LENGTH('a) - 1)" for v :: "'a::len word"
  using rol_step [of v "bit v (LENGTH('a) - 1)" 0] unfolding rotl_step by simp

lemma rol_loop_eq:
  fixes v :: "'a::len word"
  assumes "8 dvd LENGTH('a)"
  shows "snd (rol_loop n f v) = word_rotl n v"
    and "bit (fst (rol_loop n f v)) i \<longleftrightarrow> (if i = 0 \<and> 0 < n then bit (word_rotl n v) 0 else bit f i)"
proof (induction n arbitrary: f v)
  case (Suc n)
  {
    case 1
    show ?case unfolding rol_loop_Suc [OF assms] Suc(1) rotl_step rotl_add ..
  next
    case 2
    show ?case
      unfolding rol_loop_Suc [OF assms] Suc(2) rotl_step rotl_add bit_set_carry
      unfolding rotl_first [symmetric] by (cases n) simp_all
  }
qed (simp_all add: rot_0)

lemma ror_loop_eq:
  fixes v :: "'a::len word"
  shows "snd (ror_loop n f v) = word_rotr n v"
    and "bit (fst (ror_loop n f v)) i \<longleftrightarrow> (if i = 0 \<and> 0 < n then bit (word_rotr n v) (LENGTH('a) - 1) else bit f i)"
proof (induction n arbitrary: f v)
  case (Suc n)
  {
    case 1
    show ?case unfolding ror_loop_Suc Suc(1) rotr_step rotr_add ..
  next
    case 2
    show ?case
      unfolding ror_loop_Suc Suc(2) rotr_step rotr_add bit_set_carry
      by (cases n) (auto simp: bit_word_rotr_iff)
  }
qed (simp_all add: rot_0)

text \<open>
  Left rotation: \<open>do_rol\<close> rotates the word by the count modulo 32; CF is the bit that came around to
  position 0 and OF says that it differs from the top bit.
\<close>

theorem do_rol_correct:
  fixes v :: "'a::len word"
  assumes "8 dvd LENGTH('a)" "0 < n AND 0x1f"
  shows "case do_rol v n of (f, r) \<Rightarrow> r = word_rotl (n AND 0x1f) v \<and>
    ((f AND CF \<noteq> 0) \<longleftrightarrow> bit r 0) \<and> ((f AND OF \<noteq> 0) \<longleftrightarrow> bit r 0 \<noteq> bit r (LENGTH('a) - 1))"
  unfolding do_rol_def Let_def case_prod_beta flag_mask_bits and_CF_nonzero
    sign_bit_test [OF assms(1)] bit_if_or fst_conv snd_conv rol_loop_eq [OF assms(1)]
  using assms(2) by (auto simp: flag_bits bit_or_iff)

theorem do_rol_correct_witness:
  "snd (do_rol (0x81 :: u8) 9) = word_rotl 9 0x81"
  using do_rol_correct [where v = "0x81 :: u8" and n = 9] by (simp add: case_prod_beta)

text \<open>
  Right rotation: \<open>do_ror\<close> rotates the word by the count; CF is the bit that came around to the top and
  OF says that the two top bits differ.
\<close>

theorem do_ror_correct:
  fixes v :: "'a::len word"
  assumes "8 dvd LENGTH('a)" "0 < n"
  shows "case do_ror v n of (f, r) \<Rightarrow> r = word_rotr n v \<and>
    ((f AND CF \<noteq> 0) \<longleftrightarrow> bit r (LENGTH('a) - 1)) \<and>
    ((f AND OF \<noteq> 0) \<longleftrightarrow> bit r (LENGTH('a) - 1) \<noteq> bit r (LENGTH('a) - 2))"
proof -
  have "2 \<le> LENGTH('a)" using length_8 [OF assms(1)] by simp
  note T = top_two_bits [OF this]
  show ?thesis
    unfolding do_ror_def Let_def case_prod_beta flag_mask_bits bit_if_or fst_conv snd_conv ror_loop_eq
      disj_commute [of "_ = 2" "_ = 1"] T
    using assms(2) by (auto simp: flag_bits bit_or_iff)
qed

theorem do_ror_correct_witness:
  "snd (do_ror (0x0001 :: u16) 1) = word_rotr 1 0x0001"
  using do_ror_correct [where v = "0x0001 :: u16" and n = 1] by (simp add: case_prod_beta)

subsection \<open>Rotations through the carry\<close>

text \<open>The \<open>N + 1\<close> bits that rotate: the word, with the carry above it.\<close>

definition carry_word_bit :: "bool \<Rightarrow> 'a::len word \<Rightarrow> nat \<Rightarrow> bool" where
  "carry_word_bit c v i = (if i = LENGTH('a) then c else bit v i)"

lemma rcl_loop_Suc:
  "8 dvd LENGTH('a) \<Longrightarrow> rcl_loop (Suc n) f v =
     rcl_loop n (set_carry f (bit v (LENGTH('a) - 1))) (push_bit 1 v + of_bool (bit f 0))"
  for v :: "'a::len word"
  by (simp only: rcl_loop.simps Let_def sign_bit_test and_CF_nonzero set_carry_def)

lemma rcr_loop_Suc:
  "rcr_loop (Suc n) f v =
     rcr_loop n (set_carry f (bit v 0)) (drop_bit 1 v + push_bit (LENGTH('a) - 1) (of_bool (bit f 0)))"
  for v :: "'a::len word"
  by (simp only: rcr_loop.simps Let_def low_bit_test and_CF_nonzero set_carry_def)

lemma length_pred: "LENGTH('a::len) - Suc 0 \<noteq> LENGTH('a)"
  using len_gt_0 [where 'a = 'a] by linarith

lemma rcl_loop_eq:
  fixes v :: "'a::len word"
  assumes "8 dvd LENGTH('a)" "i \<le> LENGTH('a)"
  shows "carry_word_bit (bit (fst (rcl_loop n f v)) 0) (snd (rcl_loop n f v)) i =
    carry_word_bit (bit f 0) v ((i + n * LENGTH('a)) mod Suc LENGTH('a))"
  using assms(2)
proof (induction n arbitrary: f v)
  case (Suc n)
  let ?N = "LENGTH('a)"
  define j where "j = (i + n * ?N) mod Suc ?N"
  have j: "j \<le> ?N" unfolding j_def by (simp add: less_Suc_eq_le [symmetric])
  have "carry_word_bit (bit v (?N - 1)) (push_bit 1 v + of_bool (bit f 0)) j =
      carry_word_bit (bit f 0) v ((j + ?N) mod Suc ?N)"
    using j length_pred unfolding carry_word_bit_def rol_step
    by (cases "j = 0"; cases "j = ?N") (auto simp: mod_if)
  also have "(j + ?N) mod Suc ?N = (i + Suc n * ?N) mod Suc ?N"
    unfolding j_def mod_add_left_eq by (simp add: add.assoc add.commute [of "?N"])
  finally show ?case
    unfolding rcl_loop_Suc [OF assms(1)] Suc.IH [OF Suc.prems] bit_set_carry j_def by simp
qed (simp add: mod_if)

lemma rcr_loop_eq:
  fixes v :: "'a::len word"
  assumes "i \<le> LENGTH('a)"
  shows "carry_word_bit (bit (fst (rcr_loop n f v)) 0) (snd (rcr_loop n f v)) i =
    carry_word_bit (bit f 0) v ((i + n) mod Suc LENGTH('a))"
  using assms
proof (induction n arbitrary: f v)
  case (Suc n)
  let ?N = "LENGTH('a)"
  define j where "j = (i + n) mod Suc ?N"
  have j: "j \<le> ?N" unfolding j_def by (simp add: less_Suc_eq_le [symmetric])
  have "carry_word_bit (bit v 0) (drop_bit 1 v + push_bit (?N - 1) (of_bool (bit f 0))) j =
      carry_word_bit (bit f 0) v (Suc j mod Suc ?N)"
    using j unfolding carry_word_bit_def ror_step
    by (cases "j = ?N - 1"; cases "j = ?N") (auto simp: mod_if)
  also have "Suc j mod Suc ?N = (i + Suc n) mod Suc ?N"
    unfolding j_def by (simp add: mod_Suc_eq)
  finally show ?case
    unfolding rcr_loop_Suc Suc.IH [OF Suc.prems] bit_set_carry j_def by simp
qed (simp add: mod_if)

text \<open>
  Rotation through the carry: \<open>do_rcl\<close> and \<open>do_rcr\<close> rotate the \<open>N + 1\<close> bits made of the word and the
  carry above it, left and right, by the count modulo 32.
\<close>

theorem do_rcl_rcr_correct:
  fixes v :: "'a::len word"
  assumes "8 dvd LENGTH('a)" "i \<le> LENGTH('a)"
  shows "(case do_rcl v n c of (f, r) \<Rightarrow> carry_word_bit (f AND CF \<noteq> 0) r i =
       carry_word_bit c v ((i + (n AND 0x1f) * LENGTH('a)) mod Suc LENGTH('a))) \<and>
    (case do_rcr v n c of (f, r) \<Rightarrow> carry_word_bit (f AND CF \<noteq> 0) r i =
       carry_word_bit c v ((i + (n AND 0x1f)) mod Suc LENGTH('a)))"
proof -
  have c: "bit (if c then CF else 0) 0 = c" by (simp add: flag_bits)
  show ?thesis
    unfolding do_rcl_def do_rcr_def Let_def case_prod_beta flag_mask_bits bit_if_or fst_conv snd_conv
    using rcl_loop_eq [OF assms, of "n AND 0x1f" "if c then CF else 0" v]
      rcr_loop_eq [OF assms(2), of "n AND 0x1f" "if c then CF else 0" v]
    unfolding c by (simp add: flag_bits)
qed

theorem do_rcl_rcr_correct_witness:
  "(fst (do_rcl (0x80 :: u8) 1 False) AND CF \<noteq> 0) = bit (0x80 :: u8) 7"
  using do_rcl_rcr_correct [where v = "0x80 :: u8" and n = 1 and c = False and i = 8]
  by (simp add: case_prod_beta carry_word_bit_def)

end
