(* ===== verification/InsnMulDiv.thy ===== *)
theory InsnMulDiv
  imports InsnArith "HOL-Library.Signed_Division"
begin

text \<open>
  Multiplication, division and decimal adjustment (mul.cpp, imul.cpp, div.cpp, aaa.cpp, aad.cpp,
  aam.cpp, aas.cpp, daa.cpp, das.cpp) and the groups f6 and f7 of Emulate.cpp, whose members expect the
  mod/rm byte to be decoded already. The signed \<open>/\<close> and \<open>%\<close> of C++ are \<open>sdiv\<close> and \<open>smod\<close> on \<open>int\<close>;
  the one quotient that does not fit an \<open>int\<close> (\<open>INT_MIN / -1\<close> in \<open>idivf7\<close>) has no defined value in
  C++ and is \<^term>\<open>None\<close>.
\<close>

section \<open>mul and imul\<close>

definition mulf6 :: "'d emu \<Rightarrow> 'd emu option" where [insn_defs]:
  "mulf6 s = do {
     (v1, s) \<leftarrow> read_data8 s;
     let v2 = rget s AL;
     let (flags, result) = (do_mul (regs s) False (ucast v1) (ucast v2) :: u16 \<times> u16);
     let flags = flags AND NOT (CF OR OF OR ZF);
     let flags = (if result AND 0xff00 \<noteq> 0 then flags OR (CF OR OF) else flags);
     let s = rset s AX result;
     Some (sflags s flags (OF OR CF OR ZF))
   }"

definition mulf7 :: "'d emu \<Rightarrow> 'd emu option" where [insn_defs]:
  "mulf7 s = do {
     (v1, s) \<leftarrow> read_data16 s;
     let v2 = rget s AX;
     let (flags, result) = (do_mul (regs s) False (ucast v1) (ucast v2) :: u16 \<times> u32);
     let flags = flags AND NOT (CF OR OF OR ZF);
     let flags = (if result AND 0xffff0000 \<noteq> 0 then flags OR (CF OR OF) else flags);
     let s = rset s AX (ucast (result AND 0xffff));
     let s = rset s DX (ucast (drop_bit 16 result AND 0xffff));
     Some (sflags s flags (OF OR CF OR ZF))
   }"

definition imulf6 :: "'d emu \<Rightarrow> 'd emu option" where [insn_defs]:
  "imulf6 s = do {
     let old_flags = get_flags (regs s);
     (b, s) \<leftarrow> read_data8 s;
     let v1 = (sign_extend b :: u16);
     let v2 = (sign_extend (ucast (rget s AL) :: u8) :: u16);
     let (flags, result) = (do_mul (regs s) True (scast v1) (scast v2) :: u16 \<times> u16);
     let flags = old_flags AND NOT (CF OR OF OR ZF);
     let flags = (if result AND 0xff00 \<noteq> 0 then flags OR (CF OR OF) else flags);
     let s = rset s AX result;
     Some (sflags s flags (OF OR CF OR ZF))
   }"

definition imulf7 :: "'d emu \<Rightarrow> 'd emu option" where [insn_defs]:
  "imulf7 s = do {
     let old_flags = get_flags (regs s);
     (w, s) \<leftarrow> read_data16 s;
     let v1 = (sign_extend w :: u32);
     let v2 = (sign_extend (rget s AX) :: u32);
     let (flags, result) = (do_mul (regs s) True v1 v2 :: u16 \<times> u32);
     let flags = old_flags AND NOT (CF OR OF OR ZF);
     let flags = (if result AND 0xffff0000 \<noteq> 0 then flags OR (CF OR OF) else flags);
     let s = rset s AX (ucast (result AND 0xffff));
     let s = rset s DX (ucast (drop_bit 16 result AND 0xffff));
     Some (sflags s flags (OF OR CF OR ZF))
   }"

definition imul69 :: "'d emu \<Rightarrow> 'd emu option" where [insn_defs]:
  "imul69 s = do {
     s \<leftarrow> decode (set_width s OP_WIDTH_16);
     let old_flags = get_flags (regs s);
     (w, s) \<leftarrow> read_data16 s;
     let v1 = (sign_extend w :: u32);
     (i, s) \<leftarrow> fetch_16bit s;
     let v2 = (sign_extend i :: u32);
     let (flags, result) = (do_mul (regs s) True v1 v2 :: u16 \<times> u32);
     let flags = old_flags AND NOT (CF OR OF OR ZF);
     let flags = (if result AND 0xffff0000 \<noteq> 0 then flags OR (CF OR OF) else flags);
     reg \<leftarrow> mreg s;
     let s = rset s reg (ucast (result AND 0xffff));
     Some (sflags s flags (OF OR CF OR ZF))
   }"

definition imul6b :: "'d emu \<Rightarrow> 'd emu option" where [insn_defs]:
  "imul6b s = do {
     s \<leftarrow> decode (set_width s OP_WIDTH_16);
     let old_flags = get_flags (regs s);
     (w, s) \<leftarrow> read_data16 s;
     let v1 = (sign_extend w :: u32);
     (i, s) \<leftarrow> fetch_byte s;
     let v2 = (sign_extend i :: u32);
     let (flags, result) = (do_mul (regs s) True v1 v2 :: u16 \<times> u32);
     let flags = old_flags AND NOT (CF OR OF OR ZF);
     let flags = (if result AND 0xffff0000 \<noteq> 0 then flags OR (CF OR OF) else flags);
     reg \<leftarrow> mreg s;
     let s = rset s reg (ucast (result AND 0xffff));
     Some (sflags s flags (OF OR CF OR ZF))
   }"

section \<open>div and idiv\<close>

text \<open>The divide error that the source writes out in each handler; it returns to the instruction itself.\<close>

abbreviation divide_error :: "'d emu \<Rightarrow> 'd emu option" where
  "divide_error s \<equiv> interrupt_entry s (get_flags (regs s)) (rget s IP) VEC_DIVIDE_ERROR"

definition divf6 :: "'d emu \<Rightarrow> 'd emu option" where [insn_defs]:
  "divf6 s = do {
     (divisor, s) \<leftarrow> read_data8 s;
     let dividend = rget s AX;
     if divisor = 0 \<or> (dividend div ucast divisor) AND 0xff00 \<noteq> 0 then divide_error s
     else do {
       let quotient = (ucast (dividend div ucast divisor) :: u8);
       let remainder = (ucast (dividend mod ucast divisor) :: u8);
       let s = rset s AH (ucast remainder);
       Some (rset s AL (ucast quotient))
     }
   }"

definition divf7 :: "'d emu \<Rightarrow> 'd emu option" where [insn_defs]:
  "divf7 s = do {
     (divisor, s) \<leftarrow> read_data16 s;
     let dividend = (push_bit 16 (ucast (rget s DX)) OR ucast (rget s AX) :: u32);
     if divisor = 0 \<or> (dividend div ucast divisor) AND 0xffff0000 \<noteq> 0 then divide_error s
     else do {
       let quotient = (ucast (dividend div ucast divisor) :: u16);
       let remainder = (ucast (dividend mod ucast divisor) :: u16);
       let s = rset s DX remainder;
       Some (rset s AX quotient)
     }
   }"

definition idivf6 :: "'d emu \<Rightarrow> 'd emu option" where [insn_defs]:
  "idivf6 s = do {
     (v, s) \<leftarrow> read_data8 s;
     let divisor = sint v;
     let dividend = sint (rget s AX);
     if divisor = 0 \<or> dividend sdiv divisor < - 128 \<or> dividend sdiv divisor > 127
     then divide_error s
     else do {
       let quotient = (word_of_int (dividend sdiv divisor) :: u8);
       let remainder = (word_of_int (dividend smod divisor) :: u8);
       let s = rset s AH (scast remainder);
       Some (rset s AL (scast quotient))
     }
   }"

definition idivf7 :: "'d emu \<Rightarrow> 'd emu option" where [insn_defs]:
  "idivf7 s = do {
     (v, s) \<leftarrow> read_data16 s;
     let divisor = sint v;
     let dividend = sint (push_bit 16 (ucast (rget s DX)) OR ucast (rget s AX) :: u32);
     if divisor = - 1 \<and> dividend = - (2 ^ 31) then None
     else if divisor = 0 \<or> dividend sdiv divisor < - 32768 \<or> dividend sdiv divisor > 32767
     then divide_error s
     else do {
       let quotient = (word_of_int (dividend sdiv divisor) :: u16);
       let remainder = (word_of_int (dividend smod divisor) :: u16);
       let s = rset s DX remainder;
       Some (rset s AX quotient)
     }
   }"

section \<open>Decimal adjustment\<close>

definition aaa37 :: "'d emu \<Rightarrow> 'd emu option" where [insn_defs]:
  "aaa37 s = do {
     let flags = get_flags (regs s);
     let al = rget s AL;
     (flags, s) \<leftarrow>
       (if al AND 0x0f > 9 \<or> flags AND AF \<noteq> 0 then do {
          let al = (al + 6) AND 0x0f;
          let s = rset s AL al;
          let ah = rget s AH;
          let ah = ah + 1;
          let s = rset s AH ah;
          Some (flags OR (AF OR CF), s)
        } else Some (flags AND NOT (AF OR CF), s));
     Some (sflags s flags (AF OR CF))
   }"

definition aadd5 :: "'d emu \<Rightarrow> 'd emu option" where [insn_defs]:
  "aadd5 s = do {
     let flags = get_flags (regs s);
     (b, s) \<leftarrow> fetch_byte s;
     let v = rget s AL + rget s AH * ucast b;
     let flags = (if v AND 0x8000 \<noteq> 0 then flags OR SF else flags);
     let flags = (if v = 0 then flags OR ZF else flags);
     let flags = (if \<not> builtin_parity (v AND 0xff) then flags OR PF else flags);
     let s = rset s AL v;
     let s = rset s AH 0;
     Some (sflags s flags (SF OR ZF OR PF))
   }"

definition aamd4 :: "'d emu \<Rightarrow> 'd emu option" where [insn_defs]:
  "aamd4 s = do {
     (divisor, s) \<leftarrow> fetch_byte s;
     if divisor = 0 then divide_error s
     else do {
       let al = rget s AL;
       let quotient = al div ucast divisor;
       let remainder = al mod ucast divisor;
       let s = rset s AH quotient;
       let s = rset s AL remainder;
       let flags = get_flags (regs s);
       let flags = flags AND NOT (PF OR SF OR ZF);
       let flags = (if rget s AX AND 0xffff = 0 then flags OR ZF else flags);
       let flags = (if \<not> builtin_parity (rget s AL AND 0xff) then flags OR PF else flags);
       let flags = (if rget s AX AND 0x8000 \<noteq> 0 then flags OR SF else flags);
       Some (sflags s flags (SF OR ZF OR PF))
     }
   }"

definition aas3f :: "'d emu \<Rightarrow> 'd emu option" where [insn_defs]:
  "aas3f s = do {
     let flags = get_flags (regs s);
     let al = rget s AL;
     let ah = rget s AH;
     let (al, ah, flags) =
       (if al AND 0x0f > 9 \<or> flags AND AF \<noteq> 0
        then ((al - 6) AND 0xf, ah - 1, flags OR (AF OR CF))
        else (al, ah, flags AND NOT (AF OR CF)));
     let s = rset s AL al;
     let s = rset s AH ah;
     Some (sflags s flags (AF OR CF))
   }"

definition daa27 :: "'d emu \<Rightarrow> 'd emu option" where [insn_defs]:
  "daa27 s = do {
     let flags = get_flags (regs s);
     let al = rget s AL;
     let (al, flags) =
       (if al AND 0x0f > 9 \<or> flags AND AF \<noteq> 0 then
          let tmp = al + 6;
              al = tmp AND 0xff;
              flags = flags OR AF;
              flags = (if tmp AND 0xff00 \<noteq> 0 then flags OR CF else flags)
          in (al, flags)
        else (al, flags AND NOT AF));
     let (al, flags) =
       (if al > 0x9f \<or> flags AND CF \<noteq> 0 then (al + 0x60, flags OR CF) else (al, flags));
     let s = rset s AL al;
     Some (sflags s flags (SF OR ZF OR AF OR CF OR PF))
   }"

definition das2f :: "'d emu \<Rightarrow> 'd emu option" where [insn_defs]:
  "das2f s = do {
     let flags = get_flags (regs s);
     let al = rget s AL;
     let ah = rget s AH;
     let (al, flags) =
       (if al AND 0x0f > 9 \<or> flags AND AF \<noteq> 0 then
          let tmp = al - 6;
              al = tmp AND 0xff;
              flags = flags OR AF;
              flags = (if tmp AND 0xff00 \<noteq> 0 then flags OR CF else flags)
          in (al, flags)
        else (al, flags AND NOT AF));
     let (al, flags) =
       (if al > 0x9f \<or> flags AND CF \<noteq> 0 then (al - 0x60, flags OR CF)
        else (al, flags AND NOT CF));
     let flags = (if al AND 0x80 \<noteq> 0 then flags OR SF else flags);
     let flags = (if al = 0 then flags OR ZF else flags);
     let flags = (if \<not> builtin_parity al then flags OR PF else flags);
     let s = rset s AL al;
     let s = rset s AH ah;
     Some (sflags s flags (SF OR ZF OR AF OR CF OR PF))
   }"

section \<open>The groups f6 and f7\<close>

definition neg_mul_not_test_div_f6 :: "'d emu \<Rightarrow> 'd emu option" where [insn_defs]:
  "neg_mul_not_test_div_f6 s = do {
     s \<leftarrow> decode (set_width s OP_WIDTH_8);
     n \<leftarrow> rawreg s;
     if n = 2 then notf6 s
     else if n = 3 then negf6 s
     else if n = 4 then mulf6 s
     else if n = 5 then imulf6 s
     else if n = 0 \<or> n = 1 then testf6 s
     else if n = 6 then divf6 s
     else if n = 7 then idivf6 s
     else Some s
   }"

definition neg_mul_not_test_div_f7 :: "'d emu \<Rightarrow> 'd emu option" where [insn_defs]:
  "neg_mul_not_test_div_f7 s = do {
     s \<leftarrow> decode (set_width s OP_WIDTH_16);
     n \<leftarrow> rawreg s;
     if n = 2 then notf7 s
     else if n = 3 then negf7 s
     else if n = 4 then mulf7 s
     else if n = 5 then imulf7 s
     else if n = 0 \<or> n = 1 then testf7 s
     else if n = 6 then divf7 s
     else if n = 7 then idivf7 s
     else Some s
   }"

section \<open>Invariants of the handlers\<close>

context emu_invariant
begin

lemma inv_InsnMulDiv:
  "I s \<Longrightarrow> pred_option I (mulf6 s)" "I s \<Longrightarrow> pred_option I (mulf7 s)"
  "I s \<Longrightarrow> pred_option I (imulf6 s)" "I s \<Longrightarrow> pred_option I (imulf7 s)"
  "I s \<Longrightarrow> pred_option I (imul69 s)" "I s \<Longrightarrow> pred_option I (imul6b s)"
  "I s \<Longrightarrow> pred_option I (divf6 s)" "I s \<Longrightarrow> pred_option I (divf7 s)"
  "I s \<Longrightarrow> pred_option I (idivf6 s)" "I s \<Longrightarrow> pred_option I (idivf7 s)"
  "I s \<Longrightarrow> pred_option I (aaa37 s)" "I s \<Longrightarrow> pred_option I (aadd5 s)"
  "I s \<Longrightarrow> pred_option I (aamd4 s)" "I s \<Longrightarrow> pred_option I (aas3f s)"
  "I s \<Longrightarrow> pred_option I (daa27 s)" "I s \<Longrightarrow> pred_option I (das2f s)"
  "I s \<Longrightarrow> pred_option I (neg_mul_not_test_div_f6 s)" "I s \<Longrightarrow> pred_option I (neg_mul_not_test_div_f7 s)"
  unfolding insn_defs Let_def by (intro inv_rules; assumption?)+

end

section \<open>Reference definitions\<close>

text \<open>
  \<open>bcd n\<close> is the packed decimal byte of a number below 100; \<open>daa_core\<close> and \<open>das_core\<close> are what the two
  adjustments do to the accumulator and the carry, without the register file; \<open>reg_operand_emu\<close> is an
  emulator that has decoded a mod/rm byte for the 16-bit register BX.
\<close>

definition daa_core :: "u16 \<Rightarrow> bool \<Rightarrow> bool \<Rightarrow> u16 \<times> bool" where
  "daa_core al af cf =
    (let (al, cf) = (if al AND 0x0f > 9 \<or> af then ((al + 6) AND 0xff, cf \<or> (al + 6) AND 0xff00 \<noteq> 0) else (al, cf))
     in if al > 0x9f \<or> cf then ((al + 0x60) AND 0xff, True) else (al, cf))"

definition das_core :: "u16 \<Rightarrow> bool \<Rightarrow> bool \<Rightarrow> u16 \<times> bool" where
  "das_core al af cf =
    (let (al, cf) = (if al AND 0x0f > 9 \<or> af then ((al - 6) AND 0xff, cf \<or> (al - 6) AND 0xff00 \<noteq> 0) else (al, cf))
     in if al > 0x9f \<or> cf then ((al - 0x60) AND 0xff, True) else (al, False))"

definition bcd :: "nat \<Rightarrow> nat" where
  "bcd n = 16 * (n div 10) + n mod 10"

definition reg_operand_emu :: "unit emu" where
  "reg_operand_emu = bare_emu\<lparr>modrm_decoder := \<lparr>width = OP_WIDTH_16, modrm = 0xc3, cached_address = 0,
     addr_is_cached = False, is_decoded = True\<rparr>\<rparr>"

lemma reg_operand_emu_sel [simp]:
  "read_data16 (rset (rset (rset reg_operand_emu DX d) AX a) BX b) = Some (b, rset (rset (rset reg_operand_emu DX d) AX a) BX b)"
  "rget reg_operand_emu x = 0" "pseudo_286 (regs reg_operand_emu) = False"
  by (simp_all add: reg_operand_emu_def read_data_def rm_type_def rm_reg_def GPR_of_def GPR_enum_def)

section \<open>Multiplication and division\<close>


lemma do_mul_result: "snd (do_mul r sg v1 v2 :: u16 \<times> 'a::len word) = ucast (v1 * v2)"
  by (simp add: do_mul_def do_alu_def Let_def)

lemma unat_mult_u16: "unat (ucast (x :: u16) * ucast (y :: u16) :: u32) = unat x * unat y"
proof -
  have "unat x * unat y \<le> 65535 * 65535"
    using unat_bounds(2) [of x] unat_bounds(2) [of y] by (intro mult_le_mono) auto
  then show ?thesis by (simp add: unat_word_ariths)
qed

lemma ucast_low: "(ucast (w AND 0xffff) :: u16) = ucast w" for w :: u32
  by (rule bit_word_eqI) (simp add: mask_literals bit_simps)

lemma unat_low: "unat (ucast w :: u16) = unat w mod 65536" for w :: u32
  by (simp add: unsigned_ucast_eq take_bit_eq_mod)

lemma unat_high: "unat (ucast (drop_bit 16 w) :: u16) = unat w div 65536" for w :: u32
  using unat_bounds(3) [of w]
  by (simp add: unat_low drop_bit_eq_div unat_div_distrib)

lemma high_zero: "w AND 0xffff0000 = 0 \<longleftrightarrow> (ucast (drop_bit 16 w) :: u16) = 0" for w :: u32
proof -
  have m: "(0xffff0000 :: u32) = NOT (mask 16)" by (simp add: mask_eq_exp_minus_1)
  have "w AND 0xffff0000 = 0 \<longleftrightarrow> (\<forall>n. 16 \<le> n \<longrightarrow> \<not> bit w n)"
    unfolding m using bit_imp_le_length [of w] by (fastforce simp: bit_eq_iff bit_simps not_less)
  also have "\<dots> \<longleftrightarrow> (\<forall>n. \<not> bit w (16 + n))"
    by (metis le_add1 le_Suc_ex)
  also have "\<dots> \<longleftrightarrow> (ucast (drop_bit 16 w) :: u16) = 0"
    using bit_imp_le_length [of w] by (fastforce simp: bit_eq_iff bit_simps)
  finally show ?thesis .
qed

text \<open>
  The unsigned 16-bit MUL leaves in DX:AX the full 32-bit product of AX and the operand, which never
  overflows, and sets CF and OF exactly when the upper half of the product is not zero.
\<close>

theorem mul_16_correct:
  assumes "read_data16 s = Some (v, s1)"
  shows "\<exists>s2. mulf7 s = Some s2 \<and> 65536 * unat (rget s2 DX) + unat (rget s2 AX) = unat (rget s1 AX) * unat v \<and>
    (fget s2 CF \<longleftrightarrow> rget s2 DX \<noteq> 0) \<and> (fget s2 OF \<longleftrightarrow> rget s2 DX \<noteq> 0)"
proof -
  let ?w = "ucast v * ucast (rget s1 AX) :: u32"
  have "65536 * (unat ?w div 65536) + unat ?w mod 65536 = unat ?w" by simp
  then have "65536 * unat (ucast (drop_bit 16 ?w) :: u16) + unat (ucast ?w :: u16) = unat (rget s1 AX) * unat v"
    unfolding unat_high by (simp only: unat_low unat_mult_u16 mult.commute [of "unat v"])
  then show ?thesis
    using assms
    by (simp add: mulf7_def case_prod_beta Let_def do_mul_result ucast_low high_zero get_flag_set_flags bit_or_iff bit_and_iff bit_not_iff flag_bits
        del: get_flag_bit de_Morgan_disj)
qed

theorem mul_16_correct_witness:
  "\<exists>s2. mulf7 (rset (rset (rset reg_operand_emu DX 0) AX 0xffff) BX 0xffff) = Some s2 \<and>
     65536 * unat (rget s2 DX) + unat (rget s2 AX) = 65535 * 65535"
  using mul_16_correct [OF reg_operand_emu_sel(1) [of 0 "0xffff" "0xffff"]] by auto


lemma join_u32: "push_bit 16 (ucast (ucast (drop_bit 16 w) :: u16)) OR ucast (ucast w :: u16) = w" for w :: u32
  by (rule bit_word_eqI) (auto simp: bit_simps)

lemma sign_extend_scast: "LENGTH('a) \<le> LENGTH('b) \<Longrightarrow> (sign_extend v :: 'b::len word) = scast v" for v :: "'a::len word"
proof (rule bit_word_eqI)
  fix n assume le: "LENGTH('a) \<le> LENGTH('b)" and n: "n < LENGTH('b)"
  let ?m = "LENGTH('b) - LENGTH('a)"
  have d: "bit (push_bit ?m (ucast v :: 'b word)) k \<longleftrightarrow> ?m \<le> k \<and> k < LENGTH('b) \<and> bit v (k - ?m)" for k
    unfolding bit_push_bit_iff bit_ucast_iff by auto
  have s: "bit (scast v :: 'b word) n \<longleftrightarrow> bit v (min n (LENGTH('a) - 1))"
    using n by (simp add: bit_signed_iff min.commute)
  show "bit (sign_extend v :: 'b word) n = bit (scast v :: 'b word) n"
  proof (cases "LENGTH('a) \<le> n")
    case True
    then have "min n (LENGTH('a) - 1) = LENGTH('b) - 1 - ?m" "?m \<le> LENGTH('b) - 1" "LENGTH('b) - 1 < LENGTH('b)"
      "LENGTH('b) - ?m \<le> n"
      using le n len_gt_0 [where 'a = 'a] by linarith+
    then show ?thesis unfolding sign_extend_def Let_def bit_signed_drop_bit_iff d s using n by simp
  next
    case False
    then have "min n (LENGTH('a) - 1) = ?m + n - ?m" "?m + n < LENGTH('b)" "\<not> LENGTH('b) - ?m \<le> n"
      using le n by linarith+
    then show ?thesis unfolding sign_extend_def Let_def bit_signed_drop_bit_iff d s by simp
  qed
qed

lemma sint_product:
  "sint (scast (x :: u16) * scast (y :: u16) :: u32) = sint x * sint y"
proof -
  have b: "- 32768 \<le> sint z" "sint z < 32768" for z :: u16
    using sint_range_size [of z] by (simp_all add: word_size)
  have "\<bar>sint x * sint y\<bar> \<le> 32768 * 32768"
    unfolding abs_mult using b [of x] b [of y] by (intro mult_mono) auto
  then have "signed_take_bit 31 (sint x * sint y) = sint x * sint y"
    by (intro signed_take_bit_int_eq_self) (auto simp: abs_le_iff)
  moreover have "(scast x * scast y :: u32) = word_of_int (sint x * sint y)"
    by simp
  ultimately show ?thesis by (simp only: signed_of_int) simp
qed

text \<open>
  C27. The signed 16-bit IMUL leaves in DX:AX, read as one signed 32-bit number, the product of the signed
  AX and the signed operand. CF and OF are set exactly when DX is not zero, also for a negative product that
  fits AX.
\<close>

theorem imul_16_correct:
  assumes "read_data16 s = Some (v, s1)"
  shows "\<exists>s2. imulf7 s = Some s2 \<and>
    sint (push_bit 16 (ucast (rget s2 DX)) OR ucast (rget s2 AX) :: u32) = sint (rget s1 AX) * sint v \<and>
    (fget s2 CF \<longleftrightarrow> rget s2 DX \<noteq> 0) \<and> (fget s2 OF \<longleftrightarrow> rget s2 DX \<noteq> 0)"
proof -
  let ?w = "scast v * scast (rget s1 AX) :: u32"
  have "sint (push_bit 16 (ucast (ucast (drop_bit 16 ?w) :: u16)) OR ucast (ucast ?w :: u16) :: u32) =
      sint (rget s1 AX) * sint v"
    unfolding join_u32 sint_product by (rule mult.commute)
  then show ?thesis
    using assms
    by (simp add: imulf7_def case_prod_beta Let_def do_mul_result ucast_low high_zero sign_extend_scast
        get_flag_set_flags bit_or_iff bit_and_iff bit_not_iff flag_bits del: get_flag_bit de_Morgan_disj)
qed

theorem imul_16_correct_witness:
  "\<exists>s2. imulf7 (rset (rset (rset reg_operand_emu DX 0) AX 0xffff) BX 5) = Some s2 \<and>
     sint (push_bit 16 (ucast (rget s2 DX)) OR ucast (rget s2 AX) :: u32) = - 5"
  using imul_16_correct [OF reg_operand_emu_sel(1) [of 0 "0xffff" 5]] by auto

lemma unat_join: "unat (push_bit 16 (ucast (hi :: u16)) OR ucast (lo :: u16) :: u32) = 65536 * unat hi + unat lo"
proof -
  let ?w = "push_bit 16 (ucast hi) OR ucast lo :: u32"
  have "ucast (drop_bit 16 ?w) = hi" "ucast ?w = lo"
    using bit_imp_le_length [of lo] by (fastforce intro!: bit_word_eqI simp: bit_simps)+
  then have "unat hi = unat ?w div 65536" "unat lo = unat ?w mod 65536"
    using unat_high [of ?w] unat_low [of ?w] by simp_all
  then show ?thesis by simp
qed

text \<open>
  C25. The unsigned 16-bit DIV of DX:AX, on every branch: a zero divisor or a quotient that does not fit 16 bits
  enters the divide-error interrupt from the state after the operand read, otherwise DX and AX become the
  remainder and the quotient and nothing else changes.
\<close>

theorem div_16_correct:
  assumes "read_data16 s = Some (d, s1)"
  defines "n \<equiv> 65536 * unat (rget s1 DX) + unat (rget s1 AX)"
  shows "divf7 s = (if d = 0 \<or> 65536 \<le> n div unat d then divide_error s1
    else Some (rset (rset s1 DX (of_nat (n mod unat d))) AX (of_nat (n div unat d))))"
proof -
  let ?w = "push_bit 16 (ucast (rget s1 DX)) OR ucast (rget s1 AX) :: u32"
  have n: "unat ?w = n" unfolding n_def by (rule unat_join)
  have q: "unat (?w div ucast d) = n div unat d" "unat (?w mod ucast d) = n mod unat d"
    by (simp_all add: unat_div_distrib unat_mod_distrib n)
  have "(?w div ucast d) AND 0xffff0000 = 0 \<longleftrightarrow> n div unat d div 65536 = 0"
    unfolding high_zero [of "?w div ucast d"] unat_eq_0 [of "ucast (drop_bit 16 (?w div ucast d)) :: u16", symmetric]
      unat_high q ..
  then have of: "(?w div ucast d) AND 0xffff0000 \<noteq> 0 \<longleftrightarrow> 65536 \<le> n div unat d"
    by (simp add: div_eq_0_iff not_less)
  have "(ucast (?w div ucast d) :: u16) = of_nat (n div unat d)" "(ucast (?w mod ucast d) :: u16) = of_nat (n mod unat d)"
    unfolding q [symmetric] by simp_all
  then show ?thesis
    using assms(1) of unfolding divf7_def by (simp add: Let_def)
qed

theorem div_16_correct_witness:
  "divf7 (rset (rset (rset reg_operand_emu DX 1) AX 2) BX 10) =
    Some (rset (rset (rset (rset (rset reg_operand_emu DX 1) AX 2) BX 10) DX 8) AX 6553)"
  using div_16_correct [OF reg_operand_emu_sel(1) [of 1 2 10]] by simp


lemma smod_sign: "n smod d \<noteq> 0 \<Longrightarrow> sgn (n smod d) = sgn n" if "d \<noteq> 0" for n d :: int
proof -
  have "0 \<le> \<bar>n\<bar> mod \<bar>d\<bar>" using that by simp
  then show "n smod d \<noteq> 0 \<Longrightarrow> sgn (n smod d) = sgn n"
    by (auto simp: signed_modulo_int_def sgn_mult sgn_if abs_if [of n] split: if_splits)
qed

lemma smod_less: "d \<noteq> 0 \<Longrightarrow> \<bar>n smod d\<bar> < \<bar>d\<bar>" for n d :: int
  using smod_int_range [of d n] by auto

lemma sint_word_of_int_16: "- 32768 \<le> x \<Longrightarrow> x < 32768 \<Longrightarrow> sint (word_of_int x :: u16) = x"
proof -
  assume "- 32768 \<le> x" "x < 32768"
  then have "signed_take_bit 15 x = x" by (intro signed_take_bit_int_eq_self) auto
  then show ?thesis by (simp only: signed_of_int) simp
qed

text \<open>
  C26. The signed 16-bit IDIV of DX:AX: with a divisor that is not zero and a quotient in range, quotient times
  divisor plus remainder is the dividend, the remainder is smaller than the divisor in magnitude and is zero
  or has the dividend's sign (truncation toward zero); every other input enters the divide-error interrupt,
  but for the dividend -2^31 and the divisor -1, whose quotient has no value in C++.
\<close>

theorem idiv_16_correct:
  assumes "read_data16 s = Some (v, s1)"
    and "n = sint (push_bit 16 (ucast (rget s1 DX)) OR ucast (rget s1 AX) :: u32)"
  shows "if sint v \<noteq> 0 \<and> n sdiv sint v \<in> {- 32768..32767}
    then \<exists>s2. idivf7 s = Some s2 \<and> n = sint (rget s2 AX) * sint v + sint (rget s2 DX) \<and>
      \<bar>sint (rget s2 DX)\<bar> < \<bar>sint v\<bar> \<and> (sint (rget s2 DX) = 0 \<or> sgn (sint (rget s2 DX)) = sgn n)
    else idivf7 s = (if sint v = - 1 \<and> n = - (2 ^ 31) then None else divide_error s1)"
proof (cases "sint v \<noteq> 0 \<and> n sdiv sint v \<in> {- 32768..32767}")
  case True
  then have z: "sint v \<noteq> 0" and q: "- 32768 \<le> n sdiv sint v" "n sdiv sint v \<le> 32767" by auto
  have v: "- 32768 \<le> sint v" "sint v < 32768"
    using sint_range_size [of v] by (simp_all add: word_size)
  have r: "\<bar>n smod sint v\<bar> < \<bar>sint v\<bar>" by (rule smod_less [OF z])
  have ub: "\<not> (sint v = - 1 \<and> n = - (2 ^ 31))"
    using q by (auto simp: signed_divide_int_def)
  have "sint (word_of_int (n smod sint v) :: u16) = n smod sint v"
    using v r by (intro sint_word_of_int_16) auto
  moreover have "sint (word_of_int (n sdiv sint v) :: u16) = n sdiv sint v"
    using q by (intro sint_word_of_int_16) auto
  ultimately show ?thesis
    using True assms z q ub r smod_sign [OF z, of n] sdiv_mult_smod_eq [of n "sint v"]
    by (auto simp: idivf7_def Let_def)
next
  case False
  then show ?thesis using assms by (auto simp: idivf7_def Let_def)
qed

theorem idiv_16_correct_witness:
  "\<exists>s2. idivf7 (rset (rset (rset reg_operand_emu DX 0xffff) AX 0xfff9) BX 2) = Some s2 \<and>
     - 7 = sint (rget s2 AX) * 2 + sint (rget s2 DX) \<and> \<bar>sint (rget s2 DX)\<bar> < 2"
  using idiv_16_correct [OF reg_operand_emu_sel(1) [of "0xffff" "0xfff9" 2], where n = "- 7"]
  by (auto simp: signed_divide_int_def)

lemma all_19: "(\<forall>i < 19. P i) \<longleftrightarrow> P 0 \<and> P 1 \<and> P 2 \<and> P 3 \<and> P 4 \<and> P 5 \<and> P 6 \<and> P 7 \<and> P 8 \<and> P 9 \<and>
   P 10 \<and> P 11 \<and> P 12 \<and> P 13 \<and> P 14 \<and> P 15 \<and> P 16 \<and> P 17 \<and> P (18 :: nat)"
  by (simp add: All_less_Suc numeral_eq_Suc) blast

lemma daa_table:
  "\<forall>hi < 19. \<forall>lo < 19. daa_core (of_nat ((16 * hi + lo) mod 256)) (16 \<le> lo) (256 \<le> 16 * hi + lo) =
     (of_nat (bcd ((10 * hi + lo) mod 100)), 100 \<le> 10 * hi + lo)"
  unfolding all_19 daa_core_def bcd_def Let_def by (intro conjI) simp_all

lemma bit_get_flags: "bit (get_flags r) 4 = get_flag r AF" "bit (get_flags r) 0 = get_flag r CF"
  unfolding get_flag_bit get_flags_def bit_or_iff bit_stuck by auto

lemma daa27_core:
  "\<exists>s'. daa27 s = Some s' \<and> rget s' AL = fst (daa_core (rget s AL) (fget s AF) (fget s CF)) \<and>
     fget s' CF = snd (daa_core (rget s AL) (fget s AF) (fget s CF))"
proof -
  have al: "rget s AL AND 0xff = rget s AL" by (rule reg_get_byte_and) simp
  show ?thesis
    by (cases "rget s AL AND 0x0f > 9"; cases "fget s AF"; cases "fget s CF")
      (simp_all add: daa27_def daa_core_def Let_def bit_get_flags flag_mask_bits get_flag_set_flags bit_or_iff bit_and_iff
        bit_not_iff flag_bits al del: get_flag_bit split: if_splits)
qed


lemma das_table:
  "\<forall>h < 19. \<forall>l < 19. das_core (of_nat ((16 * h + l + 103) mod 256)) (l < 9) (16 * h + l < 153) =
     (of_nat (bcd ((10 * h + l + 1) mod 100)), 10 * h + l < 99)"
  unfolding all_19 das_core_def bcd_def Let_def by (intro conjI) simp_all

lemma das2f_core:
  "\<exists>s'. das2f s = Some s' \<and> rget s' AL = fst (das_core (rget s AL) (fget s AF) (fget s CF)) \<and>
     fget s' CF = snd (das_core (rget s AL) (fget s AF) (fget s CF))"
proof -
  have al: "rget s AL AND 0xff = rget s AL" by (rule reg_get_byte_and) simp
  show ?thesis
    by (cases "rget s AL AND 0x0f > 9"; cases "fget s AF"; cases "fget s CF")
      (simp_all add: das2f_def das_core_def Let_def bit_get_flags flag_mask_bits get_flag_set_flags bit_or_iff bit_and_iff
        bit_not_iff flag_bits al reg_get_set_byte_byte del: get_flag_bit split: if_splits)
qed

lemma ucast_unat: "(ucast w :: u16) = of_nat (unat w)" for w :: u8
  by simp

lemma bcd_less: "x < 100 \<Longrightarrow> bcd x < 256" "bcd x mod 16 = x mod 10"
  by (auto simp: bcd_def)

lemma bcd_nibble: "int (bcd x) mod 16 = int (x mod 10)"
  using bcd_less(2) [of x] zmod_int [of "bcd x" 16] by simp

lemma bcd_byte:
  "x < 100 \<Longrightarrow> unat (of_nat (bcd x) :: u8) = bcd x" "x < 100 \<Longrightarrow> (ucast (of_nat (bcd x) :: u8) :: u16) = of_nat (bcd x)"
proof -
  assume x: "x < 100"
  show u: "unat (of_nat (bcd x) :: u8) = bcd x"
    using bcd_less(1) [OF x] by (simp add: unat_of_nat)
  show "(ucast (of_nat (bcd x) :: u8) :: u16) = of_nat (bcd x)"
    unfolding ucast_unat u ..
qed

lemma byte_and: "(ucast b :: u16) AND 0xff = ucast b" for b :: u8
  by (rule bit_word_eqI) (auto simp: mask_literals bit_simps dest: bit_imp_le_length)

text \<open>
  C29. ADD AL, imm8 followed by DAA adds packed decimal numbers: with the packed forms of x and y below 100 in AL
  and in the immediate, AL becomes the packed form of the sum modulo 100 and CF tells whether the sum reached
  100.
\<close>

theorem add_daa_decimal:
  assumes "x < 100" "y < 100" "rget s AL = of_nat (bcd x)" "code_byte s = of_nat (bcd y)"
  shows "\<exists>s1 s2. add04 s = Some s1 \<and> daa27 s1 = Some s2 \<and>
    rget s2 AL = of_nat (bcd ((x + y) mod 100)) \<and> (fget s2 CF \<longleftrightarrow> 100 \<le> x + y)"
proof -
  let ?a = "of_nat (bcd x) :: u8" and ?b = "of_nat (bcd y) :: u8"
  let ?d = "do_add8 (regs s) (ucast ?a) (ucast ?b) 0"
  define hi lo where "hi = x div 10 + y div 10" and "lo = x mod 10 + y mod 10"
  note u = bcd_byte(1) [OF assms(1)] bcd_byte(1) [OF assms(2)]
  have i: "uint ?a = int (bcd x)" "uint ?b = int (bcd y)" unfolding uint_nat u by simp_all
  have sum: "bcd x + bcd y = 16 * hi + lo" "10 * hi + lo = x + y" "hi < 19" "lo < 19"
    using less_mult_imp_div_less [of x 10 10] less_mult_imp_div_less [of y 10 10] assms(1,2)
    by (auto simp: hi_def lo_def bcd_def)
  have nib: "uint ?a mod 16 + uint ?b mod 16 = int lo"
    unfolding i lo_def bcd_nibble by simp
  have D: "snd ?d = ?a + ?b" "bit (fst ?d) 0 \<longleftrightarrow> 256 \<le> 16 * hi + lo" "bit (fst ?d) 4 \<longleftrightarrow> 16 \<le> lo"
    using do_add_spec [where r = "regs s" and ?v1.0 = ?a and ?v2.0 = ?b and c = 0] i sum(1) nib
    by (auto simp: case_prod_beta flag_mask_bits)
  define s1 where "s1 = rset (sflags (fetched s) (fst ?d) (OF OR SF OR ZF OR AF OR CF OR PF)) AL (ucast (snd ?d))"
  have s1: "add04 s = Some s1"
    using assms(3,4) bcd_byte(2) [OF assms(1)]
    by (simp add: add04_def fetch_byte_eq Let_def case_prod_beta s1_def)
  have al: "rget s1 AL = of_nat ((16 * hi + lo) mod 256)"
  proof -
    have "unat (?a + ?b) = (16 * hi + lo) mod 256"
      by (simp add: unat_word_ariths u sum)
    then have "(ucast (?a + ?b) :: u16) = of_nat ((16 * hi + lo) mod 256)"
      unfolding ucast_unat by simp
    moreover have "rget s1 AL = ucast (snd ?d)" by (simp add: s1_def byte_and)
    ultimately show ?thesis using D(1) by simp
  qed
  have fl: "fget s1 AF \<longleftrightarrow> 16 \<le> lo" "fget s1 CF \<longleftrightarrow> 256 \<le> 16 * hi + lo"
    by (simp_all add: s1_def get_flag_set_flags bit_or_iff flag_bits D del: get_flag_bit)
  from daa27_core [of s1] daa_table [rule_format, OF sum(3,4)] s1 show ?thesis
    unfolding al fl by (auto simp: sum(2))
qed

theorem add_daa_decimal_witness:
  "\<exists>s1 s2. add04 (rset (code_emu [0x25]) AL 0x87) = Some s1 \<and> daa27 s1 = Some s2 \<and> rget s2 AL = 0x12 \<and> fget s2 CF"
proof -
  have "code_byte (rset (code_emu [0x25]) AL 0x87) = of_nat (bcd 25)"
    by (subst code_emu_byte [where bs = "[0x25]" and n = 0]) (simp_all add: bcd_def reg_get_set_byte_wide)
  from add_daa_decimal [of 87 25, OF _ _ _ this] show ?thesis by (auto simp: bcd_def)
qed

text \<open>
  SUB AL, imm8 followed by DAS subtracts packed decimal numbers: with the packed forms of x and y below 100 in
  AL and in the immediate, AL becomes the packed form of the difference modulo 100 and CF is the decimal
  borrow.
\<close>

theorem sub_das_decimal:
  assumes "x < 100" "y < 100" "rget s AL = of_nat (bcd x)" "code_byte s = of_nat (bcd y)"
  shows "\<exists>s1 s2. sub2c s = Some s1 \<and> das2f s1 = Some s2 \<and>
    rget s2 AL = of_nat (bcd ((100 + x - y) mod 100)) \<and> (fget s2 CF \<longleftrightarrow> x < y)"
proof -
  let ?a = "of_nat (bcd x) :: u8" and ?b = "of_nat (bcd y) :: u8"
  let ?d = "do_sub8 (regs s) (ucast ?a) (ucast ?b) 0"
  define h l where "h = 9 + x div 10 - y div 10" and "l = 9 + x mod 10 - y mod 10"
  note u = bcd_byte(1) [OF assms(1)] bcd_byte(1) [OF assms(2)]
  have i: "uint ?a = int (bcd x)" "uint ?b = int (bcd y)" unfolding uint_nat u by simp_all
  have dv: "x div 10 < 10" "y div 10 < 10" using assms(1,2) by (simp_all add: less_mult_imp_div_less)
  have md: "x mod 10 < 10" "y mod 10 < 10" by simp_all
  have xy: "x = 10 * (x div 10) + x mod 10" "y = 10 * (y div 10) + y mod 10" by simp_all
  have hl: "h < 19" "l < 19" using dv md by (simp_all add: h_def l_def)
  have e: "16 * h + l + bcd y = 153 + bcd x" "10 * h + l + y = 99 + x" "l + y mod 10 = 9 + x mod 10"
    using dv md xy unfolding h_def l_def bcd_def by linarith+
  have nib: "uint ?a mod 16 < uint ?b mod 16 \<longleftrightarrow> l < 9"
    unfolding i bcd_nibble using e(3) by linarith
  have D: "snd ?d = ?a - ?b" "bit (fst ?d) 0 \<longleftrightarrow> 16 * h + l < 153" "bit (fst ?d) 4 \<longleftrightarrow> l < 9"
    using do_sub_spec [where r = "regs s" and ?v1.0 = ?a and ?v2.0 = ?b and c = 0] i nib e(1)
    by (auto simp: case_prod_beta flag_mask_bits)
  define s1 where "s1 = rset (sflags (fetched s) (fst ?d) (OF OR SF OR ZF OR CF OR PF OR AF)) AL (ucast (snd ?d))"
  have s1: "sub2c s = Some s1"
    using assms(3,4) bcd_byte(2) [OF assms(1)]
    by (simp add: sub2c_def fetch_byte_eq Let_def case_prod_beta s1_def)
  have al: "rget s1 AL = of_nat ((16 * h + l + 103) mod 256)"
  proof -
    have "(16 * h + l + 103) mod 256 = (if bcd y \<le> bcd x then bcd x - bcd y else bcd x + 256 - bcd y)"
    proof (cases "bcd y \<le> bcd x")
      case True
      then have "16 * h + l + 103 = 256 + (bcd x - bcd y)" using e(1) by simp
      with True bcd_less(1) [OF assms(1)] show ?thesis by (simp only: mod_add_self1) simp
    next
      case False
      then have "16 * h + l + 103 = bcd x + 256 - bcd y" using e(1) by simp
      with False show ?thesis by simp
    qed
    then have "unat (?a - ?b) = (16 * h + l + 103) mod 256"
      by (simp add: unat_sub_if_size word_size u)
    then have "(ucast (?a - ?b) :: u16) = of_nat ((16 * h + l + 103) mod 256)"
      unfolding ucast_unat by simp
    moreover have "rget s1 AL = ucast (snd ?d)" by (simp add: s1_def byte_and)
    ultimately show ?thesis using D(1) by simp
  qed
  have fl: "fget s1 AF \<longleftrightarrow> l < 9" "fget s1 CF \<longleftrightarrow> 16 * h + l < 153"
    by (simp_all add: s1_def get_flag_set_flags bit_or_iff flag_bits D del: get_flag_bit)
  have "10 * h + l + 1 = 100 + x - y" "10 * h + l < 99 \<longleftrightarrow> x < y" using e(2) assms(2) by linarith+
  with das2f_core [of s1] das_table [rule_format, OF hl] s1 show ?thesis
    unfolding al fl by auto
qed

theorem sub_das_decimal_witness:
  "\<exists>s1 s2. sub2c (rset (code_emu [0x87]) AL 0x42) = Some s1 \<and> das2f s1 = Some s2 \<and> rget s2 AL = 0x55 \<and> fget s2 CF"
proof -
  have "code_byte (rset (code_emu [0x87]) AL 0x42) = of_nat (bcd 87)"
    by (subst code_emu_byte [where bs = "[0x87]" and n = 0]) (simp_all add: bcd_def reg_get_set_byte_wide)
  from sub_das_decimal [of 42 87, OF _ _ _ this] show ?thesis by (auto simp: bcd_def)
qed


end
