(* ===== verification/InsnControl.thy ===== *)
theory InsnControl
  imports InsnArith
begin

text \<open>
  Control transfer (jmp.cpp, call.cpp, ret.cpp, int.cpp, loop.cpp, loope.cpp, loopnz.cpp), the frame
  instructions (enter.cpp, leave.cpp), bound.cpp, esc.cpp, the flag instructions and the group ff of
  Emulate.cpp.
\<close>

text \<open>\<open>registers->set(IP, ...); jump_taken = true;\<close>\<close>

abbreviation jump_to :: "'d emu \<Rightarrow> u16 \<Rightarrow> 'd emu option" where
  "jump_to s ip \<equiv> Some ((rset s IP ip)\<lparr>jump_taken := True\<rparr>)"

section \<open>Jumps\<close>

definition jmpe9 :: "'d emu \<Rightarrow> 'd emu option" where [insn_defs]:
  "jmpe9 s = do {
     (displacement, s) \<leftarrow> fetch_16bit s;
     jump_to s (rget s IP + displacement + ucast (instr_length s))
   }"

definition jmpea :: "'d emu \<Rightarrow> 'd emu option" where [insn_defs]:
  "jmpea s = do {
     (ip, s) \<leftarrow> fetch_16bit s;
     (cs, s) \<leftarrow> fetch_16bit s;
     let s = rset s IP ip;
     let s = rset s CS cs;
     Some (s\<lparr>jump_taken := True\<rparr>)
   }"

definition jmpeb :: "'d emu \<Rightarrow> 'd emu option" where [insn_defs]:
  "jmpeb s = do {
     (b, s) \<leftarrow> fetch_byte s;
     let displacement = (scast b :: u16);
     jump_to s (rget s IP + displacement + ucast (instr_length s))
   }"

definition je74 :: "'d emu \<Rightarrow> 'd emu option" where [insn_defs]:
  "je74 s = do {
     (b, s) \<leftarrow> fetch_byte s;
     let displacement = (scast b :: u16);
     if fget s ZF then jump_to s (rget s IP + displacement + ucast (instr_length s)) else Some s
   }"

definition jl7c :: "'d emu \<Rightarrow> 'd emu option" where [insn_defs]:
  "jl7c s = do {
     (b, s) \<leftarrow> fetch_byte s;
     let displacement = (scast b :: u16);
     if fget s OF \<noteq> fget s SF then jump_to s (rget s IP + displacement + ucast (instr_length s)) else Some s
   }"

definition jle7e :: "'d emu \<Rightarrow> 'd emu option" where [insn_defs]:
  "jle7e s = do {
     (b, s) \<leftarrow> fetch_byte s;
     let displacement = (scast b :: u16);
     if (fget s OF \<noteq> fget s SF) \<or> fget s ZF then jump_to s (rget s IP + displacement + ucast (instr_length s)) else Some s
   }"

definition jb72 :: "'d emu \<Rightarrow> 'd emu option" where [insn_defs]:
  "jb72 s = do {
     (b, s) \<leftarrow> fetch_byte s;
     let displacement = (scast b :: u16);
     if fget s CF then jump_to s (rget s IP + displacement + ucast (instr_length s)) else Some s
   }"

definition jbe76 :: "'d emu \<Rightarrow> 'd emu option" where [insn_defs]:
  "jbe76 s = do {
     (b, s) \<leftarrow> fetch_byte s;
     let displacement = (scast b :: u16);
     if fget s CF \<or> fget s ZF then jump_to s (rget s IP + displacement + ucast (instr_length s)) else Some s
   }"

definition jp7a :: "'d emu \<Rightarrow> 'd emu option" where [insn_defs]:
  "jp7a s = do {
     (b, s) \<leftarrow> fetch_byte s;
     let displacement = (scast b :: u16);
     if fget s PF then jump_to s (rget s IP + displacement + ucast (instr_length s)) else Some s
   }"

definition jo70 :: "'d emu \<Rightarrow> 'd emu option" where [insn_defs]:
  "jo70 s = do {
     (b, s) \<leftarrow> fetch_byte s;
     let displacement = (scast b :: u16);
     if fget s OF then jump_to s (rget s IP + displacement + ucast (instr_length s)) else Some s
   }"

definition js78 :: "'d emu \<Rightarrow> 'd emu option" where [insn_defs]:
  "js78 s = do {
     (b, s) \<leftarrow> fetch_byte s;
     let displacement = (scast b :: u16);
     if fget s SF then jump_to s (rget s IP + displacement + ucast (instr_length s)) else Some s
   }"

definition jne75 :: "'d emu \<Rightarrow> 'd emu option" where [insn_defs]:
  "jne75 s = do {
     (b, s) \<leftarrow> fetch_byte s;
     let displacement = (scast b :: u16);
     if \<not> fget s ZF then jump_to s (rget s IP + displacement + ucast (instr_length s)) else Some s
   }"

definition jnl7d :: "'d emu \<Rightarrow> 'd emu option" where [insn_defs]:
  "jnl7d s = do {
     (b, s) \<leftarrow> fetch_byte s;
     let displacement = (scast b :: u16);
     if \<not> (fget s SF \<noteq> fget s OF) then jump_to s (rget s IP + displacement + ucast (instr_length s)) else Some s
   }"

definition jnle7f :: "'d emu \<Rightarrow> 'd emu option" where [insn_defs]:
  "jnle7f s = do {
     (b, s) \<leftarrow> fetch_byte s;
     let displacement = (scast b :: u16);
     if \<not> ((fget s SF \<noteq> fget s OF) \<or> fget s ZF) then jump_to s (rget s IP + displacement + ucast (instr_length s)) else Some s
   }"

definition jnb73 :: "'d emu \<Rightarrow> 'd emu option" where [insn_defs]:
  "jnb73 s = do {
     (b, s) \<leftarrow> fetch_byte s;
     let displacement = (scast b :: u16);
     if \<not> fget s CF then jump_to s (rget s IP + displacement + ucast (instr_length s)) else Some s
   }"

definition jnbe77 :: "'d emu \<Rightarrow> 'd emu option" where [insn_defs]:
  "jnbe77 s = do {
     (b, s) \<leftarrow> fetch_byte s;
     let displacement = (scast b :: u16);
     if \<not> (fget s CF \<or> fget s ZF) then jump_to s (rget s IP + displacement + ucast (instr_length s)) else Some s
   }"

definition jnp7b :: "'d emu \<Rightarrow> 'd emu option" where [insn_defs]:
  "jnp7b s = do {
     (b, s) \<leftarrow> fetch_byte s;
     let displacement = (scast b :: u16);
     if \<not> fget s PF then jump_to s (rget s IP + displacement + ucast (instr_length s)) else Some s
   }"

definition jno71 :: "'d emu \<Rightarrow> 'd emu option" where [insn_defs]:
  "jno71 s = do {
     (b, s) \<leftarrow> fetch_byte s;
     let displacement = (scast b :: u16);
     if \<not> fget s OF then jump_to s (rget s IP + displacement + ucast (instr_length s)) else Some s
   }"

definition jns79 :: "'d emu \<Rightarrow> 'd emu option" where [insn_defs]:
  "jns79 s = do {
     (b, s) \<leftarrow> fetch_byte s;
     let displacement = (scast b :: u16);
     if \<not> fget s SF then jump_to s (rget s IP + displacement + ucast (instr_length s)) else Some s
   }"

definition jcxze3 :: "'d emu \<Rightarrow> 'd emu option" where [insn_defs]:
  "jcxze3 s = do {
     (b, s) \<leftarrow> fetch_byte s;
     let displacement = (scast b :: u16);
     if rget s CX = 0 then jump_to s (rget s IP + displacement + ucast (instr_length s)) else Some s
   }"

definition jmpff_intra :: "'d emu \<Rightarrow> 'd emu option" where [insn_defs]:
  "jmpff_intra s = do {
     (ip, s) \<leftarrow> read_data16 s;
     jump_to s ip
   }"

definition jmpff_inter :: "'d emu \<Rightarrow> 'd emu option" where [insn_defs]:
  "jmpff_inter s = do {
     t \<leftarrow> rmtype s;
     if t = OP_REG then Some s else do {
       (cs_ip, s) \<leftarrow> read_data32 s;
       let s = rset s IP (ucast (cs_ip AND 0xffff));
       let s = rset s CS (ucast (drop_bit 16 cs_ip AND 0xffff));
       Some (s\<lparr>jump_taken := True\<rparr>)
     }
   }"

section \<open>Calls and returns\<close>

definition calle8 :: "'d emu \<Rightarrow> 'd emu option" where [insn_defs]:
  "calle8 s = do {
     (displacement, s) \<leftarrow> fetch_16bit s;
     s \<leftarrow> push_word s (next_ip s);
     jump_to s (rget s IP + ucast (instr_length s) + displacement)
   }"

definition callff_intra :: "'d emu \<Rightarrow> 'd emu option" where [insn_defs]:
  "callff_intra s = do {
     (displacement, s) \<leftarrow> read_data16 s;
     s \<leftarrow> push_word s (next_ip s);
     jump_to s displacement
   }"

definition callff_inter :: "'d emu \<Rightarrow> 'd emu option" where [insn_defs]:
  "callff_inter s = do {
     t \<leftarrow> rmtype s;
     if t = OP_REG then Some s else do {
       s \<leftarrow> push_word s (rget s CS);
       s \<leftarrow> push_word s (next_ip s);
       (cs_ip, s) \<leftarrow> read_data32 s;
       let s = rset s IP (ucast (cs_ip AND 0xffff));
       let s = rset s CS (ucast (drop_bit 16 cs_ip AND 0xffff));
       Some (s\<lparr>jump_taken := True\<rparr>)
     }
   }"

definition call9a :: "'d emu \<Rightarrow> 'd emu option" where [insn_defs]:
  "call9a s = do {
     (new_ip, s) \<leftarrow> fetch_16bit s;
     (new_cs, s) \<leftarrow> fetch_16bit s;
     s \<leftarrow> push_word s (rget s CS);
     s \<leftarrow> push_word s (next_ip s);
     let s = rset s CS new_cs;
     jump_to s new_ip
   }"

definition retc3 :: "'d emu \<Rightarrow> 'd emu option" where [insn_defs]:
  "retc3 s = do {
     (ip, s) \<leftarrow> pop_word s;
     jump_to s ip
   }"

definition retc2 :: "'d emu \<Rightarrow> 'd emu option" where [insn_defs]:
  "retc2 s = do {
     (displacement, s) \<leftarrow> fetch_16bit s;
     (ip, s) \<leftarrow> pop_word s;
     let s = rset s IP ip;
     let s = rset s SP (rget s SP + displacement);
     Some (s\<lparr>jump_taken := True\<rparr>)
   }"

definition retcb :: "'d emu \<Rightarrow> 'd emu option" where [insn_defs]:
  "retcb s = do {
     (ip, s) \<leftarrow> pop_word s;
     (cs, s) \<leftarrow> pop_word s;
     let s = rset s IP ip;
     let s = rset s CS cs;
     Some (s\<lparr>jump_taken := True\<rparr>)
   }"

definition retca :: "'d emu \<Rightarrow> 'd emu option" where [insn_defs]:
  "retca s = do {
     (displacement, s) \<leftarrow> fetch_16bit s;
     (ip, s) \<leftarrow> pop_word s;
     (cs, s) \<leftarrow> pop_word s;
     let s = rset s IP ip;
     let s = rset s CS cs;
     let s = rset s SP (rget s SP + displacement);
     Some (s\<lparr>jump_taken := True\<rparr>)
   }"

definition iretcf :: "'d emu \<Rightarrow> 'd emu option" where [insn_defs]:
  "iretcf s = do {
     (ip, s) \<leftarrow> pop_word s;
     (cs, s) \<leftarrow> pop_word s;
     (flags, s) \<leftarrow> pop_word s;
     let s = rset s IP ip;
     let s = rset s CS cs;
     let s = sflags s flags 0xffff;
     Some (s\<lparr>jump_taken := True\<rparr>)
   }"

section \<open>Software interrupts\<close>

definition intcc :: "'d emu \<Rightarrow> 'd emu option" where [insn_defs]:
  "intcc s = interrupt_entry s (get_flags (regs s)) (next_ip s) VEC_INT"

definition intcd :: "'d emu \<Rightarrow> 'd emu option" where [insn_defs]:
  "intcd s = do {
     let flags = get_flags (regs s);
     (int_num, s) \<leftarrow> fetch_byte s;
     interrupt_entry s flags (next_ip s) (ucast int_num * 4)
   }"

definition intoce :: "'d emu \<Rightarrow> 'd emu option" where [insn_defs]:
  "intoce s = do {
     let flags = get_flags (regs s);
     if flags AND OF = 0 then Some s
     else interrupt_entry s flags (next_ip s) VEC_OVERFLOW
   }"

section \<open>Loops\<close>

definition loope2 :: "'d emu \<Rightarrow> 'd emu option" where [insn_defs]:
  "loope2 s = do {
     (b, s) \<leftarrow> fetch_byte s;
     let displacement = (scast b :: u16);
     let s = rset s CX (rget s CX - 1);
     if rget s CX \<noteq> 0 then jump_to s (rget s IP + ucast (instr_length s) + displacement) else Some s
   }"

definition loopee1 :: "'d emu \<Rightarrow> 'd emu option" where [insn_defs]:
  "loopee1 s = do {
     (b, s) \<leftarrow> fetch_byte s;
     let displacement = (scast b :: u16);
     let s = rset s CX (rget s CX - 1);
     if rget s CX \<noteq> 0 \<and> fget s ZF then jump_to s (rget s IP + ucast (instr_length s) + displacement) else Some s
   }"

definition loopnze0 :: "'d emu \<Rightarrow> 'd emu option" where [insn_defs]:
  "loopnze0 s = do {
     (b, s) \<leftarrow> fetch_byte s;
     let displacement = (scast b :: u16);
     let s = rset s CX (rget s CX - 1);
     if rget s CX \<noteq> 0 \<and> \<not> fget s ZF then jump_to s (rget s IP + ucast (instr_length s) + displacement) else Some s
   }"

section \<open>bound, enter, leave, esc, hlt, wait, setalc\<close>

text \<open>Unlike the other users of the mod/rm byte, \<open>bound62\<close> does not set the operand width.\<close>

definition bound62 :: "'d emu \<Rightarrow> 'd emu option" where [insn_defs]:
  "bound62 s = do {
     s \<leftarrow> decode s;
     t \<leftarrow> rmtype s;
     if t = OP_REG then invalid_opcode s
     else do {
       (a, s) \<leftarrow> ea s;
       let p32 = get_phys_addr (rget s (get_segment s False)) (ucast a);
       lower \<leftarrow> mem_read16 (mem s) p32;
       upper \<leftarrow> mem_read16 (mem s) (p32 + 2);
       reg \<leftarrow> mreg s;
       let v = rget s reg;
       if sint v \<ge> sint lower \<and> sint v \<le> sint upper then Some s
       else interrupt_entry s (get_flags (regs s)) (next_ip s) VEC_BOUND
     }
   }"

text \<open>The frame pointers \<open>enterc8\<close> copies: one turn for each \<open>i\<close> from 1 below \<open>nest\<close>.\<close>

fun enter_loop :: "nat \<Rightarrow> 'd emu \<Rightarrow> 'd emu option" where
  "enter_loop 0 s = Some s"
| "enter_loop (Suc n) s = do {
     let s = rset s BP (rget s BP - 2);
     v \<leftarrow> mem_read16 (mem s) (get_phys_addr (rget s SS) (ucast (rget s BP)));
     s \<leftarrow> push_word s v;
     enter_loop n s
   }"

definition enterc8 :: "'d emu \<Rightarrow> 'd emu option" where [insn_defs]:
  "enterc8 s = do {
     (size, s) \<leftarrow> fetch_16bit s;
     (b, s) \<leftarrow> fetch_byte s;
     let nest = unat (b AND 0x1f);
     s \<leftarrow> push_word s (rget s BP);
     let frame_temp = rget s SP;
     s \<leftarrow> enter_loop (nest - 1) s;
     s \<leftarrow> (if nest \<noteq> 0 then push_word s frame_temp else Some s);
     let s = rset s BP frame_temp;
     Some (rset s SP (rget s SP - size))
   }"

definition leavec9 :: "'d emu \<Rightarrow> 'd emu option" where [insn_defs]:
  "leavec9 s = do {
     let s = rset s SP (rget s BP);
     (v, s) \<leftarrow> pop_word s;
     Some (rset s BP v)
   }"

definition escd8 :: "'d emu \<Rightarrow> 'd emu option" where [insn_defs]:
  "escd8 s = do {
     s \<leftarrow> decode s;
     if \<not> trap_escape s then Some s
     else interrupt_entry s (get_flags (regs s)) (rget s IP) VEC_ESCAPE
   }"

definition hltf4 :: "'d emu \<Rightarrow> 'd emu option" where [insn_defs]:
  "hltf4 s = Some s"

definition wait9b :: "'d emu \<Rightarrow> 'd emu option" where [insn_defs]:
  "wait9b s = Some s"

definition setalcd6 :: "'d emu \<Rightarrow> 'd emu option" where [insn_defs]:
  "setalcd6 s = do {
     let cf = fget s CF;
     Some (rset s AL (if cf then 0xff else 0x00))
   }"

section \<open>The flag instructions\<close>

definition clcf8 :: "'d emu \<Rightarrow> 'd emu option" where [insn_defs]:
  "clcf8 s = do {
     let flags = get_flags (regs s);
     let flags = flags AND NOT CF;
     Some (sflags s flags CF)
   }"

definition cldfc :: "'d emu \<Rightarrow> 'd emu option" where [insn_defs]:
  "cldfc s = do {
     let flags = get_flags (regs s);
     let flags = flags AND NOT DF;
     Some (sflags s flags DF)
   }"

definition clifa :: "'d emu \<Rightarrow> 'd emu option" where [insn_defs]:
  "clifa s = do {
     let flags = get_flags (regs s);
     let flags = flags AND NOT IF;
     Some (sflags s flags IF)
   }"

definition cmcf5 :: "'d emu \<Rightarrow> 'd emu option" where [insn_defs]:
  "cmcf5 s = do {
     let flags = get_flags (regs s);
     let flags = (if flags AND CF \<noteq> 0 then flags AND NOT CF else flags OR CF);
     Some (sflags s flags CF)
   }"

definition stcf9 :: "'d emu \<Rightarrow> 'd emu option" where [insn_defs]:
  "stcf9 s = do {
     let flags = get_flags (regs s);
     let flags = flags OR CF;
     Some (sflags s flags CF)
   }"

definition stdfd :: "'d emu \<Rightarrow> 'd emu option" where [insn_defs]:
  "stdfd s = do {
     let flags = get_flags (regs s);
     let flags = flags OR DF;
     Some (sflags s flags DF)
   }"

definition stifb :: "'d emu \<Rightarrow> 'd emu option" where [insn_defs]:
  "stifb s = do {
     let flags = get_flags (regs s);
     let flags = flags OR IF;
     let s = sflags s flags IF;
     Some (s\<lparr>ext_int_inhibit := True\<rparr>)
   }"

section \<open>The group ff\<close>

definition push_inc_jmp_call_ff :: "'d emu \<Rightarrow> 'd emu option" where [insn_defs]:
  "push_inc_jmp_call_ff s = do {
     s \<leftarrow> decode (set_width s OP_WIDTH_16);
     n \<leftarrow> rawreg s;
     if n = 6 then pushff s
     else if n = 0 then incff s
     else if n = 1 then decff s
     else if n = 2 then callff_intra s
     else if n = 3 then callff_inter s
     else if n = 4 then jmpff_intra s
     else if n = 5 then jmpff_inter s
     else invalid_opcode s
   }"

section \<open>Invariants of the handlers\<close>

context emu_invariant
begin

lemma inv_enter_loop: "I s \<Longrightarrow> pred_option I (enter_loop n s)"
proof (induction n arbitrary: s)
  case (Suc n)
  show ?case
    unfolding enter_loop.simps Let_def by (intro inv_rules Suc)
qed (simp add: inv_rules)

lemma inv_InsnControl_1:
  "I s \<Longrightarrow> pred_option I (jmpe9 s)" "I s \<Longrightarrow> pred_option I (jmpea s)"
  "I s \<Longrightarrow> pred_option I (jmpeb s)" "I s \<Longrightarrow> pred_option I (je74 s)"
  "I s \<Longrightarrow> pred_option I (jl7c s)" "I s \<Longrightarrow> pred_option I (jle7e s)"
  "I s \<Longrightarrow> pred_option I (jb72 s)" "I s \<Longrightarrow> pred_option I (jbe76 s)"
  "I s \<Longrightarrow> pred_option I (jp7a s)" "I s \<Longrightarrow> pred_option I (jo70 s)"
  "I s \<Longrightarrow> pred_option I (js78 s)" "I s \<Longrightarrow> pred_option I (jne75 s)"
  "I s \<Longrightarrow> pred_option I (jnl7d s)" "I s \<Longrightarrow> pred_option I (jnle7f s)"
  "I s \<Longrightarrow> pred_option I (jnb73 s)" "I s \<Longrightarrow> pred_option I (jnbe77 s)"
  "I s \<Longrightarrow> pred_option I (jnp7b s)" "I s \<Longrightarrow> pred_option I (jno71 s)"
  "I s \<Longrightarrow> pred_option I (jns79 s)" "I s \<Longrightarrow> pred_option I (jcxze3 s)"
  "I s \<Longrightarrow> pred_option I (jmpff_intra s)" "I s \<Longrightarrow> pred_option I (jmpff_inter s)"
  "I s \<Longrightarrow> pred_option I (calle8 s)" "I s \<Longrightarrow> pred_option I (callff_intra s)"
  unfolding insn_defs Let_def by (intro inv_rules inv_enter_loop; assumption?)+

lemma inv_InsnControl_2:
  "I s \<Longrightarrow> pred_option I (callff_inter s)" "I s \<Longrightarrow> pred_option I (call9a s)"
  "I s \<Longrightarrow> pred_option I (retc3 s)" "I s \<Longrightarrow> pred_option I (retc2 s)"
  "I s \<Longrightarrow> pred_option I (retcb s)" "I s \<Longrightarrow> pred_option I (retca s)"
  "I s \<Longrightarrow> pred_option I (iretcf s)" "I s \<Longrightarrow> pred_option I (intcc s)"
  "I s \<Longrightarrow> pred_option I (intcd s)" "I s \<Longrightarrow> pred_option I (intoce s)"
  "I s \<Longrightarrow> pred_option I (loope2 s)" "I s \<Longrightarrow> pred_option I (loopee1 s)"
  "I s \<Longrightarrow> pred_option I (loopnze0 s)" "I s \<Longrightarrow> pred_option I (bound62 s)"
  "I s \<Longrightarrow> pred_option I (enterc8 s)" "I s \<Longrightarrow> pred_option I (leavec9 s)"
  "I s \<Longrightarrow> pred_option I (escd8 s)" "I s \<Longrightarrow> pred_option I (hltf4 s)"
  "I s \<Longrightarrow> pred_option I (wait9b s)" "I s \<Longrightarrow> pred_option I (setalcd6 s)"
  "I s \<Longrightarrow> pred_option I (clcf8 s)" "I s \<Longrightarrow> pred_option I (cldfc s)"
  "I s \<Longrightarrow> pred_option I (clifa s)" "I s \<Longrightarrow> pred_option I (cmcf5 s)"
  unfolding insn_defs Let_def by (intro inv_rules inv_enter_loop; assumption?)+

lemma inv_InsnControl_3:
  "I s \<Longrightarrow> pred_option I (stcf9 s)" "I s \<Longrightarrow> pred_option I (stdfd s)"
  "I s \<Longrightarrow> pred_option I (stifb s)" "I s \<Longrightarrow> pred_option I (push_inc_jmp_call_ff s)"
  unfolding insn_defs Let_def by (intro inv_rules inv_enter_loop; assumption?)+

lemmas inv_InsnControl = inv_InsnControl_1 inv_InsnControl_2 inv_InsnControl_3

end

section \<open>Conditional jumps\<close>

text \<open>A short branch: one displacement byte, added to the address of the next instruction.\<close>

definition short_branch :: "'d emu \<Rightarrow> bool \<Rightarrow> 'd emu option" where
  "short_branch s c =
     Some (if c then (rset (fetched s) IP (rget s IP + scast (code_byte s) + ucast (instr_length s + 1)))
                       \<lparr>jump_taken := True\<rparr>
           else fetched s)"

text \<open>The state \<open>cmp\<close> leaves for operands \<open>a\<close> and \<open>b\<close>.\<close>

definition compared :: "'d emu \<Rightarrow> 'a::len word \<Rightarrow> 'a word \<Rightarrow> 'd emu" where
  "compared s a b =
     sflags s (fst (do_sub (regs s) (ucast a) (ucast b) 0 :: u16 \<times> 'a word)) (OF OR SF OR ZF OR AF OR CF OR PF)"

lemma compared_flags:
  fixes a b :: "'a::len word"
  assumes "8 \<le> LENGTH('a)" "LENGTH('a) \<le> 16"
  shows "fget (compared s a b) CF \<longleftrightarrow> uint a < uint b"
    "fget (compared s a b) ZF \<longleftrightarrow> a = b"
    "(fget (compared s a b) OF \<noteq> fget (compared s a b) SF) \<longleftrightarrow> sint a < sint b"
proof -
  note S = do_sub_spec [where r = "regs s" and ?v1.0 = a and ?v2.0 = b and c = 0, OF assms]
  let ?f = "fst (do_sub (regs s) (ucast a) (ucast b) 0 :: u16 \<times> 'a word)"
  have f: "bit ?f 0 \<longleftrightarrow> uint a < uint b" "bit ?f 6 \<longleftrightarrow> a = b"
    "bit ?f 11 \<longleftrightarrow> signed_overflow TYPE('a) (sint a - sint b)" "bit ?f 7 \<longleftrightarrow> sint (a - b) < 0"
    using S by (simp_all add: case_prod_beta result_flags_def flag_mask_bits)
  show "fget (compared s a b) CF \<longleftrightarrow> uint a < uint b"
    by (simp add: compared_def get_flag_set_flags bit_simps f del: get_flag_bit)
  show "fget (compared s a b) ZF \<longleftrightarrow> a = b"
    by (simp add: compared_def get_flag_set_flags bit_simps f del: get_flag_bit)
  show "(fget (compared s a b) OF \<noteq> fget (compared s a b) SF) \<longleftrightarrow> sint a < sint b"
    using sint_diff_sign [of a b]
    by (simp add: compared_def get_flag_set_flags bit_simps f del: get_flag_bit) blast
qed

lemma compared_order: "fget (compared s a b) CF \<or> fget (compared s a b) ZF \<longleftrightarrow> uint a \<le> uint b"
  if "8 \<le> LENGTH('a)" "LENGTH('a) \<le> 16" for a b :: "'a::len word"
  unfolding compared_flags [OF that] using word_uint_eq_iff [of a b] by auto

lemma jump_branch:
  "je74 t = short_branch t (fget t ZF)" "jne75 t = short_branch t (\<not> fget t ZF)"
  "jb72 t = short_branch t (fget t CF)" "jnb73 t = short_branch t (\<not> fget t CF)"
  "jbe76 t = short_branch t (fget t CF \<or> fget t ZF)" "jnbe77 t = short_branch t (\<not> (fget t CF \<or> fget t ZF))"
  "jl7c t = short_branch t (fget t OF \<noteq> fget t SF)" "jnl7d t = short_branch t (\<not> (fget t OF \<noteq> fget t SF))"
  "jle7e t = short_branch t ((fget t OF \<noteq> fget t SF) \<or> fget t ZF)"
  "jnle7f t = short_branch t (\<not> ((fget t OF \<noteq> fget t SF) \<or> fget t ZF))"
  "jo70 t = short_branch t (fget t OF)" "jno71 t = short_branch t (\<not> fget t OF)"
  "js78 t = short_branch t (fget t SF)" "jns79 t = short_branch t (\<not> fget t SF)"
  "jp7a t = short_branch t (fget t PF)" "jnp7b t = short_branch t (\<not> fget t PF)"
  "jcxze3 t = short_branch t (rget t CX = 0)"
  by (auto simp: insn_defs short_branch_def fetch_byte_eq Let_def simp del: get_flag_bit)

lemma order_unfold:
  fixes a b :: "'a::len word"
  shows "uint a < uint b \<or> a = b \<longleftrightarrow> uint a \<le> uint b" "sint a < sint b \<or> a = b \<longleftrightarrow> sint a \<le> sint b"
    "\<not> uint a < uint b \<longleftrightarrow> uint b \<le> uint a" "\<not> sint a < sint b \<longleftrightarrow> sint b \<le> sint a"
    "\<not> uint a \<le> uint b \<longleftrightarrow> uint b < uint a" "\<not> sint a \<le> sint b \<longleftrightarrow> sint b < sint a"
proof -
  have "sint a = sint b \<Longrightarrow> a = b"
    by (rule signed_word_eqI)
  then show "sint a < sint b \<or> a = b \<longleftrightarrow> sint a \<le> sint b" by (auto simp: le_less)
qed (auto simp: word_uint_eq_iff)

text \<open>
  C15. After a comparison of \<open>a\<close> with \<open>b\<close>, the ten conditional jumps on order branch exactly when the
  unsigned (\<open>jb\<close>, \<open>jbe\<close> and their negations) or signed (\<open>jl\<close>, \<open>jle\<close> and their negations) comparison
  of the operands holds; \<open>je\<close> and \<open>jne\<close> decide equality. This is for 8- and 16-bit operands.
\<close>

theorem cmp_then_jump:
  fixes a b :: "'a::len word" and s :: "'d emu"
  assumes "8 \<le> LENGTH('a)" "LENGTH('a) \<le> 16"
  defines "t \<equiv> compared s a b"
  shows "je74 t = short_branch t (a = b) \<and> jne75 t = short_branch t (a \<noteq> b) \<and>
    jb72 t = short_branch t (uint a < uint b) \<and> jnb73 t = short_branch t (uint b \<le> uint a) \<and>
    jbe76 t = short_branch t (uint a \<le> uint b) \<and> jnbe77 t = short_branch t (uint b < uint a) \<and>
    jl7c t = short_branch t (sint a < sint b) \<and> jnl7d t = short_branch t (sint b \<le> sint a) \<and>
    jle7e t = short_branch t (sint a \<le> sint b) \<and> jnle7f t = short_branch t (sint b < sint a)"
  unfolding jump_branch compared_flags [OF assms(1,2), of s a b, folded t_def] order_unfold
  by (intro conjI refl)

theorem cmp_then_jump_witness:
  "jl7c (compared bare_emu (0x8000 :: u16) 1) = short_branch (compared bare_emu (0x8000 :: u16) 1) True \<and>
   jb72 (compared bare_emu (0x8000 :: u16) 1) = short_branch (compared bare_emu (0x8000 :: u16) 1) False"
  using cmp_then_jump [where a = "0x8000 :: u16" and b = 1 and s = bare_emu] by simp

section \<open>Calls, interrupts and frames unwind\<close>

lemma iret_unwinds:
  assumes "interrupt_entry s (get_flags (regs s)) ip vec = Some s1" and "flags_ok (regs s)"
    and "mem t = mem s1" "rget t SS = rget s1 SS" "rget t SP = rget s1 SP"
    and "flags_ok (regs t)" "pseudo_286 (regs t) = pseudo_286 (regs s)"
  shows "\<exists>t'. iretcf t = Some t' \<and> rget t' IP = ip \<and> rget t' CS = rget s CS \<and> rget t' SP = rget s SP \<and>
    get_flags (regs t') = get_flags (regs s) \<and> jump_taken t' \<and>
    (\<forall>x. is16 x \<and> x \<notin> {IP, CS, SP} \<longrightarrow> rget t' x = rget t x)"
proof -
  obtain p cs new_ip where p: "push_words s [get_flags (regs s), rget s CS, ip] = Some p"
    and s1: "s1 = (rset (rset (sflags p (get_flags (regs s) AND NOT (IF OR TF)) (IF OR TF)) CS cs) IP new_ip)
      \<lparr>jump_taken := True\<rparr>"
    by (rule interrupt_entry_Some [OF assms(1)])
  have "stack_word t k = stack_word p k" for k
    by (rule stack_word_cong) (simp_all add: assms s1)
  then have top: "stack_word t k = Some ([ip, rget s CS, get_flags (regs s)] ! k)" if "k < 3" for k
    using push_words_top [OF p, of k] that by simp
  have sp: "rget t SP = rget s SP - 6" using push_words_regs(1) [OF p] by (simp add: assms s1)
  show ?thesis
    using top [of 0] top [of 1] top [of 2] sp assms(2,6,7)
    by (simp add: iretcf_def pop_word_eq Let_def numeral_2_eq_2 get_flags_set_all)
qed



text \<open>
  A near call returns: \<open>ret\<close> after \<open>call\<close> with the stack as the call left it continues after the
  call instruction and restores SP.
\<close>

theorem call_ret_near:
  assumes "calle8 s = Some s1" "mem t = mem s1" "rget t SS = rget s1 SS" "rget t SP = rget s1 SP"
  shows "\<exists>t'. retc3 t = Some t' \<and> rget t' IP = rget s IP + ucast (instr_length s + 2) \<and>
    rget t' SP = rget s SP \<and> jump_taken t' \<and> (\<forall>x. is16 x \<and> x \<notin> {IP, SP} \<longrightarrow> rget t' x = rget t x)"
proof -
  let ?f = "fetched (fetched s)"
  from assms(1) obtain p where p: "push_words ?f [next_ip ?f] = Some p"
    and s1: "s1 = (rset p IP (rget p IP + ucast (instr_length p) +
      (ucast (code_byte s) OR push_bit 8 (ucast (code_byte (fetched s))))))\<lparr>jump_taken := True\<rparr>"
    by (auto simp: calle8_def fetch_16bit_eq bind_eq_Some)
  have "stack_word t 0 = stack_word p 0"
    by (rule stack_word_cong) (simp_all add: assms s1)
  also have "\<dots> = Some (rget s IP + ucast (instr_length s + 2))"
    using push_words_top [OF p, of 0] by (simp add: add.assoc)
  finally show ?thesis
    using push_words_regs(1) [OF p] by (simp add: retc3_def pop_word_eq assms s1)
qed

theorem call_ret_near_witness:
  "\<exists>s1 t'. calle8 bare_emu = Some s1 \<and> retc3 s1 = Some t' \<and> rget t' IP = 2 \<and> rget t' SP = 0"
proof -
  obtain s1 where s1: "calle8 bare_emu = Some s1"
    using push_words_low [of "fetched (fetched bare_emu)" "[next_ip (fetched (fetched bare_emu))]"]
    by (auto simp: calle8_def fetch_16bit_eq bind_eq_Some)
  from call_ret_near [OF this refl refl refl] s1 show ?thesis by auto
qed

text \<open>
  A far call returns: whatever the callee did, if it leaves the memory, SS and SP as the call left them, \<open>retf\<close> continues at
  the instruction after the call with the caller's CS and SP, and changes no other register.
\<close>

theorem call_ret_far:
  assumes "call9a s = Some s1" "mem t = mem s1" "rget t SS = rget s1 SS" "rget t SP = rget s1 SP"
  shows "\<exists>t'. retcb t = Some t' \<and> rget t' IP = rget s IP + ucast (instr_length s + 4) \<and>
    rget t' CS = rget s CS \<and> rget t' SP = rget s SP \<and> jump_taken t' \<and>
    (\<forall>x. is16 x \<and> x \<notin> {IP, CS, SP} \<longrightarrow> rget t' x = rget t x)"
proof -
  let ?f = "fetched (fetched (fetched (fetched s)))"
  from assms(1) obtain p cs ip where p: "push_words ?f [rget ?f CS, next_ip ?f] = Some p"
    and s1: "s1 = (rset (rset p CS cs) IP ip)\<lparr>jump_taken := True\<rparr>"
    by (auto simp: call9a_def fetch_16bit_eq bind_eq_Some Let_def push_word_gpr push_word_regs(4))
  have "stack_word t k = stack_word p k" for k
    by (rule stack_word_cong) (simp_all add: assms s1)
  then have "stack_word t 0 = Some (rget s IP + ucast (instr_length s + 4))" "stack_word t 1 = Some (rget s CS)"
    using push_words_top [OF p, of 0] push_words_top [OF p, of 1] by (simp_all add: add.assoc)
  then show ?thesis
    using push_words_regs(1) [OF p] by (simp add: retcb_def pop_word_eq Let_def assms s1)
qed

theorem call_ret_far_witness:
  "\<exists>s1 t'. call9a bare_emu = Some s1 \<and> retcb s1 = Some t' \<and> rget t' IP = 4 \<and> rget t' CS = 0"
proof -
  let ?f = "fetched (fetched (fetched (fetched bare_emu)))"
  obtain s1 where s1: "call9a bare_emu = Some s1"
    using push_words_low [of ?f "[rget ?f CS, next_ip ?f]"]
    by (auto simp: call9a_def fetch_16bit_eq bind_eq_Some Let_def push_word_gpr push_word_regs(4))
  from call_ret_far [OF this refl refl refl] s1 show ?thesis by auto
qed

lemma enter_loop_stack:
  "enter_loop n s = Some s' \<Longrightarrow> rget s' SP = rget s SP - 2 * of_nat n \<and> rget s' SS = rget s SS \<and>
     (\<forall>k. k + n \<le> 32767 \<longrightarrow> stack_word s' (k + n) = stack_word s k)"
proof (induction n arbitrary: s)
  case (Suc n)
  let ?s = "rset s BP (rget s BP - 2)"
  from Suc.prems obtain v s1 where s1: "push_word ?s v = Some s1" "enter_loop n s1 = Some s'"
    by (auto simp: Let_def bind_eq_Some)
  note r = push_word_regs(2) [OF s1(1)] push_word_regs(3) [OF s1(1), of SS]
  have "stack_word s' (k + Suc n) = stack_word s k" if "k + Suc n \<le> 32767" for k
  proof -
    have "stack_word s' (Suc k + n) = stack_word s1 (Suc k)"
      by (rule Suc.IH [OF s1(2), THEN conjunct2, THEN conjunct2, rule_format]) (use that in simp)
    also have "\<dots> = stack_word s k"
      using push_word_below [OF s1(1), of k] that by simp
    finally show ?thesis by simp
  qed
  with Suc.IH [OF s1(2)] r show ?case by (simp add: algebra_simps)
qed simp


text \<open>
  \<open>leave\<close> undoes \<open>enter\<close>, for every nesting level: BP and SP are those before the frame was built,
  as long as BP and the stack memory are those \<open>enter\<close> left.
\<close>

theorem enter_leave:
  assumes "enterc8 s = Some s1" "mem t = mem s1" "rget t SS = rget s1 SS" "rget t BP = rget s1 BP"
  shows "\<exists>t'. leavec9 t = Some t' \<and> rget t' BP = rget s BP \<and> rget t' SP = rget s SP \<and>
    (\<forall>x. is16 x \<and> x \<notin> {BP, SP} \<longrightarrow> rget t' x = rget t x)"
proof -
  let ?f = "fetched (fetched (fetched s))"
  let ?n = "unat (code_byte (fetched (fetched s)) AND 0x1f)"
  from assms(1) obtain p q r size where p: "push_word ?f (rget s BP) = Some p"
    and q: "enter_loop (?n - 1) p = Some q"
    and r: "(if ?n \<noteq> 0 then push_word q (rget p SP) else Some q) = Some r"
    and s1: "s1 = rset (rset r BP (rget p SP)) SP (rget r SP - size)"
    by (auto simp: enterc8_def fetch_16bit_eq fetch_byte_eq bind_eq_Some Let_def)
  have n: "?n \<le> 31"
    using word_and_le1 [of "code_byte (fetched (fetched s))" "0x1f"] by (simp add: word_le_nat_alt)
  note Q = enter_loop_stack [OF q]
  have m: "stack_word r ?n = stack_word p 0 \<and> rget r SP = rget p SP - 2 * of_nat ?n \<and> rget r SS = rget p SS"
  proof (cases "?n = 0")
    case True
    with r Q show ?thesis using q by simp
  next
    case False
    then obtain m where "?n = Suc m" by (cases ?n) auto
    with r Q n have "push_word q (rget p SP) = Some r" "stack_word q m = stack_word p 0"
      "rget q SP = rget p SP - 2 * of_nat m" "rget q SS = rget p SS" by (auto dest: spec [of _ 0])
    with \<open>?n = Suc m\<close> push_word_below [of q _ r m] push_word_regs [of q _ r] n show ?thesis
      by (simp add: algebra_simps)
  qed
  have "stack_addr r ?n = get_phys_addr (rget p SS) (ucast (rget p SP))"
    using m by (simp add: stack_addr_def)
  then have "stack_word (rset t SP (rget t BP)) 0 = stack_word r ?n"
    using m by (simp add: stack_word_def stack_addr_def assms s1)
  also have "\<dots> = Some (rget s BP)" using m push_word_top [OF p] by simp
  finally show ?thesis
    using push_word_regs(2) [OF p] by (simp add: leavec9_def pop_word_eq Let_def assms s1)
qed

theorem enter_leave_witness:
  "\<exists>s1 t'. enterc8 (rset bare_emu BP 5) = Some s1 \<and> leavec9 s1 = Some t' \<and> rget t' BP = 5 \<and> rget t' SP = 0"
proof -
  let ?s = "rset bare_emu BP 5"
  have c: "code_byte (fetched (fetched ?s)) = 0"
    using code_byte_bare(3) by (simp add: code_byte_def fetched_def)
  obtain s1 where s1: "enterc8 ?s = Some s1"
    using push_words_low [of "fetched (fetched (fetched ?s))" "[5]"] c
    by (auto simp: enterc8_def fetch_16bit_eq fetch_byte_eq bind_eq_Some Let_def)
  from enter_leave [OF this refl refl refl] s1 show ?thesis by auto
qed

end
