(* ===== verification/InsnString.thy ===== *)
theory InsnString
  imports EmuInv
begin

text \<open>
  The string instructions (movs.cpp, cmps.cpp, scas.cpp, lods.cpp, stos.cpp, ins.cpp, outs.cpp). Each
  handler runs its lambda, here the function with the suffix \<open>_prim\<close>, through \<open>do_rep\<close>.
\<close>

section \<open>movs\<close>

definition movsba4_prim :: "'d emu \<Rightarrow> 'd emu option" where [insn_defs]:
  "movsba4_prim s = do {
     v \<leftarrow> mem_read8 (mem s) (get_phys_addr (rget s (get_segment s False)) (ucast (rget s SI)));
     s \<leftarrow> mwrite s (get_phys_addr (rget s ES) (ucast (rget s DI))) v;
     if fget s DF then do {
       let s = rset s DI (rget s DI - 1);
       Some (rset s SI (rget s SI - 1))
     } else do {
       let s = rset s DI (rget s DI + 1);
       Some (rset s SI (rget s SI + 1))
     }
   }"

definition movsba4 :: "'d emu \<Rightarrow> 'd emu option" where [insn_defs]:
  "movsba4 s = do_rep movsba4_prim (\<lambda>s. False) s"

definition movswa5_prim :: "'d emu \<Rightarrow> 'd emu option" where [insn_defs]:
  "movswa5_prim s = do {
     v \<leftarrow> mem_read16 (mem s) (get_phys_addr (rget s (get_segment s False)) (ucast (rget s SI)));
     s \<leftarrow> mwrite s (get_phys_addr (rget s ES) (ucast (rget s DI))) v;
     if fget s DF then do {
       let s = rset s DI (rget s DI - 2);
       Some (rset s SI (rget s SI - 2))
     } else do {
       let s = rset s DI (rget s DI + 2);
       Some (rset s SI (rget s SI + 2))
     }
   }"

definition movswa5 :: "'d emu \<Rightarrow> 'd emu option" where [insn_defs]:
  "movswa5 s = do_rep movswa5_prim (\<lambda>s. False) s"

section \<open>cmps\<close>

definition cmpsba6_prim :: "'d emu \<Rightarrow> 'd emu option" where [insn_defs]:
  "cmpsba6_prim s = do {
     src \<leftarrow> mem_read8 (mem s) (get_phys_addr (rget s (get_segment s False)) (ucast (rget s SI)));
     d \<leftarrow> mem_read8 (mem s) (get_phys_addr (rget s ES) (ucast (rget s DI)));
     let (flags, result) = do_sub8 (regs s) (ucast src) (ucast d) 0;
     let s = sflags s flags (OF OR SF OR ZF OR AF OR CF OR PF);
     if fget s DF then do {
       let s = rset s DI (rget s DI - 1);
       Some (rset s SI (rget s SI - 1))
     } else do {
       let s = rset s DI (rget s DI + 1);
       Some (rset s SI (rget s SI + 1))
     }
   }"

definition cmpsba6 :: "'d emu \<Rightarrow> 'd emu option" where [insn_defs]:
  "cmpsba6 s = do_rep cmpsba6_prim string_rep_complete s"

definition cmpswa7_prim :: "'d emu \<Rightarrow> 'd emu option" where [insn_defs]:
  "cmpswa7_prim s = do {
     src \<leftarrow> mem_read16 (mem s) (get_phys_addr (rget s (get_segment s False)) (ucast (rget s SI)));
     d \<leftarrow> mem_read16 (mem s) (get_phys_addr (rget s ES) (ucast (rget s DI)));
     let (flags, result) = do_sub16 (regs s) src d 0;
     let s = sflags s flags (OF OR SF OR ZF OR AF OR CF OR PF);
     if fget s DF then do {
       let s = rset s DI (rget s DI - 2);
       Some (rset s SI (rget s SI - 2))
     } else do {
       let s = rset s DI (rget s DI + 2);
       Some (rset s SI (rget s SI + 2))
     }
   }"

definition cmpswa7 :: "'d emu \<Rightarrow> 'd emu option" where [insn_defs]:
  "cmpswa7 s = do_rep cmpswa7_prim string_rep_complete s"

section \<open>scas\<close>

definition scasbae_prim :: "'d emu \<Rightarrow> 'd emu option" where [insn_defs]:
  "scasbae_prim s = do {
     v \<leftarrow> mem_read8 (mem s) (get_phys_addr (rget s ES) (ucast (rget s DI)));
     let (flags, result) = do_sub8 (regs s) (rget s AL) (ucast v) 0;
     let s = sflags s flags (OF OR SF OR ZF OR CF OR PF OR AF);
     if fget s DF then do {
       Some (rset s DI (rget s DI - 1))
     } else do {
       Some (rset s DI (rget s DI + 1))
     }
   }"

definition scasbae :: "'d emu \<Rightarrow> 'd emu option" where [insn_defs]:
  "scasbae s = do_rep scasbae_prim string_rep_complete s"

definition scasbaf_prim :: "'d emu \<Rightarrow> 'd emu option" where [insn_defs]:
  "scasbaf_prim s = do {
     v \<leftarrow> mem_read16 (mem s) (get_phys_addr (rget s ES) (ucast (rget s DI)));
     let (flags, result) = do_sub16 (regs s) (rget s AX) v 0;
     let s = sflags s flags (OF OR SF OR ZF OR CF OR PF OR AF);
     if fget s DF then do {
       Some (rset s DI (rget s DI - 2))
     } else do {
       Some (rset s DI (rget s DI + 2))
     }
   }"

definition scasbaf :: "'d emu \<Rightarrow> 'd emu option" where [insn_defs]:
  "scasbaf s = do_rep scasbaf_prim string_rep_complete s"

section \<open>lods\<close>

definition lodsbac_prim :: "'d emu \<Rightarrow> 'd emu option" where [insn_defs]:
  "lodsbac_prim s = do {
     v \<leftarrow> mem_read8 (mem s) (get_phys_addr (rget s (get_segment s False)) (ucast (rget s SI)));
     let s = rset s AL (ucast v);
     if fget s DF then do {
       Some (rset s SI (rget s SI - 1))
     } else do {
       Some (rset s SI (rget s SI + 1))
     }
   }"

definition lodsbac :: "'d emu \<Rightarrow> 'd emu option" where [insn_defs]:
  "lodsbac s = do_rep lodsbac_prim (\<lambda>s. False) s"

definition lodswad_prim :: "'d emu \<Rightarrow> 'd emu option" where [insn_defs]:
  "lodswad_prim s = do {
     v \<leftarrow> mem_read16 (mem s) (get_phys_addr (rget s (get_segment s False)) (ucast (rget s SI)));
     let s = rset s AX v;
     if fget s DF then do {
       Some (rset s SI (rget s SI - 2))
     } else do {
       Some (rset s SI (rget s SI + 2))
     }
   }"

definition lodswad :: "'d emu \<Rightarrow> 'd emu option" where [insn_defs]:
  "lodswad s = do_rep lodswad_prim (\<lambda>s. False) s"

section \<open>stos\<close>

definition stosbaa_prim :: "'d emu \<Rightarrow> 'd emu option" where [insn_defs]:
  "stosbaa_prim s = do {
     let v = rget s AL;
     s \<leftarrow> mwrite s (get_phys_addr (rget s ES) (ucast (rget s DI))) (ucast v :: u8);
     let s = rset s AL v;
     if fget s DF then do {
       Some (rset s DI (rget s DI - 1))
     } else do {
       Some (rset s DI (rget s DI + 1))
     }
   }"

definition stosbaa :: "'d emu \<Rightarrow> 'd emu option" where [insn_defs]:
  "stosbaa s = do_rep stosbaa_prim (\<lambda>s. False) s"

definition stoswab_prim :: "'d emu \<Rightarrow> 'd emu option" where [insn_defs]:
  "stoswab_prim s = do {
     let v = rget s AX;
     s \<leftarrow> mwrite s (get_phys_addr (rget s ES) (ucast (rget s DI))) v;
     if fget s DF then do {
       Some (rset s DI (rget s DI - 2))
     } else do {
       Some (rset s DI (rget s DI + 2))
     }
   }"

definition stoswab :: "'d emu \<Rightarrow> 'd emu option" where [insn_defs]:
  "stoswab s = do_rep stoswab_prim (\<lambda>s. False) s"

section \<open>ins\<close>

definition insb6c_prim :: "'d emu \<Rightarrow> 'd emu option" where [insn_defs]:
  "insb6c_prim s = do {
     (v, s) \<leftarrow> read_io8 s (ucast (rget s DX));
     s \<leftarrow> mwrite s (get_phys_addr (rget s ES) (ucast (rget s DI))) v;
     if fget s DF then do {
       Some (rset s DI (rget s DI - 1))
     } else do {
       Some (rset s DI (rget s DI + 1))
     }
   }"

definition insb6c :: "'d emu \<Rightarrow> 'd emu option" where [insn_defs]:
  "insb6c s = do_rep insb6c_prim (\<lambda>s. False) s"

definition insw6d_prim :: "'d emu \<Rightarrow> 'd emu option" where [insn_defs]:
  "insw6d_prim s = do {
     (v, s) \<leftarrow> read_io16 s (ucast (rget s DX));
     s \<leftarrow> mwrite s (get_phys_addr (rget s ES) (ucast (rget s DI))) v;
     if fget s DF then do {
       Some (rset s DI (rget s DI - 2))
     } else do {
       Some (rset s DI (rget s DI + 2))
     }
   }"

definition insw6d :: "'d emu \<Rightarrow> 'd emu option" where [insn_defs]:
  "insw6d s = do_rep insw6d_prim (\<lambda>s. False) s"

section \<open>outs\<close>

definition outsb6e_prim :: "'d emu \<Rightarrow> 'd emu option" where [insn_defs]:
  "outsb6e_prim s = do {
     v \<leftarrow> mem_read8 (mem s) (get_phys_addr (rget s DS) (ucast (rget s SI)));
     s \<leftarrow> write_io8 s (ucast (rget s DX)) v;
     if fget s DF then do {
       Some (rset s SI (rget s SI - 1))
     } else do {
       Some (rset s SI (rget s SI + 1))
     }
   }"

definition outsb6e :: "'d emu \<Rightarrow> 'd emu option" where [insn_defs]:
  "outsb6e s = do_rep outsb6e_prim (\<lambda>s. False) s"

definition outsw6f_prim :: "'d emu \<Rightarrow> 'd emu option" where [insn_defs]:
  "outsw6f_prim s = do {
     v \<leftarrow> mem_read16 (mem s) (get_phys_addr (rget s DS) (ucast (rget s SI)));
     s \<leftarrow> write_io16 s (ucast (rget s DX)) v;
     if fget s DF then do {
       Some (rset s SI (rget s SI - 2))
     } else do {
       Some (rset s SI (rget s SI + 2))
     }
   }"

definition outsw6f :: "'d emu \<Rightarrow> 'd emu option" where [insn_defs]:
  "outsw6f s = do_rep outsw6f_prim (\<lambda>s. False) s"

section \<open>Invariants of the handlers\<close>

context emu_invariant
begin

lemma inv_InsnString_1:
  "I s \<Longrightarrow> pred_option I (movsba4_prim s)" "I s \<Longrightarrow> pred_option I (movsba4 s)"
  "I s \<Longrightarrow> pred_option I (movswa5_prim s)" "I s \<Longrightarrow> pred_option I (movswa5 s)"
  "I s \<Longrightarrow> pred_option I (cmpsba6_prim s)" "I s \<Longrightarrow> pred_option I (cmpsba6 s)"
  "I s \<Longrightarrow> pred_option I (cmpswa7_prim s)" "I s \<Longrightarrow> pred_option I (cmpswa7 s)"
  "I s \<Longrightarrow> pred_option I (scasbae_prim s)" "I s \<Longrightarrow> pred_option I (scasbae s)"
  "I s \<Longrightarrow> pred_option I (scasbaf_prim s)" "I s \<Longrightarrow> pred_option I (scasbaf s)"
  "I s \<Longrightarrow> pred_option I (lodsbac_prim s)" "I s \<Longrightarrow> pred_option I (lodsbac s)"
  "I s \<Longrightarrow> pred_option I (lodswad_prim s)" "I s \<Longrightarrow> pred_option I (lodswad s)"
  "I s \<Longrightarrow> pred_option I (stosbaa_prim s)" "I s \<Longrightarrow> pred_option I (stosbaa s)"
  "I s \<Longrightarrow> pred_option I (stoswab_prim s)" "I s \<Longrightarrow> pred_option I (stoswab s)"
  "I s \<Longrightarrow> pred_option I (insb6c_prim s)" "I s \<Longrightarrow> pred_option I (insb6c s)"
  "I s \<Longrightarrow> pred_option I (insw6d_prim s)" "I s \<Longrightarrow> pred_option I (insw6d s)"
  unfolding insn_defs Let_def by (intro inv_rules; assumption?)+

lemma inv_InsnString_2:
  "I s \<Longrightarrow> pred_option I (outsb6e_prim s)" "I s \<Longrightarrow> pred_option I (outsb6e s)"
  "I s \<Longrightarrow> pred_option I (outsw6f_prim s)" "I s \<Longrightarrow> pred_option I (outsw6f s)"
  unfolding insn_defs Let_def by (intro inv_rules; assumption?)+

lemmas inv_InsnString = inv_InsnString_1 inv_InsnString_2

end

section \<open>Addresses of a string\<close>


text \<open>The address at an offset from a 16-bit pointer; the pointer wraps at 64 KiB.\<close>

definition string_addr :: "u16 \<Rightarrow> u16 \<Rightarrow> nat \<Rightarrow> u32" where
  "string_addr seg ptr i = get_phys_addr seg (ucast (ptr + of_nat i))"

lemma string_addr_Suc: "string_addr seg (ptr + 1) i = string_addr seg ptr (Suc i)"
  by (simp add: string_addr_def algebra_simps)

lemma string_addr_0: "string_addr seg ptr 0 = get_phys_addr seg (ucast ptr)"
  by (simp add: string_addr_def)

lemma string_addr_inj:
  assumes "string_addr seg ptr i = string_addr seg ptr j" "i < 65536" "j < 65536"
  shows "i = j"
proof -
  note u = unat_bounds(2) [of "ptr + of_nat i"] unat_bounds(2) [of "ptr + of_nat j"]
  have "(16 * unat seg + unat (ptr + of_nat i)) mod MEMORY_SIZE = (16 * unat seg + unat (ptr + of_nat j)) mod MEMORY_SIZE"
    using arg_cong [OF assms(1), of unat] u unfolding string_addr_def by (simp add: get_phys_addr_wrap)
  from mod_memory_size_inj [OF this u] have "ptr + of_nat i = ptr + of_nat j" by (simp only: word_unat_eq_iff)
  then have "(of_nat i :: u16) = of_nat j" by simp
  then show ?thesis using assms(2,3) by (simp add: word_unat_eq_iff unat_of_nat)
qed

section \<open>Filling\<close>

lemma stosb_turn:
  assumes "\<not> fget s DF"
  obtains t where "stosbaa_prim s = Some t"
    "mem_bytes (mem t) = (mem_bytes (mem s))(get_phys_addr (rget s ES) (ucast (rget s DI)) := ucast (rget s AL))"
    "\<And>x. x \<noteq> DI \<Longrightarrow> rget t x = rget s x" "rget t DI = rget s DI + 1" "rflags (regs t) = rflags (regs s)"
proof -
  let ?t = "rset (rset (s\<lparr>mem := (mem s)\<lparr>mem_bytes := (mem_bytes (mem s))
    (get_phys_addr (rget s ES) (ucast (rget s DI)) := ucast (rget s AL)), mem_written := True\<rparr>\<rparr>) AL (rget s AL)) DI (rget s DI + 1)"
  have "rget ?t x = rget s x" if "x \<noteq> DI" for x
    using that reg_set_AL_same [of "regs s" x] by (cases x) (simp_all add: reg_get_set_wide_byte)
  moreover have "stosbaa_prim s = Some ?t"
    using assms by (simp add: stosbaa_prim_def mwrite8_phys Let_def reg_set_AL_same)
  ultimately show thesis by (intro that [of ?t]) (simp_all add: reg_set_AL_same)
qed


lemma keeps_CX_stosb: "keeps_CX stosbaa_prim"
  by (auto simp: keeps_CX_def stosbaa_prim_def mwrite8_phys Let_def reg_set_AL_same split: if_splits)

lemma rep_iter_stosb:
  assumes "\<not> fget s DF"
  shows "\<exists>t. rep_iter stosbaa_prim (\<lambda>s. False) n s = Some t \<and>
    mem_bytes (mem t) = (\<lambda>a. if \<exists>i < n. a = string_addr (rget s ES) (rget s DI) i then ucast (rget s AL)
      else mem_bytes (mem s) a) \<and>
    rget t DI = rget s DI + of_nat n \<and> rget t CX = rget s CX - of_nat n \<and>
    (\<forall>x. is16 x \<and> x \<notin> {CX, DI} \<longrightarrow> rget t x = rget s x) \<and> rflags (regs t) = rflags (regs s)"
  using assms
proof (induction n arbitrary: s)
  case (Suc n)
  obtain t where t: "stosbaa_prim s = Some t"
    "mem_bytes (mem t) = (mem_bytes (mem s))(string_addr (rget s ES) (rget s DI) 0 := ucast (rget s AL))"
    "\<And>x. x \<noteq> DI \<Longrightarrow> rget t x = rget s x" "rget t DI = rget s DI + 1" "rflags (regs t) = rflags (regs s)"
    using stosb_turn [OF Suc.prems] unfolding string_addr_0 by metis
  let ?u = "rset t CX (rget t CX - 1)"
  have "\<not> fget ?u DF" using Suc.prems t(5) by simp
  from Suc.IH [OF this] t show ?case
    by (auto simp: string_addr_Suc reg_get_set_wide_byte fun_eq_iff Ex_less_Suc2)
qed auto

text \<open>
  C22. \<open>rep stosb\<close> with the direction flag clear returns and fills memory: the CX bytes from ES:DI on, with DI
  wrapping at 64 KiB, become AL and no other byte changes; CX ends at zero, DI is advanced by the count
  and every other register and the flags are kept.
\<close>

theorem rep_stosb_fills:
  assumes "has_rep_prefix s" "\<not> fget s DF" "n = unat (rget s CX)"
  shows "\<exists>t. stosbaa s = Some t \<and>
    mem_bytes (mem t) = (\<lambda>a. if \<exists>i < n. a = string_addr (rget s ES) (rget s DI) i then ucast (rget s AL)
      else mem_bytes (mem s) a) \<and>
    rget t CX = 0 \<and> rget t DI = rget s DI + rget s CX \<and>
    (\<forall>x. is16 x \<and> x \<notin> {CX, DI} \<longrightarrow> rget t x = rget s x) \<and> rflags (regs t) = rflags (regs s)"
  using rep_iter_stosb [OF assms(2), of n] assms(1,3)
  by (auto simp: stosbaa_def do_rep_def rep_loop_iter [OF keeps_CX_stosb])

theorem rep_stosb_fills_witness:
  "\<exists>t. stosbaa (rset (rset (bare_emu\<lparr>has_rep_prefix := True\<rparr>) CX 2) AX 0x41) = Some t \<and> mem_bytes (mem t) 1 = 0x41 \<and>
     mem_bytes (mem t) 2 = 0 \<and> rget t CX = 0 \<and> rget t DI = 2"
proof -
  let ?s = "rset (rset (bare_emu\<lparr>has_rep_prefix := True\<rparr>) CX 2) AX 0x41"
  have "has_rep_prefix ?s" "\<not> fget ?s DF" "2 = unat (rget ?s CX)" by simp_all
  from rep_stosb_fills [OF this] obtain t where "stosbaa ?s = Some t"
    "mem_bytes (mem t) = (\<lambda>a. if \<exists>i < 2. a = string_addr (rget ?s ES) (rget ?s DI) i then ucast (rget ?s AL)
      else mem_bytes (mem ?s) a)" "rget t CX = 0" "rget t DI = rget ?s DI + rget ?s CX" by blast
  then show ?thesis
    by (intro exI [of _ t])
      (simp add: ex_less_2 bare_mem string_addr_def get_phys_addr_def reg_get_set_wide_byte)
qed


section \<open>Copying\<close>

lemma movsb_turn:
  assumes "\<not> fget s DF"
  obtains t where "movsba4_prim s = Some t"
    "mem_bytes (mem t) = (mem_bytes (mem s))(get_phys_addr (rget s ES) (ucast (rget s DI)) :=
       mem_bytes (mem s) (get_phys_addr (rget s (get_segment s False)) (ucast (rget s SI))))"
    "\<And>x. is16 x \<Longrightarrow> x \<noteq> DI \<Longrightarrow> x \<noteq> SI \<Longrightarrow> rget t x = rget s x"
    "rget t DI = rget s DI + 1" "rget t SI = rget s SI + 1" "rflags (regs t) = rflags (regs s)"
    "\<And>t' b. get_segment (t\<lparr>regs := t'\<rparr>) b = get_segment s b"
  using assms
  by (simp add: movsba4_prim_def mwrite8_phys Let_def get_segment_def) 

lemma keeps_CX_movsb: "keeps_CX movsba4_prim"
  by (auto simp: keeps_CX_def movsba4_prim_def mwrite8_phys Let_def split: if_splits)

lemma rep_iter_movsb:
  assumes "\<not> fget s DF" "g = get_segment s False" "g \<in> {ES, CS, SS, DS}" "n < 65536"
    and "\<forall>i < n. \<forall>j < n. string_addr (rget s g) (rget s SI) i \<noteq> string_addr (rget s ES) (rget s DI) j"
  shows "\<exists>t. rep_iter movsba4_prim (\<lambda>s. False) n s = Some t \<and>
    (\<forall>i < n. mem_bytes (mem t) (string_addr (rget s ES) (rget s DI) i) =
       mem_bytes (mem s) (string_addr (rget s g) (rget s SI) i)) \<and>
    (\<forall>a. (\<forall>i < n. a \<noteq> string_addr (rget s ES) (rget s DI) i) \<longrightarrow> mem_bytes (mem t) a = mem_bytes (mem s) a) \<and>
    rget t DI = rget s DI + of_nat n \<and> rget t SI = rget s SI + of_nat n \<and> rget t CX = rget s CX - of_nat n \<and>
    (\<forall>x. is16 x \<and> x \<notin> {CX, DI, SI} \<longrightarrow> rget t x = rget s x) \<and> rflags (regs t) = rflags (regs s)"
  using assms
proof (induction n arbitrary: s)
  case (Suc n)
  let ?S = "string_addr (rget s g) (rget s SI)" and ?D = "string_addr (rget s ES) (rget s DI)"
  obtain t where t: "movsba4_prim s = Some t" "mem_bytes (mem t) = (mem_bytes (mem s))(?D 0 := mem_bytes (mem s) (?S 0))"
    "\<And>x. is16 x \<Longrightarrow> x \<noteq> DI \<Longrightarrow> x \<noteq> SI \<Longrightarrow> rget t x = rget s x"
    "rget t DI = rget s DI + 1" "rget t SI = rget s SI + 1" "rflags (regs t) = rflags (regs s)"
    "\<And>t' b. get_segment (t\<lparr>regs := t'\<rparr>) b = get_segment s b"
    using movsb_turn [OF Suc.prems(1)] Suc.prems(2) unfolding string_addr_0 by metis
  let ?u = "rset t CX (rget t CX - 1)"
  have g: "rget t g = rget s g" "rget ?u g = rget s g" "rget ?u ES = rget s ES"
    using Suc.prems(3) t(3) by auto
  have sa: "string_addr (rget ?u g) (rget ?u SI) i = ?S (Suc i)" "string_addr (rget ?u ES) (rget ?u DI) i = ?D (Suc i)" for i
    using g t(4,5) by (simp_all add: string_addr_Suc)
  have "\<not> fget ?u DF" "g = get_segment ?u False" "n < 65536" using Suc.prems t(6,7) by simp_all
  from Suc.IH [OF this(1,2) Suc.prems(3) this(3), unfolded sa] Suc.prems(5)
  obtain v where v: "rep_iter movsba4_prim (\<lambda>s. False) n ?u = Some v"
    "\<forall>i < n. mem_bytes (mem v) (?D (Suc i)) = mem_bytes (mem t) (?S (Suc i))"
    "\<forall>a. (\<forall>i < n. a \<noteq> ?D (Suc i)) \<longrightarrow> mem_bytes (mem v) a = mem_bytes (mem t) a"
    "rget v DI = rget ?u DI + of_nat n" "rget v SI = rget ?u SI + of_nat n" "rget v CX = rget ?u CX - of_nat n"
    "\<forall>x. is16 x \<and> x \<notin> {CX, DI, SI} \<longrightarrow> rget v x = rget ?u x" "rflags (regs v) = rflags (regs ?u)"
    by auto
  have r: "rep_iter movsba4_prim (\<lambda>s. False) (Suc n) s = Some v" using t(1) v(1) by simp
  have "?D 0 \<noteq> ?D (Suc i)" if "i < n" for i
    using string_addr_inj [of "rget s ES" "rget s DI" 0 "Suc i"] that Suc.prems(4) by auto
  with v(3) have "mem_bytes (mem v) (?D 0) = mem_bytes (mem s) (?S 0)" by (simp add: t(2))
  moreover have "mem_bytes (mem v) (?D (Suc i)) = mem_bytes (mem s) (?S (Suc i))" if "i < n" for i
    using v(2) Suc.prems(5) that by (simp add: t(2))
  ultimately have copied: "\<forall>i < Suc n. mem_bytes (mem v) (?D i) = mem_bytes (mem s) (?S i)"
    by (simp add: All_less_Suc2)
  have kept: "\<forall>a. (\<forall>i < Suc n. a \<noteq> ?D i) \<longrightarrow> mem_bytes (mem v) a = mem_bytes (mem s) a"
    using v(3) by (simp add: All_less_Suc2 t(2))
  show ?case
    using r copied kept v(4-8) t(3-6) by (intro exI [of _ v]) auto
qed auto

text \<open>
  C23. \<open>rep movsb\<close> with the direction flag clear returns and, when no byte of the destination is a byte of the
  source, copies: the CX bytes at the source segment and SI (the override or DS) appear at ES:DI, no
  other byte changes, CX ends at zero and both pointers are advanced by the count.
\<close>

theorem rep_movsb_copies:
  assumes "has_rep_prefix s" "\<not> fget s DF" "n = unat (rget s CX)" "g = get_segment s False" "g \<in> {ES, CS, SS, DS}"
    and "\<forall>i < n. \<forall>j < n. string_addr (rget s g) (rget s SI) i \<noteq> string_addr (rget s ES) (rget s DI) j"
  shows "\<exists>t. movsba4 s = Some t \<and>
    (\<forall>i < n. mem_bytes (mem t) (string_addr (rget s ES) (rget s DI) i) =
       mem_bytes (mem s) (string_addr (rget s g) (rget s SI) i)) \<and>
    (\<forall>a. (\<forall>i < n. a \<noteq> string_addr (rget s ES) (rget s DI) i) \<longrightarrow> mem_bytes (mem t) a = mem_bytes (mem s) a) \<and>
    rget t CX = 0 \<and> rget t DI = rget s DI + rget s CX \<and> rget t SI = rget s SI + rget s CX"
proof -
  have "n < 65536" using unat_bounds(2) [of "rget s CX"] assms(3) by simp
  from rep_iter_movsb [OF assms(2,4,5) this assms(6)] show ?thesis
    using assms(1,3) by (auto simp: movsba4_def do_rep_def rep_loop_iter [OF keeps_CX_movsb])
qed


theorem rep_movsb_copies_witness:
  "\<exists>t. movsba4 (rset (rset ((code_emu [7, 8])\<lparr>has_rep_prefix := True\<rparr>) CX 2) DI 16) = Some t \<and>
     mem_bytes (mem t) 16 = 7 \<and> mem_bytes (mem t) 17 = 8 \<and> rget t DI = 18 \<and> rget t SI = 2"
proof -
  let ?s = "rset (rset ((code_emu [7, 8])\<lparr>has_rep_prefix := True\<rparr>) CX 2) DI 16"
  have a: "string_addr 0 0 0 = 0" "string_addr 0 0 (Suc 0) = 1" "string_addr 0 16 0 = 16" "string_addr 0 16 (Suc 0) = 17"
    by (simp_all add: string_addr_def get_phys_addr_def)
  have g: "get_segment ?s False = DS"
    by (simp add: get_segment_def code_emu_def bare_emu_def EmulatorPimpl_new_def reset_def ModRMDecoder_new_def
        uses_bp_as_base_def)
  have p: "has_rep_prefix ?s" "\<not> fget ?s DF" "2 = unat (rget ?s CX)" "DS \<in> {ES, CS, SS, DS}"
    "\<forall>i < 2. \<forall>j < 2. string_addr (rget ?s DS) (rget ?s SI) i \<noteq> string_addr (rget ?s ES) (rget ?s DI) j"
    by (simp_all add: all_less_2 a) (simp add: code_emu_def)
  from rep_movsb_copies [OF p(1-3) g [symmetric] p(4,5)] show ?thesis by (auto simp: all_less_2 a)
qed

section \<open>Searching\<close>

lemma scasb_turn:
  assumes "\<not> fget s DF"
  obtains t where "scasbae_prim s = Some t" "mem t = mem s" "rep_mode t = rep_mode s"
    "\<And>x. x \<noteq> DI \<Longrightarrow> rget t x = rget s x" "rget t DI = rget s DI + 1" "\<not> fget t DF"
    "fget t ZF \<longleftrightarrow> ucast (rget s AL) = mem_bytes (mem s) (get_phys_addr (rget s ES) (ucast (rget s DI)))"
proof -
  let ?a = "ucast (rget s AL) :: u8" and ?b = "mem_bytes (mem s) (get_phys_addr (rget s ES) (ucast (rget s DI)))"
  let ?f = "fst (do_sub8 (regs s) (rget s AL) (ucast ?b) 0)"
  have al: "ucast ?a = rget s AL"
    using reg_get_byte_and [of AL "regs s"] by (simp add: ucast_byte_and)
  have z: "bit ?f 6 \<longleftrightarrow> ?a = ?b"
    using do_sub_spec [where r = "regs s" and ?v1.0 = ?a and ?v2.0 = ?b and c = 0]
    by (simp add: case_prod_beta flag_mask_bits al result_flags_def)
  show thesis
    using assms
    by (intro that [of "rset (sflags s ?f (OF OR SF OR ZF OR CF OR PF OR AF)) DI (rget s DI + 1)"])
      (auto simp: scasbae_prim_def Let_def case_prod_beta get_flag_set_flags bit_or_iff flag_bits z reg_get_set_DI
        simp del: get_flag_bit)
qed


lemma keeps_CX_scasb: "keeps_CX scasbae_prim"
  by (auto simp: keeps_CX_def scasbae_prim_def Let_def case_prod_beta split: if_splits)

text \<open>Whether the byte at an offset from ES:DI is the one in AL.\<close>

definition al_at :: "'d emu \<Rightarrow> nat \<Rightarrow> bool" where
  "al_at s i \<longleftrightarrow> ucast (rget s AL) = mem_bytes (mem s) (string_addr (rget s ES) (rget s DI) i)"

lemma rep_iter_scasb:
  assumes "\<not> fget s DF" "rep_mode s = REPNE"
  shows "\<exists>t k. rep_iter scasbae_prim string_rep_complete n s = Some t \<and> mem t = mem s \<and> k \<le> n \<and>
    rget t DI = rget s DI + of_nat k \<and> rget t CX = rget s CX - of_nat k \<and>
    (if \<exists>i < n. al_at s i then 0 < k \<and> fget t ZF \<and> al_at s (k - 1) \<and> (\<forall>i < k - 1. \<not> al_at s i)
     else k = n \<and> (0 < n \<longrightarrow> \<not> fget t ZF))"
  using assms
proof (induction n arbitrary: s)
  case 0
  then show ?case by auto
next
  case (Suc n)
  obtain t where t: "scasbae_prim s = Some t" "mem t = mem s" "rep_mode t = rep_mode s"
    "\<And>x. x \<noteq> DI \<Longrightarrow> rget t x = rget s x" "rget t DI = rget s DI + 1" "\<not> fget t DF" "fget t ZF \<longleftrightarrow> al_at s 0"
    using scasb_turn [OF Suc.prems(1)] unfolding al_at_def string_addr_0 by metis
  let ?u = "rset t CX (rget t CX - 1)"
  have u: "\<not> fget ?u DF" "rep_mode ?u = REPNE" "string_rep_complete ?u \<longleftrightarrow> al_at s 0" "al_at ?u i = al_at s (Suc i)" for i
    using t Suc.prems(2)
    by (simp_all add: string_rep_complete_def al_at_def string_addr_Suc reg_get_set_wide_byte)
  show ?case
  proof (cases "al_at s 0")
    case True
    then show ?thesis using t u by (intro exI [of _ ?u] exI [of _ 1]) auto
  next
    case False
    obtain v k where v: "rep_iter scasbae_prim string_rep_complete n ?u = Some v" "mem v = mem ?u" "k \<le> n"
      "rget v DI = rget ?u DI + of_nat k" "rget v CX = rget ?u CX - of_nat k"
      "if \<exists>i < n. al_at s (Suc i) then 0 < k \<and> fget v ZF \<and> al_at s (Suc (k - 1)) \<and> (\<forall>i < k - 1. \<not> al_at s (Suc i))
       else k = n \<and> (0 < n \<longrightarrow> \<not> fget v ZF)"
      using Suc.IH [OF u(1,2)] unfolding u(4) by blast
    have "rep_iter scasbae_prim string_rep_complete (Suc n) s = Some v"
      using t(1) v(1) u(3) False by simp
    moreover have "if \<exists>i < Suc n. al_at s i then 0 < Suc k \<and> fget v ZF \<and> al_at s (Suc k - 1) \<and> (\<forall>i < Suc k - 1. \<not> al_at s i)
       else Suc k = Suc n \<and> (0 < Suc n \<longrightarrow> \<not> fget v ZF)"
    proof (cases "\<exists>i < n. al_at s (Suc i)")
      case True
      with v(6) have k: "0 < k" "fget v ZF" "al_at s k" "\<forall>i < k - 1. \<not> al_at s (Suc i)" by auto
      have "\<not> al_at s i" if "i < k" for i using False k(4) that by (cases i) auto
      with k True show ?thesis by (auto simp: Ex_less_Suc2)
    next
      case no: False
      have "k = n" "0 < n \<longrightarrow> \<not> fget v ZF" using v(6) unfolding if_not_P [OF no] by blast+
      moreover have "n = 0 \<longrightarrow> \<not> fget v ZF" using v(1) t(7) False by (auto simp: get_flag_bit)
      ultimately have "k = n" "\<not> fget v ZF" by blast+
      moreover have "\<not> (\<exists>i < Suc n. al_at s i)" using no False by (auto simp: Ex_less_Suc2)
      ultimately show ?thesis by (simp del: get_flag_bit)
    qed
    ultimately show ?thesis using v(2-5) t by (intro exI [of _ v] exI [of _ "Suc k"]) auto
  qed
qed

text \<open>
  C24. \<open>repne scasb\<close> with the direction flag clear returns and searches the CX bytes at ES:DI for AL: if it is there,
  ZF is set and DI points after its first occurrence, with CX the number of bytes left; if it is not,
  CX is zero, DI is after the last byte and ZF is clear (unless CX was zero, when nothing is compared).
\<close>

theorem repne_scasb_searches:
  assumes "has_rep_prefix s" "rep_mode s = REPNE" "\<not> fget s DF" "n = unat (rget s CX)"
  shows "\<exists>t k. scasbae s = Some t \<and> mem t = mem s \<and> k \<le> n \<and>
    rget t DI = rget s DI + of_nat k \<and> rget t CX = rget s CX - of_nat k \<and>
    (if \<exists>i < n. al_at s i then 0 < k \<and> fget t ZF \<and> al_at s (k - 1) \<and> (\<forall>i < k - 1. \<not> al_at s i)
     else rget t CX = 0 \<and> k = n \<and> (0 < n \<longrightarrow> \<not> fget t ZF))"
proof -
  from rep_iter_scasb [OF assms(3,2), of n] obtain t k
    where t: "rep_iter scasbae_prim string_rep_complete n s = Some t" "mem t = mem s" "k \<le> n"
      "rget t DI = rget s DI + of_nat k" "rget t CX = rget s CX - of_nat k"
      "if \<exists>i < n. al_at s i then 0 < k \<and> fget t ZF \<and> al_at s (k - 1) \<and> (\<forall>i < k - 1. \<not> al_at s i)
       else k = n \<and> (0 < n \<longrightarrow> \<not> fget t ZF)" by blast
  then have "scasbae s = Some t"
    using assms(1,4) by (simp add: scasbae_def do_rep_def rep_loop_iter [OF keeps_CX_scasb])
  moreover have "if \<exists>i < n. al_at s i then 0 < k \<and> fget t ZF \<and> al_at s (k - 1) \<and> (\<forall>i < k - 1. \<not> al_at s i)
     else rget t CX = 0 \<and> k = n \<and> (0 < n \<longrightarrow> \<not> fget t ZF)"
  proof (cases "\<exists>i < n. al_at s i")
    case True
    then show ?thesis using t(6) unfolding if_P [OF True] by blast
  next
    case False
    have "k = n" "0 < n \<longrightarrow> \<not> fget t ZF" using t(6) unfolding if_not_P [OF False] by blast+
    moreover from this(1) have "rget t CX = 0" using t(5) assms(4) by simp
    ultimately show ?thesis unfolding if_not_P [OF False] by blast
  qed
  ultimately show ?thesis using t(2-5) by blast
qed

theorem repne_scasb_searches_witness:
  "\<exists>t. scasbae (rset (rset ((code_emu [7, 8, 9])\<lparr>has_rep_prefix := True, rep_mode := REPNE\<rparr>) CX 3) AX 8) = Some t \<and>
     fget t ZF \<and> rget t DI = 2 \<and> rget t CX = 1"
proof -
  let ?s = "rset (rset ((code_emu [7, 8, 9])\<lparr>has_rep_prefix := True, rep_mode := REPNE\<rparr>) CX 3) AX 8"
  have p: "has_rep_prefix ?s" "rep_mode ?s = REPNE" "\<not> fget ?s DF" "3 = unat (rget ?s CX)"
    by (simp_all add: code_emu_def)
  have "\<not> al_at ?s 0" "al_at ?s (Suc 0)" "\<not> al_at ?s 2"
    by (simp_all add: al_at_def string_addr_def get_phys_addr_def reg_get_set_wide_byte)
  then have a: "al_at ?s i \<longleftrightarrow> i = 1" if "i < 3" for i
    using that by (auto simp: numeral_3_eq_3 numeral_2_eq_2 less_Suc_eq)
  from repne_scasb_searches [OF p] obtain t k where "scasbae ?s = Some t" "k \<le> 3"
      "rget t DI = of_nat k" "rget t CX = 3 - of_nat k"
      "if \<exists>i < 3. al_at ?s i then 0 < k \<and> fget t ZF \<and> al_at ?s (k - 1) \<and> (\<forall>i < k - 1. \<not> al_at ?s i)
       else rget t CX = 0 \<and> k = 3 \<and> ((0::nat) < 3 \<longrightarrow> \<not> fget t ZF)" by auto
  moreover have "\<exists>i < 3. al_at ?s i" using a [of 1] by (intro exI [of _ 1]) simp
  ultimately have t: "scasbae ?s = Some t" "fget t ZF" "k \<le> 3" "0 < k" "al_at ?s (k - 1)" "rget t DI = of_nat k" "rget t CX = 3 - of_nat k"
    by auto
  moreover have "k = 2" using a [of "k - 1"] t(3-5) by simp
  ultimately show ?thesis by auto
qed

end
