(* ===== verification/Emulate.thy ===== *)
theory Emulate
  imports InsnMov InsnArith InsnShift InsnMulDiv InsnControl InsnString
begin

text \<open>
  The control unit (\<open>EmulatorPimpl::emulate_insn\<close>, \<open>step\<close> and the interrupt handlers of
  sim/cppmodel/Emulate.cpp). The \<open>switch\<close> over the opcode is split in four definitions, one per
  quarter of the opcode space, each with the cases in the order of the source; the prefixes are apart,
  in \<open>process_prefix\<close>. The \<open>do ... while (processing_prefixes)\<close> loop is \<open>insn_loop\<close>, a partial
  function: \<^term>\<open>None\<close> if it never meets an opcode that is not a prefix.
\<close>

section \<open>The opcode table\<close>

definition emulate_opcode_00_3f :: "'d emu \<Rightarrow> 'd emu option" where
  "emulate_opcode_00_3f s =
     (let op = opcode s in
      if op = 0x06 \<or> op = 0x0e \<or> op = 0x16 \<or> op = 0x1e then pushsr s
      else if op = 0x0f then invalid_opcode s
      else if op = 0x07 \<or> op = 0x17 \<or> op = 0x1f then popsr s
      else if op = 0x00 then add00 s
      else if op = 0x01 then add01 s
      else if op = 0x02 then add02 s
      else if op = 0x03 then add03 s
      else if op = 0x04 then add04 s
      else if op = 0x05 then add05 s
      else if op = 0x08 then or08 s
      else if op = 0x09 then or09 s
      else if op = 0x0a then or0a s
      else if op = 0x0b then or0b s
      else if op = 0x0c then or0c s
      else if op = 0x0d then or0d s
      else if op = 0x10 then adc10 s
      else if op = 0x11 then adc11 s
      else if op = 0x12 then adc12 s
      else if op = 0x13 then adc13 s
      else if op = 0x14 then adc14 s
      else if op = 0x15 then adc15 s
      else if op = 0x18 then sbb18 s
      else if op = 0x19 then sbb19 s
      else if op = 0x1a then sbb1a s
      else if op = 0x1b then sbb1b s
      else if op = 0x1c then sbb1c s
      else if op = 0x1d then sbb1d s
      else if op = 0x20 then and20 s
      else if op = 0x21 then and21 s
      else if op = 0x22 then and22 s
      else if op = 0x23 then and23 s
      else if op = 0x24 then and24 s
      else if op = 0x25 then and25 s
      else if op = 0x27 then daa27 s
      else if op = 0x28 then sub28 s
      else if op = 0x29 then sub29 s
      else if op = 0x2a then sub2a s
      else if op = 0x2b then sub2b s
      else if op = 0x2c then sub2c s
      else if op = 0x2d then sub2d s
      else if op = 0x2f then das2f s
      else if op = 0x30 then xor30 s
      else if op = 0x31 then xor31 s
      else if op = 0x32 then xor32 s
      else if op = 0x33 then xor33 s
      else if op = 0x34 then xor34 s
      else if op = 0x35 then xor35 s
      else if op = 0x37 then aaa37 s
      else if op = 0x38 then cmp38 s
      else if op = 0x39 then cmp39 s
      else if op = 0x3a then cmp3a s
      else if op = 0x3b then cmp3b s
      else if op = 0x3c then cmp3c s
      else if op = 0x3d then cmp3d s
      else if op = 0x3f then aas3f s
      else Some s)"

definition emulate_opcode_40_7f :: "'d emu \<Rightarrow> 'd emu option" where
  "emulate_opcode_40_7f s =
     (let op = opcode s in
      if 0x40 \<le> op \<and> op \<le> 0x47 then inc40_47 s
      else if 0x48 \<le> op \<and> op \<le> 0x4f then dec48_4f s
      else if 0x50 \<le> op \<and> op \<le> 0x57 then push50_57 s
      else if 0x58 \<le> op \<and> op \<le> 0x5f then pop58_5f s
      else if op = 0x60 then pusha60 s
      else if op = 0x61 then popa61 s
      else if op = 0x62 then bound62 s
      else if op = 0x63 then invalid_opcode s
      else if op = 0x64 then invalid_opcode s
      else if op = 0x65 then invalid_opcode s
      else if op = 0x66 then invalid_opcode s
      else if op = 0x67 then invalid_opcode s
      else if op = 0x68 then push68 s
      else if op = 0x69 then imul69 s
      else if op = 0x6a then push6a s
      else if op = 0x6b then imul6b s
      else if op = 0x6c then insb6c s
      else if op = 0x6d then insw6d s
      else if op = 0x6e then outsb6e s
      else if op = 0x6f then outsw6f s
      else if op = 0x70 then jo70 s
      else if op = 0x71 then jno71 s
      else if op = 0x72 then jb72 s
      else if op = 0x73 then jnb73 s
      else if op = 0x74 then je74 s
      else if op = 0x75 then jne75 s
      else if op = 0x76 then jbe76 s
      else if op = 0x77 then jnbe77 s
      else if op = 0x78 then js78 s
      else if op = 0x79 then jns79 s
      else if op = 0x7a then jp7a s
      else if op = 0x7b then jnp7b s
      else if op = 0x7c then jl7c s
      else if op = 0x7d then jnl7d s
      else if op = 0x7e then jle7e s
      else if op = 0x7f then jnle7f s
      else Some s)"

definition emulate_opcode_80_bf :: "'d emu \<Rightarrow> 'd emu option" where
  "emulate_opcode_80_bf s =
     (let op = opcode s in
      if op = 0x80 then add_adc_sub_sbb_cmp_xor_or_and_80 s
      else if op = 0x81 then add_adc_sub_sbb_cmp_xor_or_and_81 s
      else if op = 0x82 then add_adc_sub_sbb_cmp_82 s
      else if op = 0x83 then add_adc_sub_sbb_cmp_83 s
      else if op = 0x84 then test84 s
      else if op = 0x85 then test85 s
      else if op = 0x86 then xchg86 s
      else if op = 0x87 then xchg87 s
      else if op = 0x88 then mov88 s
      else if op = 0x89 then mov89 s
      else if op = 0x8a then mov8a s
      else if op = 0x8b then mov8b s
      else if op = 0x8c then mov8c s
      else if op = 0x8d then lea8d s
      else if op = 0x8e then mov8e s
      else if op = 0x8f then pop8f s
      else if 0x90 \<le> op \<and> op \<le> 0x97 then xchg90_97 s
      else if op = 0x98 then cbw98 s
      else if op = 0x99 then cwd99 s
      else if op = 0x9a then call9a s
      else if op = 0x9b then wait9b s
      else if op = 0x9c then pushf9c s
      else if op = 0x9d then popf9d s
      else if op = 0x9e then sahf9e s
      else if op = 0x9f then lahf9f s
      else if op = 0xa0 then mova0 s
      else if op = 0xa1 then mova1 s
      else if op = 0xa2 then mova2 s
      else if op = 0xa3 then mova3 s
      else if op = 0xa4 then movsba4 s
      else if op = 0xa5 then movswa5 s
      else if op = 0xa6 then cmpsba6 s
      else if op = 0xa7 then cmpswa7 s
      else if op = 0xa8 then testa8 s
      else if op = 0xa9 then testa9 s
      else if op = 0xaa then stosbaa s
      else if op = 0xab then stoswab s
      else if op = 0xac then lodsbac s
      else if op = 0xad then lodswad s
      else if op = 0xae then scasbae s
      else if op = 0xaf then scasbaf s
      else if 0xb0 \<le> op \<and> op \<le> 0xb7 then movb0_b7 s
      else if 0xb8 \<le> op \<and> op \<le> 0xbf then movb8_bf s
      else Some s)"

definition emulate_opcode_c0_ff :: "'d emu \<Rightarrow> 'd emu option" where
  "emulate_opcode_c0_ff s =
     (let op = opcode s in
      if op = 0xc0 then shiftc0 s
      else if op = 0xc1 then shiftc1 s
      else if op = 0xc2 then retc2 s
      else if op = 0xc3 then retc3 s
      else if op = 0xc4 then lesc4 s
      else if op = 0xc5 then ldsc5 s
      else if op = 0xc6 then movc6 s
      else if op = 0xc7 then movc7 s
      else if op = 0xc8 then enterc8 s
      else if op = 0xc9 then leavec9 s
      else if op = 0xca then retca s
      else if op = 0xcb then retcb s
      else if op = 0xcc then intcc s
      else if op = 0xcd then intcd s
      else if op = 0xce then intoce s
      else if op = 0xcf then iretcf s
      else if op = 0xd0 then shiftd0 s
      else if op = 0xd1 then shiftd1 s
      else if op = 0xd2 then shiftd2 s
      else if op = 0xd3 then shiftd3 s
      else if op = 0xd4 then aamd4 s
      else if op = 0xd5 then aadd5 s
      else if op = 0xd6 then setalcd6 s
      else if op = 0xd7 then xlatd7 s
      else if 0xd8 \<le> op \<and> op \<le> 0xdf then escd8 s
      else if op = 0xe0 then loopnze0 s
      else if op = 0xe1 then loopee1 s
      else if op = 0xe2 then loope2 s
      else if op = 0xe3 then jcxze3 s
      else if op = 0xe4 then ine4 s
      else if op = 0xe5 then ine5 s
      else if op = 0xe6 then oute6 s
      else if op = 0xe7 then oute7 s
      else if op = 0xe8 then calle8 s
      else if op = 0xe9 then jmpe9 s
      else if op = 0xea then jmpea s
      else if op = 0xeb then jmpeb s
      else if op = 0xec then inec s
      else if op = 0xed then ined s
      else if op = 0xee then outee s
      else if op = 0xef then outef s
      else if op = 0xf1 then invalid_opcode s
      else if op = 0xf4 then hltf4 s
      else if op = 0xf5 then cmcf5 s
      else if op = 0xf6 then neg_mul_not_test_div_f6 s
      else if op = 0xf7 then neg_mul_not_test_div_f7 s
      else if op = 0xf8 then clcf8 s
      else if op = 0xf9 then stcf9 s
      else if op = 0xfa then clifa s
      else if op = 0xfb then stifb s
      else if op = 0xfc then cldfc s
      else if op = 0xfd then stdfd s
      else if op = 0xfe then inc_dec_fe s
      else if op = 0xff then push_inc_jmp_call_ff s
      else Some s)"

definition emulate_opcode :: "'d emu \<Rightarrow> 'd emu option" where
  "emulate_opcode s =
     (if opcode s < 0x40 then emulate_opcode_00_3f s
      else if opcode s < 0x80 then emulate_opcode_40_7f s
      else if opcode s < 0xc0 then emulate_opcode_80_bf s
      else emulate_opcode_c0_ff s)"

section \<open>Prefixes\<close>

text \<open>The cases that set \<open>processing_prefixes\<close>: the state after a prefix, or \<^term>\<open>None\<close> for any other opcode.\<close>

definition process_prefix :: "'d emu \<Rightarrow> 'd emu option" where
  "process_prefix s =
     (let op = opcode s in
      if op = 0xf0 then Some s
      else if op = 0x26 then Some (set_override_segment s ES)
      else if op = 0x2e then Some (set_override_segment s CS)
      else if op = 0x36 then Some (set_override_segment s SS)
      else if op = 0x3e then Some (set_override_segment s DS)
      else if op = 0xf2 then Some (s\<lparr>rep_mode := REPNE, has_rep_prefix := True\<rparr>)
      else if op = 0xf3 then Some (s\<lparr>rep_mode := REPE, has_rep_prefix := True\<rparr>)
      else None)"

partial_function (option) insn_loop :: "'d emu \<Rightarrow> 'd emu option" where
  "insn_loop s = do {
     (op, s) \<leftarrow> fetch_byte s;
     let s = s\<lparr>opcode := op\<rparr>;
     (case process_prefix s of
        Some s \<Rightarrow> insn_loop s
      | None \<Rightarrow> emulate_opcode s)
   }"

definition emulate_insn :: "'d emu \<Rightarrow> (u64 \<times> 'd emu) option" where
  "emulate_insn s = do {
     let s = s\<lparr>instr_length := 0\<rparr>;
     let s = s\<lparr>default_segment_overriden := False\<rparr>;
     let s = s\<lparr>has_rep_prefix := False\<rparr>;
     let s = s\<lparr>modrm_decoder := modrm_clear (modrm_decoder s)\<rparr>;
     let s = s\<lparr>jump_taken := False\<rparr>;
     let s = s\<lparr>ext_int_inhibit := False\<rparr>;
     s \<leftarrow> insn_loop s;
     s \<leftarrow> (if instr_length s \<ge> 16 then do {
              let s = s\<lparr>instr_length := instr_length s mod 16\<rparr>;
              invalid_opcode s
            } else Some s);
     let s = (if \<not> jump_taken s then rset s IP (next_ip s) else s);
     Some (instr_length s, s)
   }"

section \<open>Interrupts and steps\<close>

definition single_step :: "'d emu \<Rightarrow> 'd emu option" where
  "single_step s =
     (if \<not> tf_was_set s \<or> ext_int_inhibit s then Some s
      else interrupt_entry s (get_flags (regs s)) (rget s IP) VEC_SINGLE_STEP)"

definition handle_nmi :: "'d emu \<Rightarrow> 'd emu option" where
  "handle_nmi s = do {
     let s = s\<lparr>nmi_pending := False\<rparr>;
     s \<leftarrow> interrupt_entry s (get_flags (regs s)) (rget s IP) VEC_NMI;
     single_step s
   }"

text \<open>\<open>SimCPU::ack_int\<close>: the callback set by \<open>set_inta_handler\<close>.\<close>

definition ack_int :: "'d emu \<Rightarrow> int \<Rightarrow> 'd emu option" where
  "ack_int s irq_num = do {
     (_, s) \<leftarrow> io_call (inta_handler s irq_num) s;
     Some s
   }"

definition handle_irq :: "'d emu \<Rightarrow> 'd emu option" where
  "handle_irq s =
     (if pending_irq s = 0 then None else do {
        let irq_num = pending_irq s;
        let s = s\<lparr>pending_irq := 0\<rparr>;
        s \<leftarrow> ack_int s (uint irq_num);
        s \<leftarrow> interrupt_entry s (get_flags (regs s)) (rget s IP) (ucast irq_num * 4);
        single_step s
      })"

definition step :: "'d emu \<Rightarrow> (u64 \<times> 'd emu) option" where
  "step s = do {
     let s = s\<lparr>tf_was_set := fget s TF\<rparr>;
     if nmi_pending s \<and> \<not> ext_int_inhibit s then do {
       s \<leftarrow> handle_nmi s;
       Some (0, s)
     } else if pending_irq s \<noteq> 0 \<and> \<not> ext_int_inhibit s \<and> fget s IF then do {
       s \<leftarrow> handle_irq s;
       Some (0, s)
     } else do {
       (len, s) \<leftarrow> emulate_insn s;
       s \<leftarrow> (if nmi_pending s \<and> \<not> ext_int_inhibit s then handle_nmi s
             else if pending_irq s \<noteq> 0 \<and> \<not> ext_int_inhibit s \<and> fget s IF then handle_irq s
             else if \<not> ext_int_inhibit s then single_step s
             else Some s);
       Some (len, s)
     }
   }"

text \<open>The callback is the simulator's: it runs the devices for the cycle and may raise interrupts.\<close>

definition step_with_io :: "'d emu \<Rightarrow> (u64 \<Rightarrow> (unit, 'd) io_op) \<Rightarrow> u64 \<Rightarrow> (u64 \<times> 'd emu) option" where
  "step_with_io s io_callback cur_cycle_count = do {
     (_, s) \<leftarrow> io_call (io_callback cur_cycle_count) s;
     step s
   }"

definition has_trapped :: "'d emu \<Rightarrow> bool option" where
  "has_trapped s = do {
     int_cs \<leftarrow> mem_read16 (mem s) (VEC_INT + 2);
     int_ip \<leftarrow> mem_read16 (mem s) (VEC_INT + 0);
     Some (rget s CS = int_cs \<and> rget s IP = int_ip)
   }"

section \<open>Every step keeps the invariant\<close>

context emu_invariant
begin

lemmas inv_handlers = inv_InsnMov inv_InsnArith inv_InsnShift inv_InsnMulDiv inv_InsnControl inv_InsnString

lemma inv_emulate_opcode_00_3f: "I s \<Longrightarrow> pred_option I (emulate_opcode_00_3f s)"
  unfolding emulate_opcode_00_3f_def Let_def
  by (intro inv_handlers inv_invalid_opcode pred_option_ifI pred_option_SomeI)

lemma inv_emulate_opcode_40_7f: "I s \<Longrightarrow> pred_option I (emulate_opcode_40_7f s)"
  unfolding emulate_opcode_40_7f_def Let_def
  by (intro inv_handlers inv_invalid_opcode pred_option_ifI pred_option_SomeI)

lemma inv_emulate_opcode_80_bf: "I s \<Longrightarrow> pred_option I (emulate_opcode_80_bf s)"
  unfolding emulate_opcode_80_bf_def Let_def
  by (intro inv_handlers inv_invalid_opcode pred_option_ifI pred_option_SomeI)

lemma inv_emulate_opcode_c0_ff: "I s \<Longrightarrow> pred_option I (emulate_opcode_c0_ff s)"
  unfolding emulate_opcode_c0_ff_def Let_def
  by (intro inv_handlers inv_invalid_opcode pred_option_ifI pred_option_SomeI)

lemma inv_emulate_opcode: "I s \<Longrightarrow> pred_option I (emulate_opcode s)"
  unfolding emulate_opcode_def
  by (intro inv_emulate_opcode_00_3f inv_emulate_opcode_40_7f inv_emulate_opcode_80_bf
      inv_emulate_opcode_c0_ff pred_option_ifI)

lemma inv_process_prefix: "I s \<Longrightarrow> pred_option I (process_prefix s)"
  unfolding process_prefix_def Let_def set_override_segment_def
  by (intro inv_updates pred_option_ifI pred_option_SomeI pred_option_NoneI)

lemma inv_insn_loop_Some:
  assumes "insn_loop s = Some s'"
  shows "I s \<longrightarrow> I s'"
proof (rule insn_loop.raw_induct [where P = "\<lambda>s s'. I s \<longrightarrow> I s'", OF _ assms], rule impI)
  fix loop :: "'d emu \<Rightarrow> 'd emu option" and s s'
  assume IH: "\<And>s s'. loop s = Some s' \<Longrightarrow> I s \<longrightarrow> I s'"
    and body: "fetch_byte s \<bind> (\<lambda>(op, s). let s = s\<lparr>opcode := op\<rparr>
        in case process_prefix s of None \<Rightarrow> emulate_opcode s | Some s \<Rightarrow> loop s) = Some s'"
    and "I s"
  from body obtain op s1 where s1: "fetch_byte s = Some (op, s1)"
    and b: "(case process_prefix (s1\<lparr>opcode := op\<rparr>) of None \<Rightarrow> emulate_opcode (s1\<lparr>opcode := op\<rparr>)
      | Some s \<Rightarrow> loop s) = Some s'"
    by (auto simp: bind_eq_Some Let_def)
  from inv_fetch_byte [OF \<open>I s\<close>] s1 have "I (s1\<lparr>opcode := op\<rparr>)"
    by (simp add: inv_opcode)
  from inv_emulate_opcode [OF this] inv_process_prefix [OF this] b show "I s'"
    by (cases "process_prefix (s1\<lparr>opcode := op\<rparr>)") (use IH in auto)
qed

lemma inv_insn_loop: "I s \<Longrightarrow> pred_option I (insn_loop s)"
  by (simp add: pred_option_iff inv_insn_loop_Some)

lemma inv_emulate_insn: "I s \<Longrightarrow> pred_option (\<lambda>(v, s). I s) (emulate_insn s)"
  unfolding emulate_insn_def Let_def if_distrib [of "\<lambda>s. Some (instr_length s, s)"]
  by (intro inv_insn_loop inv_invalid_opcode inv_binds inv_updates)

lemma inv_single_step: "I s \<Longrightarrow> pred_option I (single_step s)"
  unfolding single_step_def by (intro inv_rules)

lemma inv_handle_nmi: "I s \<Longrightarrow> pred_option I (handle_nmi s)"
  unfolding handle_nmi_def Let_def by (intro inv_single_step inv_rules)

lemma inv_ack_int: "I s \<Longrightarrow> pred_option I (ack_int s n)"
  unfolding ack_int_def by (intro inv_io_call inv_binds)

lemma inv_handle_irq: "I s \<Longrightarrow> pred_option I (handle_irq s)"
  unfolding handle_irq_def Let_def by (intro inv_ack_int inv_single_step inv_rules)

lemma inv_step: "I s \<Longrightarrow> pred_option (\<lambda>(v, s). I s) (step s)"
  unfolding step_def Let_def
  by (intro inv_emulate_insn inv_handle_nmi inv_handle_irq inv_single_step inv_binds inv_updates)

lemma inv_step_with_io: "I s \<Longrightarrow> pred_option (\<lambda>(v, s). I s) (step_with_io s cb n)"
  unfolding step_with_io_def by (intro inv_step inv_io_call inv_binds)

end

end
