(* ===== verification/CpuRun.thy ===== *)
theory CpuRun
  imports Emulate
begin

text \<open>
  How the processor runs: the events that reach it and what they keep, the prefix loop of an
  instruction, and the order in which instructions and interrupts take effect.
\<close>

section \<open>Prefixes\<close>

definition prefix_bytes :: "u8 list" where
  "prefix_bytes = [0xf0, 0x26, 0x2e, 0x36, 0x3e, 0xf2, 0xf3]"

text \<open>The byte at a distance from the current fetch position.\<close>

definition code_ahead :: "'d emu \<Rightarrow> nat \<Rightarrow> u8" where
  "code_ahead s i = mem_bytes (mem s)
     (get_phys_addr (rget s CS) (ucast (ucast (rget s IP) + (instr_length s + of_nat i))))"

text \<open>What one prefix byte leaves behind, and a run of them from left to right.\<close>

definition after_prefix :: "'d emu \<Rightarrow> u8 \<Rightarrow> 'd emu" where
  "after_prefix s b = the (process_prefix ((fetched s)\<lparr>opcode := b\<rparr>))"

text \<open>The segment override and the repeat mode that a run of prefixes selects.\<close>

definition segment_of_prefix :: "u8 \<Rightarrow> GPR option" where
  "segment_of_prefix b = map_of [(0x26, ES), (0x2e, CS), (0x36, SS), (0x3e, DS)] b"

definition rep_of_prefix :: "u8 \<Rightarrow> RepMode option" where
  "rep_of_prefix b = map_of [(0xf2, REPNE), (0xf3, REPE)] b"

fun last_some :: "('a \<Rightarrow> 'b option) \<Rightarrow> 'a list \<Rightarrow> 'b option" where
  "last_some f [] = None"
| "last_some f (x # xs) = (case last_some f xs of None \<Rightarrow> f x | Some y \<Rightarrow> Some y)"

lemma process_prefix_Some: "process_prefix s \<noteq> None \<longleftrightarrow> opcode s \<in> set prefix_bytes"
  by (simp add: process_prefix_def prefix_bytes_def Let_def)

lemma code_ahead_0: "code_ahead s 0 = code_byte s"
  by (simp add: code_ahead_def code_byte_def)

lemma after_prefix_frame [simp]:
  assumes "b \<in> set prefix_bytes"
  shows "mem (after_prefix s b) = mem s" "regs (after_prefix s b) = regs s"
    "instr_length (after_prefix s b) = instr_length s + 1" "modrm_decoder (after_prefix s b) = modrm_decoder s"
    "jump_taken (after_prefix s b) = jump_taken s"
  using assms
  by (auto simp: after_prefix_def process_prefix_def prefix_bytes_def set_override_segment_def Let_def)

lemma after_prefix_override:
  assumes "b \<in> set prefix_bytes"
  shows "default_segment_overriden (after_prefix s b) = (default_segment_overriden s \<or> segment_of_prefix b \<noteq> None)"
    "override_segment (after_prefix s b) = (case segment_of_prefix b of None \<Rightarrow> override_segment s | Some g \<Rightarrow> g)"
    "has_rep_prefix (after_prefix s b) = (has_rep_prefix s \<or> rep_of_prefix b \<noteq> None)"
    "rep_mode (after_prefix s b) = (case rep_of_prefix b of None \<Rightarrow> rep_mode s | Some g \<Rightarrow> g)"
  using assms
  by (auto simp: after_prefix_def process_prefix_def prefix_bytes_def set_override_segment_def Let_def
      segment_of_prefix_def rep_of_prefix_def fetched_def)

lemma insn_loop_step:
  "insn_loop s = (if code_byte s \<in> set prefix_bytes then insn_loop (after_prefix s (code_byte s))
     else emulate_opcode ((fetched s)\<lparr>opcode := code_byte s\<rparr>))"
  using process_prefix_Some [of "(fetched s)\<lparr>opcode := code_byte s\<rparr>"]
  by (subst insn_loop.simps) (auto simp: fetch_byte_eq after_prefix_def split: option.splits)

lemma code_ahead_after_prefix:
  "b \<in> set prefix_bytes \<Longrightarrow> code_ahead (after_prefix s b) = (\<lambda>i. code_ahead s (Suc i))"
  by (simp add: code_ahead_def algebra_simps fun_eq_iff)

text \<open>The state in which the opcode after a run of prefixes executes.\<close>

definition after_prefixes :: "'d emu \<Rightarrow> nat \<Rightarrow> 'd emu" where
  "after_prefixes s n = foldl after_prefix s (map (code_ahead s) [0..<n])"

lemma after_prefixes_Suc:
  "code_byte s \<in> set prefix_bytes \<Longrightarrow>
   after_prefixes s (Suc n) = after_prefixes (after_prefix s (code_byte s)) n"
  by (simp add: after_prefixes_def upt_conv_Cons map_Suc_upt [symmetric] code_ahead_after_prefix
      code_ahead_0 comp_def del: upt_Suc)

lemma insn_loop_prefixes:
  assumes "\<forall>i < n. code_ahead s i \<in> set prefix_bytes" "code_ahead s n \<notin> set prefix_bytes"
  shows "insn_loop s = emulate_opcode ((fetched (after_prefixes s n))\<lparr>opcode := code_ahead s n\<rparr>)"
  using assms
proof (induction n arbitrary: s)
  case 0
  then show ?case by (simp add: insn_loop_step code_ahead_0 after_prefixes_def)
next
  case (Suc n)
  from Suc.prems(1) have b: "code_byte s \<in> set prefix_bytes"
    using code_ahead_0 [of s] by (metis zero_less_Suc)
  have "insn_loop s = insn_loop (after_prefix s (code_byte s))"
    using b by (subst insn_loop_step) simp
  also have "\<dots> = emulate_opcode ((fetched (after_prefixes (after_prefix s (code_byte s)) n))
      \<lparr>opcode := code_ahead (after_prefix s (code_byte s)) n\<rparr>)"
    using Suc.prems b by (intro Suc.IH) (simp_all add: code_ahead_after_prefix)
  finally show ?case using b by (simp add: after_prefixes_Suc code_ahead_after_prefix)
qed

lemma foldl_after_prefix:
  assumes "set bs \<subseteq> set prefix_bytes"
  shows "mem (foldl after_prefix s bs) = mem s" "regs (foldl after_prefix s bs) = regs s"
    "instr_length (foldl after_prefix s bs) = instr_length s + of_nat (length bs)"
    "default_segment_overriden (foldl after_prefix s bs) =
       (default_segment_overriden s \<or> last_some segment_of_prefix bs \<noteq> None)"
    "override_segment (foldl after_prefix s bs) =
       (case last_some segment_of_prefix bs of None \<Rightarrow> override_segment s | Some g \<Rightarrow> g)"
    "has_rep_prefix (foldl after_prefix s bs) = (has_rep_prefix s \<or> last_some rep_of_prefix bs \<noteq> None)"
    "rep_mode (foldl after_prefix s bs) = (case last_some rep_of_prefix bs of None \<Rightarrow> rep_mode s | Some g \<Rightarrow> g)"
  using assms
  by (induction bs arbitrary: s) (auto simp: after_prefix_override split: option.splits)



lemma code_ahead_byte: "code_ahead s i = code_byte (s\<lparr>instr_length := instr_length s + of_nat i\<rparr>)"
  by (simp add: code_ahead_def code_byte_def)

text \<open>
  C18. The prefix loop ends at the first byte that is no prefix, whatever the number of prefixes before it, and
  executes that opcode with the memory and registers untouched and the length counted; the last segment
  prefix is the override and the last repeat prefix the repeat mode.
\<close>

theorem prefixes_then_opcode:
  assumes "\<forall>i < n. code_ahead s i \<in> set prefix_bytes" and "code_ahead s n \<notin> set prefix_bytes"
    and "bs = map (code_ahead s) [0..<n]"
  shows "\<exists>t. insn_loop s = emulate_opcode t \<and> opcode t = code_ahead s n \<and> mem t = mem s \<and> regs t = regs s \<and>
    instr_length t = instr_length s + of_nat n + 1 \<and>
    default_segment_overriden t = (default_segment_overriden s \<or> last_some segment_of_prefix bs \<noteq> None) \<and>
    override_segment t = (case last_some segment_of_prefix bs of None \<Rightarrow> override_segment s | Some g \<Rightarrow> g) \<and>
    has_rep_prefix t = (has_rep_prefix s \<or> last_some rep_of_prefix bs \<noteq> None) \<and>
    rep_mode t = (case last_some rep_of_prefix bs of None \<Rightarrow> rep_mode s | Some m \<Rightarrow> m)"
proof -
  have "set bs \<subseteq> set prefix_bytes" using assms(1,3) by auto
  from foldl_after_prefix [OF this, of s] insn_loop_prefixes [OF assms(1,2)] show ?thesis
    unfolding after_prefixes_def assms(3) [symmetric]
    by (intro exI [of _ "(fetched (foldl after_prefix s bs))\<lparr>opcode := code_ahead s n\<rparr>"])
      (simp add: assms(3) fetched_def)
qed

theorem prefixes_then_opcode_witness:
  "\<exists>t. insn_loop (code_emu [0x26, 0xf3, 0xa4]) = emulate_opcode t \<and> opcode t = 0xa4 \<and>
     override_segment t = ES \<and> has_rep_prefix t \<and> rep_mode t = REPE"
proof -
  have b: "code_ahead (code_emu [0x26, 0xf3, 0xa4]) i = store_bytes (\<lambda>_. 0) 0 [0x26, 0xf3, 0xa4] (of_nat i)"
    if "i < 65536" for i
    using that code_emu_byte [of "(code_emu [0x26, 0xf3, 0xa4])\<lparr>instr_length := of_nat i\<rparr>" "[0x26, 0xf3, 0xa4]" i]
    by (simp add: code_ahead_byte)
  have "\<forall>i < 2. code_ahead (code_emu [0x26, 0xf3, 0xa4]) i \<in> set prefix_bytes"
    "code_ahead (code_emu [0x26, 0xf3, 0xa4]) 2 \<notin> set prefix_bytes"
    by (auto simp: b prefix_bytes_def less_2_cases_iff)
  from prefixes_then_opcode [OF this refl] show ?thesis
    by (auto simp: b segment_of_prefix_def rep_of_prefix_def upt_conv_Cons)
qed

section \<open>One instruction\<close>

text \<open>What \<open>emulate_insn\<close> clears before an instruction, and what it does after it.\<close>

definition begin_insn :: "'d emu \<Rightarrow> 'd emu" where
  "begin_insn s = s\<lparr>instr_length := 0, default_segment_overriden := False, has_rep_prefix := False,
     modrm_decoder := modrm_clear (modrm_decoder s), jump_taken := False, ext_int_inhibit := False\<rparr>"

definition end_insn :: "'d emu \<Rightarrow> 'd emu" where
  "end_insn s = (if \<not> jump_taken s then rset s IP (next_ip s) else s)"

definition code_at :: "'d emu \<Rightarrow> u16 \<Rightarrow> u8" where
  "code_at s ip = mem_bytes (mem s) (get_phys_addr (rget s CS) (ucast ip))"

lemma code_byte_begin: "code_byte (begin_insn s) = code_at s (rget s IP)"
  by (simp add: code_byte_def code_at_def begin_insn_def ucast_u16_u64_u32)

lemma emulate_insn_None: "insn_loop (begin_insn s) = None \<Longrightarrow> emulate_insn s = None"
  by (simp add: emulate_insn_def begin_insn_def Let_def)

lemma emulate_insn_opcode:
  assumes "code_at s (rget s IP) = b" "b \<notin> set prefix_bytes"
    and "emulate_opcode ((fetched (begin_insn s))\<lparr>opcode := b\<rparr>) = Some t" "instr_length t < 16"
  shows "emulate_insn s = Some (instr_length t, end_insn t)"
proof -
  have "insn_loop (begin_insn s) = Some t"
    using assms by (subst insn_loop_step) (simp add: code_byte_begin)
  moreover have "\<not> 16 \<le> instr_length t" using assms(4) by (simp only: not_le)
  ultimately show ?thesis
    unfolding emulate_insn_def Let_def begin_insn_def end_insn_def by simp
qed

section \<open>An instruction without end\<close>

lemma insn_loop_Some_prefix:
  assumes "insn_loop s = Some s'"
  shows "\<exists>a. mem_bytes (mem s) a \<notin> set prefix_bytes"
proof (rule insn_loop.raw_induct [where P = "\<lambda>s s'. \<exists>a. mem_bytes (mem s) a \<notin> set prefix_bytes", OF _ assms])
  fix loop :: "'a emu \<Rightarrow> 'a emu option" and s s'
  assume IH: "\<And>s s'. loop s = Some s' \<Longrightarrow> \<exists>a. mem_bytes (mem s) a \<notin> set prefix_bytes"
    and body: "fetch_byte s \<bind> (\<lambda>(op, s). let s = s\<lparr>opcode := op\<rparr>
        in case process_prefix s of None \<Rightarrow> emulate_opcode s | Some s \<Rightarrow> loop s) = Some s'"
  show "\<exists>a. mem_bytes (mem s) a \<notin> set prefix_bytes"
  proof (cases "code_byte s \<in> set prefix_bytes")
    case True
    with body have "loop (after_prefix s (code_byte s)) = Some s'"
      using process_prefix_Some [of "(fetched s)\<lparr>opcode := code_byte s\<rparr>"]
      by (auto simp: fetch_byte_eq after_prefix_def split: option.splits)
    from IH [OF this] True show ?thesis by simp
  qed (auto simp: code_byte_def)
qed



section \<open>Interrupts\<close>

text \<open>An entry from the current instruction boundary, and what its \<open>iret\<close> restores.\<close>

definition entered :: "'d emu \<Rightarrow> u32 \<Rightarrow> 'd emu \<Rightarrow> bool" where
  "entered s vec t \<longleftrightarrow> mem_read16 (mem t) vec = Some (rget t IP) \<and> mem_read16 (mem t) (vec + 2) = Some (rget t CS) \<and>
     \<not> fget t IF \<and> \<not> fget t TF \<and>
     (\<exists>t'. iretcf t = Some t' \<and> rget t' IP = rget s IP \<and> rget t' CS = rget s CS \<and> rget t' SP = rget s SP \<and>
       get_flags (regs t') = get_flags (regs s))"

lemma interrupt_entry_entered:
  assumes "interrupt_entry s (get_flags (regs s)) (rget s IP) vec = Some t" "flags_ok (regs s)"
  shows "entered s vec t"
proof -
  have "flags_ok (regs t)" "pseudo_286 (regs t) = pseudo_286 (regs s)"
    using flags_inv.inv_interrupt_entry [of s] config_inv.inv_interrupt_entry [of s, OF refl] assms
    by (auto simp: pred_option_iff config_def)
  from iret_unwinds [OF assms refl refl refl this] interrupt_entry_effect [OF assms(1)]
  show ?thesis unfolding entered_def by blast
qed

lemma entered_cong: "regs s = regs s' \<Longrightarrow> entered s vec t = entered s' vec t"
  by (simp add: entered_def)


text \<open>
  An interrupt request is taken when IF is set and nothing of higher priority is pending: the acknowledge
  callback runs once with the request's number, the handler of that vector is entered with IF clear, and
  \<open>iret\<close> resumes the interrupted instruction with its flags.
\<close>

theorem irq_taken:
  assumes "\<not> nmi_pending s" "pending_irq s = n" "n \<noteq> 0" "\<not> ext_int_inhibit s" "fget s IF" "\<not> fget s TF"
    and "flags_ok (regs s)" "inta_handler s (uint n) (devs s) = Some ((), d, [])" "step s = Some (len, t)"
  shows "len = 0 \<and> pending_irq t = 0 \<and> devs t = d \<and> entered s (4 * ucast n) t"
proof -
  let ?s = "s\<lparr>tf_was_set := False, pending_irq := 0, devs := d\<rparr>"
  have len: "len = 0" and t: "interrupt_entry ?s (get_flags (regs ?s)) (rget ?s IP) (ucast n * 4) = Some t"
    using assms interrupt_entry_keeps(4) [of ?s "get_flags (regs ?s)" "rget ?s IP" "ucast n * 4"]
    by (auto simp: step_def handle_irq_def ack_int_def io_call_def single_step_def bind_eq_Some Let_def)
  from interrupt_entry_keeps [OF t] interrupt_entry_entered [OF t] assms(7) len show ?thesis
    by (auto simp: entered_cong [of s ?s] mult.commute)
qed


lemma nmi_step_succeeds:
  assumes "nmi_pending s" "\<not> ext_int_inhibit s" "\<not> fget s TF" "unat (rget s SS) \<le> 0xeffe"
  shows "\<exists>t. step s = Some (0, t)"
proof -
  let ?s = "s\<lparr>tf_was_set := False, nmi_pending := False\<rparr>"
  obtain t where t: "interrupt_entry ?s (get_flags (regs ?s)) (rget ?s IP) VEC_NMI = Some t"
    using interrupt_entry_low [of ?s VEC_NMI] assms(4) by (auto simp: VEC_NMI_def MEMORY_SIZE_def)
  with interrupt_entry_keeps(4) [OF t] assms show ?thesis
    by (auto simp: step_def handle_nmi_def single_step_def Let_def)
qed

lemma irq_step_succeeds:
  assumes "\<not> nmi_pending s" "pending_irq s \<noteq> 0" "\<not> ext_int_inhibit s" "fget s IF" "\<not> fget s TF"
    and "inta_handler s (uint (pending_irq s)) (devs s) = Some ((), d, [])" "unat (rget s SS) \<le> 0xeffe"
  shows "\<exists>t. step s = Some (0, t)"
proof -
  let ?s = "s\<lparr>tf_was_set := False, pending_irq := 0, devs := d\<rparr>" and ?v = "ucast (pending_irq s) * 4 :: u32"
  have "unat ?v \<le> 1020"
    using unat_bounds(1) [of "pending_irq s"] by (simp add: unat_word_ariths unsigned_ucast_eq take_bit_eq_mod)
  then obtain t where t: "interrupt_entry ?s (get_flags (regs ?s)) (rget ?s IP) ?v = Some t"
    using interrupt_entry_low [of ?s ?v] assms(7) by (auto simp: MEMORY_SIZE_def)
  with interrupt_entry_keeps(4) [OF t] assms show ?thesis
    by (auto simp: step_def handle_irq_def ack_int_def io_call_def single_step_def Let_def)
qed


theorem irq_taken_witness:
  "\<exists>t. step (sflags (bare_emu\<lparr>pending_irq := 8\<rparr>) IF IF) = Some (0, t) \<and> pending_irq t = 0 \<and>
     entered (sflags (bare_emu\<lparr>pending_irq := 8\<rparr>) IF IF) 32 t"
proof -
  let ?s = "sflags (bare_emu\<lparr>pending_irq := 8\<rparr>) IF IF"
  have p: "\<not> nmi_pending ?s" "pending_irq ?s = 8" "(8 :: u8) \<noteq> 0" "\<not> ext_int_inhibit ?s" "fget ?s IF" "\<not> fget ?s TF"
    "flags_ok (regs ?s)" "inta_handler ?s (uint (8 :: u8)) (devs ?s) = Some ((), (), [])" "unat (rget ?s SS) \<le> 0xeffe"
    by (simp_all add: bare_TF get_flag_set_flags flag_bits del: get_flag_bit)
  from irq_step_succeeds [OF p(1) _ p(4-6) _ p(9)] p(2,8) obtain t where "step ?s = Some (0, t)" by auto
  with irq_taken [OF p(1-8) this] show ?thesis by simp
qed

section \<open>Between two instructions\<close>

lemma emulate_sti: "opcode s = 0xfb \<Longrightarrow> emulate_opcode s = stifb s"
  by (simp add: emulate_opcode_def emulate_opcode_c0_ff_def)

lemma emulate_nop: "opcode s = 0x90 \<Longrightarrow> emulate_opcode s = xchg90_97 s"
  by (simp add: emulate_opcode_def emulate_opcode_80_bf_def)

lemma xchg_nop: "opcode s = 0x90 \<Longrightarrow> xchg90_97 s = Some (rset s AX (rget s AX))"
  by (simp add: xchg90_97_def Let_def GPR_of_def GPR_enum_def reg_set_same)

text \<open>
  C17. An interrupt request that waits while IF is clear is not taken right after \<open>sti\<close>: the step that executes
  \<open>sti\<close> leaves it pending, and so the next instruction (here \<open>nop\<close>) is executed before the request is taken,
  with the address after it as the one to return to.
\<close>

theorem sti_shadow:
  assumes "\<not> nmi_pending s" "\<not> fget s IF" "\<not> fget s TF" "pending_irq s \<noteq> 0"
    and "code_at s (rget s IP) = 0xfb" "code_at s (rget s IP + 1) = 0x90"
  shows "\<exists>s1 s2. step s = Some (1, s1) \<and> mem s1 = mem s \<and> rget s1 IP = rget s IP + 1 \<and> fget s1 IF \<and>
    pending_irq s1 = pending_irq s \<and> ext_int_inhibit s1 \<and>
    step s1 = handle_irq s2 \<bind> (\<lambda>t. Some (1, t)) \<and>
    mem s2 = mem s \<and> rget s2 IP = rget s IP + 2 \<and> (\<forall>x. is16 x \<and> x \<noteq> IP \<longrightarrow> rget s2 x = rget s x)"
proof -
  define b where "b = (fetched (begin_insn (s\<lparr>tf_was_set := False\<rparr>)))\<lparr>opcode := 0xfb\<rparr>"
  define s1 where "s1 = rset ((sflags b (get_flags (regs b) OR IF) IF)\<lparr>ext_int_inhibit := True\<rparr>) IP (rget s IP + 1)"
  have "emulate_opcode b = Some ((sflags b (get_flags (regs b) OR IF) IF)\<lparr>ext_int_inhibit := True\<rparr>)"
    by (simp add: b_def emulate_sti stifb_def Let_def)
  from emulate_insn_opcode [of "s\<lparr>tf_was_set := False\<rparr>" "0xfb", folded b_def, OF _ _ this]
  have "emulate_insn (s\<lparr>tf_was_set := False\<rparr>) = Some (1, s1)"
    using assms(5) by (simp add: code_at_def prefix_bytes_def b_def begin_insn_def end_insn_def fetched_def s1_def)
  then have st1: "step s = Some (1, s1)"
    using assms(1-3) by (simp add: step_def s1_def Let_def)
  have r1: "mem s1 = mem s" "rget s1 IP = rget s IP + 1" "pending_irq s1 = pending_irq s" "ext_int_inhibit s1"
    "\<not> nmi_pending s1" "is16 x \<Longrightarrow> x \<noteq> IP \<Longrightarrow> rget s1 x = rget s x" for x
    using assms(1) by (auto simp: s1_def b_def begin_insn_def fetched_def)
  have f1: "fget s1 IF" "\<not> fget s1 TF"
    using assms(3) by (simp_all add: s1_def b_def begin_insn_def get_flag_set_flags bit_or_iff flag_bits del: get_flag_bit)
  define c where "c = (fetched (begin_insn (s1\<lparr>tf_was_set := False\<rparr>)))\<lparr>opcode := 0x90\<rparr>"
  define s2 where "s2 = rset (rset c AX (rget c AX)) IP (rget c IP + 1)"
  have "emulate_opcode c = Some (rset c AX (rget c AX))"
    by (simp add: c_def emulate_nop xchg_nop)
  from emulate_insn_opcode [of "s1\<lparr>tf_was_set := False\<rparr>" "0x90", folded c_def, OF _ _ this]
  have "emulate_insn (s1\<lparr>tf_was_set := False\<rparr>) = Some (1, s2)"
    using assms(6) r1
    by (simp add: code_at_def prefix_bytes_def c_def begin_insn_def end_insn_def fetched_def s2_def)
  then have "step s1 = handle_irq s2 \<bind> (\<lambda>t. Some (1, t))"
    using r1 f1 assms(4) by (simp add: step_def s2_def c_def begin_insn_def fetched_def Let_def)
  moreover have "mem s2 = mem s" "rget s2 IP = rget s IP + 2" "\<forall>x. is16 x \<and> x \<noteq> IP \<longrightarrow> rget s2 x = rget s x"
    using r1 by (auto simp: s2_def c_def begin_insn_def)
  ultimately show ?thesis using st1 r1 f1 by blast
qed

theorem sti_shadow_witness:
  "\<exists>s1 s2. step ((code_emu [0xfb, 0x90])\<lparr>pending_irq := 8\<rparr>) = Some (1, s1) \<and> pending_irq s1 = 8 \<and>
     step s1 = handle_irq s2 \<bind> (\<lambda>t. Some (1, t)) \<and> rget s2 IP = 2"
proof -
  let ?s = "(code_emu [0xfb, 0x90])\<lparr>pending_irq := 8\<rparr>"
  have "\<not> nmi_pending ?s" "\<not> fget ?s IF" "\<not> fget ?s TF" "pending_irq ?s \<noteq> 0"
    "code_at ?s (rget ?s IP) = 0xfb" "code_at ?s (rget ?s IP + 1) = 0x90"
    by (simp_all add: code_at_def get_phys_addr_def code_emu_def)
  from sti_shadow [OF this] show ?thesis by auto
qed


section \<open>A delay loop\<close>

fun steps :: "nat \<Rightarrow> 'd emu \<Rightarrow> 'd emu option" where
  "steps 0 s = Some s"
| "steps (Suc n) s = do { (_, t) \<leftarrow> step s; steps n t }"

definition quiet :: "'d emu \<Rightarrow> bool" where
  "quiet s \<longleftrightarrow> \<not> nmi_pending s \<and> pending_irq s = 0 \<and> \<not> fget s TF"

text \<open>The instruction \<open>loop $\<close> at the current address.\<close>

definition at_loop :: "'d emu \<Rightarrow> bool" where
  "at_loop s \<longleftrightarrow> code_at s (rget s IP) = 0xe2 \<and> code_ahead (begin_insn s) 1 = 0xfe"

lemma emulate_loop: "opcode s = 0xe2 \<Longrightarrow> emulate_opcode s = loope2 s"
  by (simp add: emulate_opcode_def emulate_opcode_c0_ff_def)

lemma loop_step:
  assumes "quiet s" "at_loop s"
  shows "\<exists>t. step s = Some (2, t) \<and> quiet t \<and> mem t = mem s \<and> rget t CX = rget s CX - 1 \<and>
    rget t IP = (if rget s CX = 1 then rget s IP + 2 else rget s IP) \<and>
    (\<forall>x. is16 x \<and> x \<notin> {CX, IP} \<longrightarrow> rget t x = rget s x) \<and> get_flags (regs t) = get_flags (regs s)"
proof -
  define b where "b = (fetched (begin_insn (s\<lparr>tf_was_set := False\<rparr>)))\<lparr>opcode := 0xe2\<rparr>"
  have cb: "code_byte b = 0xfe"
    using assms(2) by (simp add: at_loop_def b_def code_byte_def code_ahead_def begin_insn_def)
  define c where "c = rset (fetched b) CX (rget s CX - 1)"
  define d where "d = (if rget s CX = 1 then c else (rset c IP (rget s IP))\<lparr>jump_taken := True\<rparr>)"
  have br: "regs b = regs s" "instr_length b = 1" "opcode b = 0xe2"
    by (simp_all add: b_def begin_insn_def fetched_def)
  have "emulate_opcode b = Some d"
    by (simp add: emulate_loop br loope2_def fetch_byte_eq cb Let_def d_def c_def)
  from emulate_insn_opcode [of "s\<lparr>tf_was_set := False\<rparr>" "0xe2", folded b_def, OF _ _ this]
  have "emulate_insn (s\<lparr>tf_was_set := False\<rparr>) = Some (2, end_insn d)"
    using assms(2) by (simp add: at_loop_def code_at_def prefix_bytes_def d_def c_def b_def begin_insn_def fetched_def)
  then have "step s = Some (2, end_insn d)"
    using assms(1)
    by (simp add: step_def quiet_def Let_def single_step_def d_def c_def b_def begin_insn_def end_insn_def fetched_def)
  then show ?thesis
    using assms(1)
    by (auto simp: quiet_def d_def c_def b_def begin_insn_def end_insn_def fetched_def)
qed

text \<open>
  C20. The delay loop \<open>loop $\<close> ends: from a state in which no interrupt is pending, as many steps as CX counts
  (65536 when it is zero) leave CX zero and IP after the instruction, with everything else in the
  registers and the memory as before.
\<close>

theorem loop_ends:
  assumes "quiet s" "at_loop s" "n = (if rget s CX = 0 then 65536 else unat (rget s CX))"
  shows "\<exists>t. steps n s = Some t \<and> rget t CX = 0 \<and> rget t IP = rget s IP + 2 \<and> mem t = mem s \<and>
    (\<forall>x. is16 x \<and> x \<notin> {CX, IP} \<longrightarrow> rget t x = rget s x) \<and> get_flags (regs t) = get_flags (regs s)"
  using assms
proof (induction n arbitrary: s)
  case 0
  then show ?case by (auto simp: unat_eq_0 split: if_splits)
next
  case (Suc n)
  obtain t where t: "step s = Some (2, t)" "quiet t" "mem t = mem s" "rget t CX = rget s CX - 1"
    "rget t IP = (if rget s CX = 1 then rget s IP + 2 else rget s IP)"
    "\<forall>x. is16 x \<and> x \<notin> {CX, IP} \<longrightarrow> rget t x = rget s x" "get_flags (regs t) = get_flags (regs s)"
    using loop_step [OF Suc.prems(1,2)] by blast
  show ?case
  proof (cases "rget s CX = 1")
    case True
    with Suc.prems(3) have "n = 0" by simp
    with True t show ?thesis by auto
  next
    case False
    have "at_loop t"
      using Suc.prems(2) t False
      by (simp add: at_loop_def code_at_def code_ahead_def begin_insn_def)
    moreover have "n = (if rget t CX = 0 then 65536 else unat (rget t CX))"
      using Suc.prems(3) False unat_minus_one [of "rget s CX"]
      by (cases "rget s CX = 0") (simp_all add: t(4) unat_minus_one_word)
    ultimately show ?thesis using Suc.IH [OF t(2)] t False by auto
  qed
qed

theorem loop_ends_witness:
  "\<exists>t. steps 3 (rset (code_emu [0xe2, 0xfe]) CX 3) = Some t \<and> rget t CX = 0 \<and> rget t IP = 2"
proof -
  let ?s = "rset (code_emu [0xe2, 0xfe]) CX 3"
  have "quiet ?s" by (simp add: quiet_def code_emu_def)
  moreover have "at_loop ?s"
    by (simp add: at_loop_def code_at_def code_ahead_def begin_insn_def get_phys_addr_def)
  ultimately show ?thesis using loop_ends [of ?s 3] by auto
qed


end
