(* ===== verification/SoftwareCPU.thy ===== *)
theory SoftwareCPU
  imports CpuRun
begin

text \<open>
  The CPU as the rest of the system sees it: \<open>class Emulator\<close> (the end of Emulate.cpp), \<open>class SoftwareCPU\<close> of
  sim/cppmodel/SoftwareCPU.h and what it inherits from \<open>CPU\<close> and \<open>SimCPU\<close> (sim/common/CPU.h): registers,
  flags, memory and I/O accessors, the table of I/O ports, the cycle counter, transfers of
  whole vectors, and the part of a snapshot that \<open>SimCPU::save\<close> writes and \<open>load\<close> reads. The memory, the register
  file and the port table are members of \<open>SoftwareCPU\<close> that the emulator points to; here they are the fields
  of the emulator's record.
\<close>

section \<open>State and operations\<close>

record 'd SoftwareCPU =
  emulator :: "'d emu"
  num_cycles :: u64

text \<open>
  The constructor; \<open>num_cycles\<close> and the members that \<open>EmulatorPimpl_new\<close> takes have no initial value in the source.
  The interrupt acknowledge handler is empty until \<open>set_inta_handler\<close>.
\<close>

definition SoftwareCPU_new :: "bool \<Rightarrow> bool \<Rightarrow> 'd \<Rightarrow> bool \<Rightarrow> GPR \<Rightarrow> ModRMDecoder \<Rightarrow> u64 \<Rightarrow> 'd SoftwareCPU" where
  "SoftwareCPU_new pseudo286 te d w seg0 dec n =
     \<lparr>emulator = EmulatorPimpl_new (RegisterFile_new pseudo286) (Memory_new w) Map.empty d (\<lambda>_ d. Some ((), d, [])) te seg0 dec,
      num_cycles = n\<rparr>"

definition set_inta_handler :: "'d SoftwareCPU \<Rightarrow> (int \<Rightarrow> (unit, 'd) io_op) \<Rightarrow> 'd SoftwareCPU" where
  "set_inta_handler c h = c\<lparr>emulator := (emulator c)\<lparr>inta_handler := h\<rparr>\<rparr>"

definition write_reg :: "'d SoftwareCPU \<Rightarrow> GPR \<Rightarrow> u16 \<Rightarrow> 'd SoftwareCPU" where
  "write_reg c regnum val = c\<lparr>emulator := rset (emulator c) regnum val\<rparr>"

definition read_reg :: "'d SoftwareCPU \<Rightarrow> GPR \<Rightarrow> u16" where
  "read_reg c regnum = rget (emulator c) regnum"

definition write_flags :: "'d SoftwareCPU \<Rightarrow> u16 \<Rightarrow> 'd SoftwareCPU" where
  "write_flags c val = c\<lparr>emulator := sflags (emulator c) val 0xffff\<rparr>"

definition read_flags :: "'d SoftwareCPU \<Rightarrow> u16" where
  "read_flags c = get_flags (regs (emulator c))"

definition cpu_step :: "'d SoftwareCPU \<Rightarrow> (u64 \<times> 'd SoftwareCPU) option" where
  "cpu_step c = do {
     let c = c\<lparr>num_cycles := num_cycles c + 1\<rparr>;
     (len, s) \<leftarrow> step (emulator c);
     Some (len, c\<lparr>emulator := s\<rparr>)
   }"

definition cpu_step_with_io :: "'d SoftwareCPU \<Rightarrow> (u64 \<Rightarrow> (unit, 'd) io_op) \<Rightarrow> (u64 \<times> 'd SoftwareCPU) option" where
  "cpu_step_with_io c io_callback = do {
     let c = c\<lparr>num_cycles := num_cycles c + 1\<rparr>;
     (len, s) \<leftarrow> step_with_io (emulator c) io_callback (num_cycles c);
     Some (len, c\<lparr>emulator := s\<rparr>)
   }"

definition cpu_has_trapped :: "'d SoftwareCPU \<Rightarrow> bool option" where
  "cpu_has_trapped c = has_trapped (emulator c)"

definition cpu_reset :: "'d SoftwareCPU \<Rightarrow> 'd SoftwareCPU" where
  "cpu_reset c = c\<lparr>emulator := reset (emulator c)\<rparr>"

definition instruction_had_side_effects :: "'d SoftwareCPU \<Rightarrow> bool" where
  "instruction_had_side_effects c \<longleftrightarrow> mem_has_written (mem (emulator c)) \<or> reg_has_written (regs (emulator c))"

definition clear_side_effects :: "'d SoftwareCPU \<Rightarrow> 'd SoftwareCPU" where
  "clear_side_effects c =
     c\<lparr>emulator := (emulator c)\<lparr>regs := reg_clear_has_written (regs (emulator c)),
                                mem := mem_clear_has_written (mem (emulator c))\<rparr>\<rparr>"

definition cycle_count :: "'d SoftwareCPU \<Rightarrow> u64" where
  "cycle_count c = num_cycles c"

text \<open>A call into the emulator that leaves the counter alone.\<close>

definition on_emulator :: "('d emu \<Rightarrow> 'd emu option) \<Rightarrow> 'd SoftwareCPU \<Rightarrow> 'd SoftwareCPU option" where
  "on_emulator f c = do { s \<leftarrow> f (emulator c); Some (c\<lparr>emulator := s\<rparr>) }"

definition on_emulator_value :: "('d emu \<Rightarrow> ('a \<times> 'd emu) option) \<Rightarrow> 'd SoftwareCPU \<Rightarrow> ('a \<times> 'd SoftwareCPU) option" where
  "on_emulator_value f c = do { (v, s) \<leftarrow> f (emulator c); Some (v, c\<lparr>emulator := s\<rparr>) }"

subsection \<open>Memory\<close>

definition write_mem8 :: "'d SoftwareCPU \<Rightarrow> u16 \<Rightarrow> u16 \<Rightarrow> u8 \<Rightarrow> 'd SoftwareCPU option" where
  "write_mem8 c segment addr val = on_emulator (\<lambda>s. mwrite s (get_phys_addr segment (ucast addr)) val) c"

definition write_mem16 :: "'d SoftwareCPU \<Rightarrow> u16 \<Rightarrow> u16 \<Rightarrow> u16 \<Rightarrow> 'd SoftwareCPU option" where
  "write_mem16 c segment addr val = on_emulator (\<lambda>s. mwrite s (get_phys_addr segment (ucast addr)) val) c"

definition write_mem32 :: "'d SoftwareCPU \<Rightarrow> u16 \<Rightarrow> u16 \<Rightarrow> u32 \<Rightarrow> 'd SoftwareCPU option" where
  "write_mem32 c segment addr val = on_emulator (\<lambda>s. mwrite s (get_phys_addr segment (ucast addr)) val) c"

definition read_mem8 :: "'d SoftwareCPU \<Rightarrow> u16 \<Rightarrow> u16 \<Rightarrow> u8 option" where
  "read_mem8 c segment addr = mem_read8 (mem (emulator c)) (get_phys_addr segment (ucast addr))"

definition read_mem16 :: "'d SoftwareCPU \<Rightarrow> u16 \<Rightarrow> u16 \<Rightarrow> u16 option" where
  "read_mem16 c segment addr = mem_read16 (mem (emulator c)) (get_phys_addr segment (ucast addr))"

definition read_mem32 :: "'d SoftwareCPU \<Rightarrow> u16 \<Rightarrow> u16 \<Rightarrow> u32 option" where
  "read_mem32 c segment addr = mem_read32 (mem (emulator c)) (get_phys_addr segment (ucast addr))"

text \<open>The vector transfers of \<open>CPU\<close>: the offset is reduced to sixteen bits at every element.\<close>

fun read_vector8_from :: "'d SoftwareCPU \<Rightarrow> u16 \<Rightarrow> u16 \<Rightarrow> nat list \<Rightarrow> u8 list option" where
  "read_vector8_from c segment addr [] = Some []"
| "read_vector8_from c segment addr (m # ms) = do {
     b \<leftarrow> read_mem8 c segment (addr + of_nat m);
     bs \<leftarrow> read_vector8_from c segment addr ms;
     Some (b # bs)
   }"

definition read_vector8 :: "'d SoftwareCPU \<Rightarrow> u16 \<Rightarrow> u16 \<Rightarrow> nat \<Rightarrow> u8 list option" where
  "read_vector8 c segment addr count = read_vector8_from c segment addr [0..<count]"

fun write_vector8_from :: "'d SoftwareCPU \<Rightarrow> u16 \<Rightarrow> u16 \<Rightarrow> u16 \<Rightarrow> u8 list \<Rightarrow> 'd SoftwareCPU option" where
  "write_vector8_from c segment addr offs [] = Some c"
| "write_vector8_from c segment addr offs (b # v) = do {
     c \<leftarrow> write_mem8 c segment (addr + offs) b;
     write_vector8_from c segment addr (offs + 1) v
   }"

definition write_vector8 :: "'d SoftwareCPU \<Rightarrow> u16 \<Rightarrow> u16 \<Rightarrow> u8 list \<Rightarrow> 'd SoftwareCPU option" where
  "write_vector8 c segment addr v = write_vector8_from c segment addr 0 v"

fun read_vector16_from :: "'d SoftwareCPU \<Rightarrow> u16 \<Rightarrow> u16 \<Rightarrow> nat list \<Rightarrow> u16 list option" where
  "read_vector16_from c segment addr [] = Some []"
| "read_vector16_from c segment addr (m # ms) = do {
     w \<leftarrow> read_mem16 c segment (addr + of_nat (m * 2));
     ws \<leftarrow> read_vector16_from c segment addr ms;
     Some (w # ws)
   }"

definition read_vector16 :: "'d SoftwareCPU \<Rightarrow> u16 \<Rightarrow> u16 \<Rightarrow> nat \<Rightarrow> u16 list option" where
  "read_vector16 c segment addr count = read_vector16_from c segment addr [0..<count]"

fun write_vector16_from :: "'d SoftwareCPU \<Rightarrow> u16 \<Rightarrow> u16 \<Rightarrow> u16 \<Rightarrow> u16 list \<Rightarrow> 'd SoftwareCPU option" where
  "write_vector16_from c segment addr offs [] = Some c"
| "write_vector16_from c segment addr offs (w # v) = do {
     c \<leftarrow> write_mem16 c segment (addr + offs) w;
     write_vector16_from c segment addr (offs + 2) v
   }"

definition write_vector16 :: "'d SoftwareCPU \<Rightarrow> u16 \<Rightarrow> u16 \<Rightarrow> u16 list \<Rightarrow> 'd SoftwareCPU option" where
  "write_vector16 c segment addr v = write_vector16_from c segment addr 0 v"

subsection \<open>I/O and interrupts\<close>

text \<open>
  The table is keyed by the even address, and the device is called with \<open>addr & -1\<close>, the address itself, less its base:
  an odd address gives an odd port number.
\<close>

definition cpu_write_io8 :: "'d SoftwareCPU \<Rightarrow> u32 \<Rightarrow> u8 \<Rightarrow> 'd SoftwareCPU option" where
  "cpu_write_io8 c addr val =
     (case io (emulator c) (ucast (addr AND NOT 1)) of
        None \<Rightarrow> Some c
      | Some p \<Rightarrow> map_option snd
          (on_emulator_value (io_call (io_write8 p (ucast (addr AND -1) - port_base p) (unat (addr AND 1)) val)) c))"

definition cpu_write_io16 :: "'d SoftwareCPU \<Rightarrow> u32 \<Rightarrow> u16 \<Rightarrow> 'd SoftwareCPU option" where
  "cpu_write_io16 c addr val =
     (case io (emulator c) (ucast (addr AND NOT 1)) of
        None \<Rightarrow> Some c
      | Some p \<Rightarrow> map_option snd
          (on_emulator_value (io_call (io_write16 p (ucast (addr AND -1) - port_base p) val)) c))"

definition cpu_read_io8 :: "'d SoftwareCPU \<Rightarrow> u32 \<Rightarrow> (u8 \<times> 'd SoftwareCPU) option" where
  "cpu_read_io8 c addr =
     (case io (emulator c) (ucast (addr AND NOT 1)) of
        None \<Rightarrow> Some (0, c)
      | Some p \<Rightarrow> on_emulator_value (io_call (io_read8 p (ucast (addr AND -1) - port_base p) (unat (addr AND 1)))) c)"

definition cpu_read_io16 :: "'d SoftwareCPU \<Rightarrow> u32 \<Rightarrow> (u16 \<times> 'd SoftwareCPU) option" where
  "cpu_read_io16 c addr =
     (case io (emulator c) (ucast (addr AND NOT 1)) of
        None \<Rightarrow> Some (0, c)
      | Some p \<Rightarrow> on_emulator_value (io_call (io_read16 p (ucast (addr AND -1) - port_base p))) c)"

definition add_ioport :: "'d SoftwareCPU \<Rightarrow> 'd IOPorts \<Rightarrow> 'd SoftwareCPU" where
  "add_ioport c p =
     c\<lparr>emulator := (emulator c)\<lparr>io := foldl (\<lambda>t m. t(port_base p + of_nat (m * 2) \<mapsto> p)) (io (emulator c)) [0..<num_ports p]\<rparr>\<rparr>"

definition cpu_raise_nmi :: "'d SoftwareCPU \<Rightarrow> 'd SoftwareCPU" where
  "cpu_raise_nmi c = c\<lparr>emulator := raise_nmi (emulator c)\<rparr>"

definition cpu_raise_irq :: "'d SoftwareCPU \<Rightarrow> int \<Rightarrow> 'd SoftwareCPU" where
  "cpu_raise_irq c irq_num = c\<lparr>emulator := raise_irq (emulator c) irq_num\<rparr>"

subsection \<open>Snapshots\<close>

text \<open>
  What \<open>SimCPU::save\<close> puts into an archive, in order: the memory, a word for each register number up to and including
  \<open>NUM_16BIT_REGS\<close> (which is the number of \<open>AL\<close>), and the flags.
\<close>

record SimCPU_archive =
  ar_mem :: Memory
  ar_regs :: "u16 list"
  ar_flags :: u16

definition saved_regs :: "GPR list" where
  "saved_regs = map GPR_of [0..<NUM_16BIT_REGS + 1]"

definition SimCPU_save :: "'d SoftwareCPU \<Rightarrow> SimCPU_archive" where
  "SimCPU_save c = \<lparr>ar_mem = mem (emulator c), ar_regs = map (read_reg c) saved_regs, ar_flags = read_flags c\<rparr>"

definition SimCPU_load :: "'d SoftwareCPU \<Rightarrow> SimCPU_archive \<Rightarrow> 'd SoftwareCPU" where
  "SimCPU_load c ar =
     (let c = c\<lparr>emulator := (emulator c)\<lparr>mem := ar_mem ar\<rparr>\<rparr>;
          c = foldl (\<lambda>c (r, v). write_reg c r v) c (zip saved_regs (ar_regs ar))
      in write_flags c (ar_flags ar))"

section \<open>What every use of the CPU keeps\<close>

text \<open>
  The table of ports maps an address only to a device that has it: the address is the base of the device plus twice the
  number of one of its ports. The devices rely on it when they decode a port number.
\<close>

definition ports_ok :: "(u16 \<rightharpoonup> 'd IOPorts) \<Rightarrow> bool" where
  "ports_ok t \<longleftrightarrow> (\<forall>a p. t a = Some p \<longrightarrow> (\<exists>m < num_ports p. a = port_base p + of_nat (2 * m)))"

definition emu_ok :: "bool \<Rightarrow> bool \<Rightarrow> 'd emu \<Rightarrow> bool" where
  "emu_ok p te s \<longleftrightarrow> flags_ok (regs s) \<and> pseudo_286 (regs s) = p \<and> trap_escape s = te \<and> ports_ok (io s)"

interpretation ok_inv: emu_invariant "emu_ok p te" for p te
  by unfold_locales (simp_all add: emu_ok_def)

lemma ports_ok_add:
  "ports_ok t \<Longrightarrow> (\<forall>m \<in> set ms. m < num_ports p) \<Longrightarrow>
   ports_ok (foldl (\<lambda>t m. t(port_base p + of_nat (m * 2) \<mapsto> p)) t ms)"
proof (induction ms arbitrary: t)
  case (Cons m ms)
  have "ports_ok (t(port_base p + of_nat (m * 2) \<mapsto> p))"
    using Cons.prems by (auto simp: ports_ok_def mult.commute)
  from Cons.IH [OF this] Cons.prems show ?case by simp
qed simp

text \<open>Everything the rest of the system can do to the CPU.\<close>

inductive cpu_event :: "'d SoftwareCPU \<Rightarrow> 'd SoftwareCPU \<Rightarrow> bool" where
  reg: "cpu_event c (write_reg c r v)"
| flags: "cpu_event c (write_flags c v)"
| step: "cpu_step c = Some (n, c') \<Longrightarrow> cpu_event c c'"
| step_io: "cpu_step_with_io c f = Some (n, c') \<Longrightarrow> cpu_event c c'"
| reset: "cpu_event c (cpu_reset c)"
| clear: "cpu_event c (clear_side_effects c)"
| mem8: "write_mem8 c g a b = Some c' \<Longrightarrow> cpu_event c c'"
| mem16: "write_mem16 c g a w = Some c' \<Longrightarrow> cpu_event c c'"
| mem32: "write_mem32 c g a u = Some c' \<Longrightarrow> cpu_event c c'"
| out8: "cpu_write_io8 c u b = Some c' \<Longrightarrow> cpu_event c c'"
| out16: "cpu_write_io16 c u w = Some c' \<Longrightarrow> cpu_event c c'"
| in8: "cpu_read_io8 c u = Some (b, c') \<Longrightarrow> cpu_event c c'"
| in16: "cpu_read_io16 c u = Some (w, c') \<Longrightarrow> cpu_event c c'"
| port: "cpu_event c (add_ioport c p)"
| inta: "cpu_event c (set_inta_handler c h)"
| nmi: "cpu_event c (cpu_raise_nmi c)"
| irq: "cpu_event c (cpu_raise_irq c i)"
| load: "cpu_event c (SimCPU_load c ar)"

lemma on_emulator_ok:
  "on_emulator f c = Some c' \<Longrightarrow> (\<And>s. emu_ok p te s \<Longrightarrow> pred_option (emu_ok p te) (f s)) \<Longrightarrow>
   emu_ok p te (emulator c) \<Longrightarrow> emu_ok p te (emulator c')"
  by (auto simp: on_emulator_def bind_eq_Some pred_option_iff)

lemma on_emulator_value_ok:
  "on_emulator_value (io_call f) c = Some (v, c') \<Longrightarrow> emu_ok p te (emulator c) \<Longrightarrow> emu_ok p te (emulator c')"
  using ok_inv.inv_io_call [of p te "emulator c" f]
  by (auto simp: on_emulator_value_def bind_eq_Some pred_option_iff)

lemma mem_event_ok:
  "on_emulator (\<lambda>s. mwrite s a v) c = Some c' \<Longrightarrow> emu_ok p te (emulator c) \<Longrightarrow> emu_ok p te (emulator c')"
  by (erule on_emulator_ok) (rule ok_inv.inv_mwrite)

lemma write_reg_ok: "emu_ok p te (emulator c) \<Longrightarrow> emu_ok p te (emulator (write_reg c r v))"
  by (simp add: write_reg_def ok_inv.inv_reg_set)

lemma write_flags_ok: "emu_ok p te (emulator c) \<Longrightarrow> emu_ok p te (emulator (write_flags c v))"
  by (simp add: write_flags_def ok_inv.inv_set_flags)

lemma write_regs_ok:
  "emu_ok p te (emulator c) \<Longrightarrow> emu_ok p te (emulator (foldl (\<lambda>c (r, v). write_reg c r v) c xs))"
  by (induction xs arbitrary: c) (auto intro: write_reg_ok)

lemma control_ok:
  assumes "emu_ok p te (emulator c)"
  shows "emu_ok p te (emulator (cpu_reset c))" "emu_ok p te (emulator (clear_side_effects c))"
    "emu_ok p te (emulator (add_ioport c q))" "emu_ok p te (emulator (set_inta_handler c h))"
    "emu_ok p te (emulator (cpu_raise_nmi c))" "emu_ok p te (emulator (cpu_raise_irq c i))"
    "emu_ok p te (emulator (SimCPU_load c ar))"
proof -
  note ok = assms [unfolded emu_ok_def]
  show "emu_ok p te (emulator (cpu_reset c))"
    using ok by (simp add: cpu_reset_def reset_def emu_ok_def) (simp add: reg_reset_def)
  show "emu_ok p te (emulator (clear_side_effects c))"
    using ok by (simp add: clear_side_effects_def reg_clear_has_written_def emu_ok_def flags_ok_def)
  show "emu_ok p te (emulator (add_ioport c q))" 
    using ok ports_ok_add [of "io (emulator c)" "[0..<num_ports q]" q] by (simp add: add_ioport_def emu_ok_def)
  show "emu_ok p te (emulator (set_inta_handler c h))" using ok by (simp add: set_inta_handler_def emu_ok_def)
  show "emu_ok p te (emulator (cpu_raise_nmi c))" using ok by (simp add: cpu_raise_nmi_def raise_nmi_def emu_ok_def)
  show "emu_ok p te (emulator (cpu_raise_irq c i))" using ok by (simp add: cpu_raise_irq_def raise_irq_def emu_ok_def)
  show "emu_ok p te (emulator (SimCPU_load c ar))"
    unfolding SimCPU_load_def Let_def using assms
    by (intro write_flags_ok write_regs_ok) (simp add: ok_inv.inv_mem)
qed

lemma cpu_steps_ok:
  "cpu_step c = Some (n, c') \<Longrightarrow> emu_ok p te (emulator c) \<Longrightarrow> emu_ok p te (emulator c')"
  "cpu_step_with_io c f = Some (n, c') \<Longrightarrow> emu_ok p te (emulator c) \<Longrightarrow> emu_ok p te (emulator c')"
  using ok_inv.inv_step [of p te "emulator c"] ok_inv.inv_step_with_io [of p te "emulator c"]
  by (auto simp: cpu_step_def cpu_step_with_io_def bind_eq_Some pred_option_iff)

lemma cpu_event_ok: "cpu_event c c' \<Longrightarrow> emu_ok p te (emulator c) \<Longrightarrow> emu_ok p te (emulator c')"
  by (induction rule: cpu_event.induct)
    (auto simp: write_mem8_def write_mem16_def write_mem32_def cpu_write_io8_def cpu_write_io16_def
      cpu_read_io8_def cpu_read_io16_def split: option.splits
      intro: mem_event_ok on_emulator_value_ok write_reg_ok write_flags_ok control_ok cpu_steps_ok)

lemma SoftwareCPU_new_ok: "emu_ok p te (emulator (SoftwareCPU_new p te d w seg dec n))"
  by (simp add: SoftwareCPU_new_def EmulatorPimpl_new_def reset_def emu_ok_def ports_ok_def)
    (simp add: RegisterFile_new_def reg_reset_def)

lemma cpu_reachable_ok:
  "cpu_event\<^sup>*\<^sup>* (SoftwareCPU_new p te d w seg dec n) c \<Longrightarrow> emu_ok p te (emulator c)"
  by (induction rule: rtranclp_induct) (auto intro: SoftwareCPU_new_ok cpu_event_ok)

text \<open>
  C4. Whatever is done to the CPU after its construction (steps, resets, writes of registers, flags, memory and ports,
  interrupts, new ports, a snapshot loaded into it), the bits of the flags register outside the nine flags read
  as the stuck pattern of the build, the build options stay, and every address in the table of ports leads
  to a device that has it, at the base of the device plus twice a port number below its count.
\<close>

theorem cpu_reachable:
  assumes "cpu_event\<^sup>*\<^sup>* (SoftwareCPU_new pseudo286 te d w seg0 dec n) c"
  shows "read_flags c AND NOT valid_mask = FLAGS_STUCK_BITS pseudo286 \<and>
    pseudo_286 (regs (emulator c)) = pseudo286 \<and> trap_escape (emulator c) = te \<and>
    (\<forall>a p. io (emulator c) a = Some p \<longrightarrow> (\<exists>m < num_ports p. a = port_base p + of_nat (2 * m)))"
proof -
  from cpu_reachable_ok [OF assms] have ok: "flags_ok (regs (emulator c))" "pseudo_286 (regs (emulator c)) = pseudo286"
    "trap_escape (emulator c) = te" "ports_ok (io (emulator c))" by (simp_all add: emu_ok_def)
  then have "read_flags c AND NOT valid_mask = FLAGS_STUCK_BITS pseudo286"
    unfolding read_flags_def get_flags_eq [OF ok(1)] by (simp add: flags_ok_def)
  with ok show ?thesis unfolding ports_ok_def by blast
qed

theorem cpu_reachable_witness:
  "read_flags (write_flags (SoftwareCPU_new False False () False DS (ModRMDecoder_new 0 False False) 0) 0xffff)
     AND NOT valid_mask = FLAGS_STUCK_BITS False"
  by (rule cpu_reachable [THEN conjunct1], rule r_into_rtranclp, rule cpu_event.flags)

section \<open>Vectors\<close>

lemma write_vector8_from_list:
  "write_vector8_from c g a k v = map_option (\<lambda>m. c\<lparr>emulator := (emulator c)\<lparr>mem := m\<rparr>\<rparr>)
     (mem8.wr_list (mem (emulator c)) (zip (map (string_addr g (a + k)) [0..<length v]) v))"
proof (induction v arbitrary: c k)
  case (Cons b v)
  have u: "[0..<length (b # v)] = 0 # map Suc [0..<length v]" by (simp add: upt_conv_Cons map_Suc_upt del: upt_Suc)
  have "string_addr g (a + k) (Suc i) = string_addr g (a + (k + 1)) i" for i
    by (simp add: string_addr_def algebra_simps)
  then show ?case unfolding u
    by (simp add: Cons.IH write_mem8_def on_emulator_def mwrite_def comp_def string_addr_0 del: of_nat_Suc upt_Suc)
qed simp

lemma write_vector8_bytes:
  assumes "length v \<le> 65536"
  shows "\<exists>m. write_vector8 c g a v = Some (c\<lparr>emulator := (emulator c)\<lparr>mem := m\<rparr>\<rparr>) \<and>
    (\<forall>i < length v. mem_read8 m (string_addr g a i) = Some (v ! i)) \<and>
    (\<forall>x. (\<forall>i < length v. x \<noteq> string_addr g a i) \<longrightarrow> mem_read8 m x = mem_read8 (mem (emulator c)) x)"
proof -
  let ?xs = "zip (map (string_addr g a) [0..<length v]) v"
  have "list_all (\<lambda>(a, v). unat a < MEMORY_SIZE) ?xs"
    by (auto simp: list_all_iff string_addr_def get_phys_addr_less dest!: set_zip_leftD)
  from mem8.wr_list_ok [OF this] obtain m where m: "mem8.wr_list (mem (emulator c)) ?xs = Some m" by blast
  have d: "distinct (map fst ?xs)"
    using assms by (auto simp: distinct_map inj_on_def dest: string_addr_inj)
  have p: "pairwise (\<lambda>a b. a \<noteq> b \<and> b \<noteq> a) (fst ` set ?xs)" by (auto simp: pairwise_def)
  have w: "write_vector8 c g a v = Some (c\<lparr>emulator := (emulator c)\<lparr>mem := m\<rparr>\<rparr>)"
    using write_vector8_from_list [of c g a 0 v] m by (simp add: write_vector8_def)
  have r: "mem_read8 m (string_addr g a i) = Some (v ! i)" if "i < length v" for i
    using that by (intro mem8.rd_wr_list [OF m p d]) (auto simp: set_zip intro!: exI [of _ i])
  have f: "mem_read8 m x = mem_read8 (mem (emulator c)) x" if "\<forall>i < length v. x \<noteq> string_addr g a i" for x
    using that by (intro mem8.rd_wr_list_frame [OF m]) (fastforce simp: list_all_iff dest: set_zip_leftD)
  from w r f show ?thesis by blast
qed

lemma read_vector8_from_eq:
  "(\<And>m. m \<in> set ms \<Longrightarrow> mem_read8 (mem (emulator c)) (string_addr g a m) = Some (f m)) \<Longrightarrow>
   read_vector8_from c g a ms = Some (map f ms)"
  by (induction ms) (simp_all add: read_mem8_def string_addr_def)

text \<open>
  A vector of at most 65536 bytes always fits: \<open>write_vector8\<close> succeeds at every segment and offset, the offset wrapping
  within the segment and the address within the megabyte; \<open>read_vector8\<close> returns the same bytes, every other byte
  of the memory is as before, and nothing but the memory has changed.
\<close>

theorem vector8_roundtrip:
  assumes "length v \<le> 65536"
  shows "\<exists>c'. write_vector8 c g a v = Some c' \<and> read_vector8 c' g a (length v) = Some v \<and>
    (\<forall>x. (\<forall>i < length v. x \<noteq> get_phys_addr g (ucast (a + of_nat i))) \<longrightarrow>
       mem_read8 (mem (emulator c')) x = mem_read8 (mem (emulator c)) x) \<and>
    c' = c\<lparr>emulator := (emulator c)\<lparr>mem := mem (emulator c')\<rparr>\<rparr>"
proof -
  from write_vector8_bytes [OF assms, of c g a] obtain m where
    m: "write_vector8 c g a v = Some (c\<lparr>emulator := (emulator c)\<lparr>mem := m\<rparr>\<rparr>)"
    "\<forall>i < length v. mem_read8 m (string_addr g a i) = Some (v ! i)"
    "\<forall>x. (\<forall>i < length v. x \<noteq> string_addr g a i) \<longrightarrow> mem_read8 m x = mem_read8 (mem (emulator c)) x" by blast
  let ?c = "c\<lparr>emulator := (emulator c)\<lparr>mem := m\<rparr>\<rparr>"
  have "read_vector8 ?c g a (length v) = Some v"
    using read_vector8_from_eq [of "[0..<length v]" ?c g a "\<lambda>i. v ! i"] m(2) by (simp add: read_vector8_def map_nth)
  with m(1,3) show ?thesis by (intro exI [of _ ?c]) (simp add: string_addr_def)
qed

theorem vector8_roundtrip_witness:
  "\<exists>c'. write_vector8 (SoftwareCPU_new False False () False DS (ModRMDecoder_new 0 False False) 0) 0xffff 0xfffe [1, 2, 3, 4] = Some c' \<and>
     read_vector8 c' 0xffff 0xfffe 4 = Some [1, 2, 3, 4]"
proof -
  have "length [1, 2, 3, 4 :: u8] \<le> 65536" by simp
  from vector8_roundtrip [OF this, of "SoftwareCPU_new False False () False DS (ModRMDecoder_new 0 False False) 0" "0xffff" "0xfffe"]
  have "\<exists>c'. write_vector8 (SoftwareCPU_new False False () False DS (ModRMDecoder_new 0 False False) 0) 0xffff 0xfffe [1, 2, 3, 4] = Some c' \<and>
      read_vector8 c' 0xffff 0xfffe (length [1, 2, 3, 4 :: u8]) = Some [1, 2, 3, 4]" by blast
  then show ?thesis by (simp add: numeral_eq_Suc)
qed

section \<open>Snapshots\<close>

lemma saved_regs_list: "saved_regs = [AX, CX, DX, BX, SP, BP, SI, DI, ES, CS, SS, DS, IP, AL]"
  by (simp add: saved_regs_def NUM_16BIT_REGS_def GPR_of_def GPR_enum_def upt_rec)

lemma write_regs_fold:
  "foldl (\<lambda>c (r, v). write_reg c r v) c xs =
     c\<lparr>emulator := (emulator c)\<lparr>regs := foldl (\<lambda>f (r, v). reg_set f r v) (regs (emulator c)) xs\<rparr>\<rparr>"
  by (induction xs arbitrary: c) (auto simp: write_reg_def)

lemma restore_regs:
  "reg_get (foldl (\<lambda>f (r, v). reg_set f r v) f (zip saved_regs (map (reg_get r) saved_regs))) x = reg_get r x"
  unfolding saved_regs_list
  by (cases x) (auto simp: reg_get_def reg_set_def set_low_def mask_literals bit_simps intro!: bit_word_eqI dest: bit_u16_high)

lemma foldl_reg_set_keeps:
  "flags_ok (foldl (\<lambda>f (r, v). reg_set f r v) f xs) = flags_ok f"
  "pseudo_286 (foldl (\<lambda>f (r, v). reg_set f r v) f xs) = pseudo_286 f"
  by (induction xs arbitrary: f) (simp_all add: split_beta)

text \<open>
  A snapshot restores the CPU: loading what \<open>SimCPU::save\<close> wrote into any CPU of the same build gives every register
  (the byte registers too), the flags and the memory of the saved one, and leaves the rest of the CPU as it was;
  the two need not have anything else in common.
\<close>

lemma SimCPU_save_load:
  assumes "flags_ok (regs (emulator c))" "flags_ok (regs (emulator d))"
    and "pseudo_286 (regs (emulator d)) = pseudo_286 (regs (emulator c))"
    and "d' = SimCPU_load d (SimCPU_save c)"
  shows "read_reg d' x = read_reg c x \<and> read_flags d' = read_flags c \<and> mem (emulator d') = mem (emulator c) \<and>
    io (emulator d') = io (emulator d) \<and> devs (emulator d') = devs (emulator d) \<and>
    pending_irq (emulator d') = pending_irq (emulator d) \<and> num_cycles d' = num_cycles d"
proof -
  let ?f = "foldl (\<lambda>f (r, v). reg_set f r v) (regs (emulator d)) (zip saved_regs (map (read_reg c) saved_regs))"
  note keep = foldl_reg_set_keeps [of "regs (emulator d)" "zip saved_regs (map (read_reg c) saved_regs)"]
  have d': "d' = d\<lparr>emulator := (emulator d)\<lparr>mem := mem (emulator c), regs := set_flags ?f (read_flags c) 0xffff\<rparr>\<rparr>"
    by (simp add: assms(4) SimCPU_load_def SimCPU_save_def Let_def write_regs_fold write_flags_def)
  have "reg_get ?f x = reg_get (regs (emulator c)) x"
    using restore_regs [of "regs (emulator d)" "regs (emulator c)" x] by (simp add: read_reg_def [abs_def])
  moreover have ok: "flags_ok (set_flags ?f (read_flags c) 0xffff)" using keep assms(2) by simp
  have "get_flags (set_flags ?f (read_flags c) 0xffff) = get_flags (regs (emulator c))"
    unfolding get_flags_eq [OF ok] get_flags_eq [OF assms(1)]
  proof (rule bit_word_eqI)
    fix n assume "n < LENGTH(16)"
    then show "bit (rflags (set_flags ?f (read_flags c) 0xffff)) n = bit (rflags (regs (emulator c))) n"
      using ok assms(1,3) keep(2) unfolding flags_ok_bits
      by (cases "n \<in> set flag_positions") (simp_all add: bit_set_flags read_flags_def get_flags_eq [OF assms(1)] mask_literals bit_mask_iff)
  qed
  ultimately show ?thesis by (simp add: d' read_reg_def read_flags_def)
qed

section \<open>Ports\<close>

text \<open>
  The accessors agree with the \<open>IN\<close> and \<open>OUT\<close> instructions at even addresses. At an odd address an instruction calls the
  device with the port number of the even address and offset 1, the accessor with a port number one higher.
\<close>

lemma and_minus_one: "(a :: u32) AND - 1 = a"
  by simp

lemma even_address: "(a :: u32) AND 1 = 0 \<Longrightarrow> a AND NOT 1 = a"
  by (rule bit_word_eqI) (auto simp: bit_simps and_one_eq even_iff_mod_2_eq_zero [symmetric] bit_0)

lemma cpu_io_even:
  assumes "addr AND 1 = 0"
  shows "cpu_read_io8 c addr = on_emulator_value (\<lambda>s. read_io8 s addr) c"
    "cpu_read_io16 c addr = on_emulator_value (\<lambda>s. read_io16 s addr) c"
    "cpu_write_io8 c addr b = on_emulator (\<lambda>s. write_io8 s addr b) c"
    "cpu_write_io16 c addr w = on_emulator (\<lambda>s. write_io16 s addr w) c"
  unfolding cpu_read_io8_def cpu_read_io16_def cpu_write_io8_def cpu_write_io16_def read_io8_def read_io16_def
    write_io8_def write_io16_def on_emulator_value_def on_emulator_def even_address [OF assms] and_minus_one
  by (auto split: option.split Option.bind_splits)

lemma or_and_not_one: "(a AND NOT 1) OR 1 = a OR 1" for a :: u32
  by (rule bit_word_eqI) (auto simp: bit_simps)

lemma ucast_u16_plus_one: "(ucast (a + 1) :: u16) = ucast a + 1" for a :: u32
  by (simp add: word_unat_eq_iff unat_word_ariths unsigned_ucast_eq take_bit_eq_mod mod_mod_cancel mod_simps)

lemma cpu_io_odd:
  assumes "addr AND 1 = 1" "io (emulator c) (ucast (addr AND NOT 1)) = Some p"
  shows "read_io8 (emulator c) addr = io_call (io_read8 p (ucast (addr AND NOT 1) - port_base p) 1) (emulator c)"
    "cpu_read_io8 c addr = on_emulator_value (io_call (io_read8 p (ucast (addr AND NOT 1) - port_base p + 1) 1)) c"
proof -
  have "bit addr 0" using arg_cong [OF assms(1), of "\<lambda>w. bit w 0"] by (simp only: bit_and_iff bit_1_iff) auto
  then have "addr OR 1 = addr" by (intro bit_word_eqI) (auto simp: bit_or_iff bit_1_iff)
  then have "addr = (addr AND NOT 1) + 1"
    using word_plus_and_or [of "addr AND NOT 1" 1] assms(1) or_and_not_one [of addr] by (simp add: and.assoc)
  then have "(ucast addr :: u16) = ucast (addr AND NOT 1) + 1" by (metis ucast_u16_plus_one)
  then show "read_io8 (emulator c) addr = io_call (io_read8 p (ucast (addr AND NOT 1) - port_base p) 1) (emulator c)"
    "cpu_read_io8 c addr = on_emulator_value (io_call (io_read8 p (ucast (addr AND NOT 1) - port_base p + 1) 1)) c"
    using assms by (simp_all add: read_io8_def cpu_read_io8_def diff_add_eq)
qed

end
