(* ===== verification/PIC.thy ===== *)
theory PIC
  imports IOPorts
begin

text \<open>
  The interrupt controller (sim/PIC.h). Its outgoing calls \<open>cpu->raise_irq(n)\<close> are returned as a list of
  numbers. An \<open>assert\<close> that fails, and a shift of \<open>1\<close> by a distance that C++ does not define, make the
  operation \<^term>\<open>None\<close>. \<open>vector_address\<close> has no initial value in the source; the constructor takes it.
\<close>

section \<open>State and operations\<close>

datatype PIC_State = PIC_STATE_IDLE | PIC_STATE_ICW2 | PIC_STATE_ICW4

datatype CommandReadMode = STATE_READ_IRR | STATE_READ_ISR

record PIC =
  pic_state :: PIC_State
  command_read_mode :: CommandReadMode
  vector_address :: u8
  pic_mask :: u8
  isr :: u8
  irr :: u8

definition PIC_new :: "u8 \<Rightarrow> PIC" where
  "PIC_new va = \<lparr>pic_state = PIC_STATE_IDLE, command_read_mode = STATE_READ_IRR, vector_address = va,
     pic_mask = 0, isr = 0, irr = 0\<rparr>"

text \<open>The loop of \<open>raise_irq\<close> over the remaining lines: the line whose number is raised, if any.\<close>

fun raise_loop :: "nat list \<Rightarrow> u8 \<Rightarrow> u8 \<Rightarrow> nat option" where
  "raise_loop [] s r = None"
| "raise_loop (i # is) s r =
     (if push_bit i 1 AND s \<noteq> 0 then None
      else if push_bit i 1 AND r \<noteq> 0 then Some i
      else raise_loop is s r)"

definition PIC_raise_irq :: "PIC \<Rightarrow> nat \<Rightarrow> PIC \<times> int list" where
  "PIC_raise_irq p irq_num =
     (if pic_mask p AND push_bit irq_num 1 \<noteq> 0 then (p, [])
      else
        let p = p\<lparr>irr := irr p OR push_bit irq_num 1\<rparr>
        in case raise_loop [0..<8] (isr p) (irr p) of
             None \<Rightarrow> (p, [])
           | Some i \<Rightarrow> (p, [uint (vector_address p) + int i]))"

definition PIC_inta_handler :: "PIC \<Rightarrow> int \<Rightarrow> PIC option" where
  "PIC_inta_handler p irq_num =
     (let n = irq_num - uint (vector_address p)
      in if n < 0 \<or> 32 \<le> n then None
         else Some (p\<lparr>isr := isr p OR push_bit (nat n) 1, irr := irr p AND NOT (push_bit (nat n) 1)\<rparr>))"

definition is_icw1 :: "u8 \<Rightarrow> bool" where
  "is_icw1 v \<longleftrightarrow> v AND push_bit 4 1 \<noteq> 0"

definition is_ocw2 :: "u8 \<Rightarrow> bool" where
  "is_ocw2 v \<longleftrightarrow> v AND push_bit 3 3 = 0"

definition is_ocw3 :: "u8 \<Rightarrow> bool" where
  "is_ocw3 v \<longleftrightarrow> v AND (0x80 OR push_bit 3 3) = 0x08"

definition icw1 :: "PIC \<Rightarrow> u8 \<Rightarrow> PIC option" where
  "icw1 p v =
     (let p = p\<lparr>pic_state := PIC_STATE_ICW2\<rparr>
      in if v AND 0x0f = 0x3 then Some p else None)"

fun eoi_loop :: "nat list \<Rightarrow> u8 \<Rightarrow> u8" where
  "eoi_loop [] s = s"
| "eoi_loop (i # is) s =
     (if s AND push_bit i 1 \<noteq> 0 then s AND NOT (push_bit i 1) else eoi_loop is s)"

definition ocw2 :: "PIC \<Rightarrow> u8 \<Rightarrow> PIC" where
  "ocw2 p v =
     (if drop_bit 5 v = 1 then p\<lparr>isr := eoi_loop [0..<8] (isr p)\<rparr>
      else if drop_bit 5 v = 3 then p\<lparr>isr := isr p AND NOT (push_bit (unat (v AND 0x7)) 1)\<rparr>
      else p)"

definition ocw3 :: "PIC \<Rightarrow> u8 \<Rightarrow> PIC option" where
  "ocw3 p v =
     (if v AND 0x04 \<noteq> 0 then None
      else if v AND 0x60 \<noteq> 0 then None
      else if v AND 0x3 = 2 then Some (p\<lparr>command_read_mode := STATE_READ_IRR\<rparr>)
      else if v AND 0x3 = 3 then Some (p\<lparr>command_read_mode := STATE_READ_ISR\<rparr>)
      else Some p)"

definition PIC_write_command :: "PIC \<Rightarrow> u8 \<Rightarrow> PIC option" where
  "PIC_write_command p v =
     (if is_icw1 v then icw1 p v
      else if is_ocw2 v then Some (ocw2 p v)
      else if is_ocw3 v then ocw3 p v
      else Some p)"

definition PIC_read_command :: "PIC \<Rightarrow> u8" where
  "PIC_read_command p =
     (if command_read_mode p = STATE_READ_IRR then irr p
      else if command_read_mode p = STATE_READ_ISR then isr p
      else 0)"

definition set_mask :: "PIC \<Rightarrow> u8 \<Rightarrow> PIC" where
  "set_mask p v = p\<lparr>pic_mask := v\<rparr>"

definition PIC_write_data :: "PIC \<Rightarrow> u8 \<Rightarrow> PIC option" where
  "PIC_write_data p v =
     (case pic_state p of
        PIC_STATE_ICW2 \<Rightarrow> Some (p\<lparr>vector_address := v AND 0xf8, pic_state := PIC_STATE_ICW4\<rparr>)
      | PIC_STATE_ICW4 \<Rightarrow> if v = 0x01 then Some (p\<lparr>pic_state := PIC_STATE_IDLE\<rparr>) else None
      | PIC_STATE_IDLE \<Rightarrow> Some (set_mask p v))"

definition PIC_write8 :: "PIC \<Rightarrow> u16 \<Rightarrow> nat \<Rightarrow> u8 \<Rightarrow> PIC option" where
  "PIC_write8 p port_num offs v = (if offs = 0 then PIC_write_command p v else PIC_write_data p v)"

definition PIC_read8 :: "PIC \<Rightarrow> u16 \<Rightarrow> nat \<Rightarrow> u8" where
  "PIC_read8 p port_num offs = (if offs = 0 then PIC_read_command p else pic_mask p)"

section \<open>The controller as sets of lines\<close>

text \<open>
  What a priority interrupt controller promises: sets of requested, in-service and masked lines, where
  the line with the smallest number has the highest priority.
\<close>

record lines =
  requested :: "nat set"
  in_service :: "nat set"
  masked :: "nat set"

definition lines_raise :: "lines \<Rightarrow> nat \<Rightarrow> lines \<times> nat option" where
  "lines_raise l n =
     (if n \<in> masked l then (l, None)
      else let r = insert n (requested l)
           in (l\<lparr>requested := r\<rparr>, if \<forall>j \<in> in_service l. Min r < j then Some (Min r) else None))"

definition lines_ack :: "lines \<Rightarrow> nat \<Rightarrow> lines" where
  "lines_ack l n = l\<lparr>requested := requested l - {n}, in_service := insert n (in_service l)\<rparr>"

definition lines_eoi :: "lines \<Rightarrow> lines" where
  "lines_eoi l = l\<lparr>in_service := in_service l - {Min (in_service l)}\<rparr>"

definition line_set :: "u8 \<Rightarrow> nat set" where
  "line_set w = {i. bit w i}"

definition lines_of :: "PIC \<Rightarrow> lines" where
  "lines_of p = \<lparr>requested = line_set (irr p), in_service = line_set (isr p), masked = line_set (pic_mask p)\<rparr>"

lemma line_set_bound: "line_set w \<subseteq> {..<8}" "finite (line_set w)"
  by (auto simp: line_set_def dest: bit_imp_le_length intro: finite_subset [of _ "{..<8}"])

lemma and_exp_iff: "w AND 2 ^ i = 0 \<longleftrightarrow> \<not> bit w i" "2 ^ i AND w = 0 \<longleftrightarrow> \<not> bit w i" for w :: u8
  by (simp_all add: bit_iff_and_push_bit_not_eq_0 and.commute)

lemma line_set_updates:
  "n < 8 \<Longrightarrow> line_set (w OR 2 ^ n) = insert n (line_set w)"
  "line_set (w AND NOT (2 ^ n)) = line_set w - {n}"
  by (auto simp: line_set_def bit_simps dest: bit_imp_le_length)

lemma raise_loop_find:
  "raise_loop is s r = (case find (\<lambda>i. bit s i \<or> bit r i) is of None \<Rightarrow> None | Some i \<Rightarrow> if bit s i then None else Some i)"
  by (induction "is") (auto simp: and_exp_iff)

lemma eoi_loop_find:
  "eoi_loop is s = (case find (bit s) is of None \<Rightarrow> s | Some i \<Rightarrow> s AND NOT (push_bit i 1))"
  by (induction "is") (auto simp: and_exp_iff)

lemma find_upt:
  "find P [0..<n] = (if \<exists>i < n. P i then Some (LEAST i. P i) else None)"
proof (cases "\<exists>i < n. P i")
  case True
  then obtain i where i: "i < n" "P i" by blast
  have "(LEAST i. P i) < n" using Least_le [of P, OF i(2)] i(1) by simp
  moreover have "P (LEAST i. P i)" using i(2) by (rule LeastI)
  ultimately show ?thesis
    using True by (auto simp: find_Some_iff dest: not_less_Least intro!: exI [of _ "LEAST i. P i"])
qed (auto simp: find_None_iff)

lemma Least_line_set: "line_set w \<noteq> {} \<Longrightarrow> (LEAST i. bit w i) = Min (line_set w)"
  using line_set_bound(2) [of w] by (subst Least_Min) (auto simp: line_set_def)


lemma raise_loop_lines:
  assumes "line_set r \<noteq> {}"
  shows "raise_loop [0..<8] s r =
    (if \<forall>j \<in> line_set s. Min (line_set r) < j then Some (Min (line_set r)) else None)"
proof -
  let ?M = "Min (line_set r)" and ?P = "\<lambda>i. bit s i \<or> bit r i"
  have M: "bit r ?M" "?M < 8" "bit r i \<Longrightarrow> ?M \<le> i" for i
    using Min_in [OF line_set_bound(2) assms] line_set_bound [of r] by (auto simp: line_set_def)
  have f: "find ?P [0..<8] = Some (LEAST i. ?P i)" using M(1,2) by (auto simp: find_upt)
  show ?thesis
  proof (cases "\<forall>j \<in> line_set s. ?M < j")
    case True
    then have "(LEAST i. ?P i) = ?M"
      using M by (intro Least_equality) (auto simp: line_set_def dest: order_less_imp_le)
    then show ?thesis using True f M(1) by (auto simp: raise_loop_find line_set_def)
  next
    case False
    then obtain j where j: "bit s j" "j \<le> ?M" by (auto simp: line_set_def not_less)
    have "?P (LEAST i. ?P i)" by (rule LeastI [of ?P ?M]) (simp add: M(1))
    moreover have "(LEAST i. ?P i) \<le> j" using j(1) by (intro Least_le) simp
    ultimately have "bit s (LEAST i. ?P i)" using M(3) j by (metis dual_order.antisym order_trans)
    then show ?thesis using False f by (simp add: raise_loop_find)
  qed
qed

lemma eoi_loop_lines: "line_set (eoi_loop [0..<8] s) = line_set s - {Min (line_set s)}"
proof (cases "line_set s = {}")
  case True
  then have "\<not> bit s i" for i by (auto simp: line_set_def)
  then show ?thesis using True by (simp add: eoi_loop_find find_upt)
next
  case False
  then have "\<exists>i < 8. bit s i" using line_set_bound(1) [of s] by (auto simp: line_set_def)
  then show ?thesis using False by (simp add: eoi_loop_find find_upt Least_line_set line_set_updates)
qed

lemma raise_lines:
  assumes "n < 8" "PIC_raise_irq p n = (p', raised)"
  shows "lines_of p' = fst (lines_raise (lines_of p) n) \<and>
    raised = (case snd (lines_raise (lines_of p) n) of None \<Rightarrow> [] | Some i \<Rightarrow> [uint (vector_address p) + int i])"
proof (cases "bit (pic_mask p) n")
  case True
  then show ?thesis
    using assms(2) by (auto simp: PIC_raise_irq_def lines_raise_def lines_of_def line_set_def and_exp_iff)
next
  case False
  let ?m = "Min (insert n (line_set (irr p)))"
  let ?c = "\<forall>j \<in> line_set (isr p). ?m < j"
  have u: "line_set (irr p OR 2 ^ n) = insert n (line_set (irr p))" using assms(1) by (rule line_set_updates)
  have rl: "raise_loop [0..<8] (isr p) (irr p OR 2 ^ n) = (if ?c then Some ?m else None)"
    using raise_loop_lines [of "irr p OR 2 ^ n" "isr p"] unfolding u by simp
  have "pic_mask p AND push_bit n 1 = 0" using False by (simp add: and_exp_iff)
  then have p': "p' = p\<lparr>irr := irr p OR 2 ^ n\<rparr>" "raised = (if ?c then [uint (vector_address p) + int ?m] else [])"
    using assms(2) rl by (cases ?c; simp add: PIC_raise_irq_def Let_def del: upt_rec_numeral)+
  have "n \<notin> masked (lines_of p)" using False by (simp add: lines_of_def line_set_def)
  moreover have "lines_of p' = lines_of p\<lparr>requested := insert n (line_set (irr p))\<rparr>"
    by (simp add: p' lines_of_def u)
  ultimately show ?thesis
    unfolding lines_raise_def Let_def p'(2) by (cases ?c) (simp_all add: lines_of_def)
qed

lemma ack_lines:
  "m < 8 \<Longrightarrow> \<exists>p'. PIC_inta_handler p (uint (vector_address p) + int m) = Some p' \<and> lines_of p' = lines_ack (lines_of p) m"
  by (auto simp: PIC_inta_handler_def Let_def lines_of_def lines_ack_def line_set_updates)

lemma not_icw1: "is_ocw2 v \<Longrightarrow> \<not> is_icw1 v"
proof -
  assume "is_ocw2 v"
  then have "bit (v AND push_bit 3 3) 4 = False" by (simp add: is_ocw2_def)
  then have "\<not> bit v 4" by (simp add: bit_and_iff)
  then show ?thesis using and_exp_iff(1) [of v 4] by (simp add: is_icw1_def)
qed



end
