(* ===== verification/Timer.thy ===== *)
theory Timer
  imports IOPorts
begin

text \<open>
  The programmable timer (sim/Timer.h). Its calls \<open>pic->raise_irq(0)\<close> are returned as a list of lines.
  A throw of \<open>BadTimer\<close> is \<^term>\<open>None\<close>.

  The source scales between processor cycles and timer ticks with the \<open>double\<close> constant
  \<open>cycles_per_tick = 50000000 / (65536 * 18.2)\<close>, that is 1953125/46592 = 41.92, and truncates. The exact
  products and quotients are integers or at least 1/1953125 away from one, and a \<open>double\<close> holds these
  magnitudes (below 2^22) with an error under 2^-29 and the integer cases exactly, so the truncated results
  are those of integer division, which is what \<open>times_cycles_per_tick\<close> and \<open>over_cycles_per_tick\<close> compute.
\<close>

section \<open>State and operations\<close>

record TimerTick =
  access :: u8
  operating_mode :: u8
  count :: u32
  latched :: bool
  latched_val :: u16
  access_low :: bool
  reload :: u16
  enabled :: bool

definition TimerTick_new :: TimerTick where
  "TimerTick_new = \<lparr>access = 0, operating_mode = 0, count = 0, latched = False, latched_val = 0,
     access_low = False, reload = 0, enabled = False\<rparr>"

definition times_cycles_per_tick :: "nat \<Rightarrow> nat" where
  "times_cycles_per_tick n = n * 1953125 div 46592"

definition over_cycles_per_tick :: "nat \<Rightarrow> nat" where
  "over_cycles_per_tick n = n * 46592 div 1953125"

text \<open>The conversion to \<open>uint16_t\<close> of a value that does not fit has no defined result.\<close>

definition read_counter :: "TimerTick \<Rightarrow> u16 option" where
  "read_counter t =
     (let q = over_cycles_per_tick (unat (count t)) in if q < 65536 then Some (of_nat q) else None)"

definition do_reload :: "TimerTick \<Rightarrow> TimerTick" where
  "do_reload t =
     t\<lparr>count := of_nat (times_cycles_per_tick (unat (((ucast (reload t) AND 0xffff) - 1) AND 0xffff :: u32)))\<rparr>"

definition write_mode :: "TimerTick \<Rightarrow> u8 \<Rightarrow> TimerTick option" where
  "write_mode t v = do {
     let channel = drop_bit 6 v;
     let acc = drop_bit 4 v AND 0x3;
     let is_bcd = v AND 0x1;
     if channel \<noteq> 0 then Some t else do {
       let t = t\<lparr>access := acc\<rparr>;
       t \<leftarrow> (if access t \<noteq> 0 then do {
               let t = t\<lparr>operating_mode := drop_bit 1 v AND 0x7\<rparr>;
               if operating_mode t = 2 \<or> operating_mode t = 3 then do {
                 let t = t\<lparr>operating_mode := 2\<rparr>;
                 Some (t\<lparr>enabled := False\<rparr>)
               } else None
             } else Some t);
       if is_bcd \<noteq> 0 then None else do {
         let t = t\<lparr>access_low := access t \<noteq> 2\<rparr>;
         if acc = 0 \<and> \<not> latched t then do {
           c \<leftarrow> read_counter t;
           Some (t\<lparr>latched_val := c, latched := True\<rparr>)
         } else Some t
       }
     }
   }"

definition write_reload :: "TimerTick \<Rightarrow> u8 \<Rightarrow> TimerTick" where
  "write_reload t v =
     (if access_low t then
        let t = t\<lparr>reload := reload t AND NOT 0xff\<rparr>;
            t = t\<lparr>reload := reload t OR ucast v\<rparr>
        in t\<lparr>access_low := False\<rparr>
      else
        let t = t\<lparr>reload := reload t AND NOT 0xff00\<rparr>;
            t = t\<lparr>reload := reload t OR push_bit 8 (ucast v)\<rparr>;
            t = t\<lparr>enabled := True\<rparr>
        in do_reload t)"

definition TimerTick_write8 :: "TimerTick \<Rightarrow> u16 \<Rightarrow> nat \<Rightarrow> u8 \<Rightarrow> TimerTick option" where
  "TimerTick_write8 t port_num offs v =
     (if port_num = 2 \<and> offs = 1 then write_mode t v
      else if port_num = 0 \<and> offs = 0 then Some (write_reload t v)
      else Some t)"

definition TimerTick_read8 :: "TimerTick \<Rightarrow> u16 \<Rightarrow> nat \<Rightarrow> (u8 \<times> TimerTick) option" where
  "TimerTick_read8 t port_num offs =
     (if port_num \<noteq> 0 \<and> offs \<noteq> 0 then Some (0, t)
      else do {
        counter_val \<leftarrow> (if latched t then Some (latched_val t) else read_counter t);
        if access_low t then Some (ucast counter_val, t\<lparr>access_low := False\<rparr>)
        else Some (ucast (drop_bit 8 counter_val), t\<lparr>latched := False\<rparr>)
      })"

definition TimerTick_tick :: "TimerTick \<Rightarrow> u32 \<Rightarrow> TimerTick \<times> nat list" where
  "TimerTick_tick t cycles =
     (if \<not> enabled t then (t, [])
      else if count t \<le> cycles then
        (if operating_mode t = 2 then (do_reload t, [0]) else (t, []))
      else (t\<lparr>count := count t - cycles\<rparr>, []))"

section \<open>The invariant\<close>

text \<open>The count stays in the range of the sixteen-bit counter, and the mode is 2 once one was selected.\<close>

definition max_count :: nat where "max_count = times_cycles_per_tick 65535"

definition timer_ok :: "TimerTick \<Rightarrow> bool" where
  "timer_ok t \<longleftrightarrow> unat (count t) \<le> max_count \<and> operating_mode t \<in> {0, 2}"

text \<open>The reload register as a number of cycles; a register of zero counts 65536 ticks.\<close>

definition reload_cycles :: "u16 \<Rightarrow> nat" where
  "reload_cycles r = times_cycles_per_tick (unat (r - 1))"

lemma reload_cycles_le: "reload_cycles r \<le> max_count" "max_count = 2747210"
  using unat_bounds(2) [of "r - 1"]
  by (auto simp: reload_cycles_def max_count_def times_cycles_per_tick_def intro!: div_le_mono)

lemma unat_ucast_reload: "unat (ucast w :: u32) = unat w" for w :: u16
  using unat_bounds(2) [of w] by (simp add: unsigned_ucast_eq take_bit_eq_mod)

lemma reload_minus_one: "((ucast w AND 0xffff) - 1) AND 0xffff = (ucast (w - 1) :: u32)" for w :: u16
proof -
  have m: "(0xffff :: u32) = mask 16" by (simp add: mask_eq_exp_minus_1)
  have "uint (w - 1) = (uint w - 1) mod 65536" by (simp add: uint_word_ariths)
  moreover have "uint w < 65536" "0 \<le> uint w" using uint_bounded [of w] by auto
  ultimately show ?thesis
    unfolding m take_bit_eq_mask [symmetric]
    by (simp add: word_uint_eq_iff unsigned_ucast_eq unsigned_take_bit_eq take_bit_eq_mod uint_word_ariths mod_mod_cancel
        uint_mod_distrib)
qed

lemma count_do_reload: "unat (count (do_reload t)) = reload_cycles (reload t)"
  using reload_cycles_le(1) [of "reload t"]
  by (simp add: do_reload_def reload_minus_one reload_cycles_def unat_of_nat reload_cycles_le(2) unat_ucast_reload)

lemma do_reload_keeps [simp]:
  "reload (do_reload t) = reload t" "enabled (do_reload t) = enabled t" "operating_mode (do_reload t) = operating_mode t"
  by (simp_all add: do_reload_def)

lemma read_counter_ok: "timer_ok t \<Longrightarrow> read_counter t \<noteq> None"
  by (simp add: timer_ok_def reload_cycles_le(2) read_counter_def over_cycles_per_tick_def Let_def
      less_mult_imp_div_less)

lemma timer_ok_do_reload: "timer_ok (do_reload t) \<longleftrightarrow> operating_mode t \<in> {0, 2}"
  by (simp add: timer_ok_def count_do_reload reload_cycles_le(1))

section \<open>Reachable states\<close>

text \<open>Every access of the bus and every tick; the accesses that throw have no successor.\<close>

inductive timer_step :: "TimerTick \<Rightarrow> TimerTick \<Rightarrow> bool" where
  bus_write: "TimerTick_write8 t port offs v = Some t' \<Longrightarrow> timer_step t t'"
| bus_read: "TimerTick_read8 t port offs = Some (v, t') \<Longrightarrow> timer_step t t'"
| elapse: "TimerTick_tick t cycles = (t', irqs) \<Longrightarrow> timer_step t t'"

lemma unat_diff_le: "b < a \<Longrightarrow> unat (a - b) \<le> unat a" for a b :: u32
  by (simp add: unat_sub_if_size word_less_nat_alt)

lemma timer_step_ok: "timer_step t t' \<Longrightarrow> timer_ok t \<Longrightarrow> timer_ok t'"
proof (induction rule: timer_step.induct)
  case (bus_write t port offs v t')
  then show ?case
    by (auto simp: TimerTick_write8_def write_mode_def write_reload_def Let_def bind_eq_Some timer_ok_do_reload
        split: if_splits) (auto simp: timer_ok_def)
next
  case (bus_read t port offs v t')
  then show ?case
    by (auto simp: TimerTick_read8_def bind_eq_Some timer_ok_def split: if_splits)
next
  case (elapse t cycles t' irqs)
  then show ?case
    using unat_diff_le [of cycles "count t"]
    by (auto simp: TimerTick_tick_def timer_ok_do_reload not_le split: if_splits) (auto simp: timer_ok_def)
qed

text \<open>
  C37. In every state that the timer reaches from its construction the count is at most 2747210 cycles, so the
  counter that a read or a latch command returns is defined and fits its sixteen bits, a read succeeds at
  every address, and the mode is 2 or, before any mode was written, 0.
\<close>

theorem timer_reachable:
  assumes "timer_step\<^sup>*\<^sup>* TimerTick_new t"
  shows "unat (count t) \<le> 2747210 \<and> (\<exists>c. read_counter t = Some c) \<and> operating_mode t \<in> {0, 2} \<and>
    (\<exists>v t'. TimerTick_read8 t port offs = Some (v, t'))"
proof -
  have ok: "timer_ok t"
    using assms
  proof (induction rule: rtranclp_induct)
    case base
    show ?case by (simp add: timer_ok_def TimerTick_new_def)
  qed (rule timer_step_ok)
  moreover from read_counter_ok [OF ok] obtain c where "read_counter t = Some c" by blast
  ultimately show ?thesis by (auto simp: timer_ok_def reload_cycles_le TimerTick_read8_def)
qed

theorem timer_reachable_witness:
  "\<exists>t. timer_step\<^sup>*\<^sup>* TimerTick_new t \<and> access_low t \<and> unat (count t) \<le> 2747210"
proof -
  have "timer_step TimerTick_new (TimerTick_new\<lparr>access := 3, operating_mode := 2, access_low := True\<rparr>)"
    by (rule timer_step.bus_write [of _ 2 1 "0x36"])
      (simp add: TimerTick_write8_def write_mode_def TimerTick_new_def Let_def)
  then have "timer_step\<^sup>*\<^sup>* TimerTick_new (TimerTick_new\<lparr>access := 3, operating_mode := 2, access_low := True\<rparr>)" by blast
  from this timer_reachable [OF this] show ?thesis
    by (intro exI [of _ "TimerTick_new\<lparr>access := 3, operating_mode := 2, access_low := True\<rparr>"]) simp
qed

section \<open>The period\<close>

text \<open>A number of ticks of the same length, with the lines they raise.\<close>

fun ticks :: "nat \<Rightarrow> u32 \<Rightarrow> TimerTick \<Rightarrow> TimerTick \<times> nat list" where
  "ticks 0 c t = (t, [])"
| "ticks (Suc n) c t =
     (let (t, irqs) = TimerTick_tick t c; (t, irqs') = ticks n c t in (t, irqs @ irqs'))"

lemma ticks_add: "ticks (m + n) c t = (let (t, a) = ticks m c t; (t, b) = ticks n c t in (t, a @ b))"
  by (induction m arbitrary: t) (simp_all add: Let_def case_prod_beta)

lemma ticks_count_down:
  assumes "enabled t" "unat (count t) = q * unat c + r" "0 < r" "0 < c"
  shows "ticks q c t = (t\<lparr>count := of_nat r\<rparr>, [])"
  using assms
proof (induction q arbitrary: t)
  case 0
  then have "of_nat r = count t" by (metis add_0 mult_0 word_of_nat_eq_iff unat_of_nat word_unat_eq_iff of_nat_unat ucast_id)
  then show ?case by simp
next
  case (Suc q)
  have lt: "c < count t" using Suc.prems(2,3) by (simp add: word_less_nat_alt)
  then have tk: "TimerTick_tick t c = (t\<lparr>count := count t - c\<rparr>, [])"
    using Suc.prems(1) by (simp add: TimerTick_tick_def flip: not_less)
  have "unat (count t - c) = unat (count t) - unat c" by (rule unat_sub [OF order_less_imp_le [OF lt]])
  then have "unat (count (t\<lparr>count := count t - c\<rparr>)) = q * unat c + r" using Suc.prems(2) by simp
  from Suc.IH [OF _ this Suc.prems(3,4)] Suc.prems(1) tk show ?case by simp
qed

lemma ticks_period:
  assumes "enabled t" "operating_mode t = 2" "count t = count (do_reload t)" "0 < c"
    and "period = max 1 ((reload_cycles (reload t) + unat c - 1) div unat c)"
  shows "ticks period c t = (t, [0])"
proof -
  let ?R = "reload_cycles (reload t)" and ?q = "period - 1"
  have R: "unat (count t) = ?R" using assms(3) by (simp add: count_do_reload)
  have same: "do_reload t = t" using assms(3) by (simp add: do_reload_def)
  have c: "0 < unat c" using assms(4) by (simp add: word_less_nat_alt)
  show ?thesis
  proof (cases "?R = 0")
    case True
    then have "count t = 0" using R by (simp add: unat_eq_0)
    moreover have "period = 1" using assms(5) True c by (simp add: div_eq_0_iff)
    ultimately show ?thesis using assms(1,2) same by (simp add: TimerTick_tick_def)
  next
    case False
    let ?r = "?R - ?q * unat c"
    have "?R + unat c - 1 = (?R - 1) + unat c" using False by simp
    then have "(?R + unat c - 1) div unat c = Suc ((?R - 1) div unat c)"
      using c by (simp only: div_add_self2)
    then have p: "period = Suc ?q" "?q = (?R - 1) div unat c" using assms(5) by simp_all
    have le: "?q * unat c \<le> ?R - 1" unfolding p(2) by (rule div_times_less_eq_dividend)
    moreover have "?R - 1 < ?q * unat c + unat c"
      using dividend_less_times_div [OF c, of "?R - 1"] unfolding p(2) by (simp add: mult.commute)
    ultimately have r: "0 < ?r" "?r \<le> unat c" "?R = ?q * unat c + ?r" using False by linarith+
    have "ticks ?q c t = (t\<lparr>count := of_nat ?r\<rparr>, [])"
      using ticks_count_down [OF assms(1), of ?q c ?r] R r assms(4) by simp
    moreover have "(of_nat ?r :: u32) \<le> c"
      using r(2) reload_cycles_le(1) [of "reload t"] reload_cycles_le(2) by (simp add: word_le_nat_alt unat_of_nat)
    then have "TimerTick_tick (t\<lparr>count := of_nat ?r\<rparr>) c = (t, [0])"
      using assms(1,2) same by (simp add: TimerTick_tick_def do_reload_def)
    ultimately show ?thesis using ticks_add [of ?q 1 c t] p(1) by simp
  qed
qed

text \<open>
  C36. A running timer is periodic: from a freshly reloaded state, with ticks of \<open>c\<close> cycles each, line 0 is raised exactly
  once in every period, whose length is the reload value in cycles divided by \<open>c\<close> and rounded up (at least one
  tick), and the timer is then in the same state again.
\<close>

theorem timer_periodic:
  assumes "enabled t" "operating_mode t = 2" "count t = count (do_reload t)" "0 < c"
    and "period = max 1 ((reload_cycles (reload t) + unat c - 1) div unat c)"
  shows "ticks (k * period) c t = (t, replicate k 0)"
  using ticks_period [OF assms]
  by (induction k) (simp_all add: ticks_add add.commute)

theorem timer_periodic_witness:
  "ticks (3 * 210) 2 (do_reload (TimerTick_new\<lparr>operating_mode := 2, reload := 11, enabled := True\<rparr>)) =
     (do_reload (TimerTick_new\<lparr>operating_mode := 2, reload := 11, enabled := True\<rparr>), [0, 0, 0])"
proof -
  let ?t = "do_reload (TimerTick_new\<lparr>operating_mode := 2, reload := 11, enabled := True\<rparr>)"
  have "reload_cycles 11 = 419" by (simp add: reload_cycles_def times_cycles_per_tick_def)
  then show ?thesis
    using timer_periodic [of ?t 2 210 3] by (simp add: do_reload_def numeral_3_eq_3)
qed

end
