(* ===== verification/Fifo.thy ===== *)
theory Fifo
  imports IOPorts
begin

text \<open>
  The bounded queue (sim/Fifo.h) and the interface that it shares with the queues of the UART and of the PS/2
  devices: values come out in the order in which they were put in.
\<close>

section \<open>First in, first out\<close>

locale fifo_queue =
  fixes put :: "'q \<Rightarrow> 'a \<Rightarrow> 'q option"
    and get :: "'q \<Rightarrow> ('a \<times> 'q) option"
    and contents :: "'q \<Rightarrow> 'a list"
  assumes put_contents: "put q x = Some q' \<Longrightarrow> contents q' = contents q @ [x]"
    and get_None: "get q = None \<longleftrightarrow> contents q = []"
    and get_contents: "get q = Some (x, q') \<Longrightarrow> contents q = x # contents q'"
begin

fun put_list :: "'q \<Rightarrow> 'a list \<Rightarrow> 'q option" where
  "put_list q [] = Some q"
| "put_list q (x # xs) = put q x \<bind> (\<lambda>q. put_list q xs)"

fun get_list :: "'q \<Rightarrow> nat \<Rightarrow> ('a list \<times> 'q) option" where
  "get_list q 0 = Some ([], q)"
| "get_list q (Suc n) = do { (x, q) \<leftarrow> get q; (xs, q) \<leftarrow> get_list q n; Some (x # xs, q) }"

lemma put_list_contents: "put_list q xs = Some q' \<Longrightarrow> contents q' = contents q @ xs"
  by (induction xs arbitrary: q) (auto simp: bind_eq_Some dest: put_contents)

lemma get_list_contents:
  "n \<le> length (contents q) \<Longrightarrow> \<exists>q'. get_list q n = Some (take n (contents q), q') \<and> contents q' = drop n (contents q)"
proof (induction n arbitrary: q)
  case (Suc n)
  then obtain x q1 where g: "get q = Some (x, q1)" using get_None [of q] by (cases "get q") auto
  from get_contents [OF g] Suc.prems have "n \<le> length (contents q1)" by simp
  from Suc.IH [OF this] g get_contents [OF g] show ?case by auto
qed simp

text \<open>Everything that was put in comes out, in order, and nothing else.\<close>

lemma fifo_order:
  assumes "put_list q xs = Some q'"
  shows "\<exists>q''. get_list q' (length (contents q) + length xs) = Some (contents q @ xs, q'') \<and> contents q'' = [] \<and> get q'' = None"
proof -
  have c: "contents q' = contents q @ xs" by (rule put_list_contents [OF assms])
  from get_list_contents [of "length (contents q) + length xs" q'] c get_None show ?thesis by auto
qed

end

section \<open>Fifo\<close>

text \<open>\<open>overflow_error\<close> and \<open>underflow_error\<close> are the two ways an operation fails.\<close>

datatype FifoError = overflow_error | underflow_error

record 'a Fifo =
  max_depth :: u32
  entries :: "'a list"

definition Fifo_new :: "u32 \<Rightarrow> 'a Fifo" where
  "Fifo_new d = \<lparr>max_depth = d, entries = []\<rparr>"

definition Fifo_is_full :: "'a Fifo \<Rightarrow> bool" where
  "Fifo_is_full f \<longleftrightarrow> length (entries f) = unat (max_depth f)"

definition Fifo_pop :: "'a Fifo \<Rightarrow> FifoError + 'a \<times> 'a Fifo" where
  "Fifo_pop f =
     (if length (entries f) = 0 then Inl underflow_error
      else let e = hd (entries f) in Inr (e, f\<lparr>entries := tl (entries f)\<rparr>))"

definition Fifo_push :: "'a Fifo \<Rightarrow> 'a \<Rightarrow> FifoError + 'a Fifo" where
  "Fifo_push f e = (if Fifo_is_full f then Inl overflow_error else Inr (f\<lparr>entries := entries f @ [e]\<rparr>))"

definition result_of :: "'e + 'a \<Rightarrow> 'a option" where
  "result_of r = (case r of Inl _ \<Rightarrow> None | Inr v \<Rightarrow> Some v)"

interpretation fifo: fifo_queue "\<lambda>f e. result_of (Fifo_push f e)" "\<lambda>f. result_of (Fifo_pop f)" entries
  by unfold_locales
    (auto simp: result_of_def Fifo_push_def Fifo_pop_def Let_def split: if_splits)

lemma result_of_Some [simp]: "result_of r = Some v \<longleftrightarrow> r = Inr v" "result_of r = None \<longleftrightarrow> (\<exists>e. r = Inl e)"
  by (auto simp: result_of_def split: sum.splits)

inductive fifo_step :: "'a Fifo \<Rightarrow> 'a Fifo \<Rightarrow> bool" where
  "Fifo_push f e = Inr f' \<Longrightarrow> fifo_step f f'"
| "Fifo_pop f = Inr (e, f') \<Longrightarrow> fifo_step f f'"

text \<open>
  The bounded queue: in every sequence of pushes and pops from an empty queue of depth \<open>d\<close> that raises no
  error the number of entries stays at most \<open>d\<close>; a push then fails exactly when there are \<open>d\<close> of them and a
  pop exactly when there is none, and pushing a list and popping as many values returns the old
  entries followed by the list, in order, and leaves the queue empty.
\<close>

theorem fifo_bounded:
  assumes "fifo_step\<^sup>*\<^sup>* (Fifo_new d) f"
  shows "length (entries f) \<le> unat d \<and>
    (Fifo_push f e = Inl overflow_error \<longleftrightarrow> length (entries f) = unat d) \<and>
    (Fifo_pop f = Inl underflow_error \<longleftrightarrow> entries f = []) \<and>
    (fifo.put_list f xs = Some f' \<longrightarrow> length (entries f') \<le> unat d \<and>
      (\<exists>f''. fifo.get_list f' (length (entries f) + length xs) = Some (entries f @ xs, f'') \<and> entries f'' = []))"
proof -
  have step: "length (entries g) \<le> unat d \<and> max_depth g = d" if "fifo_step\<^sup>*\<^sup>* (Fifo_new d) g" for g :: "'a Fifo"
    using that
    by (induction rule: rtranclp_induct)
      (auto simp: Fifo_new_def Fifo_push_def Fifo_pop_def Fifo_is_full_def Let_def elim!: fifo_step.cases split: if_splits)
  have puts: "fifo_step\<^sup>*\<^sup>* g f'" if "fifo.put_list g xs = Some f'" for g
    using that
  proof (induction xs arbitrary: g)
    case (Cons x xs)
    then obtain h where h: "Fifo_push g x = Inr h" "fifo.put_list h xs = Some f'"
      by (auto simp: bind_eq_Some)
    from fifo_step.intros(1) [OF h(1)] Cons.IH [OF h(2)] show ?case by (rule converse_rtranclp_into_rtranclp)
  qed simp
  have full: "Fifo_push f e = Inl overflow_error \<longleftrightarrow> length (entries f) = unat d"
    and under: "Fifo_pop f = Inl underflow_error \<longleftrightarrow> entries f = []"
    using step [OF assms] by (auto simp: Fifo_push_def Fifo_pop_def Fifo_is_full_def Let_def)
  have "fifo.put_list f xs = Some f' \<Longrightarrow> length (entries f') \<le> unat d"
    using step [of f'] rtranclp_trans [OF assms puts] by blast
  with full under step [OF assms] fifo.fifo_order [of f xs f'] show ?thesis by blast
qed

theorem fifo_bounded_witness:
  "Fifo_push (Fifo_new 2\<lparr>entries := [5, 6 :: nat]\<rparr>) 7 = Inl overflow_error"
proof -
  have "fifo_step (Fifo_new 2) (Fifo_new 2\<lparr>entries := [5 :: nat]\<rparr>)"
    "fifo_step (Fifo_new 2\<lparr>entries := [5 :: nat]\<rparr>) (Fifo_new 2\<lparr>entries := [5, 6]\<rparr>)"
    by (auto intro!: fifo_step.intros(1) simp: Fifo_push_def Fifo_is_full_def Fifo_new_def)
  then have "fifo_step\<^sup>*\<^sup>* (Fifo_new 2) (Fifo_new 2\<lparr>entries := [5, 6 :: nat]\<rparr>)" by (meson r_into_rtranclp rtranclp_trans)
  from fifo_bounded [OF this, of 7] show ?thesis by simp
qed

end
