(* ===== verification/UART.thy ===== *)
theory UART
  imports Fifo
begin

text \<open>
  The serial port (sim/UART.h, sim/UART.cpp). What it prints with \<open>std::cout\<close> is collected in \<open>tty_out\<close>; the
  terminal settings (\<open>RawTTY\<close>) are not modelled. \<open>read16\<close> combines its two reads with one \<open>|\<close>, whose operands
  C++ may evaluate in either order; here the data byte is read first.
\<close>

section \<open>State and operations\<close>

record UART =
  charbuf :: "u8 list"
  tty_out :: "u8 list"

definition UART_new :: UART where
  "UART_new = \<lparr>charbuf = [], tty_out = []\<rparr>"

definition UART_write8 :: "UART \<Rightarrow> u16 \<Rightarrow> nat \<Rightarrow> u8 \<Rightarrow> UART" where
  "UART_write8 u port_num offs v = (if offs = 0 then u\<lparr>tty_out := tty_out u @ [v]\<rparr> else u)"

definition UART_write16 :: "UART \<Rightarrow> u16 \<Rightarrow> u16 \<Rightarrow> UART" where
  "UART_write16 u port_num v =
     (let u = UART_write8 u port_num 0 (ucast v) in UART_write8 u port_num 1 (ucast (drop_bit 8 v)))"

definition UART_read8 :: "UART \<Rightarrow> u16 \<Rightarrow> nat \<Rightarrow> u8 \<times> UART" where
  "UART_read8 u port_num offs =
     (if offs = 0 then
        if length (charbuf u) = 0 then (0, u)
        else let v = charbuf u ! 0 in (v, u\<lparr>charbuf := tl (charbuf u)\<rparr>)
      else (of_bool (length (charbuf u) \<noteq> 0), u))"

definition UART_read16 :: "UART \<Rightarrow> u16 \<Rightarrow> u16 \<times> UART" where
  "UART_read16 u port_num =
     (let (lo, u) = UART_read8 u 0 0; (hi, u) = UART_read8 u 0 1 in (ucast lo OR push_bit 8 (ucast hi), u))"

definition UART_add_char :: "UART \<Rightarrow> int \<Rightarrow> UART" where
  "UART_add_char u c = u\<lparr>charbuf := charbuf u @ [word_of_int c]\<rparr>"

section \<open>The receive queue\<close>

text \<open>A driver polls the status byte and reads the data byte when it is not zero.\<close>

definition uart_put :: "UART \<Rightarrow> u8 \<Rightarrow> UART option" where
  "uart_put u b = Some (UART_add_char u (uint b))"

definition uart_poll :: "UART \<Rightarrow> (u8 \<times> UART) option" where
  "uart_poll u = (let (status, u) = UART_read8 u 0 1 in if status \<noteq> 0 then Some (UART_read8 u 0 0) else None)"

interpretation uart: fifo_queue uart_put uart_poll charbuf
proof
  fix q q' :: UART and x
  show "uart_put q x = Some q' \<Longrightarrow> charbuf q' = charbuf q @ [x]"
    by (auto simp: uart_put_def UART_add_char_def)
  show "(uart_poll q = None) = (charbuf q = [])"
    by (simp add: uart_poll_def UART_read8_def)
  show "uart_poll q = Some (x, q') \<Longrightarrow> charbuf q = x # charbuf q'"
    by (cases "charbuf q") (auto simp: uart_poll_def UART_read8_def split: if_splits)
qed

lemma uart_put_list: "uart.put_list u bs = Some (u\<lparr>charbuf := charbuf u @ bs\<rparr>)"
  by (induction bs arbitrary: u) (simp_all add: uart_put_def UART_add_char_def)

text \<open>
  The serial port delivers what was typed: after the characters \<open>bs\<close> arrive, polling (status byte, then data
  byte) as often as there are characters returns the ones that were waiting and then \<open>bs\<close>, in order, and the
  next poll finds the status zero. Bytes written to the data port are printed in order, also by a
  word write, whose upper half goes to the status port and is not printed.
\<close>

theorem uart_delivers:
  "(\<exists>u'. uart.put_list u bs \<bind> (\<lambda>u. uart.get_list u (length (charbuf u))) = Some (charbuf u @ bs, u') \<and> uart_poll u' = None) \<and>
   tty_out (UART_write16 (UART_write8 u p 0 a) p v) = tty_out u @ [a, ucast v]"
proof -
  have "uart.put_list u bs = Some (u\<lparr>charbuf := charbuf u @ bs\<rparr>)" by (rule uart_put_list)
  from uart.fifo_order [OF this] this show ?thesis
    by (auto simp: UART_write16_def UART_write8_def)
qed

end
