(* ===== verification/PS2.thy ===== *)
theory PS2
  imports Fifo
begin

text \<open>
  The PS/2 port (sim/PS2.h) and its two devices, the keyboard (sim/Keyboard.h) and the mouse (sim/Mouse.h).
  The calls \<open>pic->raise_irq(irq_num)\<close> are returned as a list of lines, in order. The key codes and event kinds of
  SDL are identified by the names the sources use for them, so two names stand for different values. Calls that
  only change SDL's own state (mouse capture) have no effect here.
\<close>

section \<open>PS2\<close>

definition ps2_ctrl_clear :: u8 where "ps2_ctrl_clear = push_bit 7 1"

record PS2 =
  ps2_irq_num :: nat
  pending :: "u8 list"

definition PS2_new :: "nat \<Rightarrow> PS2" where
  "PS2_new n = \<lparr>ps2_irq_num = n, pending = []\<rparr>"

definition PS2_write8 :: "PS2 \<Rightarrow> u16 \<Rightarrow> nat \<Rightarrow> u8 \<Rightarrow> PS2" where
  "PS2_write8 d port_num offs v =
     (if offs = 1 \<and> v AND ps2_ctrl_clear \<noteq> 0
      then (if length (pending d) \<noteq> 0 then d\<lparr>pending := []\<rparr> else d)
      else d)"

text \<open>\<open>read_pops\<close> is virtual: the argument is what the device's class returns.\<close>

definition PS2_read8 :: "bool \<Rightarrow> PS2 \<Rightarrow> u16 \<Rightarrow> nat \<Rightarrow> u8 \<times> PS2" where
  "PS2_read8 read_pops d port_num offs =
     (if offs \<noteq> 0 then (if length (pending d) \<noteq> 0 then push_bit 4 1 else 0, d)
      else if length (pending d) \<noteq> 0 then
        let v = hd (pending d)
        in (v, if read_pops then d\<lparr>pending := tl (pending d)\<rparr> else d)
      else (0, d))"

definition PS2_add_byte :: "PS2 \<Rightarrow> u8 \<Rightarrow> PS2 \<times> nat list" where
  "PS2_add_byte d v = (d\<lparr>pending := pending d @ [v]\<rparr>, [ps2_irq_num d])"

definition num_pending_bytes :: "PS2 \<Rightarrow> nat" where
  "num_pending_bytes d = length (pending d)"

fun add_bytes :: "PS2 \<Rightarrow> u8 list \<Rightarrow> PS2 \<times> nat list" where
  "add_bytes d [] = (d, [])"
| "add_bytes d (b # bs) = (let (d, l) = PS2_add_byte d b; (d, l') = add_bytes d bs in (d, l @ l'))"

lemma add_bytes_eq: "add_bytes d bs = (d\<lparr>pending := pending d @ bs\<rparr>, replicate (length bs) (ps2_irq_num d))"
  by (induction bs arbitrary: d) (simp_all add: PS2_add_byte_def)

section \<open>Keyboard\<close>

type_synonym SDL_Keycode = string

datatype SDL_EventType = SDL_QUIT | SDL_KEYDOWN | SDL_KEYUP | SDL_MOUSEBUTTONDOWN | SDL_MOUSEBUTTONUP | SDL_OTHER

definition sdl_to_keyboard :: "(SDL_Keycode \<times> u8 list) list" where
  "sdl_to_keyboard = [
     (''SDLK_a'', [0x1e]),
     (''SDLK_b'', [0x30]),
     (''SDLK_c'', [0x2e]),
     (''SDLK_d'', [0x20]),
     (''SDLK_e'', [0x12]),
     (''SDLK_f'', [0x21]),
     (''SDLK_g'', [0x22]),
     (''SDLK_h'', [0x23]),
     (''SDLK_i'', [0x17]),
     (''SDLK_j'', [0x24]),
     (''SDLK_k'', [0x25]),
     (''SDLK_l'', [0x26]),
     (''SDLK_m'', [0x32]),
     (''SDLK_n'', [0x31]),
     (''SDLK_o'', [0x18]),
     (''SDLK_p'', [0x19]),
     (''SDLK_q'', [0x10]),
     (''SDLK_r'', [0x13]),
     (''SDLK_s'', [0x1f]),
     (''SDLK_t'', [0x14]),
     (''SDLK_u'', [0x16]),
     (''SDLK_v'', [0x2f]),
     (''SDLK_w'', [0x11]),
     (''SDLK_x'', [0x2d]),
     (''SDLK_y'', [0x15]),
     (''SDLK_z'', [0x2c]),
     (''SDLK_1'', [0x02]),
     (''SDLK_2'', [0x03]),
     (''SDLK_3'', [0x04]),
     (''SDLK_4'', [0x05]),
     (''SDLK_5'', [0x06]),
     (''SDLK_6'', [0x07]),
     (''SDLK_7'', [0x08]),
     (''SDLK_8'', [0x09]),
     (''SDLK_9'', [0x0a]),
     (''SDLK_0'', [0x0b]),
     (''SDLK_MINUS'', [0x0c]),
     (''SDLK_EQUALS'', [0x0d]),
     (''SDLK_LEFTBRACKET'', [0x1a]),
     (''SDLK_RIGHTBRACKET'', [0x1b]),
     (''SDLK_SEMICOLON'', [0x27]),
     (''SDLK_QUOTE'', [0x28]),
     (''SDLK_BACKQUOTE'', [0x20]),
     (''SDLK_BACKSLASH'', [0x2b]),
     (''SDLK_COMMA'', [0x33]),
     (''SDLK_PERIOD'', [0x34]),
     (''SDLK_SLASH'', [0x35]),
     (''SDLK_F1'', [0x3b]),
     (''SDLK_F2'', [0x3c]),
     (''SDLK_F3'', [0x3d]),
     (''SDLK_F4'', [0x3e]),
     (''SDLK_F5'', [0x3f]),
     (''SDLK_F6'', [0x40]),
     (''SDLK_F7'', [0x41]),
     (''SDLK_F8'', [0x42]),
     (''SDLK_F9'', [0x43]),
     (''SDLK_F10'', [0x44]),
     (''SDLK_F11'', [0x85]),
     (''SDLK_F12'', [0x86]),
     (''SDLK_BACKSPACE'', [0x0e]),
     (''SDLK_DELETE'', [0xe0, 0x53]),
     (''SDLK_DOWN'', [0xe0, 0x50]),
     (''SDLK_END'', [0xe0, 0x4f]),
     (''SDLK_RETURN'', [0x1c]),
     (''SDLK_ESCAPE'', [0x01]),
     (''SDLK_HOME'', [0xe0, 0x47]),
     (''SDLK_INSERT'', [0xe0, 0x52]),
     (''SDLK_LEFT'', [0xe0, 0x4b]),
     (''SDLK_PAGEDOWN'', [0xe0, 0x51]),
     (''SDLK_PAGEUP'', [0xe0, 0x49]),
     (''SDLK_PRINTSCREEN'', [0xe0, 0x12, 0xe0, 0x7c]),
     (''SDLK_RIGHT'', [0xe0, 0x4d]),
     (''SDLK_SPACE'', [0x39]),
     (''SDLK_TAB'', [0x0f]),
     (''SDLK_UP'', [0xe0, 0x48]),
     (''SDLK_LCTRL'', [0x1d]),
     (''SDLK_LALT'', [0x38]),
     (''SDLK_LSHIFT'', [0x2a])]"

definition Keyboard_new :: "PS2 \<times> nat list" where
  "Keyboard_new = PS2_add_byte (PS2_new 1) 0xaa"

fun key_bytes :: "PS2 \<Rightarrow> SDL_EventType \<Rightarrow> u8 list \<Rightarrow> PS2 \<times> nat list" where
  "key_bytes d ty [] = (d, [])"
| "key_bytes d ty (b # bs) =
     (if b = 0xe0 then key_bytes d ty bs
      else let (d, l) = PS2_add_byte d (if ty = SDL_KEYUP then 0x80 OR b else b);
               (d, l') = key_bytes d ty bs
           in (d, l @ l'))"

definition Keyboard_process_event :: "PS2 \<Rightarrow> SDL_EventType \<Rightarrow> SDL_Keycode \<Rightarrow> PS2 \<times> nat list" where
  "Keyboard_process_event d ty keysym =
     (case map_of sdl_to_keyboard keysym of None \<Rightarrow> (d, []) | Some bs \<Rightarrow> key_bytes d ty bs)"

section \<open>Mouse\<close>

datatype MouseButton = SDL_BUTTON_LEFT | SDL_BUTTON_RIGHT | SDL_BUTTON_OTHER

record Mouse =
  mouse_ps2 :: PS2
  last_x :: int
  last_y :: int
  capture_enabled :: bool
  left_down :: bool
  right_down :: bool
  active :: bool

definition Mouse_new :: Mouse where
  "Mouse_new = \<lparr>mouse_ps2 = PS2_new 7, last_x = 0, last_y = 0, capture_enabled = True, left_down = False,
     right_down = False, active = False\<rparr>"

definition Mouse_add_byte :: "Mouse \<Rightarrow> u8 \<Rightarrow> Mouse \<times> nat list" where
  "Mouse_add_byte m v = (let (d, l) = PS2_add_byte (mouse_ps2 m) v in (m\<lparr>mouse_ps2 := d\<rparr>, l))"

definition Mouse_read8 :: "Mouse \<Rightarrow> u16 \<Rightarrow> nat \<Rightarrow> u8 \<times> Mouse" where
  "Mouse_read8 m port_num offs =
     (let (v, d) = PS2_read8 True (mouse_ps2 m) port_num offs in (v, m\<lparr>mouse_ps2 := d\<rparr>))"

definition Mouse_write8 :: "Mouse \<Rightarrow> u16 \<Rightarrow> nat \<Rightarrow> u8 \<Rightarrow> Mouse \<times> nat list" where
  "Mouse_write8 m port_num offs v =
     (let (m, l) =
        (if port_num = 0 \<and> offs = 0 then
           let (m, l) = Mouse_add_byte m 0xfa;
               (m, l) = (if v = 0xff then
                           let (m, l1) = Mouse_add_byte m 0xaa; (m, l2) = Mouse_add_byte m 0x55
                           in (m, l @ l1 @ l2)
                         else (m, l))
           in (if v = 0xf4 then m\<lparr>active := True\<rparr> else m, l)
         else (m, []))
      in (m\<lparr>mouse_ps2 := PS2_write8 (mouse_ps2 m) port_num offs v\<rparr>, l))"

definition toggle_capture :: "Mouse \<Rightarrow> Mouse" where
  "toggle_capture m = m\<lparr>capture_enabled := \<not> capture_enabled m\<rparr>"

text \<open>\<open>SDL_GetMouseState\<close> yields the arguments \<open>mouse_x\<close> and \<open>mouse_y\<close>.\<close>

definition poll_movement :: "Mouse \<Rightarrow> int \<Rightarrow> int \<Rightarrow> Mouse \<times> nat list" where
  "poll_movement m mouse_x mouse_y =
     (if mouse_x = last_x m \<and> mouse_y = last_y m then (m, [])
      else if \<not> active m then (m, [])
      else
        let x_delta = mouse_x - last_x m;
            y_delta = - (mouse_y - last_y m);
            b = 0x08;
            b = (if x_delta < 0 then b OR push_bit 4 1 else b);
            b = (if y_delta < 0 then b OR push_bit 5 1 else b);
            (m, l1) = Mouse_add_byte m b;
            (m, l2) = Mouse_add_byte m (word_of_int x_delta);
            (m, l3) = Mouse_add_byte m (word_of_int y_delta)
        in (m\<lparr>last_x := mouse_x, last_y := mouse_y\<rparr>, l1 @ l2 @ l3))"

definition Mouse_update :: "Mouse \<Rightarrow> int \<Rightarrow> int \<Rightarrow> Mouse \<times> nat list" where
  "Mouse_update m mouse_x mouse_y =
     (if num_pending_bytes (mouse_ps2 m) \<ge> 5 then (m, []) else poll_movement m mouse_x mouse_y)"

definition Mouse_process_event :: "Mouse \<Rightarrow> SDL_EventType \<Rightarrow> MouseButton \<Rightarrow> Mouse \<times> nat list" where
  "Mouse_process_event m ty button =
     (let v = 0x08 in
      if \<not> active m then (m, [])
      else
        let m = (if ty = SDL_MOUSEBUTTONDOWN \<and> button = SDL_BUTTON_LEFT then m\<lparr>left_down := True\<rparr>
                 else if ty = SDL_MOUSEBUTTONDOWN \<and> button = SDL_BUTTON_RIGHT then m\<lparr>right_down := True\<rparr>
                 else if ty = SDL_MOUSEBUTTONUP \<and> button = SDL_BUTTON_LEFT then m\<lparr>left_down := False\<rparr>
                 else if ty = SDL_MOUSEBUTTONUP \<and> button = SDL_BUTTON_RIGHT then m\<lparr>right_down := False\<rparr>
                 else m);
            v = (if left_down m then v OR push_bit 0 1 else v);
            v = (if right_down m then v OR push_bit 1 1 else v)
        in if num_pending_bytes (mouse_ps2 m) \<ge> 5 then (m, [])
           else
             let (m, l1) = Mouse_add_byte m v;
                 (m, l2) = Mouse_add_byte m 0;
                 (m, l3) = Mouse_add_byte m 0
             in (m, l1 @ l2 @ l3))"

section \<open>The queues\<close>

text \<open>A driver of the mouse reads the status byte and, when it is not zero, the data byte, which pops it.\<close>

definition mouse_put :: "Mouse \<Rightarrow> u8 \<Rightarrow> Mouse option" where
  "mouse_put m b = Some (fst (Mouse_add_byte m b))"

definition mouse_poll :: "Mouse \<Rightarrow> (u8 \<times> Mouse) option" where
  "mouse_poll m = (let (status, m) = Mouse_read8 m 0 1 in if status \<noteq> 0 then Some (Mouse_read8 m 0 0) else None)"

interpretation mouse: fifo_queue mouse_put mouse_poll "\<lambda>m. pending (mouse_ps2 m)"
proof
  fix q q' :: Mouse and x
  show "mouse_put q x = Some q' \<Longrightarrow> pending (mouse_ps2 q') = pending (mouse_ps2 q) @ [x]"
    by (auto simp: mouse_put_def Mouse_add_byte_def PS2_add_byte_def)
  show "(mouse_poll q = None) = (pending (mouse_ps2 q) = [])"
    by (simp add: mouse_poll_def Mouse_read8_def PS2_read8_def)
  show "mouse_poll q = Some (x, q') \<Longrightarrow> pending (mouse_ps2 q) = x # pending (mouse_ps2 q')"
    by (cases "pending (mouse_ps2 q)") (auto simp: mouse_poll_def Mouse_read8_def PS2_read8_def split: if_splits)
qed

section \<open>Scan codes\<close>

text \<open>The bytes of a key without the escape byte, and the codes that a release sends.\<close>

definition make_codes :: "SDL_Keycode \<Rightarrow> u8 list" where
  "make_codes k = (case map_of sdl_to_keyboard k of None \<Rightarrow> [] | Some bs \<Rightarrow> filter (\<lambda>b. b \<noteq> 0xe0) bs)"

lemma key_bytes_eq:
  "key_bytes d ty bs = add_bytes d (map (\<lambda>b. if ty = SDL_KEYUP then 0x80 OR b else b) (filter (\<lambda>b. b \<noteq> 0xe0) bs))"
  by (induction bs arbitrary: d) (simp_all add: Let_def)

lemma process_event_eq:
  "Keyboard_process_event d ty k = add_bytes d (map (\<lambda>b. if ty = SDL_KEYUP then 0x80 OR b else b) (make_codes k))"
  by (simp add: Keyboard_process_event_def make_codes_def key_bytes_eq split: option.splits)

lemma make_codes_low:
  "list_all (\<lambda>(k, bs). k \<in> {''SDLK_F11'', ''SDLK_F12''} \<or> list_all (\<lambda>b. b AND 0x80 = 0) (filter (\<lambda>b. b \<noteq> 0xe0) bs)) sdl_to_keyboard"
  by (simp add: sdl_to_keyboard_def)

lemma make_codes_F11_F12: "make_codes ''SDLK_F11'' = [0x85]" "make_codes ''SDLK_F12'' = [0x86]"
  by (simp_all add: make_codes_def sdl_to_keyboard_def)

text \<open>
  The keyboard sends for each key of its table its make codes on a press and the same codes with bit 7 set on a
  release, raising line 1 for each byte, and nothing for any other key. For every key but F11 and F12 the
  make codes have bit 7 clear, so a release is told from a press; the codes of those two have it set, and
  their release sends the same bytes as their press.
\<close>

theorem keyboard_make_break:
  "Keyboard_process_event d SDL_KEYDOWN k = add_bytes d (make_codes k) \<and>
   Keyboard_process_event d SDL_KEYUP k = add_bytes d (map (\<lambda>b. 0x80 OR b) (make_codes k)) \<and>
   (if k \<in> {''SDLK_F11'', ''SDLK_F12''} then map (\<lambda>b. 0x80 OR b) (make_codes k) = make_codes k
    else list_all (\<lambda>b. b AND 0x80 = 0) (make_codes k))"
proof -
  have "list_all (\<lambda>b. b AND 0x80 = 0) (make_codes k)" if "k \<notin> {''SDLK_F11'', ''SDLK_F12''}"
  proof (cases "map_of sdl_to_keyboard k")
    case (Some bs)
    from map_of_SomeD [OF this] make_codes_low that show ?thesis
      unfolding make_codes_def Some list_all_iff by fastforce
  qed (simp add: make_codes_def)
  then show ?thesis by (auto simp: process_event_eq make_codes_F11_F12)
qed

section \<open>Mouse packets\<close>

text \<open>A driver's reading of a packet: two nine-bit numbers whose sign bits are in the first byte.\<close>

definition decode_packet :: "u8 list \<Rightarrow> int \<times> int" where
  "decode_packet p = (uint (p ! 1) - (if bit (p ! 0) 4 then 256 else 0), uint (p ! 2) - (if bit (p ! 0) 5 then 256 else 0))"

lemma nine_bit: "- 256 \<le> d \<Longrightarrow> d < 256 \<Longrightarrow> uint (word_of_int d :: u8) - (if d < 0 then 256 else 0) = d"
proof -
  assume d: "- 256 \<le> d" "d < 256"
  have "uint (word_of_int d :: u8) = d mod 256" by (simp add: uint_word_of_int)
  moreover have "d mod 256 = (if d < 0 then d + 256 else d)"
    using d mod_pos_pos_trivial [of "d + 256" 256] mod_pos_pos_trivial [of d 256] by auto
  ultimately show ?thesis by simp
qed

text \<open>
  C39. An active mouse reports a movement: when fewer than five bytes wait, \<open>update\<close> queues one packet of three bytes
  and raises line 7 for each; a driver that polls it after the waiting bytes decodes the movement to the
  right and upward since the last report, as long as neither exceeds the nine bits of the format, and
  the position reported is remembered, so that a second update without movement queues nothing.
\<close>

theorem mouse_reports_movement:
  assumes "active m" "length (pending (mouse_ps2 m)) < 5" "(x, y) \<noteq> (last_x m, last_y m)"
    and "x - last_x m \<in> {- 256..255}" "last_y m - y \<in> {- 256..255}" "ps2_irq_num (mouse_ps2 m) = 7"
  shows "\<exists>p m' m''. Mouse_update m x y = (m', [7, 7, 7]) \<and>
    mouse.get_list m' (length (pending (mouse_ps2 m)) + 3) = Some (pending (mouse_ps2 m) @ p, m'') \<and>
    decode_packet p = (x - last_x m, last_y m - y) \<and> mouse_poll m'' = None \<and> Mouse_update m' x y = (m', [])"
proof -
  let ?dx = "x - last_x m" and ?dy = "- (y - last_y m)"
  let ?b = "(if ?dx < 0 then 0x18 else 0x08) OR (if ?dy < 0 then 0x20 else 0) :: u8"
  define p where "p = [?b, word_of_int ?dx, word_of_int ?dy]"
  define m' where "m' = m\<lparr>mouse_ps2 := (mouse_ps2 m)\<lparr>pending := pending (mouse_ps2 m) @ p\<rparr>, last_x := x, last_y := y\<rparr>"
  have u: "Mouse_update m x y = (m', [7, 7, 7])"
    using assms(1-3,6)
    by (auto simp: Mouse_update_def num_pending_bytes_def poll_movement_def Mouse_add_byte_def PS2_add_byte_def Let_def
        m'_def p_def)
  have "bit ?b 4 \<longleftrightarrow> ?dx < 0" "bit ?b 5 \<longleftrightarrow> ?dy < 0" by auto
  then have dec: "decode_packet p = (?dx, ?dy)"
    using nine_bit [of ?dx] nine_bit [of ?dy] assms(4,5) by (simp add: decode_packet_def p_def)
  have again: "Mouse_update m' x y = (m', [])"
    by (simp add: Mouse_update_def poll_movement_def m'_def)
  have c: "pending (mouse_ps2 m') = pending (mouse_ps2 m) @ p" "length p = 3" by (simp_all add: m'_def p_def)
  obtain m'' where "mouse.get_list m' (length (pending (mouse_ps2 m)) + 3) = Some (pending (mouse_ps2 m) @ p, m'')"
    "mouse_poll m'' = None"
    using mouse.get_list_contents [of "length (pending (mouse_ps2 m)) + 3" m'] mouse.get_None c by auto
  with u dec again show ?thesis by auto
qed

theorem mouse_reports_movement_witness:
  "\<exists>p m' m''. Mouse_update (Mouse_new\<lparr>active := True\<rparr>) (- 3) 5 = (m', [7, 7, 7]) \<and>
     mouse.get_list m' 3 = Some (p, m'') \<and> decode_packet p = (- 3, - 5)"
proof -
  let ?m = "Mouse_new\<lparr>active := True\<rparr>"
  have "active ?m" "length (pending (mouse_ps2 ?m)) < 5" "(- 3, 5) \<noteq> (last_x ?m, last_y ?m)"
    "- 3 - last_x ?m \<in> {- 256..255}" "last_y ?m - 5 \<in> {- 256..255}" "ps2_irq_num (mouse_ps2 ?m) = 7"
    by (simp_all add: Mouse_new_def PS2_new_def)
  from mouse_reports_movement [OF this] show ?thesis by (auto simp: Mouse_new_def PS2_new_def)
qed

end
