(* ===== verification/SPI.thy ===== *)
theory SPI
  imports IOPorts
begin

text \<open>
  The SD card behind the SPI port (sim/SPI.h, sim/SPI.cpp). The disk image is a \<open>std::fstream\<close> opened for reading and
  writing: a sequence of bytes, one position and the failed state, in which every operation has no effect.
  Reading at the end returns -1 and sets the failed state; writing at or after the end extends the file. The
  union that assembles the address is read on a little-endian host. \<open>write_count\<close> has no initial value in the
  source; the constructor takes it. The message about an unknown command is not modelled.
\<close>

section \<open>The disk image\<close>

record fstream =
  disk_bytes :: "u8 list"
  fpos :: nat
  failed :: bool

definition seekg :: "fstream \<Rightarrow> nat \<Rightarrow> fstream" where
  "seekg f p = (if failed f then f else f\<lparr>fpos := p\<rparr>)"

definition stream_get :: "fstream \<Rightarrow> int \<times> fstream" where
  "stream_get f =
     (if failed f then (- 1, f)
      else if fpos f < length (disk_bytes f) then (uint (disk_bytes f ! fpos f), f\<lparr>fpos := fpos f + 1\<rparr>)
      else (- 1, f\<lparr>failed := True\<rparr>))"

definition stream_put :: "fstream \<Rightarrow> u8 \<Rightarrow> fstream" where
  "stream_put f c =
     (if failed f then f
      else let i = disk_bytes f @ replicate (fpos f - length (disk_bytes f)) 0
           in f\<lparr>disk_bytes := (if fpos f < length i then i[fpos f := c] else i @ [c]), fpos := fpos f + 1\<rparr>)"

section \<open>State and operations\<close>

datatype SPIState = SPI_STATE_IDLE | STATE_RECEIVING | STATE_TRANSMITTING | STATE_WAIT_FOR_DATA | STATE_DO_WRITE_BLOCK

record SPI =
  control_reg :: u16
  rx_val :: u8
  spi_state :: SPIState
  mosi_buf :: "u8 list"
  miso_buf :: "u8 list"
  disk_image :: fstream
  do_write :: bool
  write_count :: u32

definition SPI_new :: "fstream \<Rightarrow> u32 \<Rightarrow> SPI" where
  "SPI_new f wc = \<lparr>control_reg = 0, rx_val = 0, spi_state = SPI_STATE_IDLE, mosi_buf = [], miso_buf = [],
     disk_image = f, do_write = False, write_count = wc\<rparr>"

text \<open>\<open>converter.u32\<close>: bytes 1 to 4 of the command, most significant first.\<close>

definition block_address :: "SPI \<Rightarrow> u32" where
  "block_address s = ucast (mosi_buf s ! 4) OR push_bit 8 (ucast (mosi_buf s ! 3)) OR
     push_bit 16 (ucast (mosi_buf s ! 2)) OR push_bit 24 (ucast (mosi_buf s ! 1))"

fun read_bytes :: "nat \<Rightarrow> fstream \<Rightarrow> u8 list \<times> fstream" where
  "read_bytes 0 f = ([], f)"
| "read_bytes (Suc n) f = (let (c, f) = stream_get f; (cs, f) = read_bytes n f in (word_of_int c # cs, f))"

definition read_block :: "SPI \<Rightarrow> SPI" where
  "read_block s =
     (let f = seekg (disk_image s) (unat (block_address s));
          (cs, f) = read_bytes 512 f
      in s\<lparr>miso_buf := [0xff, 0xff, 0x00, 0xff, 0xfe] @ cs @ replicate 2 0x77, disk_image := f\<rparr>)"

definition write_block :: "SPI \<Rightarrow> SPI" where
  "write_block s =
     s\<lparr>miso_buf := [0xff, 0x00, 0xff, 0xff, 0x05], do_write := True, write_count := 0,
       disk_image := seekg (disk_image s) (unat (block_address s))\<rparr>"

definition transmit_ready :: "SPI \<Rightarrow> (bool \<times> SPI) option" where
  "transmit_ready s =
     (if length (mosi_buf s) = 0 then None
      else
        let c = mosi_buf s ! 0; full = length (mosi_buf s) \<ge> 7 in
        if c \<in> {0x77, 0x40, 0x48, 0x50} then
          Some (if full then (True, s\<lparr>miso_buf := [0x01]\<rparr>) else (False, s))
        else if c = 0x69 then
          Some (if full then (True, s\<lparr>miso_buf := [0x00]\<rparr>) else (False, s))
        else if c = 0x51 then
          Some (if full then (True, read_block s) else (False, s))
        else if c = 0x58 then
          Some (if full then (True, write_block s) else (False, s))
        else if c = 0x7a then
          Some (if full then (True, s\<lparr>miso_buf := [0x01, 0x00, 0x00, 0x00, 0x00]\<rparr>) else (False, s))
        else Some (True, s\<lparr>miso_buf := [0xfe]\<rparr>))"

definition transfer :: "SPI \<Rightarrow> u8 \<Rightarrow> SPI option" where
  "transfer s mosi_val =
     (case spi_state s of
        SPI_STATE_IDLE \<Rightarrow>
          (let s = s\<lparr>do_write := False\<rparr>;
               s = (if mosi_val \<noteq> 0xff \<and> control_reg s AND push_bit 9 1 = 0
                    then s\<lparr>spi_state := STATE_RECEIVING, mosi_buf := mosi_buf s @ [mosi_val]\<rparr> else s)
           in Some (s\<lparr>rx_val := 0xff\<rparr>))
      | STATE_RECEIVING \<Rightarrow> do {
          let s = s\<lparr>mosi_buf := mosi_buf s @ [mosi_val]\<rparr>;
          (ready, s) \<leftarrow> transmit_ready s;
          let s = (if ready then s\<lparr>spi_state := STATE_TRANSMITTING\<rparr> else s);
          Some (s\<lparr>rx_val := 0xff\<rparr>)
        }
      | STATE_TRANSMITTING \<Rightarrow>
          (if length (miso_buf s) = 0 then
             Some (s\<lparr>rx_val := 0xff, spi_state := (if do_write s then STATE_WAIT_FOR_DATA else SPI_STATE_IDLE),
                     mosi_buf := []\<rparr>)
           else Some (s\<lparr>rx_val := miso_buf s ! 0, miso_buf := tl (miso_buf s)\<rparr>))
      | STATE_WAIT_FOR_DATA \<Rightarrow>
          (let s = s\<lparr>rx_val := 0xff\<rparr>
           in Some (if mosi_val = 0xfe then s\<lparr>spi_state := STATE_DO_WRITE_BLOCK\<rparr> else s))
      | STATE_DO_WRITE_BLOCK \<Rightarrow>
          (let s = (if write_count s < 512 then s\<lparr>disk_image := stream_put (disk_image s) mosi_val, rx_val := 0xff\<rparr>
                    else if write_count s < 514 then s\<lparr>rx_val := 0xaa\<rparr>
                    else s\<lparr>rx_val := 0x5, spi_state := SPI_STATE_IDLE\<rparr>)
           in Some (s\<lparr>write_count := write_count s + 1\<rparr>)))"

definition SPI_write8 :: "SPI \<Rightarrow> u16 \<Rightarrow> nat \<Rightarrow> u8 \<Rightarrow> SPI option" where
  "SPI_write8 s port_num offs v =
     (let shift = 8 * offs; msk = push_bit shift 0xff in
      if port_num = 0 then
        let s = s\<lparr>control_reg := control_reg s AND NOT msk\<rparr>
        in Some (s\<lparr>control_reg := control_reg s OR push_bit shift (ucast v)\<rparr>)
      else if offs = 0 then transfer s v
      else Some s)"

definition SPI_write16 :: "SPI \<Rightarrow> u16 \<Rightarrow> u16 \<Rightarrow> SPI option" where
  "SPI_write16 s port_num v = do {
     s \<leftarrow> SPI_write8 s port_num 0 (ucast v);
     SPI_write8 s port_num 1 (ucast (drop_bit 8 v))
   }"

definition SPI_read8 :: "SPI \<Rightarrow> u16 \<Rightarrow> nat \<Rightarrow> u8" where
  "SPI_read8 s port_num offs =
     (let shift = 8 * offs in
      if port_num = 0 then ucast (drop_bit shift (control_reg s))
      else if offs = 0 then rx_val s else 0x00)"

definition SPI_read16 :: "SPI \<Rightarrow> u16 \<Rightarrow> u16" where
  "SPI_read16 s port_num = ucast (SPI_read8 s port_num 0) OR push_bit 8 (ucast (SPI_read8 s port_num 1))"

section \<open>Sequences of transfers\<close>

text \<open>A host that writes the data port and reads the answer, byte after byte.\<close>

fun transfers :: "SPI \<Rightarrow> u8 list \<Rightarrow> (u8 list \<times> SPI) option" where
  "transfers s [] = Some ([], s)"
| "transfers s (b # bs) = do {
     s \<leftarrow> SPI_write8 s 2 0 b;
     let r = SPI_read8 s 2 0;
     (rs, s) \<leftarrow> transfers s bs;
     Some (r # rs, s)
   }"

lemma transfers_append:
  "transfers s (as @ bs) = do { (r, s) \<leftarrow> transfers s as; (r', s) \<leftarrow> transfers s bs; Some (r @ r', s) }"
  by (induction as arbitrary: s) (auto simp: Let_def case_prod_beta split: Option.bind_splits)

lemma write_data_port: "SPI_write8 s 2 0 b = transfer s b" "SPI_read8 s 2 0 = rx_val s"
  by (simp_all add: SPI_write8_def SPI_read8_def)

text \<open>The card is selected and waits for a command.\<close>

definition ready :: "SPI \<Rightarrow> bool" where
  "ready s \<longleftrightarrow> spi_state s = SPI_STATE_IDLE \<and> mosi_buf s = [] \<and> control_reg s AND push_bit 9 1 = 0 \<and> \<not> failed (disk_image s)"

lemma transmit_bytes:
  assumes "spi_state s = STATE_TRANSMITTING" "length ds = length (miso_buf s)"
  shows "transfers s ds = Some (miso_buf s, s\<lparr>miso_buf := [], rx_val := (if ds = [] then rx_val s else last (miso_buf s))\<rparr>)"
  using assms
proof (induction ds arbitrary: s)
  case (Cons d ds)
  then obtain m ms where "miso_buf s = m # ms" by (cases "miso_buf s") auto
  with Cons show ?case by (auto simp: write_data_port transfer_def Let_def)
qed simp

lemma receive_bytes:
  assumes "spi_state s = STATE_RECEIVING" "mosi_buf s = c # ms" "c \<in> {0x40, 0x48, 0x50, 0x51, 0x58, 0x69, 0x77, 0x7a}"
    and "length ms + length bs \<le> 5" "rx_val s = 0xff"
  shows "transfers s bs = Some (replicate (length bs) 0xff, s\<lparr>mosi_buf := c # ms @ bs\<rparr>)"
  using assms
proof (induction bs arbitrary: s ms)
  case (Cons b bs)
  let ?t = "s\<lparr>mosi_buf := c # ms @ [b]\<rparr>"
  have r: "transmit_ready ?t = Some (False, ?t)"
    using Cons.prems(3,4) by (auto simp: transmit_ready_def Let_def)
  have "s\<lparr>mosi_buf := c # ms @ [b], rx_val := 0xff\<rparr> = ?t" using Cons.prems(5) by simp
  with r have "transfer s b = Some ?t" using Cons.prems(1,2) by (simp add: transfer_def Let_def)
  moreover have "transfers ?t bs = Some (replicate (length bs) 0xff, ?t\<lparr>mosi_buf := c # (ms @ [b]) @ bs\<rparr>)"
    using Cons.prems by (intro Cons.IH) auto
  ultimately show ?case using Cons.prems(5) by (simp add: write_data_port)
qed simp

lemma command_bytes:
  assumes "ready s" "c \<in> {0x51, 0x58}" "length as = 6"
  defines "t \<equiv> s\<lparr>do_write := False, mosi_buf := c # as, rx_val := 0xff\<rparr>"
  shows "transfers s (c # as) = Some (replicate 7 0xff,
    (if c = 0x51 then read_block t else write_block t)\<lparr>spi_state := STATE_TRANSMITTING\<rparr>)"
proof -
  obtain bs b where as: "as = bs @ [b]" "length bs = 5"
    using assms(3) that [of "butlast as" "last as"] by (cases "as = []") auto
  define s1 where "s1 = s\<lparr>do_write := False, spi_state := STATE_RECEIVING, mosi_buf := [c], rx_val := 0xff\<rparr>"
  have 1: "transfer s c = Some s1"
    using assms(1,2) by (auto simp: ready_def transfer_def s1_def Let_def)
  have 2: "transfers s1 bs = Some (replicate 5 0xff, s1\<lparr>mosi_buf := c # bs\<rparr>)"
    using receive_bytes [of s1 c "[]" bs] assms(2) as by (auto simp: s1_def)
  let ?u = "s1\<lparr>mosi_buf := c # bs @ [b]\<rparr>"
  have tr: "transmit_ready ?u = Some (True, if c = 0x51 then read_block ?u else write_block ?u)"
    using assms(2) as(2) by (auto simp: transmit_ready_def Let_def)
  have "?u\<lparr>spi_state := STATE_RECEIVING\<rparr> = ?u" by (simp add: s1_def)
  have "(if c = 0x51 then read_block ?u else write_block ?u)\<lparr>spi_state := STATE_TRANSMITTING, rx_val := 0xff\<rparr> =
     (if c = 0x51 then read_block t else write_block t)\<lparr>spi_state := STATE_TRANSMITTING\<rparr>"
    by (simp add: read_block_def write_block_def block_address_def case_prod_beta Let_def t_def s1_def as)
  with tr have 3: "transfer (s1\<lparr>mosi_buf := c # bs\<rparr>) b = Some ((if c = 0x51 then read_block t else write_block t)\<lparr>spi_state := STATE_TRANSMITTING\<rparr>)"
    by (simp add: transfer_def Let_def s1_def)
  have "rx_val (read_block t) = 0xff" "rx_val (write_block t) = 0xff"
    by (simp_all add: t_def read_block_def write_block_def case_prod_beta Let_def)
  moreover have "replicate 7 (0xff :: u8) = 0xff # replicate 5 0xff @ [0xff]" by (simp add: numeral_eq_Suc)
  ultimately show ?thesis
    using 1 2 3 by (simp add: as write_data_port transfers_append s1_def)
qed

section \<open>Blocks\<close>

definition command_address :: "u8 list \<Rightarrow> u32" where
  "command_address as = ucast (as ! 3) OR push_bit 8 (ucast (as ! 2)) OR push_bit 16 (ucast (as ! 1)) OR
     push_bit 24 (ucast (as ! 0))"

lemma block_address_command: "mosi_buf s = c # as \<Longrightarrow> block_address s = command_address as"
  by (simp add: block_address_def command_address_def)

lemma read_bytes_image:
  "\<not> failed f \<Longrightarrow> fpos f + n \<le> length (disk_bytes f) \<Longrightarrow>
   read_bytes n f = (take n (drop (fpos f) (disk_bytes f)), f\<lparr>fpos := fpos f + n\<rparr>)"
proof (induction n arbitrary: f)
  case (Suc n)
  let ?f = "f\<lparr>fpos := fpos f + 1\<rparr>"
  have "stream_get f = (uint (disk_bytes f ! fpos f), ?f)" using Suc.prems by (simp add: stream_get_def)
  moreover have "read_bytes n ?f = (take n (drop (fpos ?f) (disk_bytes ?f)), ?f\<lparr>fpos := fpos ?f + n\<rparr>)"
    using Suc.prems by (intro Suc.IH) auto
  moreover have "drop (fpos f) (disk_bytes f) = disk_bytes f ! fpos f # drop (Suc (fpos f)) (disk_bytes f)"
    using Suc.prems by (simp add: Cons_nth_drop_Suc)
  ultimately show ?case by simp
qed simp

lemma read_sequence:
  assumes "ready s" "length as = 6" "length ds = 520" "a = unat (command_address as)" "a + 512 \<le> length (disk_bytes (disk_image s))"
  shows "\<exists>s'. transfers s (0x51 # as @ ds) = Some (replicate 7 0xff @ [0xff, 0xff, 0x00, 0xff, 0xfe] @
      take 512 (drop a (disk_bytes (disk_image s))) @ [0x77, 0x77, 0xff], s') \<and>
    ready s' \<and> disk_bytes (disk_image s') = disk_bytes (disk_image s)"
proof -
  let ?t = "s\<lparr>do_write := False, mosi_buf := 0x51 # as, rx_val := 0xff\<rparr>"
  let ?f = "disk_image s" and ?d = "take 512 (drop a (disk_bytes (disk_image s)))"
  let ?m = "[0xff, 0xff, 0x00, 0xff, 0xfe] @ ?d @ replicate 2 0x77"
  define u where "u = (read_block ?t)\<lparr>spi_state := STATE_TRANSMITTING\<rparr>"
  have r: "read_bytes 512 (?f\<lparr>fpos := a\<rparr>) = (?d, ?f\<lparr>fpos := a + 512\<rparr>)"
    using assms(1,5) read_bytes_image [of "?f\<lparr>fpos := a\<rparr>" 512] by (simp add: ready_def)
  have u: "u = ?t\<lparr>miso_buf := ?m, disk_image := ?f\<lparr>fpos := a + 512\<rparr>, spi_state := STATE_TRANSMITTING\<rparr>"
    using assms(1,4) r block_address_command [of ?t "0x51" as]
    by (simp add: u_def read_block_def seekg_def ready_def Let_def)
  obtain es e where ds: "ds = es @ [e]" "length es = 519"
    using assms(3) that [of "butlast ds" "last ds"] by (cases "ds = []") auto
  have len: "length es = length (miso_buf u)" using ds(2) assms(5) by (simp add: u)
  let ?v = "u\<lparr>miso_buf := [], rx_val := 0x77\<rparr>"
  have 2: "transfers u es = Some (?m, ?v)"
    using transmit_bytes [of u es] len ds(2) by (auto simp: u numeral_2_eq_2)
  have 3: "transfer ?v e = Some (?v\<lparr>rx_val := 0xff, spi_state := SPI_STATE_IDLE, mosi_buf := []\<rparr>)"
    by (simp add: transfer_def u)
  have "transfers s (0x51 # as) = Some (replicate 7 0xff, u)"
    using command_bytes [OF assms(1) _ assms(2), of "0x51"] by (simp add: u_def)
  then have "transfers s (0x51 # as @ ds) = Some (replicate 7 0xff @ ?m @ [0xff], ?v\<lparr>rx_val := 0xff, spi_state := SPI_STATE_IDLE, mosi_buf := []\<rparr>)"
    using transfers_append [of s "0x51 # as" ds] transfers_append [of u es "[e]"] 2 3 ds(1)
    by (simp add: write_data_port)
  then show ?thesis using assms(1) by (auto simp: ready_def u numeral_2_eq_2)
qed

lemma put_bytes:
  assumes "spi_state s = STATE_DO_WRITE_BLOCK" "unat (write_count s) + length bs \<le> 512" "\<not> failed (disk_image s)"
    and "fpos (disk_image s) = p" "p + length bs \<le> length (disk_bytes (disk_image s))" "rx_val s = 0xff"
  shows "transfers s bs = Some (replicate (length bs) 0xff,
    s\<lparr>disk_image := (disk_image s)\<lparr>disk_bytes := take p (disk_bytes (disk_image s)) @ bs @ drop (p + length bs) (disk_bytes (disk_image s)),
      fpos := p + length bs\<rparr>, write_count := write_count s + of_nat (length bs)\<rparr>)"
  using assms
proof (induction bs arbitrary: s p)
  case (Cons b bs)
  let ?i = "disk_bytes (disk_image s)"
  let ?j = "take p ?i @ b # drop (Suc p) ?i"
  let ?t = "s\<lparr>disk_image := (disk_image s)\<lparr>disk_bytes := ?j, fpos := Suc p\<rparr>, write_count := write_count s + 1\<rparr>"
  have lt: "write_count s < 512" using Cons.prems(2) by (simp add: word_less_nat_alt)
  have j: "?i[p := b] = ?j" using Cons.prems(5) by (simp add: upd_conv_take_nth_drop)
  have tr: "transfer s b = Some ?t"
    using Cons.prems lt j by (simp add: transfer_def stream_put_def Let_def)
  have wc: "unat (write_count s + 1) = Suc (unat (write_count s))"
    using Cons.prems(2) by (simp add: unat_word_ariths)
  have len: "length ?j = length ?i" using Cons.prems(5) by simp
  have d: "take (Suc p) ?j = take p ?i @ [b]" "drop (Suc p + length bs) ?j = drop (p + length (b # bs)) ?i"
    using Cons.prems(5) by (simp_all add: min_def add.commute)
  have "transfers ?t bs = Some (replicate (length bs) 0xff,
      ?t\<lparr>disk_image := (disk_image ?t)\<lparr>disk_bytes := take (Suc p) ?j @ bs @ drop (Suc p + length bs) ?j,
      fpos := Suc p + length bs\<rparr>, write_count := write_count ?t + of_nat (length bs)\<rparr>)"
    using Cons.prems wc len Cons.IH [of ?t "Suc p"] by simp
  note this [unfolded d]
  then show ?case using tr Cons.prems(6) by (simp add: write_data_port add.assoc)
qed simp


text \<open>The card has accepted a write command for address \<open>a\<close> of an image and waits for the data token.\<close>

definition waiting :: "nat \<Rightarrow> u8 list \<Rightarrow> SPI \<Rightarrow> bool" where
  "waiting a img s \<longleftrightarrow> spi_state s = STATE_WAIT_FOR_DATA \<and> mosi_buf s = [] \<and> control_reg s AND push_bit 9 1 = 0 \<and>
     \<not> failed (disk_image s) \<and> fpos (disk_image s) = a \<and> disk_bytes (disk_image s) = img \<and> write_count s = 0"

lemma write_command:
  assumes "ready s" "length as = 6" "length ds = 6" "a = unat (command_address as)"
  shows "\<exists>s'. transfers s (0x58 # as @ ds) = Some (replicate 7 0xff @ [0xff, 0x00, 0xff, 0xff, 0x05, 0xff], s') \<and>
    waiting a (disk_bytes (disk_image s)) s'"
proof -
  let ?t = "s\<lparr>do_write := False, mosi_buf := 0x58 # as, rx_val := 0xff\<rparr>"
  let ?f = "disk_image s" and ?m = "[0xff, 0x00, 0xff, 0xff, 0x05] :: u8 list"
  define u where "u = (write_block ?t)\<lparr>spi_state := STATE_TRANSMITTING\<rparr>"
  have u: "u = s\<lparr>do_write := True, mosi_buf := 0x58 # as, rx_val := 0xff, miso_buf := ?m, write_count := 0,
      disk_image := ?f\<lparr>fpos := a\<rparr>, spi_state := STATE_TRANSMITTING\<rparr>"
    using assms(1,4) block_address_command [of ?t "0x58" as]
    by (simp add: u_def write_block_def seekg_def ready_def)
  have 1: "transfers s (0x58 # as) = Some (replicate 7 0xff, u)"
    using command_bytes [OF assms(1) _ assms(2), of "0x58"] by (simp add: u_def)
  obtain es e where ds: "ds = es @ [e]" "length es = 5"
    using assms(3) that [of "butlast ds" "last ds"] by (cases "ds = []") auto
  let ?v = "u\<lparr>miso_buf := [], rx_val := 0xff, spi_state := STATE_WAIT_FOR_DATA, mosi_buf := []\<rparr>"
  have 2: "transfers u ds = Some (?m @ [0xff], ?v)"
    using transmit_bytes [of u es] ds(2)
    by (auto simp: ds(1) transfers_append write_data_port transfer_def u)
  have "transfers s ((0x58 # as) @ ds) = Some (replicate 7 0xff @ ?m @ [0xff], ?v)"
    unfolding transfers_append 1 2 Option.bind.bind_lunit prod.case ..
  moreover have "waiting a (disk_bytes ?f) ?v" using assms(1) by (simp add: waiting_def ready_def u)
  ultimately show ?thesis by (intro exI [of _ ?v]) simp
qed

lemma waiting_bytes:
  assumes "waiting a img s"
  shows "\<exists>s'. transfers s (replicate n 0xff) = Some (replicate n 0xff, s') \<and> waiting a img s'"
  using assms
proof (induction n arbitrary: s)
  case (Suc n)
  let ?s = "s\<lparr>rx_val := 0xff\<rparr>"
  have "transfer s 0xff = Some ?s" "waiting a img ?s" using Suc.prems by (simp_all add: transfer_def waiting_def)
  with Suc.IH [of ?s] show ?case by (auto simp: write_data_port)
qed auto

lemma write_data:
  assumes "waiting a img s" "length data = 512" "length cs = 3" "a + 512 \<le> length img"
  shows "\<exists>s'. transfers s (0xfe # data @ cs) = Some (replicate 513 0xff @ [0xaa, 0xaa, 0x05], s') \<and> ready s' \<and>
    disk_bytes (disk_image s') = take a img @ data @ drop (a + 512) img"
proof -
  let ?w = "s\<lparr>spi_state := STATE_DO_WRITE_BLOCK, rx_val := 0xff\<rparr>"
  have 1: "transfer s 0xfe = Some ?w" using assms(1) by (simp add: transfer_def waiting_def)
  let ?i = "take a img @ data @ drop (a + 512) img"
  let ?x = "?w\<lparr>disk_image := (disk_image s)\<lparr>disk_bytes := ?i, fpos := a + 512\<rparr>, write_count := 512\<rparr>"
  have 2: "transfers ?w data = Some (replicate 512 0xff, ?x)"
    using put_bytes [of ?w data a] assms(1,2,4) by (simp add: waiting_def)
  obtain c1 c2 c3 where cs: "cs = [c1, c2, c3]"
    using assms(3) by (auto simp: length_Suc_conv numeral_3_eq_3)
  let ?y = "?x\<lparr>rx_val := 0x05, spi_state := SPI_STATE_IDLE, write_count := 515\<rparr>"
  have 3: "transfers ?x cs = Some ([0xaa, 0xaa, 0x05], ?y)" by (simp add: cs write_data_port transfer_def)
  have "transfers s (0xfe # data @ cs) = Some (0xff # replicate 512 0xff @ [0xaa, 0xaa, 0x05], ?y)"
    using 1 2 3 by (simp add: write_data_port transfers_append)
  moreover have "replicate 513 (0xff :: u8) = 0xff # replicate 512 0xff" by (simp add: numeral_eq_Suc)
  ultimately show ?thesis using assms(1) by (auto simp: waiting_def ready_def)
qed

lemma write_sequence:
  assumes "ready s" "length as = 6" "length ds = 6" "length data = 512" "length cs = 3"
    and "a = unat (command_address as)" "a + 512 \<le> length (disk_bytes (disk_image s))"
  shows "\<exists>s'. transfers s (0x58 # as @ ds @ 0xfe # data @ cs) = Some (replicate 7 0xff @ [0xff, 0x00, 0xff, 0xff, 0x05] @
      replicate 514 0xff @ [0xaa, 0xaa, 0x05], s') \<and> ready s' \<and>
    disk_bytes (disk_image s') = take a (disk_bytes (disk_image s)) @ data @ drop (a + 512) (disk_bytes (disk_image s))"
proof -
  obtain s1 where 1: "transfers s (0x58 # as @ ds) = Some (replicate 7 0xff @ [0xff, 0x00, 0xff, 0xff, 0x05, 0xff], s1)"
    "waiting a (disk_bytes (disk_image s)) s1"
    using write_command [OF assms(1-3,6)] by blast
  obtain s2 where 2: "transfers s1 (0xfe # data @ cs) = Some (replicate 513 0xff @ [0xaa, 0xaa, 0x05], s2)" "ready s2"
    "disk_bytes (disk_image s2) = take a (disk_bytes (disk_image s)) @ data @ drop (a + 512) (disk_bytes (disk_image s))"
    using write_data [OF 1(2) assms(4,5,7)] by blast
  have "transfers s ((0x58 # as @ ds) @ (0xfe # data @ cs)) = Some ((replicate 7 0xff @ [0xff, 0x00, 0xff, 0xff, 0x05, 0xff]) @
      (replicate 513 0xff @ [0xaa, 0xaa, 0x05]), s2)"
    unfolding transfers_append 1(1) 2(1) Option.bind.bind_lunit prod.case ..
  moreover have "replicate 514 (0xff :: u8) = 0xff # replicate 513 0xff" by (simp add: numeral_eq_Suc)
  ultimately show ?thesis using 2(2,3) by auto
qed

text \<open>
  C38. The card stores blocks: on a selected, idle card, a write command for the address in its four bytes, with a
  data token, 512 bytes and a checksum, is answered as the protocol says, accepted with 05, and replaces
  exactly those 512 bytes of the image; a read command for the same address then returns the response
  bytes, the data token fe, the 512 bytes that were written and the checksum, and leaves the image and
  the idle state as they are. The address must lie inside the image.
\<close>

theorem spi_write_read:
  assumes "ready s" "length as = 6" "length ds = 6" "length data = 512" "length cs = 3" "length es = 520"
    and "a = unat (command_address as)" "a + 512 \<le> length (disk_bytes (disk_image s))"
  shows "\<exists>s' s''. transfers s (0x58 # as @ ds @ 0xfe # data @ cs) = Some (replicate 7 0xff @ [0xff, 0x00, 0xff, 0xff, 0x05] @
      replicate 514 0xff @ [0xaa, 0xaa, 0x05], s') \<and>
    disk_bytes (disk_image s') = take a (disk_bytes (disk_image s)) @ data @ drop (a + 512) (disk_bytes (disk_image s)) \<and>
    transfers s' (0x51 # as @ es) = Some (replicate 7 0xff @ [0xff, 0xff, 0x00, 0xff, 0xfe] @ data @ [0x77, 0x77, 0xff], s'') \<and>
    ready s'' \<and> disk_bytes (disk_image s'') = disk_bytes (disk_image s')"
proof -
  from write_sequence [OF assms(1-5,7,8)] obtain s' where
    w: "transfers s (0x58 # as @ ds @ 0xfe # data @ cs) = Some (replicate 7 0xff @ [0xff, 0x00, 0xff, 0xff, 0x05] @
      replicate 514 0xff @ [0xaa, 0xaa, 0x05], s')" "ready s'"
      "disk_bytes (disk_image s') = take a (disk_bytes (disk_image s)) @ data @ drop (a + 512) (disk_bytes (disk_image s))" by blast
  have l: "a + 512 \<le> length (disk_bytes (disk_image s'))" using w(3) assms(4,8) by simp
  have "take 512 (drop a (disk_bytes (disk_image s'))) = data" using w(3) assms(4,8) by simp
  with read_sequence [OF w(2) assms(2,6,7) l] w show ?thesis by auto
qed

theorem spi_write_read_witness:
  "\<exists>s' s'' r. transfers (SPI_new \<lparr>disk_bytes = replicate 1024 0, fpos = 0, failed = False\<rparr> 0)
      (0x58 # [0, 0, 2, 0, 1, 1] @ replicate 6 0xff @ 0xfe # replicate 512 0x41 @ [0, 0, 0]) = Some (r, s') \<and>
    transfers s' (0x51 # [0, 0, 2, 0, 1, 1] @ replicate 520 0xff) =
      Some (replicate 7 0xff @ [0xff, 0xff, 0x00, 0xff, 0xfe] @ replicate 512 0x41 @ [0x77, 0x77, 0xff], s'')"
proof -
  let ?s = "SPI_new \<lparr>disk_bytes = replicate 1024 0, fpos = 0, failed = False\<rparr> 0"
  have "ready ?s" "length [0, 0, 2, 0, 1, 1 :: u8] = 6" "length (replicate 6 (0xff :: u8)) = 6"
    "length (replicate 512 (0x41 :: u8)) = 512" "length [0, 0, 0 :: u8] = 3" "length (replicate 520 (0xff :: u8)) = 520"
    "512 = unat (command_address [0, 0, 2, 0, 1, 1])" "512 + 512 \<le> length (disk_bytes (disk_image ?s))"
    by (simp_all add: ready_def SPI_new_def command_address_def)
  from spi_write_read [OF this] show ?thesis by blast
qed

end
