(* ===== verification/Display.thy ===== *)
theory Display
  imports Memory
begin

text \<open>
  The screen (sim/display/Display.h, Display.cpp and Cursor.h). The window of SDL is the colour that was last
  drawn at each point; the calls that create, scale and present it are not modelled. An index outside the
  arrays of the source has no defined meaning and is \<^term>\<open>None\<close>, as is a failed \<open>assert\<close>. The font file is
  an argument: the byte at each index of \<open>font_bitmap\<close>, a (signed) \<open>char\<close>.
\<close>

section \<open>Loops\<close>

fun for_each :: "'a list \<Rightarrow> ('a \<Rightarrow> 's \<Rightarrow> 's option) \<Rightarrow> 's \<Rightarrow> 's option" where
  "for_each [] f s = Some s"
| "for_each (x # xs) f s = f x s \<bind> for_each xs f"

lemma for_each_append: "for_each (xs @ ys) f s = for_each xs f s \<bind> for_each ys f"
  by (induction xs arbitrary: s) (auto split: Option.bind_splits)

lemma for_each_product:
  "for_each xs (\<lambda>x. for_each ys (f x)) s = for_each (List.product xs ys) (\<lambda>(x, y). f x y) s"
proof (induction xs arbitrary: s)
  case (Cons x xs)
  have "for_each ys (f x) t = for_each (map (Pair x) ys) (\<lambda>(x, y). f x y) t" for t
    by (induction ys arbitrary: t) (auto split: Option.bind_splits)
  with Cons show ?case by (auto simp: for_each_append split: Option.bind_splits)
qed simp

lemma for_each_fold:
  assumes "P s" "\<And>x s. x \<in> set xs \<Longrightarrow> P s \<Longrightarrow> f x s = Some (g x s) \<and> P (g x s)"
  shows "for_each xs f s = Some (fold g xs s) \<and> P (fold g xs s)"
  using assms by (induction xs arbitrary: s) simp_all

lemma fold_upd_notin: "a \<notin> k ` set xs \<Longrightarrow> fold (\<lambda>x f. f(k x := v x)) xs f a = f a"
  by (induction xs arbitrary: f) auto

lemma fold_upd_in:
  "inj_on k (set xs) \<Longrightarrow> x \<in> set xs \<Longrightarrow> fold (\<lambda>x f. f(k x := v x)) xs f (k x) = v x"
proof (induction xs arbitrary: f)
  case (Cons y ys)
  show ?case
  proof (cases "x \<in> set ys")
    case True
    then show ?thesis using Cons by (simp add: inj_on_def)
  next
    case False
    with Cons.prems have "x = y" "k x \<notin> k ` set ys" by (auto simp: inj_on_def)
    have "fold (\<lambda>x f. f(k x := v x)) (y # ys) f (k x) = fold (\<lambda>x f. f(k x := v x)) ys (f(k y := v y)) (k x)"
      unfolding fold_simps ..
    also have "\<dots> = (f(k y := v y)) (k x)" by (rule fold_upd_notin [OF \<open>k x \<notin> k ` set ys\<close>])
    also have "\<dots> = v x" using \<open>x = y\<close> by simp
    finally show ?thesis .
  qed
qed simp

section \<open>Colours and the cursor\<close>

record color =
  red :: u8
  green :: u8
  blue :: u8

abbreviation rgb :: "u8 \<Rightarrow> u8 \<Rightarrow> u8 \<Rightarrow> color" where
  "rgb r g b \<equiv> \<lparr>red = r, green = g, blue = b\<rparr>"

text \<open>\<open>struct GraphicsPalette\<close>: 256 colours; those an initialiser leaves out are black.\<close>

type_synonym GraphicsPalette = "u8 \<Rightarrow> color"

definition palette_of :: "color list \<Rightarrow> GraphicsPalette" where
  "palette_of cs i = (if unat i < length cs then cs ! unat i else rgb 0 0 0)"

definition cga_full_palette :: "color list" where
  "cga_full_palette = [
     rgb 0 0 0, rgb 0 0 0xaa, rgb 0x00 0xaa 0x00, rgb 0x00 0xaa 0xaa,
     rgb 0xaa 0x00 0x00, rgb 0xaa 0x00 0xaa, rgb 0xaa 0x55 0x00, rgb 0xaa 0xaa 0xaa,
     rgb 0x55 0x55 0x55, rgb 0x55 0x55 0xff, rgb 0x55 0xff 0x55, rgb 0x55 0xff 0xff,
     rgb 0xff 0x55 0x55, rgb 0xff 0x55 0xff, rgb 0xff 0xff 0x55, rgb 0xff 0xff 0xff]"

definition get_color :: "u8 \<Rightarrow> color option" where
  "get_color idx = (if idx < 16 then Some (cga_full_palette ! unat idx) else None)"

record Cursor =
  row_top :: nat
  row_bottom :: nat
  col_left :: nat
  col_right :: nat
  cursor_enabled :: bool

definition is_active_at :: "Cursor \<Rightarrow> nat \<Rightarrow> nat \<Rightarrow> bool" where
  "is_active_at c row col \<longleftrightarrow>
     cursor_enabled c \<and> row \<ge> row_top c \<and> row \<le> row_bottom c \<and> col \<ge> col_left c \<and> col \<le> col_right c"

section \<open>State and operations\<close>

record Display =
  num_rows :: nat
  num_cols :: nat
  window :: "nat \<times> nat \<Rightarrow> color"
  disp_row :: nat
  disp_col :: nat
  characters :: "nat \<Rightarrow> u16"
  font_bitmap :: "nat \<Rightarrow> u8"
  pixels :: "nat \<times> nat \<Rightarrow> u8"
  is_graphics :: bool
  graphics_palette :: GraphicsPalette

text \<open>The pixels and the palette have no initial value; the constructor takes them.\<close>

definition Display_new :: "(nat \<Rightarrow> u8) \<Rightarrow> (nat \<times> nat \<Rightarrow> u8) \<Rightarrow> GraphicsPalette \<Rightarrow> Display" where
  "Display_new font px pal = \<lparr>num_rows = 25, num_cols = 80, window = (\<lambda>_. rgb 0 0 0), disp_row = 0, disp_col = 0,
     characters = (\<lambda>_. 0), font_bitmap = font, pixels = px, is_graphics = False, graphics_palette = pal\<rparr>"

definition set_cursor :: "Display \<Rightarrow> nat \<Rightarrow> nat \<Rightarrow> Display" where
  "set_cursor d row col = d\<lparr>disp_row := row, disp_col := col\<rparr>"

definition write_char :: "Display \<Rightarrow> u16 \<Rightarrow> Display option" where
  "write_char d c =
     (let v = c; i = disp_row d * (num_cols d + 1) + disp_col d in
      if i < num_rows d * (num_cols d + 1) then
        let d = d\<lparr>characters := (characters d)(i := v)\<rparr>;
            d = d\<lparr>disp_col := disp_col d + 1\<rparr>;
            d = (if disp_col d = num_cols d then d\<lparr>disp_col := 0, disp_row := disp_row d + 1\<rparr> else d)
        in Some (if disp_row d = num_rows d then d\<lparr>disp_row := num_rows d - 1\<rparr> else d)
      else None)"

definition set_graphics :: "Display \<Rightarrow> bool \<Rightarrow> Display" where
  "set_graphics d e = d\<lparr>is_graphics := e\<rparr>"

definition set_pixel :: "Display \<Rightarrow> nat \<Rightarrow> nat \<Rightarrow> u8 \<Rightarrow> Display option" where
  "set_pixel d row col v =
     (if row < 200 \<and> col < 320 then Some (d\<lparr>pixels := (pixels d)((row, col) := v)\<rparr>) else None)"

definition set_graphics_palette :: "Display \<Rightarrow> GraphicsPalette \<Rightarrow> Display" where
  "set_graphics_palette d p = d\<lparr>graphics_palette := p\<rparr>"

definition get_graphics_color :: "Display \<Rightarrow> u8 \<Rightarrow> color" where
  "get_graphics_color d idx = graphics_palette d idx"

text \<open>\<open>window->clear()\<close> and \<open>window->set_pixel\<close>, whose first argument is the column.\<close>

definition window_clear :: "Display \<Rightarrow> Display" where
  "window_clear d = d\<lparr>window := (\<lambda>_. rgb 0 0 0)\<rparr>"

definition window_set_pixel :: "Display \<Rightarrow> nat \<Rightarrow> nat \<Rightarrow> color \<Rightarrow> Display" where
  "window_set_pixel d x y c = d\<lparr>window := (window d)((x, y) := c)\<rparr>"

definition refresh_graphics :: "Display \<Rightarrow> Display option" where
  "refresh_graphics d =
     (if \<not> is_graphics d then None
      else for_each [0..<200] (\<lambda>y. for_each [0..<320] (\<lambda>x d.
             let c = get_graphics_color d (pixels d (y, x))
             in for_each [0..<2] (\<lambda>i d. Some (window_set_pixel d (x * 2 + i) y c)) d)) (window_clear d))"

text \<open>One pixel of a character cell: \<open>font_data[i]\<close> is a \<open>char\<close> that the \<open>&\<close> promotes to \<open>int\<close>.\<close>

definition text_pixel :: "Display \<Rightarrow> Cursor \<Rightarrow> nat \<Rightarrow> nat \<Rightarrow> nat \<Rightarrow> nat \<Rightarrow> color option" where
  "text_pixel d cursor y x i j = do {
     let font_index = characters d (y * (num_cols d + 1) + x);
     let font_data = font_bitmap d (unat (font_index AND 0xff) * 8 + i);
     fg \<leftarrow> get_color (ucast (drop_bit 8 font_index AND 0xf));
     bg \<leftarrow> get_color (ucast (drop_bit 12 font_index AND 0xf));
     let render_cursor = is_active_at cursor (y * 8 + i) (x * 8 + j);
     let pixel_set = ((scast font_data :: u32) AND push_bit (8 - j) 1 \<noteq> 0);
     Some (if (pixel_set \<and> \<not> render_cursor) \<or> (\<not> pixel_set \<and> render_cursor) then fg else bg)
   }"

definition refresh_text :: "Display \<Rightarrow> Cursor \<Rightarrow> Display option" where
  "refresh_text d cursor =
     (if is_graphics d then None
      else for_each [0..<num_rows d] (\<lambda>y. for_each [0..<num_cols d] (\<lambda>x. for_each [0..<8] (\<lambda>i. for_each [0..<8] (\<lambda>j d. do {
             c \<leftarrow> text_pixel d cursor y x i j;
             Some (window_set_pixel d (x * 8 + j) (y * 8 + i) c)
           })))) (window_clear d))"

section \<open>Drawing text\<close>

text \<open>
  The column \<open>j\<close> of a glyph row shows bit \<open>8 - j\<close> of the sign-extended byte: column 0 repeats bit 7, and bit 0 is
  never shown.
\<close>

lemma glyph_column:
  fixes b :: u8
  assumes "j < 8"
  shows "(scast b :: u32) AND push_bit (8 - j) 1 \<noteq> 0 \<longleftrightarrow> bit b (if j = 0 then 7 else 8 - j)"
proof -
  have l: "8 - j < 32" by arith
  have "(scast b :: u32) AND push_bit (8 - j) 1 \<noteq> 0 \<longleftrightarrow> bit (scast b :: u32) (8 - j)"
    by (simp add: bit_iff_and_push_bit_not_eq_0)
  also have "\<dots> \<longleftrightarrow> bit b (min 7 (8 - j))" 
    using assms l by (simp add: bit_signed_iff min.commute)
  also have "min 7 (8 - j) = (if j = 0 then 7 else 8 - j)" by auto
  finally show ?thesis .
qed

lemma unat_nibble: "unat (w AND 0xf) = unat w mod 16" for w :: u16
proof -
  have "w AND 0xf = take_bit 4 w" by (simp add: take_bit_eq_mask mask_eq_exp_minus_1)
  then show ?thesis by (simp add: unsigned_take_bit_eq take_bit_eq_mod unat_mod_distrib)
qed

lemma get_color_nibble: "get_color (ucast (w AND 0xf)) = Some (cga_full_palette ! (unat w mod 16))" for w :: u16
proof -
  have "unat (ucast (w AND 0xf) :: u8) = unat w mod 16"
    using unat_nibble [of w] by (simp add: unsigned_ucast_eq take_bit_eq_mod)
  then show ?thesis by (simp add: get_color_def word_less_nat_alt)
qed

text \<open>
  The colour of a point of the text screen, from the character and attribute \<open>w\<close> of the cell it lies in: the
  foreground where the glyph or the cursor, but not both, covers it.
\<close>

definition cell_color :: "(nat \<Rightarrow> u8) \<Rightarrow> Cursor \<Rightarrow> u16 \<Rightarrow> nat \<Rightarrow> nat \<Rightarrow> color" where
  "cell_color font cursor w px py =
     (let b = font (unat (w AND 0xff) * 8 + py mod 8);
          lit = (bit b (if px mod 8 = 0 then 7 else 8 - px mod 8) \<noteq> is_active_at cursor py px)
      in cga_full_palette ! (unat (drop_bit (if lit then 8 else 12) w) mod 16))"

definition text_point :: "Display \<Rightarrow> Cursor \<Rightarrow> nat \<Rightarrow> nat \<Rightarrow> color" where
  "text_point d cursor px py =
     cell_color (font_bitmap d) cursor (characters d (py div 8 * (num_cols d + 1) + px div 8)) px py"

lemma text_pixel_point:
  "i < 8 \<Longrightarrow> j < 8 \<Longrightarrow> text_pixel d cursor y x i j = Some (text_point d cursor (x * 8 + j) (y * 8 + i))"
  unfolding text_pixel_def Let_def get_color_nibble
  by (auto simp: text_point_def cell_color_def Let_def glyph_column [unfolded One_nat_def] simp del: push_bit_of_1)

lemma text_point_window: "text_point (d\<lparr>window := w\<rparr>) = text_point d"
  by (simp add: text_point_def fun_eq_iff)

text \<open>The loops as one: every point of every cell, in the order of the source.\<close>

definition text_points :: "nat \<Rightarrow> nat \<Rightarrow> (nat \<times> nat \<times> nat \<times> nat) list" where
  "text_points rows cols = List.product [0..<rows] (List.product [0..<cols] (List.product [0..<8] [0..<8]))"

lemma for_each_four:
  "for_each ys (\<lambda>y. for_each xs (\<lambda>x. for_each is (\<lambda>i. for_each js (f y x i)))) s =
   for_each (List.product ys (List.product xs (List.product is js))) (\<lambda>(y, x, i, j). f y x i j) s"
proof -
  have 1: "for_each is (\<lambda>i. for_each js (f y x i)) = for_each (List.product is js) (\<lambda>(i, j). f y x i j)" for y x
    by (rule ext) (rule for_each_product)
  have 2: "for_each xs (\<lambda>x. for_each (List.product is js) (\<lambda>(i, j). f y x i j)) =
      for_each (List.product xs (List.product is js)) (\<lambda>(x, i, j). f y x i j)" for y
    by (rule ext) (rule for_each_product)
  show ?thesis unfolding 1 2 by (rule for_each_product)
qed

lemma cell_inj: "x * 8 + j = x' * 8 + j' \<Longrightarrow> j < 8 \<Longrightarrow> j' < 8 \<Longrightarrow> x = x' \<and> j = j'" for x :: nat
  by arith

lemma refresh_text_window:
  assumes "\<not> is_graphics d"
  shows "\<exists>w. refresh_text d cursor = Some (d\<lparr>window := w\<rparr>) \<and>
    (\<forall>px py. px < 8 * num_cols d \<and> py < 8 * num_rows d \<longrightarrow> w (px, py) = text_point d cursor px py)"
proof -
  let ?k = "\<lambda>(y, x, i, j). (x * 8 + j, y * 8 + i)" and ?v = "\<lambda>(y, x, i, j). text_point d cursor (x * 8 + j) (y * 8 + i)"
  let ?xs = "text_points (num_rows d) (num_cols d)"
  let ?f = "\<lambda>(y, x, i, j) e. text_pixel e cursor y x i j \<bind> (\<lambda>c. Some (window_set_pixel e (x * 8 + j) (y * 8 + i) c))"
  let ?g = "\<lambda>p e. e\<lparr>window := (window e)(?k p := ?v p)\<rparr>"
  let ?P = "\<lambda>e. \<exists>w. e = d\<lparr>window := w\<rparr>"
  have fe: "for_each ?xs ?f (window_clear d) = Some (fold ?g ?xs (window_clear d)) \<and> ?P (fold ?g ?xs (window_clear d))"
  proof (rule for_each_fold)
    show "?P (window_clear d)" by (auto simp: window_clear_def)
    fix p e assume "p \<in> set ?xs" "?P e"
    then show "?f p e = Some (?g p e) \<and> ?P (?g p e)"
      by (auto simp: text_points_def text_pixel_point text_point_window window_set_pixel_def)
  qed
  have fw: "window (fold ?g xs e) = fold (\<lambda>p f. f(?k p := ?v p)) xs (window e)" for xs e
    by (induction xs arbitrary: e) simp_all
  from fe obtain w where fd: "fold ?g ?xs (window_clear d) = d\<lparr>window := w\<rparr>" by blast
  have rt: "refresh_text d cursor = Some (d\<lparr>window := w\<rparr>)"
    using assms fe fd unfolding refresh_text_def for_each_four text_points_def by simp
  have w: "w = fold (\<lambda>p f. f(?k p := ?v p)) ?xs (window (window_clear d))"
    using fw [of ?xs "window_clear d"] unfolding fd by simp
  have inj: "inj_on ?k (set ?xs)"
    by (rule inj_onI) (auto simp: text_points_def dest!: cell_inj)
  have "w (px, py) = text_point d cursor px py" if "px < 8 * num_cols d" "py < 8 * num_rows d" for px py
  proof -
    let ?p = "(py div 8, px div 8, py mod 8, px mod 8)"
    have "?p \<in> set ?xs" using that by (auto simp: text_points_def less_mult_imp_div_less mult.commute)
    from fold_upd_in [OF inj this, of ?v "window (window_clear d)"] show ?thesis by (simp add: w)
  qed
  with rt show ?thesis by blast
qed

end
