(* ===== verification/CGA.thy ===== *)
theory CGA
  imports Display IOPorts
begin

text \<open>
  The graphics adapter (sim/CGA.h): its registers on the I/O bus, the colour palettes, and \<open>update\<close>, which draws the
  frame buffer of the machine's memory on the screen. The members without an initial value
  (\<open>attribute_mode_control\<close>, the DAC palette) are arguments of the constructor; the function-local counter
  of \<open>read_status\<close> is a field.
\<close>

section \<open>Palettes\<close>

definition cga_alt_palette :: GraphicsPalette where
  "cga_alt_palette = palette_of [rgb 0 0 0, rgb 0x00 0xaa 0xaa, rgb 0xaa 0x00 0xaa, rgb 0xaa 0xaa 0xaa]"

definition cga_alt_bright_palette :: GraphicsPalette where
  "cga_alt_bright_palette = palette_of [rgb 0 0 0, rgb 0x55 0xff 0xff, rgb 0xff 0x55 0xff, rgb 0xff 0xff 0xff]"

definition cga_default_palette :: GraphicsPalette where
  "cga_default_palette = palette_of [rgb 0 0 0, rgb 0x00 0xaa 0x00, rgb 0xaa 0x00 0x00, rgb 0xaa 0x55 0x00]"

definition cga_default_bright_palette :: GraphicsPalette where
  "cga_default_bright_palette = palette_of [rgb 0 0 0, rgb 0x55 0xff 0x55, rgb 0xff 0x55 0x55, rgb 0xff 0xff 0x55]"

definition color_palettes :: "GraphicsPalette list" where
  "color_palettes = [cga_default_palette, cga_alt_bright_palette, cga_alt_palette, cga_alt_bright_palette]"

section \<open>State and operations\<close>

definition CURSOR_SCAN_START :: u8 where "CURSOR_SCAN_START = 0xa"
definition CURSOR_SCAN_END :: u8 where "CURSOR_SCAN_END = 0xb"
definition CURSOR_HIGH :: u8 where "CURSOR_HIGH = 0xe"
definition CURSOR_LOW :: u8 where "CURSOR_LOW = 0xf"

definition buffer_phys :: u32 where "buffer_phys = 0xb8000"
definition vga_buffer_phys :: u32 where "vga_buffer_phys = 0xa0000"

record CGA =
  display :: Display
  reg_idx :: u8
  idx_regs :: "u8 \<Rightarrow> u8"
  cga_status :: u8
  mode_reg :: u8
  attribute_mode_control :: u8
  dac_palette :: GraphicsPalette
  dac_wr_sel :: u8
  dac_seq :: u8
  status_reads :: int

definition CGA_new :: "Display \<Rightarrow> u8 \<Rightarrow> GraphicsPalette \<Rightarrow> CGA" where
  "CGA_new d amc dac = \<lparr>display = set_graphics_palette d cga_default_palette, reg_idx = 0, idx_regs = (\<lambda>_. 0),
     cga_status = 0, mode_reg = 0, attribute_mode_control = amc, dac_palette = dac, dac_wr_sel = 0, dac_seq = 0,
     status_reads = 0\<rparr>"

definition get_cursor :: "CGA \<Rightarrow> Cursor" where
  "get_cursor c =
     (let cursor_loc = unat (push_bit 8 (ucast (idx_regs c CURSOR_HIGH)) OR ucast (idx_regs c CURSOR_LOW) :: u16);
          cursor_row = cursor_loc div 80;
          cursor_col = cursor_loc mod 80;
          cursor_scan_start = unat (idx_regs c CURSOR_SCAN_START AND 0xf);
          cursor_scan_end = unat (idx_regs c CURSOR_SCAN_END AND 0xf);
          en = (idx_regs c CURSOR_SCAN_START AND 0x30 \<noteq> 0x10)
      in \<lparr>row_top = cursor_row * 8 + cursor_scan_start, row_bottom = cursor_row * 8 + cursor_scan_end,
          col_left = cursor_col * 8, col_right = cursor_col * 8 + 8, cursor_enabled = en\<rparr>)"

definition CGA_is_graphics :: "CGA \<Rightarrow> bool" where
  "CGA_is_graphics c \<longleftrightarrow> mode_reg c AND push_bit 1 1 \<noteq> 0"

definition is_graphics_256 :: "CGA \<Rightarrow> bool" where
  "is_graphics_256 c \<longleftrightarrow> attribute_mode_control c = 0x41"

definition dac_level :: "u8 \<Rightarrow> u8" where
  "dac_level v = push_bit 2 (v AND 0x3f) AND 0xf0"

definition write_dac :: "CGA \<Rightarrow> u8 \<Rightarrow> CGA" where
  "write_dac c v =
     (let p = dac_palette c; i = dac_wr_sel c;
          c = (if dac_seq c = 0 then c\<lparr>dac_palette := p(i := (p i)\<lparr>red := dac_level v\<rparr>)\<rparr> else c);
          p = dac_palette c;
          c = (if dac_seq c = 1 then c\<lparr>dac_palette := p(i := (p i)\<lparr>green := dac_level v\<rparr>)\<rparr> else c);
          p = dac_palette c;
          c = (if dac_seq c = 2 then c\<lparr>dac_palette := p(i := (p i)\<lparr>blue := dac_level v\<rparr>)\<rparr> else c);
          c = c\<lparr>dac_seq := (dac_seq c + 1) mod 3\<rparr>
      in if dac_seq c = 0
         then c\<lparr>dac_wr_sel := dac_wr_sel c + 1, display := set_graphics_palette (display c) (dac_palette c)\<rparr>
         else c)"

definition write_color_control :: "CGA \<Rightarrow> u8 \<Rightarrow> CGA" where
  "write_color_control c v =
     (let palette_idx = drop_bit 4 v AND 0x3;
          palette = color_palettes ! unat palette_idx;
          palette = palette(0 := cga_full_palette ! unat (v AND 0x0f))
      in c\<lparr>display := set_graphics_palette (display c) palette\<rparr>)"

definition read_status :: "CGA \<Rightarrow> u8 \<times> CGA" where
  "read_status c =
     (let c = (if status_reads c mod 16 = 0 then c\<lparr>cga_status := cga_status c XOR 0x9\<rparr> else c);
          c = c\<lparr>status_reads := status_reads c + 1\<rparr>
      in (cga_status c, c))"

definition CGA_write8 :: "CGA \<Rightarrow> u16 \<Rightarrow> nat \<Rightarrow> u8 \<Rightarrow> CGA" where
  "CGA_write8 c port_num offs v =
     (let port_num = (if port_num \<ge> 0x20 then port_num - 0x20 else port_num) in
      if port_num = 0 \<and> offs = 0 then c\<lparr>reg_idx := v\<rparr>
      else if port_num = 0 \<and> offs = 1 then c\<lparr>idx_regs := (idx_regs c)(reg_idx c := v)\<rparr>
      else if port_num = 4 \<and> offs = 0 then c\<lparr>mode_reg := v AND 0xb\<rparr>
      else if port_num = 4 \<and> offs = 1 then write_color_control c v
      else if port_num = 0x0c \<and> offs = 0 then c\<lparr>attribute_mode_control := v\<rparr>
      else if port_num = 0x14 \<and> offs = 0 then c\<lparr>dac_wr_sel := v\<rparr>
      else if port_num = 0x14 \<and> offs = 1 then write_dac c v
      else c)"

definition CGA_read8 :: "CGA \<Rightarrow> u16 \<Rightarrow> nat \<Rightarrow> u8 \<times> CGA" where
  "CGA_read8 c port_num offs =
     (let port_num = (if port_num \<ge> 0x20 then port_num - 0x20 else port_num) in
      if port_num = 0 then (if offs = 0 then reg_idx c else idx_regs c (reg_idx c), c)
      else if port_num = 4 \<and> offs = 0 then (mode_reg c, c)
      else if port_num = 0xc \<and> offs = 0 then (attribute_mode_control c, c)
      else if port_num = 6 \<and> offs = 0 then read_status c
      else (0, c))"

definition update_text :: "CGA \<Rightarrow> Memory \<Rightarrow> CGA option" where
  "update_text c m = do {
     d \<leftarrow> for_each [0..<25] (\<lambda>row. for_each [0..<80] (\<lambda>col d. do {
            char_attr \<leftarrow> mem_read16 m (buffer_phys + of_nat ((row * 80 + col) * 2));
            write_char (set_cursor d row col) char_attr
          })) (display c);
     d \<leftarrow> refresh_text d (get_cursor c);
     Some (c\<lparr>display := d\<rparr>)
   }"

definition update_graphics :: "CGA \<Rightarrow> Memory \<Rightarrow> CGA option" where
  "update_graphics c m = do {
     d \<leftarrow> for_each [0..<200] (\<lambda>row. for_each [0..<320] (\<lambda>col d. do {
            let pixel_mem_address = (row div 2 * 320 + col) div 4;
            let pixel_mem_address = (if row mod 2 \<noteq> 0 then pixel_mem_address + 8192 else pixel_mem_address);
            let pixel_shift = (3 - col mod 4) * 2;
            pixel \<leftarrow> mem_read8 m (buffer_phys + of_nat pixel_mem_address);
            let pixel = drop_bit pixel_shift pixel;
            let pixel = pixel AND 0x3;
            set_pixel d row col pixel
          })) (display c);
     d \<leftarrow> refresh_graphics d;
     Some (c\<lparr>display := d\<rparr>)
   }"

definition update_graphics_256 :: "CGA \<Rightarrow> Memory \<Rightarrow> CGA option" where
  "update_graphics_256 c m = do {
     d \<leftarrow> for_each [0..<200] (\<lambda>row. for_each [0..<320] (\<lambda>col d. do {
            let pixel_mem_address = row * 320 + col;
            pixel \<leftarrow> mem_read8 m (vga_buffer_phys + of_nat pixel_mem_address);
            set_pixel d row col pixel
          })) (display c);
     d \<leftarrow> refresh_graphics d;
     Some (c\<lparr>display := d\<rparr>)
   }"

definition CGA_update :: "CGA \<Rightarrow> Memory \<Rightarrow> CGA option" where
  "CGA_update c m =
     (let c = c\<lparr>display := set_graphics (display c) (CGA_is_graphics c)\<rparr> in
      if is_graphics_256 c then update_graphics_256 c m
      else if CGA_is_graphics c then update_graphics c m
      else update_text c m)"

section \<open>The text screen\<close>

text \<open>The character and attribute of a cell in the frame buffer.\<close>

definition screen_word :: "Memory \<Rightarrow> nat \<Rightarrow> nat \<Rightarrow> u16" where
  "screen_word m row col =
     bytes_to_word (load_bytes (mem_bytes m) (buffer_phys + of_nat ((row * 80 + col) * 2)) 2)"

lemma buffer_in_range: "n < 16384 \<Longrightarrow> unat (buffer_phys + of_nat n) = 0xb8000 + n"
  by (simp add: buffer_phys_def unat_word_ariths unat_of_nat)

lemma cell_bound: "row < 25 \<Longrightarrow> col < 80 \<Longrightarrow> row * 80 + col < (2000 :: nat)" for row :: nat
  by linarith

lemma cell_index_inj:
  fixes row :: nat
  assumes e: "row * 81 + col = row' * 81 + col'" and "col < 80" "col' < 80"
  shows "row = row' \<and> col = col'"
  using arg_cong [OF e, of "\<lambda>n. n div 81"] arg_cong [OF e, of "\<lambda>n. n mod 81"] assms(2,3) by simp

lemma read_screen_word: "row < 25 \<Longrightarrow> col < 80 \<Longrightarrow>
    mem_read16 m (buffer_phys + of_nat ((row * 80 + col) * 2)) = Some (screen_word m row col)"
  using cell_bound [of row col] buffer_in_range [of "(row * 80 + col) * 2"]
  by (simp add: mem_read_def screen_word_def MEMORY_SIZE_def)

lemma text_loop:
  assumes "num_rows d = 25" "num_cols d = 80"
  shows "\<exists>ch r k. for_each [0..<25] (\<lambda>row. for_each [0..<80] (\<lambda>col d. do {
            char_attr \<leftarrow> mem_read16 m (buffer_phys + of_nat ((row * 80 + col) * 2));
            write_char (set_cursor d row col) char_attr
          })) d = Some (d\<lparr>characters := ch, disp_row := r, disp_col := k\<rparr>) \<and>
    (\<forall>row < 25. \<forall>col < 80. ch (row * 81 + col) = screen_word m row col)"
proof -
  let ?xs = "List.product [0..<25] [0..<80]" and ?k = "\<lambda>(row, col). row * 81 + col" and ?v = "\<lambda>(row, col). screen_word m row col"
  let ?f = "\<lambda>(row, col) d. mem_read16 m (buffer_phys + of_nat ((row * 80 + col) * 2)) \<bind> write_char (set_cursor d row col)"
  let ?r = "\<lambda>(row, col). if col = 79 then min (Suc row) 24 else row" and ?c = "\<lambda>(row :: nat, col). if col = 79 then 0 else Suc col"
  let ?g = "\<lambda>p e. e\<lparr>characters := (characters e)(?k p := ?v p), disp_row := ?r p, disp_col := ?c p\<rparr>"
  let ?P = "\<lambda>e. \<exists>ch r k. e = d\<lparr>characters := ch, disp_row := r, disp_col := k\<rparr>"
  have fe: "for_each ?xs ?f d = Some (fold ?g ?xs d) \<and> ?P (fold ?g ?xs d)"
  proof (rule for_each_fold)
    show "?P d" by (intro exI [of _ "characters d"] exI [of _ "disp_row d"] exI [of _ "disp_col d"]) simp
    fix p e assume p: "p \<in> set ?xs" and "?P e"
    then obtain row col ch r k where [simp]: "p = (row, col)" and b: "row < 25" "col < 80"
      and e: "e = d\<lparr>characters := ch, disp_row := r, disp_col := k\<rparr>" by auto
    have i: "row * 81 + col < 25 * 81" using b by linarith
    have rd: "?f p e = write_char (set_cursor e row col) (screen_word m row col)"
      unfolding \<open>p = (row, col)\<close> prod.case read_screen_word [OF b] by simp
    show "?f p e = Some (?g p e) \<and> ?P (?g p e)"
      unfolding rd using b i assms by (auto simp: e write_char_def set_cursor_def Let_def)
  qed
  have fc: "characters (fold ?g xs e) = fold (\<lambda>p f. f(?k p := ?v p)) xs (characters e)" for xs e
    by (induction xs arbitrary: e) simp_all
  from fe obtain ch r k where fd: "fold ?g ?xs d = d\<lparr>characters := ch, disp_row := r, disp_col := k\<rparr>" by blast
  have ch: "ch = fold (\<lambda>p f. f(?k p := ?v p)) ?xs (characters d)"
    using fc [of ?xs d] unfolding fd by simp
  have inj: "inj_on ?k (set ?xs)"
    by (rule inj_onI) (auto simp del: upt_rec_numeral dest!: cell_index_inj)
  have "ch (row * 81 + col) = screen_word m row col" if "row < 25" "col < 80" for row col
    using fold_upd_in [OF inj, of "(row, col)" ?v "characters d"] that by (simp add: ch)
  moreover note fe [unfolded fd]
  ultimately show ?thesis unfolding for_each_product by blast
qed

lemma update_text_window:
  assumes "num_rows (display c) = 25" "num_cols (display c) = 80" "\<not> CGA_is_graphics c" "\<not> is_graphics_256 c"
  shows "\<exists>c'. CGA_update c m = Some c' \<and> (\<forall>px py. px < 640 \<and> py < 200 \<longrightarrow>
    window (display c') (px, py) =
      cell_color (font_bitmap (display c)) (get_cursor c) (screen_word m (py div 8) (px div 8)) px py)"
proof -
  let ?d = "set_graphics (display c) False"
  have "num_rows ?d = 25" "num_cols ?d = 80" using assms by (simp_all add: set_graphics_def)
  from text_loop [OF this, of m] obtain ch r k where
    l: "for_each [0..<25] (\<lambda>row. for_each [0..<80] (\<lambda>col d. do {
            char_attr \<leftarrow> mem_read16 m (buffer_phys + of_nat ((row * 80 + col) * 2));
            write_char (set_cursor d row col) char_attr
          })) ?d = Some (?d\<lparr>characters := ch, disp_row := r, disp_col := k\<rparr>)"
    "\<forall>row < 25. \<forall>col < 80. ch (row * 81 + col) = screen_word m row col" by blast
  let ?e = "?d\<lparr>characters := ch, disp_row := r, disp_col := k\<rparr>"
  have "\<not> is_graphics ?e" by (simp add: set_graphics_def)
  from refresh_text_window [OF this, of "get_cursor c"] obtain w where
    w: "refresh_text ?e (get_cursor c) = Some (?e\<lparr>window := w\<rparr>)"
    "\<forall>px py. px < 8 * num_cols ?e \<and> py < 8 * num_rows ?e \<longrightarrow> w (px, py) = text_point ?e (get_cursor c) px py" by blast
  have gc: "get_cursor (c\<lparr>display := x\<rparr>) = get_cursor c" for x by (simp add: get_cursor_def)
  have up: "CGA_update c m = Some (c\<lparr>display := ?e\<lparr>window := w\<rparr>\<rparr>)"
    using assms l(1) w(1) gc
    by (simp add: CGA_update_def update_text_def CGA_is_graphics_def is_graphics_256_def Let_def del: upt_rec_numeral)
  have "w (px, py) = cell_color (font_bitmap (display c)) (get_cursor c) (screen_word m (py div 8) (px div 8)) px py"
    if "px < 640" "py < 200" for px py
    using that w(2) l(2) assms(1,2) by (simp add: text_point_def set_graphics_def less_mult_imp_div_less)
  with up show ?thesis by auto
qed

text \<open>
  The text screen shows the frame buffer: in text mode \<open>update\<close> succeeds for every content of the memory, and
  each of the 640 by 200 points of the window has the colour that the font, the attribute and the cursor
  give to the word at b8000 of the cell the point lies in (80 columns, 25 rows, 8 by 8 points each). Of a
  row of a glyph, column 0 shows bit 7 again and bit 0 is not shown.
\<close>

theorem cga_shows_text:
  assumes "num_rows (display c) = 25" "num_cols (display c) = 80" "\<not> CGA_is_graphics c" "\<not> is_graphics_256 c"
  shows "\<exists>c'. CGA_update c m = Some c' \<and> (\<forall>px py. px < 640 \<and> py < 200 \<longrightarrow>
    window (display c') (px, py) =
      cell_color (font_bitmap (display c)) (get_cursor c) (screen_word m (py div 8) (px div 8)) px py)"
  by (rule update_text_window [OF assms])

theorem cga_shows_text_witness:
  "\<exists>c'. CGA_update (CGA_new (Display_new (\<lambda>_. 0) (\<lambda>_. 0) cga_alt_palette) 0 cga_alt_palette) (Memory_new False) = Some c' \<and>
    (\<forall>px py. px < 640 \<and> py < 200 \<longrightarrow> window (display c') (px, py) =
      cell_color (\<lambda>_. 0) (get_cursor (CGA_new (Display_new (\<lambda>_. 0) (\<lambda>_. 0) cga_alt_palette) 0 cga_alt_palette))
        (screen_word (Memory_new False) (py div 8) (px div 8)) px py)"
  using cga_shows_text [of "CGA_new (Display_new (\<lambda>_. 0) (\<lambda>_. 0) cga_alt_palette) 0 cga_alt_palette" "Memory_new False"]
  by (simp add: CGA_new_def Display_new_def set_graphics_palette_def CGA_is_graphics_def is_graphics_256_def)

end
