(* ===== verification/Simulator.thy ===== *)
theory Simulator
  imports SoftwareCPU PIC Timer UART PS2 SPI CGA
begin

text \<open>
  The simulator (sim/Simulator.cpp) with the software CPU: the devices on the I/O bus, the callback that runs them before
  each instruction, the loading of the BIOS and the main loop. The state of all devices, with the two
  members of \<open>Simulator\<close> that the callback changes, is the record \<open>devices\<close>, the type \<open>'d\<close> of the CPU here.

  A device raises an interrupt by calling the controller, which may call the CPU: the lines a device raised are fed
  to \<open>PIC_raise_irq\<close> one by one. What the host system delivers to \<open>process_io\<close> (a character of the
  standard input, an SDL event, the mouse position, the keys held down) is the record \<open>host_input\<close>. The printed
  messages, the trace output, the timing statistics and the command line are not modelled.
\<close>

section \<open>Devices\<close>

record devices =
  pic :: PIC
  uart :: UART
  spi :: SPI
  timer :: TimerTick
  cga :: CGA
  kbd :: PS2
  mouse :: Mouse
  got_exit :: bool
  last_cycle :: u64

type_synonym sim_port = "devices IOPorts"

text \<open>\<open>pic->raise_irq\<close> for each of the given lines.\<close>

fun pic_raise :: "PIC \<Rightarrow> nat list \<Rightarrow> PIC \<times> int list" where
  "pic_raise p [] = (p, [])"
| "pic_raise p (n # ns) = (let (p, l) = PIC_raise_irq p n; (p, l') = pic_raise p ns in (p, l @ l'))"

definition with_lines :: "'a \<Rightarrow> devices \<Rightarrow> nat list \<Rightarrow> 'a \<times> devices \<times> int list" where
  "with_lines v d ns = (let (p, l) = pic_raise (pic d) ns in (v, d\<lparr>pic := p\<rparr>, l))"

subsection \<open>The I/O ports of each device\<close>

definition byte_port :: "u16 \<Rightarrow> nat \<Rightarrow> (u16 \<Rightarrow> nat \<Rightarrow> (u8, 'd) io_op) \<Rightarrow> (u16 \<Rightarrow> nat \<Rightarrow> u8 \<Rightarrow> (unit, 'd) io_op) \<Rightarrow> 'd IOPorts" where
  "byte_port base n rd wr = \<lparr>port_base = base, num_ports = n, io_read8 = rd, io_read16 = IOPorts_read16 rd,
     io_write8 = wr, io_write16 = IOPorts_write16 wr\<rparr>"

definition SDRAMConfigRegister_read8 :: "u16 \<Rightarrow> nat \<Rightarrow> u8" where
  "SDRAMConfigRegister_read8 port_num offs = (if offs = 0 then 0x1 else 0)"

definition sdram_config_register :: sim_port where
  "sdram_config_register = byte_port 0xfffc 1 (\<lambda>n offs d. Some (SDRAMConfigRegister_read8 n offs, d, [])) (\<lambda>_ _ _ d. Some ((), d, []))"

definition uart_port :: sim_port where
  "uart_port = \<lparr>port_base = 0xfffa, num_ports = 1,
     io_read8 = (\<lambda>n offs d. let (v, u) = UART_read8 (uart d) n offs in Some (v, d\<lparr>uart := u\<rparr>, [])),
     io_read16 = (\<lambda>n d. let (v, u) = UART_read16 (uart d) n in Some (v, d\<lparr>uart := u\<rparr>, [])),
     io_write8 = (\<lambda>n offs v d. Some ((), d\<lparr>uart := UART_write8 (uart d) n offs v\<rparr>, [])),
     io_write16 = (\<lambda>n v d. Some ((), d\<lparr>uart := UART_write16 (uart d) n v\<rparr>, []))\<rparr>"

definition spi_port :: sim_port where
  "spi_port = \<lparr>port_base = 0xfff0, num_ports = 2,
     io_read8 = (\<lambda>n offs d. Some (SPI_read8 (spi d) n offs, d, [])),
     io_read16 = (\<lambda>n d. Some (SPI_read16 (spi d) n, d, [])),
     io_write8 = (\<lambda>n offs v d. do { s \<leftarrow> SPI_write8 (spi d) n offs v; Some ((), d\<lparr>spi := s\<rparr>, []) }),
     io_write16 = (\<lambda>n v d. do { s \<leftarrow> SPI_write16 (spi d) n v; Some ((), d\<lparr>spi := s\<rparr>, []) })\<rparr>"

definition timer_port :: sim_port where
  "timer_port = byte_port 0x0040 2
     (\<lambda>n offs d. do { (v, t) \<leftarrow> TimerTick_read8 (timer d) n offs; Some (v, d\<lparr>timer := t\<rparr>, []) })
     (\<lambda>n offs v d. do { t \<leftarrow> TimerTick_write8 (timer d) n offs v; Some ((), d\<lparr>timer := t\<rparr>, []) })"

definition cga_port :: sim_port where
  "cga_port = byte_port 0x03b4 128
     (\<lambda>n offs d. let (v, c) = CGA_read8 (cga d) n offs in Some (v, d\<lparr>cga := c\<rparr>, []))
     (\<lambda>n offs v d. Some ((), d\<lparr>cga := CGA_write8 (cga d) n offs v\<rparr>, []))"

definition kbd_port :: sim_port where
  "kbd_port = byte_port 0x0060 1
     (\<lambda>n offs d. let (v, k) = PS2_read8 False (kbd d) n offs in Some (v, d\<lparr>kbd := k\<rparr>, []))
     (\<lambda>n offs v d. Some ((), d\<lparr>kbd := PS2_write8 (kbd d) n offs v\<rparr>, []))"

definition pic_port :: sim_port where
  "pic_port = byte_port 0x0020 1
     (\<lambda>n offs d. Some (PIC_read8 (pic d) n offs, d, []))
     (\<lambda>n offs v d. do { p \<leftarrow> PIC_write8 (pic d) n offs v; Some ((), d\<lparr>pic := p\<rparr>, []) })"

definition mouse_port :: sim_port where
  "mouse_port = byte_port 0xffe0 1
     (\<lambda>n offs d. let (v, m) = Mouse_read8 (mouse d) n offs in Some (v, d\<lparr>mouse := m\<rparr>, []))
     (\<lambda>n offs v d. let (m, l) = Mouse_write8 (mouse d) n offs v in Some (with_lines () (d\<lparr>mouse := m\<rparr>) l))"

definition pic_inta :: "int \<Rightarrow> (unit, devices) io_op" where
  "pic_inta irq_num d = do { p \<leftarrow> PIC_inta_handler (pic d) irq_num; Some ((), d\<lparr>pic := p\<rparr>, []) }"

section \<open>The callback\<close>

record host_input =
  stdin_char :: "u8 option"
  sdl_event :: "(SDL_EventType \<times> SDL_Keycode \<times> MouseButton) option"
  mouse_at :: "int \<times> int"
  exit_keys :: bool
  capture_keys :: bool

definition process_io :: "host_input \<Rightarrow> (unit, devices) io_op" where
  "process_io h d =
     (let d = (case stdin_char h of None \<Rightarrow> d
               | Some c \<Rightarrow> if c = 0x1d then d\<lparr>got_exit := True\<rparr> else d\<lparr>uart := UART_add_char (uart d) (sint c)\<rparr>);
          (d, l1) = (case sdl_event h of None \<Rightarrow> (d, [])
               | Some (ty, key, button) \<Rightarrow>
                   if ty = SDL_QUIT then (d\<lparr>got_exit := True\<rparr>, [])
                   else if ty = SDL_KEYDOWN \<or> ty = SDL_KEYUP then
                     let (k, l) = Keyboard_process_event (kbd d) ty key in (d\<lparr>kbd := k\<rparr>, l)
                   else if ty = SDL_MOUSEBUTTONDOWN \<or> ty = SDL_MOUSEBUTTONUP then
                     let (m, l) = Mouse_process_event (mouse d) ty button in (d\<lparr>mouse := m\<rparr>, l)
                   else (d, []));
          (m, l2) = Mouse_update (mouse d) (fst (mouse_at h)) (snd (mouse_at h));
          d = d\<lparr>mouse := m\<rparr>;
          d = (if exit_keys h then d\<lparr>got_exit := True\<rparr> else d);
          d = (if capture_keys h then d\<lparr>mouse := toggle_capture (mouse d)\<rparr> else d)
      in Some (with_lines () d (l1 @ l2)))"

text \<open>The memory is that of the CPU at the time of the call, which the adapter reads.\<close>

definition io_callback :: "Memory \<Rightarrow> host_input \<Rightarrow> u64 \<Rightarrow> (unit, devices) io_op" where
  "io_callback m h cycle_num d = do {
     d \<leftarrow> (if cycle_num mod 1000000 = 0 then do { c \<leftarrow> CGA_update (cga d) m; Some (d\<lparr>cga := c\<rparr>) } else Some d);
     (_, d, l1) \<leftarrow> (if cycle_num mod 1000 = 0 then process_io h d else Some ((), d, []));
     let (t, ns) = TimerTick_tick (timer d) (ucast ((cycle_num - last_cycle d) + 1));
     let (_, d, l2) = with_lines () (d\<lparr>timer := t\<rparr>) ns;
     Some ((), d\<lparr>last_cycle := cycle_num\<rparr>, l1 @ l2)
   }"

section \<open>Construction and the main loop\<close>

type_synonym sim = "devices SoftwareCPU"

text \<open>
  A file opened for reading, as \<open>load_bios\<close> reads it: \<open>read(&v, 1)\<close> leaves \<open>v\<close> alone when there is no byte, and only
  the end of the file, not the failure to open it, sets the end-of-file state.
\<close>

record ifstream =
  remaining :: "u8 list"
  at_eof :: bool
  bad :: bool

definition read1 :: "ifstream \<Rightarrow> u8 \<Rightarrow> u8 \<times> ifstream" where
  "read1 f v =
     (if bad f then (v, f)
      else case remaining f of
        [] \<Rightarrow> (v, f\<lparr>at_eof := True, bad := True\<rparr>)
      | b # bs \<Rightarrow> (b, f\<lparr>remaining := bs\<rparr>))"

definition open_file :: "u8 list option \<Rightarrow> ifstream" where
  "open_file contents =
     (case contents of
        None \<Rightarrow> \<lparr>remaining = [], at_eof = False, bad = True\<rparr>
      | Some bs \<Rightarrow> \<lparr>remaining = bs, at_eof = False, bad = False\<rparr>)"

text \<open>The loop over the file; \<open>junk\<close> is the value of the uninitialised \<open>v\<close> in an iteration that reads nothing.\<close>

partial_function (option) load_loop :: "u8 \<Rightarrow> ifstream \<Rightarrow> u32 \<Rightarrow> sim \<Rightarrow> sim option" where
  "load_loop junk f offs c =
     (if at_eof f then Some c
      else do {
        let (v, f) = read1 f junk;
        c \<leftarrow> write_mem8 c 0xfc00 (ucast offs) v;
        load_loop junk f (offs + 1) c
      })"

definition load_bios :: "u8 \<Rightarrow> u8 list option \<Rightarrow> sim \<Rightarrow> sim option" where
  "load_bios junk contents c = do {
     c \<leftarrow> load_loop junk (open_file contents) 0 c;
     c \<leftarrow> write_mem8 c 0xf000 0xfffe 0xff;
     c \<leftarrow> write_mem8 c 0xf000 0x0002 0xff;
     c \<leftarrow> write_mem8 c 0xf000 0x0000 8;
     Some (write_reg (write_reg c CS 0xffff) IP 0x0000)
   }"

text \<open>The devices as constructed: the keyboard announces itself through the controller.\<close>

definition devices_new :: "fstream \<Rightarrow> u8 \<Rightarrow> u32 \<Rightarrow> CGA \<Rightarrow> devices \<times> int list" where
  "devices_new disk va wc c0 =
     (let (k, ns) = Keyboard_new; (p, l) = pic_raise (PIC_new va) ns
      in (\<lparr>pic = p, uart = UART_new, spi = SPI_new disk wc, timer = TimerTick_new, cga = c0, kbd = k,
           mouse = Mouse_new, got_exit = False, last_cycle = 0\<rparr>, l))"

definition sim_ports :: "sim_port list" where
  "sim_ports = [sdram_config_register, uart_port, spi_port, timer_port, cga_port, kbd_port, pic_port, mouse_port]"

text \<open>
  The constructor. The arguments \<open>c\<close> and \<open>d\<close> are the CPU and the devices as their constructors left them, \<open>l\<close> the
  interrupts these raised.
\<close>

definition Simulator_new :: "u8 \<Rightarrow> u8 list option \<Rightarrow> sim \<Rightarrow> devices \<Rightarrow> int list \<Rightarrow> sim option" where
  "Simulator_new junk bios c d l =
     (let c = set_inta_handler c pic_inta;
          c = c\<lparr>emulator := foldl raise_irq ((emulator c)\<lparr>devs := d\<rparr>) l\<rparr>;
          c = foldl add_ioport c sim_ports;
          c = cpu_reset c
      in load_bios junk bios c)"

text \<open>
  An iteration of \<open>run\<close>. The detached mode calls \<open>cycle_cpu_with_io\<close>, which the software CPU does not implement and
  which therefore throws.
\<close>

definition run_iteration :: "bool \<Rightarrow> host_input \<Rightarrow> sim \<Rightarrow> sim option" where
  "run_iteration detached h c =
     (if detached then None
      else do {
        (instr_len, c) \<leftarrow> cpu_step_with_io c (io_callback (mem (emulator c)) h);
        Some c
      })"

text \<open>The loop \<open>while (!got_exit)\<close>, for as many iterations as the host delivered inputs.\<close>

fun run :: "bool \<Rightarrow> host_input list \<Rightarrow> sim \<Rightarrow> sim option" where
  "run detached [] c = Some c"
| "run detached (h # hs) c =
     (if got_exit (devs (emulator c)) then Some c
      else run_iteration detached h c \<bind> run detached hs)"

section \<open>The BIOS\<close>

lemma load_loop_vector:
  "load_loop junk \<lparr>remaining = bs, at_eof = False, bad = False\<rparr> offs c =
     write_vector8_from c 0xfc00 0 (ucast offs) (bs @ [junk])"
proof (induction bs arbitrary: offs c)
  case Nil
  show ?case
    by (subst load_loop.simps) (auto simp: read1_def load_loop.simps [of _ "\<lparr>remaining = [], at_eof = True, bad = True\<rparr>"]
        split: Option.bind_splits)
next
  case (Cons b bs)
  have "load_loop junk \<lparr>remaining = bs, at_eof = False, bad = False\<rparr> (offs + 1) =
      (\<lambda>c. write_vector8_from c 0xfc00 0 (ucast offs + 1) (bs @ [junk]))"
    by (rule ext) (simp add: Cons.IH ucast_u16_plus_one)
  then show ?case
    by (subst load_loop.simps) (simp add: read1_def)
qed

lemma load_loop_missing:
  assumes "load_loop junk f offs c = Some r"
  shows "bad f \<longrightarrow> at_eof f"
proof (rule load_loop.raw_induct [where P = "\<lambda>junk f offs c r. bad f \<longrightarrow> at_eof f", OF _ assms])
  fix loop :: "u8 \<Rightarrow> ifstream \<Rightarrow> u32 \<Rightarrow> sim \<Rightarrow> sim option" and junk f offs c r
  assume IH: "\<And>junk f offs c r. loop junk f offs c = Some r \<Longrightarrow> bad f \<longrightarrow> at_eof f"
    and body: "(if at_eof f then Some c else let (v, f) = read1 f junk
        in write_mem8 c 0xfc00 (ucast offs) v \<bind> loop junk f (offs + 1)) = Some r"
  show "bad f \<longrightarrow> at_eof f"
    using body by (auto simp: read1_def bind_eq_Some split: if_splits dest: IH)
qed

lemma load_bios_missing: "load_bios junk None c = None"
  using load_loop_missing [of junk "open_file None" 0 c]
  by (cases "load_loop junk (open_file None) 0 c") (auto simp: load_bios_def open_file_def)

lemma bios_addr: "i < 16384 \<Longrightarrow> string_addr 0xfc00 0 i = 0xfc000 + of_nat i"
  unfolding string_addr_def
  by (simp add: word_unat_eq_iff get_phys_addr_wrap unsigned_ucast_eq take_bit_eq_mod unat_of_nat unat_word_ariths MEMORY_SIZE_def)

lemma patch_addrs:
  "get_phys_addr 0xf000 0xfffe = 0xffffe" "get_phys_addr 0xf000 2 = 0xf0002" "get_phys_addr 0xf000 0 = 0xf0000"
  by (simp_all add: get_phys_addr_def)

lemma foldl_add_ioport_sel [simp]:
  "devs (emulator (foldl add_ioport c ps)) = devs (emulator c)" "mem (emulator (foldl add_ioport c ps)) = mem (emulator c)"
  "regs (emulator (foldl add_ioport c ps)) = regs (emulator c)" "num_cycles (foldl add_ioport c ps) = num_cycles c"
  "inta_handler (emulator (foldl add_ioport c ps)) = inta_handler (emulator c)"
  by (induction ps arbitrary: c) (simp_all add: add_ioport_def)

lemma foldl_raise_irq_sel [simp]:
  "devs (foldl raise_irq s l) = devs s" "mem (foldl raise_irq s l) = mem s" "regs (foldl raise_irq s l) = regs s"
  "io (foldl raise_irq s l) = io s" "inta_handler (foldl raise_irq s l) = inta_handler s"
  by (induction l arbitrary: s) (simp_all add: raise_irq_def)

lemma bios_offset_differs:
  assumes "i < 16384"
  shows "(0xfc000 + of_nat i :: u32) \<noteq> 0xf0002" "(0xfc000 + of_nat i :: u32) \<noteq> 0xf0000"
    "i \<noteq> 0x3ffe \<Longrightarrow> (0xfc000 + of_nat i :: u32) \<noteq> 0xffffe"
  using assms by (auto simp: word_unat_eq_iff unat_word_ariths unat_of_nat)

lemma load_bios_bytes:
  assumes "length bs \<le> 16384"
  shows "\<exists>m. load_bios junk (Some bs) c = Some (write_reg (write_reg (c\<lparr>emulator := (emulator c)\<lparr>mem := m\<rparr>\<rparr>) CS 0xffff) IP 0) \<and>
    (\<forall>i < length bs. i \<noteq> 0x3ffe \<longrightarrow> mem_read8 m (0xfc000 + of_nat i) = Some (bs ! i))"
proof -
  have "length (bs @ [junk]) \<le> 65536" using assms by simp
  from write_vector8_bytes [OF this, of c "0xfc00" 0] obtain m where
    w: "write_vector8 c 0xfc00 0 (bs @ [junk]) = Some (c\<lparr>emulator := (emulator c)\<lparr>mem := m\<rparr>\<rparr>)" and
    m: "\<forall>i < length (bs @ [junk]). mem_read8 m (string_addr 0xfc00 0 i) = Some ((bs @ [junk]) ! i)" by blast
  let ?m = "m\<lparr>mem_bytes := (mem_bytes m)(0xffffe := 0xff, 0xf0002 := 0xff, 0xf0000 := 8), mem_written := True\<rparr>"
  have wm: "write_mem8 c g a v = Some (c\<lparr>emulator := (emulator c)\<lparr>mem := (mem (emulator c))
      \<lparr>mem_bytes := (mem_bytes (mem (emulator c)))(get_phys_addr g (ucast a) := v), mem_written := True\<rparr>\<rparr>\<rparr>)" for c :: sim and g a v
    by (simp add: write_mem8_def on_emulator_def mwrite_def)
  have l: "load_bios junk (Some bs) c = Some (write_reg (write_reg (c\<lparr>emulator := (emulator c)\<lparr>mem := ?m\<rparr>\<rparr>) CS 0xffff) IP 0)"
    using w by (simp add: load_bios_def open_file_def load_loop_vector write_vector8_def [symmetric] wm patch_addrs)
  have "mem_read8 ?m (0xfc000 + of_nat i) = Some (bs ! i)" if i: "i < length bs" "i \<noteq> 0x3ffe" for i
  proof -
    have "mem_read8 m (0xfc000 + of_nat i) = Some (bs ! i)"
      using m [rule_format, of i] i assms by (simp add: bios_addr nth_append)
    with bios_offset_differs [of i] i assms show ?thesis by (simp add: mem_read_def ucast_id split: if_splits)
  qed
  with l show ?thesis by blast
qed

text \<open>
  C30. The simulator starts in the BIOS: the constructor returns for every file of at most 16384 bytes, whatever the devices
  did while they were constructed; the file is in memory from fc000 on (but for the byte at ffffe, which is
  overwritten), the processor is at ffff:0000, which is offset 3ff0 of the file, with interrupts disabled and none
  pending. When the file cannot be opened the constructor does not return.
\<close>

theorem simulator_boots:
  assumes "length bs \<le> 16384"
  shows "(\<exists>c'. Simulator_new junk (Some bs) c d l = Some c' \<and> devs (emulator c') = d \<and>
      read_reg c' CS = 0xffff \<and> read_reg c' IP = 0 \<and>
      get_phys_addr (read_reg c' CS) (ucast (read_reg c' IP)) = 0xfc000 + 0x3ff0 \<and>
      \<not> fget (emulator c') IF \<and> pending_irq (emulator c') = 0 \<and> \<not> nmi_pending (emulator c') \<and>
      (\<forall>i < length bs. i \<noteq> 0x3ffe \<longrightarrow> mem_read8 (mem (emulator c')) (0xfc000 + of_nat i) = Some (bs ! i))) \<and>
    Simulator_new junk None c d l = None"
proof -
  let ?c = "cpu_reset (foldl add_ioport ((set_inta_handler c pic_inta)\<lparr>emulator :=
      foldl raise_irq ((emulator (set_inta_handler c pic_inta))\<lparr>devs := d\<rparr>) l\<rparr>) sim_ports)"
  have new: "Simulator_new junk b c d l = load_bios junk b ?c" for b by (simp add: Simulator_new_def Let_def)
  from load_bios_bytes [OF assms, of junk ?c] obtain m where
    m: "load_bios junk (Some bs) ?c = Some (write_reg (write_reg (?c\<lparr>emulator := (emulator ?c)\<lparr>mem := m\<rparr>\<rparr>) CS 0xffff) IP 0)"
    "\<forall>i < length bs. i \<noteq> 0x3ffe \<longrightarrow> mem_read8 m (0xfc000 + of_nat i) = Some (bs ! i)" by blast
  have r: "devs (emulator ?c) = d" "pending_irq (emulator ?c) = 0" "\<not> nmi_pending (emulator ?c)" "\<not> fget (emulator ?c) IF"
    by (simp_all add: cpu_reset_def reset_def) (simp add: reg_reset_def bit_stuck)
  have s: "rflags (reg_set f x v) = rflags f" for f x v by (cases x) (simp_all add: reg_set_def set_low_def set_high_def)
  have a: "get_phys_addr 0xffff (ucast (0 :: u16)) = 0xfc000 + 0x3ff0" by (simp add: get_phys_addr_def)
  show ?thesis unfolding new load_bios_missing m(1) using m(2) r a
    by (auto simp: write_reg_def read_reg_def s)
qed

theorem simulator_boots_witness:
  "\<exists>c'. Simulator_new 7 (Some [0xfa, 0xfc, 0xea])
      (SoftwareCPU_new False False (fst (devices_new \<lparr>disk_bytes = [], fpos = 0, failed = False\<rparr> 8 0
        (CGA_new (Display_new (\<lambda>_. 0) (\<lambda>_. 0) cga_alt_palette) 0 cga_alt_palette))) False DS (ModRMDecoder_new 0 False False) 0)
      (fst (devices_new \<lparr>disk_bytes = [], fpos = 0, failed = False\<rparr> 8 0
        (CGA_new (Display_new (\<lambda>_. 0) (\<lambda>_. 0) cga_alt_palette) 0 cga_alt_palette))) [9] = Some c' \<and>
     mem_read8 (mem (emulator c')) 0xfc001 = Some 0xfc \<and> pending_irq (emulator c') = 0"
proof -
  let ?d = "fst (devices_new \<lparr>disk_bytes = [], fpos = 0, failed = False\<rparr> 8 0
    (CGA_new (Display_new (\<lambda>_. 0) (\<lambda>_. 0) cga_alt_palette) 0 cga_alt_palette))"
  let ?c = "SoftwareCPU_new False False ?d False DS (ModRMDecoder_new 0 False False) 0"
  have "length [0xfa, 0xfc, 0xea :: u8] \<le> 16384" by simp
  from conjunct1 [OF simulator_boots [OF this, of 7 ?c ?d "[9]"]] obtain c' where
    c': "Simulator_new 7 (Some [0xfa, 0xfc, 0xea]) ?c ?d [9] = Some c'" "pending_irq (emulator c') = 0"
    and b: "\<forall>i < length [0xfa, 0xfc, 0xea :: u8]. i \<noteq> 0x3ffe \<longrightarrow>
      mem_read8 (mem (emulator c')) (0xfc000 + of_nat i) = Some ([0xfa, 0xfc, 0xea] ! i)" by blast
  from b [rule_format, of 1] have "mem_read8 (mem (emulator c')) 0xfc001 = Some 0xfc" by simp
  with c' show ?thesis by blast
qed

section \<open>A timer interrupt, end to end\<close>

lemma mod_1000: "c mod 1000 \<noteq> 0 \<Longrightarrow> c mod 1000000 \<noteq> 0" for c :: u64
proof
  assume "c mod 1000 \<noteq> 0" "c mod 1000000 = 0"
  then have "unat c mod 1000000 = 0" "unat c mod 1000 \<noteq> 0"
    using unat_mod_distrib [of c 1000000] unat_mod_distrib [of c 1000] by (simp_all add: word_unat_eq_iff)
  moreover have "unat c mod 1000000 mod 1000 = unat c mod 1000" by (rule mod_mod_cancel) simp
  ultimately show False by simp
qed

text \<open>An idle callback only lets the timer run.\<close>

lemma io_callback_tick:
  "cycle_num mod 1000 \<noteq> 0 \<Longrightarrow> io_callback m h cycle_num d =
     (let (t, ns) = TimerTick_tick (timer d) (ucast ((cycle_num - last_cycle d) + 1));
          (_, d, l) = with_lines () (d\<lparr>timer := t\<rparr>) ns
      in Some ((), d\<lparr>last_cycle := cycle_num\<rparr>, l))"
  by (simp add: io_callback_def mod_1000 split_beta Let_def)

lemma PIC_raise_top:
  "pic_mask p AND 1 = 0 \<Longrightarrow> isr p AND 1 = 0 \<Longrightarrow>
   PIC_raise_irq p 0 = (p\<lparr>irr := irr p OR 1\<rparr>, [uint (vector_address p)])"
  by (simp add: PIC_raise_irq_def Let_def upt_rec and.commute bit.conj_disj_distrib)

lemma PIC_ack_top:
  "PIC_inta_handler p (uint (vector_address p)) = Some (p\<lparr>isr := isr p OR 1, irr := irr p AND NOT 1\<rparr>)"
  by (simp add: PIC_inta_handler_def Let_def)

text \<open>
  C3. The timer interrupts the processor: when its count runs out in the callback before an instruction, line 0 is neither
  masked nor in service and the processor accepts interrupts, that iteration of the main loop reloads the
  timer and enters the handler at four times the vector base of the controller (a later \<open>iret\<close> resumes
  the interrupted program), leaving line 0 in service and no longer requested.
\<close>

theorem timer_interrupt:
  assumes d: "d = devs (emulator c)" and s: "s = emulator c" and n: "cycle_num = num_cycles c + 1"
    and idle: "cycle_num mod 1000 \<noteq> 0"
    and timer: "enabled (timer d)" "operating_mode (timer d) = 2" "count (timer d) \<le> ucast (cycle_num - last_cycle d + 1)"
    and pic: "inta_handler s = pic_inta" "pic_mask (pic d) AND 1 = 0" "isr (pic d) AND 1 = 0" "vector_address (pic d) \<noteq> 0"
    and cpu: "\<not> nmi_pending s" "\<not> ext_int_inhibit s" "fget s IF" "\<not> fget s TF" "flags_ok (regs s)" "unat (rget s SS) \<le> 0xeffe"
  shows "\<exists>c'. run_iteration False h c = Some c' \<and>
    entered s (4 * ucast (vector_address (pic d))) (emulator c') \<and> pending_irq (emulator c') = 0 \<and>
    pic (devs (emulator c')) = (pic d)\<lparr>isr := isr (pic d) OR 1, irr := (irr (pic d) OR 1) AND NOT 1\<rparr> \<and>
    timer (devs (emulator c')) = do_reload (timer d) \<and> last_cycle (devs (emulator c')) = cycle_num \<and>
    num_cycles c' = cycle_num"
proof -
  let ?v = "vector_address (pic d)" and ?p = "(pic d)\<lparr>irr := irr (pic d) OR 1\<rparr>"
  let ?d1 = "d\<lparr>timer := do_reload (timer d), pic := ?p, last_cycle := cycle_num\<rparr>"
  let ?s1 = "s\<lparr>devs := ?d1, pending_irq := ?v\<rparr>"
  have cb: "io_callback m h cycle_num d = Some ((), ?d1, [uint ?v])" for m
    using timer PIC_raise_top [OF pic(2,3)]
    by (simp add: io_callback_tick [OF idle] TimerTick_tick_def with_lines_def)
  have call: "io_call (io_callback m h cycle_num) s = Some ((), ?s1)" for m
    using d s cb by (simp add: io_call_def raise_irq_def)
  let ?d2 = "?d1\<lparr>pic := ?p\<lparr>isr := isr ?p OR 1, irr := irr ?p AND NOT 1\<rparr>\<rparr>"
  have ack: "inta_handler ?s1 (uint (pending_irq ?s1)) (devs ?s1) = Some ((), ?d2, [])"
    using pic(1) PIC_ack_top [of ?p] by (simp add: pic_inta_def)
  have pre: "\<not> nmi_pending ?s1" "pending_irq ?s1 = ?v" "pending_irq ?s1 \<noteq> 0" "\<not> ext_int_inhibit ?s1" "fget ?s1 IF" "\<not> fget ?s1 TF"
    "flags_ok (regs ?s1)" "unat (rget ?s1 SS) \<le> 0xeffe" using cpu pic(4) by simp_all
  from irq_step_succeeds [OF pre(1,3,4,5,6) ack pre(8)] obtain t where t: "step ?s1 = Some (0, t)" by blast
  from irq_taken [OF pre(1) refl pre(3,4,5,6,7) ack t] have t': "pending_irq t = 0" "devs t = ?d2" "entered ?s1 (4 * ucast ?v) t"
    by simp_all
  have "run_iteration False h c = Some (c\<lparr>num_cycles := cycle_num, emulator := t\<rparr>)"
    using call t s n by (simp add: run_iteration_def cpu_step_with_io_def step_with_io_def)
  with t' entered_cong [of ?s1 s] show ?thesis by auto
qed

text \<open>A machine as the BIOS leaves it with the timer about to fire, for the example below.\<close>

definition demo_devices :: devices where
  "demo_devices = fst (devices_new \<lparr>disk_bytes = [], fpos = 0, failed = False\<rparr> 8 0
     (CGA_new (Display_new (\<lambda>_. 0) (\<lambda>_. 0) cga_alt_palette) 0 cga_alt_palette))"

definition demo_sim :: sim where
  "demo_sim = write_flags (set_inta_handler (SoftwareCPU_new False False
     (demo_devices\<lparr>timer := TimerTick_new\<lparr>enabled := True, operating_mode := 2, count := 1\<rparr>\<rparr>)
     False DS (ModRMDecoder_new 0 False False) 0) pic_inta) 0x200"

lemma demo_sim_sel:
  "num_cycles demo_sim = 0" "inta_handler (emulator demo_sim) = pic_inta" "\<not> nmi_pending (emulator demo_sim)"
  "\<not> ext_int_inhibit (emulator demo_sim)" "rget (emulator demo_sim) SS = 0"
  "flags_ok (regs (emulator demo_sim))" "fget (emulator demo_sim) IF" "\<not> fget (emulator demo_sim) TF"
proof -
  show "num_cycles demo_sim = 0" "inta_handler (emulator demo_sim) = pic_inta" "\<not> nmi_pending (emulator demo_sim)"
    "\<not> ext_int_inhibit (emulator demo_sim)" "rget (emulator demo_sim) SS = 0"
    by (simp_all add: demo_sim_def write_flags_def set_inta_handler_def SoftwareCPU_new_def EmulatorPimpl_new_def reset_def
        reg_reset_def set_flags_def Let_def reg_get_def)
  show "flags_ok (regs (emulator demo_sim))"
    by (simp add: demo_sim_def write_flags_def set_inta_handler_def SoftwareCPU_new_def EmulatorPimpl_new_def reset_def)
  show "fget (emulator demo_sim) IF" "\<not> fget (emulator demo_sim) TF"
    by (simp_all add: demo_sim_def write_flags_def bit_set_flags flag_positions_def)
qed

lemma demo_devices_sel:
  "devs (emulator demo_sim) = demo_devices\<lparr>timer := TimerTick_new\<lparr>enabled := True, operating_mode := 2, count := 1\<rparr>\<rparr>"
  "pic_mask (pic demo_devices) = 0" "isr (pic demo_devices) = 0" "vector_address (pic demo_devices) = 8" "last_cycle demo_devices = 0"
  by (simp_all add: demo_sim_def write_flags_def set_inta_handler_def SoftwareCPU_new_def EmulatorPimpl_new_def reset_def
      demo_devices_def devices_new_def Keyboard_new_def PS2_add_byte_def PS2_new_def PIC_new_def PIC_raise_irq_def Let_def
      split_beta split: option.split)

theorem timer_interrupt_witness:
  "\<exists>c'. run_iteration False \<lparr>stdin_char = None, sdl_event = None, mouse_at = (0, 0), exit_keys = False, capture_keys = False\<rparr>
      demo_sim = Some c' \<and> entered (emulator demo_sim) 32 (emulator c') \<and> isr (pic (devs (emulator c'))) = 1"
  using timer_interrupt [OF refl refl refl, of demo_sim
      "\<lparr>stdin_char = None, sdl_event = None, mouse_at = (0, 0), exit_keys = False, capture_keys = False\<rparr>"] demo_sim_sel(7,8)
  by (auto simp: demo_sim_sel demo_devices_sel)

section \<open>The port table\<close>

definition port_entries :: "'d IOPorts \<Rightarrow> (u16 \<times> 'd IOPorts) list" where
  "port_entries p = map (\<lambda>m. (port_base p + of_nat (m * 2), p)) [0..<num_ports p]"

lemma add_ioport_entries:
  "io (emulator (add_ioport c p)) = foldl (\<lambda>t (a, p). t(a \<mapsto> p)) (io (emulator c)) (port_entries p)"
proof -
  have "foldl (\<lambda>t (a, p). t(a \<mapsto> p)) t (map (\<lambda>m. (port_base p + of_nat (m * 2), p)) ms) =
      foldl (\<lambda>t m. t(port_base p + of_nat (m * 2) \<mapsto> p)) t ms" for t ms
    by (induction ms arbitrary: t) simp_all
  from this [symmetric] show ?thesis unfolding add_ioport_def port_entries_def by simp
qed

lemma foldl_updates: "foldl (\<lambda>t (a, p). t(a \<mapsto> p)) t xs = t ++ map_of (rev xs)"
proof (induction xs arbitrary: t)
  case (Cons x xs)
  obtain a p where x: "x = (a, p)" by force
  show ?case unfolding x foldl.simps prod.case Cons.IH rev.simps map_of_append
    by (rule ext) (simp add: map_add_def split: option.split)
qed simp

lemma foldl_add_ioport:
  "io (emulator (foldl add_ioport c ps)) = io (emulator c) ++ map_of (rev (concat (map port_entries ps)))"
  by (induction ps arbitrary: c) (simp_all add: add_ioport_entries foldl_updates)

lemma port_entries_in:
  assumes "unat (port_base p) + 2 * num_ports p \<le> 65536" "(a, q) \<in> set (port_entries p)"
  shows "\<exists>m < num_ports p. unat a = unat (port_base p) + 2 * m"
  using assms by (auto simp: port_entries_def unat_word_ariths unat_of_nat)

lemma port_entries_distinct:
  assumes "unat (port_base p) + 2 * num_ports p \<le> 65536"
  shows "distinct (map fst (port_entries p))"
proof -
  have "unat (port_base p + of_nat (m * 2)) = unat (port_base p) + 2 * m" if "m < num_ports p" for m
    using that assms by (simp add: unat_word_ariths unat_of_nat)
  then have "inj_on (\<lambda>m. port_base p + of_nat (m * 2)) {0..<num_ports p}"
    by (intro inj_onI) (metis add_left_cancel atLeastLessThan_iff mult_left_cancel zero_neq_numeral)
  then show ?thesis by (simp add: port_entries_def distinct_map comp_def)
qed

lemma port_entries_disjoint:
  assumes "unat (port_base p) + 2 * num_ports p \<le> 65536" "unat (port_base q) + 2 * num_ports q \<le> 65536"
    and "unat (port_base p) + 2 * num_ports p \<le> unat (port_base q) \<or> unat (port_base q) + 2 * num_ports q \<le> unat (port_base p)"
  shows "fst ` set (port_entries p) \<inter> fst ` set (port_entries q) = {}"
  using assms by (fastforce dest: port_entries_in)

lemmas sim_port_defs = sdram_config_register_def uart_port_def spi_port_def timer_port_def cga_port_def kbd_port_def
  pic_port_def mouse_port_def byte_port_def

lemma sim_ports_distinct: "distinct (map fst (rev (concat (map port_entries sim_ports))))"
proof -
  note d = port_entries_distinct and j = port_entries_disjoint
  have "distinct (map fst (concat (map port_entries sim_ports)))"
    unfolding sim_ports_def list.map concat.simps map_append distinct_append set_append set_map image_Un append_Nil2 Int_Un_distrib Un_empty
    by (intro conjI d j) (simp_all add: sim_port_defs)
  then show ?thesis by (simp add: rev_map [symmetric])
qed

lemma map_of_distinct:
  "distinct (map fst xs) \<Longrightarrow> map_of xs a = Some p \<longleftrightarrow> (a, p) \<in> set xs"
  by (metis map_of_SomeD map_of_is_SomeI)

lemma write_mem8_frame: "write_mem8 c g a v = Some c' \<Longrightarrow> \<exists>m. c' = c\<lparr>emulator := (emulator c)\<lparr>mem := m\<rparr>\<rparr>"
  by (auto simp: write_mem8_def on_emulator_def mwrite_def)

lemma load_bios_frame:
  assumes "load_bios junk b c = Some c'"
  shows "io (emulator c') = io (emulator c)"
proof (cases b)
  case None
  then show ?thesis using assms load_bios_missing [of junk c] by simp
next
  case (Some bs)
  then show ?thesis
    using assms
    by (auto simp: load_bios_def open_file_def load_loop_vector write_vector8_from_list bind_eq_Some write_reg_def
        dest!: write_mem8_frame)
qed

text \<open>
  C31. Each device is on the bus at its own addresses and nowhere else: after the constructor an address of the table of ports
  belongs to a device exactly when it is the base of that device plus twice the number of one of its ports, so no
  device hides an address of another.
\<close>

theorem sim_port_table:
  assumes "Simulator_new junk bios c d l = Some c'" "io (emulator c) = Map.empty"
  shows "io (emulator c') a = Some p \<longleftrightarrow>
    p \<in> set sim_ports \<and> (\<exists>m < num_ports p. a = port_base p + of_nat (2 * m))"
proof -
  let ?c = "(set_inta_handler c pic_inta)\<lparr>emulator := foldl raise_irq ((emulator (set_inta_handler c pic_inta))\<lparr>devs := d\<rparr>) l\<rparr>"
  have "io (emulator c') = io (emulator (foldl add_ioport ?c sim_ports))"
    using load_bios_frame [of junk bios "cpu_reset (foldl add_ioport ?c sim_ports)" c'] assms(1)
    by (simp add: Simulator_new_def Let_def cpu_reset_def reset_def)
  also have "\<dots> = map_of (rev (concat (map port_entries sim_ports)))"
    using assms(2) by (simp add: foldl_add_ioport set_inta_handler_def)
  finally have "io (emulator c') a = Some p \<longleftrightarrow> (a, p) \<in> set (rev (concat (map port_entries sim_ports)))"
    by (simp only: map_of_distinct [OF sim_ports_distinct])
  also have "\<dots> \<longleftrightarrow> p \<in> set sim_ports \<and> (\<exists>m < num_ports p. a = port_base p + of_nat (2 * m))"
    unfolding port_entries_def by (auto simp: image_iff mult.commute)
  finally show ?thesis .
qed

theorem sim_port_table_witness:
  "\<exists>c'. Simulator_new 7 (Some [0xfa]) (SoftwareCPU_new False False demo_devices False DS (ModRMDecoder_new 0 False False) 0)
      demo_devices [9] = Some c' \<and> io (emulator c') 0x42 = Some timer_port"
proof -
  let ?c = "SoftwareCPU_new False False demo_devices False DS (ModRMDecoder_new 0 False False) 0"
  have "\<exists>c'. Simulator_new 7 (Some [0xfa]) ?c demo_devices [9] = Some c'"
    using load_bios_bytes [of "[0xfa]" 7] by (fastforce simp: Simulator_new_def Let_def)
  then obtain c' where c': "Simulator_new 7 (Some [0xfa]) ?c demo_devices [9] = Some c'" by blast
  have "io (emulator ?c) = Map.empty" by (simp add: SoftwareCPU_new_def EmulatorPimpl_new_def reset_def)
  from sim_port_table [OF c' this, of "0x42" timer_port] have "io (emulator c') 0x42 = Some timer_port"
    by (auto simp: sim_ports_def timer_port_def byte_port_def intro!: exI [of _ 1])
  with c' show ?thesis by blast
qed

end
