(* ===== verification/BiosBase.thy ===== *)
theory BiosBase
  imports Simulator
begin

text \<open>
  The firmware (bios/*.c) as it runs on the simulated machine: its view of the machine (bios/io.h), the BIOS data area
  (bios/bda.h), the registers of a call (bios/bios.h), and the helpers of leds.c and utils.c.

  A C function takes the state \<open>bios\<close> and returns its result and the new state: the machine (memory, ports and devices, as
  the emulator holds them) and the static variables of the C files. \<open>inb\<close>, \<open>outb\<close>, \<open>inw\<close> and \<open>outw\<close> are the
  port accesses that the \<open>IN\<close> and \<open>OUT\<close> instructions make. The compiler is ia16-gcc: \<open>int\<close> has
  sixteen bits and \<open>long\<close> thirty-two. The stack, the registers the compiled code uses and the interrupts that arrive
  while the firmware runs are not part of this model; static variables are objects of their own, not bytes of the BIOS
  segment. \<^term>\<open>None\<close> is a function that does not return (\<open>panic\<close>, an endless loop) or an index outside an array.
\<close>

section \<open>State\<close>

text \<open>
  \<open>serial_stdio\<close> is the build option \<open>SERIAL_STDIO\<close>, \<open>build_time\<close> the six constants \<open>BIOS_BUILD_HOUR\<close>, \<open>_MINUTE\<close>,
  \<open>_SECOND\<close>, \<open>_YEAR\<close>, \<open>_MONTH\<close>, \<open>_DAY\<close>.
\<close>

record bios =
  sys :: "devices emu"
  spi_xfer_buf :: "u8 list"
  sd_is_sdhc :: bool
  have_mouse :: bool
  mouse_driver_addr :: "u16 \<times> u16"
  mouse_driver_enabled :: u16
  mouse_nbytes :: u8
  video_mode_active :: bool
  init_dac :: "(u8 \<times> u8 \<times> u8) list"
  serial_stdio :: bool
  build_time :: "nat \<times> nat \<times> nat \<times> nat \<times> nat \<times> nat"

text \<open>The registers of a BIOS call; \<open>union reg\<close> gives access to the halves.\<close>

record callregs =
  cr_di :: u16
  cr_si :: u16
  cr_bp :: u16
  cr_sp :: u16
  cr_bx :: u16
  cr_dx :: u16
  cr_cx :: u16
  cr_ax :: u16
  cr_ds :: u16
  cr_es :: u16
  cr_flags :: u16

definition reg_l :: "u16 \<Rightarrow> u8" where "reg_l x = ucast x"
definition reg_h :: "u16 \<Rightarrow> u8" where "reg_h x = ucast (drop_bit 8 x)"
definition set_l :: "u16 \<Rightarrow> u8 \<Rightarrow> u16" where "set_l x v = (x AND 0xff00) OR ucast v"
definition set_h :: "u16 \<Rightarrow> u8 \<Rightarrow> u16" where "set_h x v = (x AND 0x00ff) OR push_bit 8 (ucast v)"

abbreviation set_cf :: "callregs \<Rightarrow> callregs" where
  "set_cf r \<equiv> r\<lparr>cr_flags := cr_flags r OR CF\<rparr>"

abbreviation clear_cf :: "callregs \<Rightarrow> callregs" where
  "clear_cf r \<equiv> r\<lparr>cr_flags := cr_flags r AND NOT CF\<rparr>"

section \<open>Ports and memory\<close>

definition outw :: "u16 \<Rightarrow> u16 \<Rightarrow> bios \<Rightarrow> bios option" where
  "outw port v b = do { s \<leftarrow> write_io16 (sys b) (ucast port) v; Some (b\<lparr>sys := s\<rparr>) }"

definition outb :: "u16 \<Rightarrow> u8 \<Rightarrow> bios \<Rightarrow> bios option" where
  "outb port v b = do { s \<leftarrow> write_io8 (sys b) (ucast port) v; Some (b\<lparr>sys := s\<rparr>) }"

definition inw :: "u16 \<Rightarrow> bios \<Rightarrow> (u16 \<times> bios) option" where
  "inw port b = do { (v, s) \<leftarrow> read_io16 (sys b) (ucast port); Some (v, b\<lparr>sys := s\<rparr>) }"

definition inb :: "u16 \<Rightarrow> bios \<Rightarrow> (u8 \<times> bios) option" where
  "inb port b = do { (v, s) \<leftarrow> read_io8 (sys b) (ucast port); Some (v, b\<lparr>sys := s\<rparr>) }"

definition writeb :: "u16 \<Rightarrow> u16 \<Rightarrow> u8 \<Rightarrow> bios \<Rightarrow> bios option" where
  "writeb segment address val b = do { s \<leftarrow> mwrite (sys b) (get_phys_addr segment (ucast address)) val; Some (b\<lparr>sys := s\<rparr>) }"

definition writew :: "u16 \<Rightarrow> u16 \<Rightarrow> u16 \<Rightarrow> bios \<Rightarrow> bios option" where
  "writew segment address val b = do { s \<leftarrow> mwrite (sys b) (get_phys_addr segment (ucast address)) val; Some (b\<lparr>sys := s\<rparr>) }"

definition readb :: "u16 \<Rightarrow> u16 \<Rightarrow> bios \<Rightarrow> u8 option" where
  "readb segment address b = mem_read8 (mem (sys b)) (get_phys_addr segment (ucast address))"

definition readw :: "u16 \<Rightarrow> u16 \<Rightarrow> bios \<Rightarrow> u16 option" where
  "readw segment address b = mem_read16 (mem (sys b)) (get_phys_addr segment (ucast address))"

definition get_cs :: "bios \<Rightarrow> u16" where
  "get_cs b = rget (sys b) CS"

text \<open>
  \<open>memcpy_seg\<close> between the memory and an object of the firmware, and \<open>memset_seg\<close>: \<open>rep movsb\<close> and \<open>rep stosb\<close>, with
  the offset wrapping within the segment.
\<close>

fun memcpy_seg_to :: "u16 \<Rightarrow> u16 \<Rightarrow> u8 list \<Rightarrow> bios \<Rightarrow> bios option" where
  "memcpy_seg_to dseg dst [] b = Some b"
| "memcpy_seg_to dseg dst (v # vs) b = writeb dseg dst v b \<bind> memcpy_seg_to dseg (dst + 1) vs"

fun memcpy_seg_from :: "u16 \<Rightarrow> u16 \<Rightarrow> nat \<Rightarrow> bios \<Rightarrow> u8 list option" where
  "memcpy_seg_from sseg src 0 b = Some []"
| "memcpy_seg_from sseg src (Suc n) b = do {
     v \<leftarrow> readb sseg src b;
     vs \<leftarrow> memcpy_seg_from sseg (src + 1) n b;
     Some (v # vs)
   }"

definition memset_seg :: "u16 \<Rightarrow> u16 \<Rightarrow> u8 \<Rightarrow> nat \<Rightarrow> bios \<Rightarrow> bios option" where
  "memset_seg dseg dst v len b = memcpy_seg_to dseg dst (replicate len v) b"

section \<open>The BIOS data area\<close>

text \<open>\<open>struct bios_data_area\<close>, which is packed: the fields and their sizes in order.\<close>

definition bios_data_area :: "(string \<times> nat) list" where
  "bios_data_area = [
     (''com_addresses'', 8), (''lpt_addresses'', 8), (''equipment_list'', 2), (''ir_kbd_error_count'', 1),
     (''mem_kbytes'', 2), (''reserved1'', 1), (''ps2_bios_control'', 1), (''keyboard_flags'', 2),
     (''keypad_entry'', 1), (''kbd_buffer_head'', 2), (''kbd_buffer_tail'', 2), (''kbd_buffer'', 32),
     (''drive_recalibration_status'', 1), (''diskette_motor_status'', 1), (''motor_shutoff_count'', 1),
     (''diskette_status'', 1), (''nec_diskette_motor_status'', 7), (''video_mode'', 1), (''num_screen_cols'', 2),
     (''video_regen_buffer_bytes'', 2), (''video_regen_offset'', 2), (''cursor_offsets'', 16), (''cursor_end'', 1),
     (''cursor_start'', 1), (''active_page'', 1), (''crt_controller_base'', 2), (''crt_mode_control'', 1),
     (''cga_pallette_mask'', 1), (''cassette_take_ctrl'', 5), (''timer_counter_low'', 2), (''timer_counter_high'', 2),
     (''clock_rollover'', 1), (''break_hit'', 1), (''soft_reset_flag'', 2), (''hard_disk_status'', 1),
     (''num_hard_disks'', 1), (''fixed_disk_control'', 1), (''fixed_disk_controller_port'', 1),
     (''parallel_timeout'', 4), (''serial_timeout'', 4), (''keyboard_buffer_start'', 2), (''keyboard_buffer_end'', 2),
     (''last_screen_row'', 1), (''char_point_height'', 1), (''pcjr_repeat_delay'', 1), (''video_mode_options'', 1),
     (''ega_feature_bits'', 1), (''video_display_data_area'', 1), (''dcc_index'', 1)]"

fun field_offset :: "(string \<times> nat) list \<Rightarrow> string \<Rightarrow> nat" where
  "field_offset [] f = 0"
| "field_offset ((g, n) # fs) f = (if g = f then 0 else n + field_offset fs f)"

definition offsetof :: "string \<Rightarrow> u16" where
  "offsetof f = of_nat (field_offset bios_data_area f)"

definition bda_writew :: "u16 \<Rightarrow> u16 \<Rightarrow> bios \<Rightarrow> bios option" where
  "bda_writew field val b = writew 0x40 field val b"

definition bda_writeb :: "u16 \<Rightarrow> u8 \<Rightarrow> bios \<Rightarrow> bios option" where
  "bda_writeb field val b = writeb 0x40 field val b"

definition bda_readw :: "u16 \<Rightarrow> bios \<Rightarrow> u16 option" where
  "bda_readw field b = readw 0x40 field b"

definition bda_readb :: "u16 \<Rightarrow> bios \<Rightarrow> u8 option" where
  "bda_readb field b = readb 0x40 field b"

lemma offsetof_fields:
  "offsetof ''keyboard_flags'' = 0x17" "offsetof ''kbd_buffer_head'' = 0x1a" "offsetof ''kbd_buffer_tail'' = 0x1c"
  "offsetof ''kbd_buffer'' = 0x1e" "offsetof ''drive_recalibration_status'' = 0x3e" "offsetof ''diskette_status'' = 0x41"
  "offsetof ''video_mode'' = 0x49" "offsetof ''num_screen_cols'' = 0x4a" "offsetof ''cursor_offsets'' = 0x50"
  "offsetof ''cursor_end'' = 0x60" "offsetof ''cursor_start'' = 0x61" "offsetof ''crt_controller_base'' = 0x63"
  "offsetof ''timer_counter_low'' = 0x6c" "offsetof ''timer_counter_high'' = 0x6e" "offsetof ''clock_rollover'' = 0x70"
  "offsetof ''last_screen_row'' = 0x84" "offsetof ''video_display_data_area'' = 0x89" "offsetof ''dcc_index'' = 0x8a"
  by (code_simp)+

section \<open>Lights\<close>

definition LED_PORT :: u16 where "LED_PORT = 0xfffe"

definition LED_DISK :: u16 where "LED_DISK = push_bit 0 1"
definition LED_KBD_BUFFER_NON_EMPTY :: u16 where "LED_KBD_BUFFER_NON_EMPTY = push_bit 1 1"
definition LED_KBD_BUFFER_FULL :: u16 where "LED_KBD_BUFFER_FULL = push_bit 2 1"
definition LED_PANIC :: u16 where "LED_PANIC = push_bit 3 1"

definition led_set :: "u16 \<Rightarrow> bios \<Rightarrow> bios option" where
  "led_set led b = do { (v, b) \<leftarrow> inw LED_PORT b; outw LED_PORT (v OR led) b }"

definition led_clear :: "u16 \<Rightarrow> bios \<Rightarrow> bios option" where
  "led_clear led b = do { (v, b) \<leftarrow> inw LED_PORT b; outw LED_PORT (v AND NOT led) b }"

section \<open>The bus of the simulator\<close>

text \<open>The machine has the simulator's devices on its bus and no others.\<close>

definition sim_bus :: "bios \<Rightarrow> bool" where
  "sim_bus b \<longleftrightarrow> io (sys b) = map_of (rev (concat (map port_entries sim_ports)))"

lemma sim_bus_lookup:
  assumes "sim_bus b" "p \<in> set sim_ports" "m < num_ports p"
  shows "io (sys b) (port_base p + of_nat (m * 2)) = Some p"
proof -
  have "(port_base p + of_nat (m * 2), p) \<in> set (rev (concat (map port_entries sim_ports)))"
    using assms(2,3) unfolding port_entries_def by (auto intro!: bexI [of _ p] image_eqI [of _ _ m])
  then show ?thesis unfolding assms(1) [unfolded sim_bus_def] by (rule map_of_is_SomeI [OF sim_ports_distinct])
qed

section \<open>An example\<close>

text \<open>A machine as constructed, with a disk image.\<close>

definition demo_bios :: "u8 list \<Rightarrow> bios" where
  "demo_bios img = \<lparr>sys = (emulator demo_sim)\<lparr>io := map_of (rev (concat (map port_entries sim_ports))),
       devs := demo_devices\<lparr>spi := SPI_new \<lparr>disk_bytes = img, fpos = 0, failed = False\<rparr> 0\<rparr>\<rparr>,
     spi_xfer_buf = replicate 1280 0, sd_is_sdhc = False, have_mouse = False, mouse_driver_addr = (0, 0),
     mouse_driver_enabled = 0, mouse_nbytes = 0, video_mode_active = False, init_dac = replicate 256 (0, 0, 0),
     serial_stdio = False, build_time = (0, 0, 0, 0, 0, 0)\<rparr>"

lemma demo_bios_bus [simp]: "sim_bus (demo_bios img)"
  by (simp add: demo_bios_def sim_bus_def)

abbreviation demo_call :: "u16 \<Rightarrow> u16 \<Rightarrow> u16 \<Rightarrow> u16 \<Rightarrow> callregs" where
  "demo_call ax bx cx dx \<equiv> \<lparr>cr_di = 0, cr_si = 0, cr_bp = 0, cr_sp = 0, cr_bx = bx, cr_dx = dx, cr_cx = cx, cr_ax = ax,
     cr_ds = 0, cr_es = 0, cr_flags = 0\<rparr>"

end
