(* ===== verification/BiosDisplay.thy ===== *)
theory BiosDisplay
  imports BiosBase
begin

text \<open>
  The console and the video services of the firmware (bios/display.c) with the character output of bios/serial.c, through
  which \<open>write_char\<close> prints. A \<open>signed char\<close> is an \<open>int\<close> between -128 and 127. The loops whose bound is a
  byte run for ever when the bound is the largest byte; they are partial functions.
\<close>

section \<open>The cursor\<close>

definition frame_buffer_segment :: u16 where "frame_buffer_segment = 0xb000"
definition vga_frame_buffer_segment :: u16 where "vga_frame_buffer_segment = 0xa000"
definition frame_buffer_offset :: u16 where "frame_buffer_offset = 0x8000"

record cursor =
  cur_col :: u8
  cur_row :: u8

text \<open>\<open>c->v\<close>, the other member of the union.\<close>

definition cursor_v :: "cursor \<Rightarrow> u16" where
  "cursor_v c = ucast (cur_col c) OR push_bit 8 (ucast (cur_row c))"

definition in_video_mode :: "bios \<Rightarrow> bool" where
  "in_video_mode b = video_mode_active b"

definition crtc_reg_write :: "u8 \<Rightarrow> u8 \<Rightarrow> bios \<Rightarrow> bios option" where
  "crtc_reg_write reg val b = do {
     b \<leftarrow> outb 0x3d4 reg b;
     outb 0x3d5 val b
   }"

definition crtc_reg_read :: "u8 \<Rightarrow> bios \<Rightarrow> (u8 \<times> bios) option" where
  "crtc_reg_read reg b = do {
     b \<leftarrow> outb 0x3d4 reg b;
     inb 0x3d5 b
   }"

definition read_cursor :: "bios \<Rightarrow> (cursor \<times> bios) option" where
  "read_cursor b = do {
     (hi, b) \<leftarrow> crtc_reg_read 0xe b;
     let pos = push_bit 8 (ucast hi :: u16);
     (lo, b) \<leftarrow> crtc_reg_read 0xf b;
     let pos = pos OR ucast lo;
     Some (\<lparr>cur_col = ucast (pos mod 80), cur_row = ucast (pos div 80)\<rparr>, b)
   }"

definition write_cursor :: "cursor \<Rightarrow> bios \<Rightarrow> bios option" where
  "write_cursor c b = do {
     let pos = (ucast (cur_row c) * 80 + ucast (cur_col c) :: u16);
     b \<leftarrow> crtc_reg_write 0xe (ucast (drop_bit 8 pos)) b;
     b \<leftarrow> crtc_reg_write 0xf (ucast pos) b;
     bda_writew (offsetof ''cursor_offsets'') (cursor_v c) b
   }"

section \<open>Rows\<close>

text \<open>The offset of a cell of the frame buffer.\<close>

definition cell_offset :: "u8 \<Rightarrow> u16 \<Rightarrow> u16" where
  "cell_offset row col = frame_buffer_offset + (ucast row * 80 + col) * 2"

partial_function (option) clear_cells :: "u8 \<Rightarrow> u8 \<Rightarrow> u8 \<Rightarrow> u16 \<Rightarrow> bios \<Rightarrow> bios option" where
  "clear_cells row col right_col blank b =
     (if col \<le> right_col then do {
        b \<leftarrow> writew frame_buffer_segment (cell_offset row (ucast col)) blank b;
        clear_cells row (col + 1) right_col blank b
      } else Some b)"

definition clear_row :: "u8 \<Rightarrow> u8 \<Rightarrow> u8 \<Rightarrow> u8 \<Rightarrow> bios \<Rightarrow> bios option" where
  "clear_row row left_col right_col attr b =
     (let blank = push_bit 8 (ucast attr) OR 0x20 in clear_cells row left_col right_col blank b)"

partial_function (option) copy_cells :: "u8 \<Rightarrow> u8 \<Rightarrow> u8 \<Rightarrow> u8 \<Rightarrow> bios \<Rightarrow> bios option" where
  "copy_cells dst_row src_row col right_col b =
     (if col \<le> right_col then do {
        v \<leftarrow> readw frame_buffer_segment (cell_offset src_row (ucast col)) b;
        b \<leftarrow> writew frame_buffer_segment (cell_offset dst_row (ucast col)) v b;
        copy_cells dst_row src_row (col + 1) right_col b
      } else Some b)"

definition copy_row :: "u8 \<Rightarrow> u8 \<Rightarrow> u8 \<Rightarrow> u8 \<Rightarrow> bios \<Rightarrow> bios option" where
  "copy_row dst_row src_row left_col right_col b = copy_cells dst_row src_row left_col right_col b"

section \<open>Scrolling\<close>

text \<open>\<open>++row\<close> and \<open>--row\<close> on a \<open>signed char\<close>.\<close>

definition to_schar :: "int \<Rightarrow> int" where
  "to_schar i = sint (word_of_int i :: u8)"

partial_function (option) scroll_up_rows :: "int \<Rightarrow> int \<Rightarrow> u8 \<Rightarrow> u8 \<Rightarrow> u8 \<Rightarrow> int \<Rightarrow> bios \<Rightarrow> bios option" where
  "scroll_up_rows row bottom_row left_col right_col blank_attr scroll_count b =
     (if row \<le> bottom_row then do {
        b \<leftarrow> (if row + scroll_count > bottom_row then clear_row (word_of_int row) left_col right_col blank_attr b
              else copy_row (word_of_int row) (word_of_int (row + scroll_count)) left_col right_col b);
        scroll_up_rows (to_schar (row + 1)) bottom_row left_col right_col blank_attr scroll_count b
      } else Some b)"

definition do_scroll_up :: "int \<Rightarrow> int \<Rightarrow> int \<Rightarrow> int \<Rightarrow> int \<Rightarrow> int \<Rightarrow> bios \<Rightarrow> bios option" where
  "do_scroll_up top_row bottom_row left_col right_col blank_attr scroll_count b =
     scroll_up_rows top_row bottom_row (word_of_int left_col) (word_of_int right_col) (word_of_int blank_attr) scroll_count b"

definition scroll_up :: "callregs \<Rightarrow> bios \<Rightarrow> bios option" where
  "scroll_up r b =
     do_scroll_up (sint (reg_h (cr_cx r))) (sint (reg_h (cr_dx r))) (sint (reg_l (cr_cx r))) (sint (reg_l (cr_dx r)))
       (sint (reg_h (cr_bx r))) (if reg_l (cr_ax r) = 0 then 25 else sint (reg_l (cr_ax r))) b"

partial_function (option) scroll_down_rows :: "int \<Rightarrow> int \<Rightarrow> u8 \<Rightarrow> u8 \<Rightarrow> u8 \<Rightarrow> int \<Rightarrow> bios \<Rightarrow> bios option" where
  "scroll_down_rows row top_row left_col right_col blank_attr scroll_count b =
     (if row \<ge> top_row then do {
        b \<leftarrow> (if row - scroll_count < 0 then clear_row (word_of_int row) left_col right_col blank_attr b
              else copy_row (word_of_int row) (word_of_int (row - scroll_count)) left_col right_col b);
        scroll_down_rows (to_schar (row - 1)) top_row left_col right_col blank_attr scroll_count b
      } else Some b)"

definition do_scroll_down :: "int \<Rightarrow> int \<Rightarrow> int \<Rightarrow> int \<Rightarrow> int \<Rightarrow> int \<Rightarrow> bios \<Rightarrow> bios option" where
  "do_scroll_down top_row bottom_row left_col right_col blank_attr scroll_count b =
     scroll_down_rows bottom_row top_row (word_of_int left_col) (word_of_int right_col) (word_of_int blank_attr) scroll_count b"

definition scroll_down :: "callregs \<Rightarrow> bios \<Rightarrow> bios option" where
  "scroll_down r b =
     do_scroll_down (sint (reg_h (cr_cx r))) (sint (reg_h (cr_dx r))) (sint (reg_l (cr_cx r))) (sint (reg_l (cr_dx r)))
       (sint (reg_h (cr_bx r))) (if reg_l (cr_ax r) = 0 then 25 else sint (reg_l (cr_ax r))) b"

definition scroll_up_one :: "bios \<Rightarrow> bios option" where
  "scroll_up_one b = do_scroll_up 0 24 0 79 0x07 1 b"

section \<open>Characters\<close>

fun backspaces :: "nat \<Rightarrow> cursor \<Rightarrow> bios \<Rightarrow> (cursor \<times> bios) option" where
  "backspaces 0 c b = Some (c, b)"
| "backspaces (Suc n) c b =
     (if cur_col c > 0 then do {
        let c = c\<lparr>cur_col := cur_col c - 1\<rparr>;
        b \<leftarrow> writeb frame_buffer_segment (cell_offset (cur_row c) (ucast (cur_col c))) 0x20 b;
        backspaces n c b
      } else Some (c, b))"

definition do_backspace :: "cursor \<Rightarrow> bios \<Rightarrow> (cursor \<times> bios) option" where
  "do_backspace c b = backspaces 2 c b"

fun blank_cells :: "u8 \<Rightarrow> nat list \<Rightarrow> bios \<Rightarrow> bios option" where
  "blank_cells row [] b = Some b"
| "blank_cells row (m # ms) b = writew frame_buffer_segment (cell_offset row (of_nat m)) 0x0720 b \<bind> blank_cells row ms"

definition emit_char :: "u8 \<Rightarrow> bios \<Rightarrow> bios option" where
  "emit_char ch b = do {
     (c, b) \<leftarrow> read_cursor b;
     b \<leftarrow> writeb frame_buffer_segment (cell_offset (cur_row c) (ucast (cur_col c))) ch b;
     let c = c\<lparr>cur_col := cur_col c + 1\<rparr>;
     (c, b) \<leftarrow> (if ch = 0x08 then do_backspace c b else Some (c, b));
     (c, b) \<leftarrow> (if ch = 0x0d \<or> ch = 0x0a then do {
        let c = c\<lparr>cur_col := cur_col c - 1\<rparr>;
        b \<leftarrow> blank_cells (cur_row c) [unat (cur_col c)..<80] b;
        Some (c, b)
      } else Some (c, b));
     let c = (if cur_col c = 80 \<or> ch = 0x0a then c\<lparr>cur_col := 0, cur_row := cur_row c + 1\<rparr> else c);
     (c, b) \<leftarrow> (if cur_row c \<ge> 25 then do {
        b \<leftarrow> scroll_up_one b;
        Some (c\<lparr>cur_row := 24\<rparr>, b)
      } else Some (c, b));
     write_cursor c b
   }"

definition video_putchar :: "u8 \<Rightarrow> bios \<Rightarrow> bios option" where
  "video_putchar ch b = (if ch = 0x0d then Some b else emit_char ch b)"

section \<open>Character output (serial.c)\<close>

definition UART_DATA_PORT :: u16 where "UART_DATA_PORT = 0xfffa"
definition UART_STATUS_PORT :: u16 where "UART_STATUS_PORT = 0xfffb"
definition UART_TX_BUSY :: u8 where "UART_TX_BUSY = 0x02"
definition UART_RX_READY :: u8 where "UART_RX_READY = 0x01"

text \<open>\<open>while (inb(UART_STATUS_PORT) & UART_TX_BUSY)\<close>.\<close>

partial_function (option) uart_wait :: "bios \<Rightarrow> bios option" where
  "uart_wait b = do {
     (v, b) \<leftarrow> inb UART_STATUS_PORT b;
     if v AND UART_TX_BUSY \<noteq> 0 then uart_wait b else Some b
   }"

text \<open>One character, and the line feed with the carriage return that \<open>putchar\<close> adds by calling itself.\<close>

definition putchar_once :: "u8 \<Rightarrow> bios \<Rightarrow> bios option" where
  "putchar_once c b = do {
     b \<leftarrow> (if serial_stdio b then do { b \<leftarrow> outb UART_DATA_PORT c b; uart_wait b } else Some b);
     if \<not> in_video_mode b then video_putchar c b else Some b
   }"

definition putchar :: "u8 \<Rightarrow> bios \<Rightarrow> bios option" where
  "putchar c b = do {
     b \<leftarrow> putchar_once c b;
     if c = 0x0a then putchar_once 0x0d b else Some b
   }"

definition serial_putchar :: "u8 \<Rightarrow> bios \<Rightarrow> bios option" where
  "serial_putchar c b = do {
     b \<leftarrow> outb UART_DATA_PORT c b;
     b \<leftarrow> uart_wait b;
     if c = 0x0a then do { b \<leftarrow> outb UART_DATA_PORT 0x0d b; uart_wait b } else Some b
   }"

definition hexarr :: string where "hexarr = ''0123456789abcdef''"

definition putbyte :: "u8 \<Rightarrow> bios \<Rightarrow> bios option" where
  "putbyte v b = do {
     b \<leftarrow> putchar (of_char (hexarr ! unat (drop_bit 4 (v AND 0xf0)))) b;
     putchar (of_char (hexarr ! unat (v AND 0x0f))) b
   }"

text \<open>A C string, without its terminating zero.\<close>

fun putstr :: "u8 list \<Rightarrow> bios \<Rightarrow> bios option" where
  "putstr [] b = Some b"
| "putstr (p # str) b = putchar p b \<bind> putstr str"

definition c_str :: "string \<Rightarrow> u8 list" where
  "c_str s = map of_char s"

text \<open>\<open>panic\<close> halts: it does not return.\<close>

definition panic :: "string \<Rightarrow> bios \<Rightarrow> 'a option" where
  "panic p b = do {
     b \<leftarrow> led_set LED_PANIC b;
     b \<leftarrow> putstr (c_str p) b;
     b \<leftarrow> putstr (0x0a # 0x0a # c_str ''Halted.'' @ [0x0a]) b;
     None
   }"

section \<open>Video services\<close>

definition read_char :: "callregs \<Rightarrow> bios \<Rightarrow> (callregs \<times> bios) option" where
  "read_char r b = do {
     (c, b) \<leftarrow> read_cursor b;
     v \<leftarrow> readw frame_buffer_segment (cell_offset (cur_row c) (ucast (cur_col c))) b;
     b \<leftarrow> write_cursor c b;
     Some (r\<lparr>cr_ax := v\<rparr>, b)
   }"

definition write_char_and_attribute :: "callregs \<Rightarrow> bios \<Rightarrow> bios option" where
  "write_char_and_attribute r b = do {
     (c, b) \<leftarrow> read_cursor b;
     let v = push_bit 8 (ucast (reg_l (cr_bx r))) OR ucast (reg_l (cr_ax r));
     writew frame_buffer_segment (cell_offset (cur_row c) (ucast (cur_col c))) v b
   }"

definition bios_write_char :: "callregs \<Rightarrow> bios \<Rightarrow> bios option" where
  "bios_write_char r b = putchar (reg_l (cr_ax r)) b"

definition bios_set_cursor :: "callregs \<Rightarrow> bios \<Rightarrow> bios option" where
  "bios_set_cursor r b = do {
     (c, b) \<leftarrow> read_cursor b;
     write_cursor (c\<lparr>cur_col := reg_l (cr_dx r), cur_row := reg_h (cr_dx r)\<rparr>) b
   }"

definition bios_get_cursor :: "callregs \<Rightarrow> bios \<Rightarrow> (callregs \<times> bios) option" where
  "bios_get_cursor r b = do {
     (c, b) \<leftarrow> read_cursor b;
     v \<leftarrow> bda_readb (offsetof ''cursor_start'') b;
     let r = r\<lparr>cr_cx := set_h (cr_cx r) v\<rparr>;
     v \<leftarrow> bda_readb (offsetof ''cursor_end'') b;
     let r = r\<lparr>cr_cx := set_l (cr_cx r) v\<rparr>;
     let r = r\<lparr>cr_dx := set_h (cr_dx r) (cur_row c)\<rparr>;
     let r = r\<lparr>cr_dx := set_l (cr_dx r) (cur_col c)\<rparr>;
     b \<leftarrow> write_cursor c b;
     Some (r, b)
   }"

definition set_cursor_scan_start :: "u8 \<Rightarrow> bios \<Rightarrow> bios option" where
  "set_cursor_scan_start scan_start b =
     (let scan_start = (if scan_start AND 0x20 \<noteq> 0 then 0x10 OR (scan_start AND 0xf) else scan_start)
      in crtc_reg_write 0xa scan_start b)"

definition set_cursor_scan_end :: "u8 \<Rightarrow> bios \<Rightarrow> bios option" where
  "set_cursor_scan_end scan_end b = crtc_reg_write 0xb scan_end b"

definition set_cursor_bda :: "u8 \<Rightarrow> u8 \<Rightarrow> bios \<Rightarrow> bios option" where
  "set_cursor_bda scan_start scan_end b = do {
     b \<leftarrow> bda_writeb (offsetof ''cursor_start'') scan_start b;
     bda_writeb (offsetof ''cursor_end'') scan_end b
   }"

definition do_set_cursor_shape :: "u8 \<Rightarrow> u8 \<Rightarrow> bios \<Rightarrow> bios option" where
  "do_set_cursor_shape scan_start scan_end b = do {
     b \<leftarrow> set_cursor_scan_end scan_end b;
     b \<leftarrow> set_cursor_scan_start scan_start b;
     set_cursor_bda scan_start scan_end b
   }"

definition set_cursor_shape :: "callregs \<Rightarrow> bios \<Rightarrow> bios option" where
  "set_cursor_shape r b = do_set_cursor_shape (reg_h (cr_cx r)) (reg_l (cr_cx r)) b"

definition get_video_mode :: "callregs \<Rightarrow> bios \<Rightarrow> (callregs \<times> bios) option" where
  "get_video_mode r b = do {
     (v, b) \<leftarrow> inb 0x3c0 b;
     (m, b) \<leftarrow> (if v = 0x41 then Some (0x13, b)
                else do { (w, b) \<leftarrow> inb 0x3d8 b; Some (if w AND push_bit 0 1 \<noteq> 0 then (3, b) else (5, b)) });
     let r = r\<lparr>cr_ax := set_l (cr_ax r) m\<rparr>;
     let r = r\<lparr>cr_ax := set_h (cr_ax r) 80\<rparr>;
     Some (r\<lparr>cr_bx := set_h (cr_bx r) 0\<rparr>, b)
   }"

fun write_dac_colors :: "(u8 \<times> u8 \<times> u8) list \<Rightarrow> bios \<Rightarrow> bios option" where
  "write_dac_colors [] b = Some b"
| "write_dac_colors ((rd, g, bl) # cs) b = do {
     b \<leftarrow> outb 0x3c9 rd b;
     b \<leftarrow> outb 0x3c9 g b;
     b \<leftarrow> outb 0x3c9 bl b;
     write_dac_colors cs b
   }"

definition restore_dac :: "bios \<Rightarrow> bios option" where
  "restore_dac b = do {
     b \<leftarrow> outb 0x3c8 0 b;
     write_dac_colors (init_dac b) b
   }"

text \<open>The result is the return value: \<open>False\<close> for -1.\<close>

definition do_set_video_mode :: "u8 \<Rightarrow> bios \<Rightarrow> (bool \<times> bios) option" where
  "do_set_video_mode mode b =
     (if mode = 0x2 \<or> mode = 0x3 then do {
        b \<leftarrow> outb 0x3c0 0x0c b;
        b \<leftarrow> outb 0x3d8 (push_bit 0 1 OR push_bit 3 1) b;
        let b = b\<lparr>video_mode_active := False\<rparr>;
        b \<leftarrow> do_scroll_up 0 24 0 79 0x07 25 b;
        Some (True, b)
      } else if mode = 0x4 \<or> mode = 0x5 then do {
        b \<leftarrow> outb 0x3c0 0x0c b;
        b \<leftarrow> outb 0x3d8 (push_bit 1 1 OR push_bit 3 1) b;
        b \<leftarrow> memset_seg frame_buffer_segment frame_buffer_offset 0 (320 * 200 div 4) b;
        Some (True, b\<lparr>video_mode_active := True\<rparr>)
      } else if mode = 0x13 then do {
        b \<leftarrow> restore_dac b;
        b \<leftarrow> outb 0x3c0 0x41 b;
        b \<leftarrow> outb 0x3d8 (push_bit 1 1 OR push_bit 3 1) b;
        b \<leftarrow> memset_seg vga_frame_buffer_segment 0 0 (320 * 200) b;
        Some (True, b\<lparr>video_mode_active := True\<rparr>)
      } else Some (False, b))"

definition set_video_mode :: "callregs \<Rightarrow> bios \<Rightarrow> (callregs \<times> bios) option" where
  "set_video_mode r b = do {
     (ok, b) \<leftarrow> do_set_video_mode (reg_l (cr_ax r)) b;
     if \<not> ok then Some (set_cf r, b)
     else do { b \<leftarrow> bda_writeb (offsetof ''video_mode'') (reg_l (cr_ax r)) b; Some (r, b) }
   }"

definition set_palette :: "callregs \<Rightarrow> bios \<Rightarrow> bios option" where
  "set_palette r b = do {
     (color_reg, b) \<leftarrow> inb 0x3d9 b;
     let color_reg =
       (if reg_h (cr_bx r) = 0 then (color_reg AND NOT 0x0f) OR (reg_l (cr_bx r) AND 0x0f)
        else if reg_h (cr_bx r) = 1 then (color_reg AND NOT (push_bit 5 1)) OR push_bit 5 (of_bool (reg_l (cr_bx r) \<noteq> 0))
        else color_reg);
     outb 0x3d9 color_reg b
   }"

definition vga_combination :: "callregs \<Rightarrow> callregs" where
  "vga_combination r =
     (if reg_l (cr_ax r) = 0x00 then
        r\<lparr>cr_ax := set_l (cr_ax r) 0x1a, cr_bx := set_l (set_h (cr_bx r) 0x08) 0x08\<rparr>
      else set_cf r)"

definition vga_config :: "callregs \<Rightarrow> callregs" where
  "vga_config r =
     (if reg_l (cr_bx r) = 0x10 then r\<lparr>cr_bx := set_l (set_h (cr_bx r) 0) 0, cr_cx := 0\<rparr>
      else set_cf r)"

fun write_dac_block :: "u16 \<Rightarrow> u16 \<Rightarrow> nat list \<Rightarrow> bios \<Rightarrow> bios option" where
  "write_dac_block seg src [] b = Some b"
| "write_dac_block seg src (m # ms) b = do {
     v \<leftarrow> readb seg (src + of_nat m) b;
     b \<leftarrow> outb 0x3c9 v b;
     write_dac_block seg src ms b
   }"

text \<open>The loops over \<open>m\<close> and \<open>j\<close> read the bytes \<open>m * 3 + j\<close> in order.\<close>

definition set_dac_block :: "callregs \<Rightarrow> bios \<Rightarrow> bios option" where
  "set_dac_block r b = do {
     b \<leftarrow> outb 0x3c8 (ucast (cr_bx r)) b;
     write_dac_block (cr_es r) (cr_dx r) [0..<3 * unat (cr_cx r)] b
   }"

definition set_get_palette :: "callregs \<Rightarrow> bios \<Rightarrow> (callregs \<times> bios) option" where
  "set_get_palette r b =
     (let r = clear_cf r in
      if reg_l (cr_ax r) = 0x12 then do { b \<leftarrow> set_dac_block r b; Some (r, b) }
      else Some (set_cf r, b))"

definition video_services :: "callregs \<Rightarrow> bios \<Rightarrow> (callregs \<times> bios) option" where
  "video_services r b =
     (let r = clear_cf r; f = reg_h (cr_ax r); keep = map_option (Pair r) in
      if f = 0xe then keep (bios_write_char r b)
      else if f = 0x2 then keep (bios_set_cursor r b)
      else if f = 0x3 then bios_get_cursor r b
      else if f = 0x1 then keep (set_cursor_shape r b)
      else if f = 0x6 then keep (do { (c, b) \<leftarrow> read_cursor b; b \<leftarrow> scroll_up r b; write_cursor c b })
      else if f = 0x7 then keep (do { (c, b) \<leftarrow> read_cursor b; b \<leftarrow> scroll_down r b; write_cursor c b })
      else if f = 0xf then get_video_mode r b
      else if f = 0x9 then keep (write_char_and_attribute r b)
      else if f = 0x8 then read_char r b
      else if f = 0xb then keep (set_palette r b)
      else if f = 0x0 then set_video_mode r b
      else if f = 0x10 then set_get_palette r b
      else if f = 0x11 then Some (r, b)
      else if f = 0x1a then Some (vga_combination r, b)
      else if f = 0x12 then Some (vga_config r, b)
      else Some (set_cf r, b))"

section \<open>Initialisation\<close>

fun read_dac_colors :: "nat \<Rightarrow> bios \<Rightarrow> ((u8 \<times> u8 \<times> u8) list \<times> bios) option" where
  "read_dac_colors 0 b = Some ([], b)"
| "read_dac_colors (Suc n) b = do {
     (r, b) \<leftarrow> inb 0x3c9 b;
     (g, b) \<leftarrow> inb 0x3c9 b;
     (bl, b) \<leftarrow> inb 0x3c9 b;
     (cs, b) \<leftarrow> read_dac_colors n b;
     Some ((r, g, bl) # cs, b)
   }"

definition save_init_dac :: "bios \<Rightarrow> bios option" where
  "save_init_dac b = do {
     b \<leftarrow> outb 0x3c7 0 b;
     (cs, b) \<leftarrow> read_dac_colors 256 b;
     Some (b\<lparr>init_dac := cs\<rparr>)
   }"

fun blank_rows :: "nat list \<Rightarrow> bios \<Rightarrow> bios option" where
  "blank_rows [] b = Some b"
| "blank_rows (r # rs) b = blank_cells (of_nat r) [0..<80] b \<bind> blank_rows rs"

definition display_init :: "bios \<Rightarrow> bios option" where
  "display_init b = do {
     b \<leftarrow> save_init_dac b;
     (_, b) \<leftarrow> do_set_video_mode 3 b;
     b \<leftarrow> blank_rows [0..<25] b;
     b \<leftarrow> bda_writeb (offsetof ''video_mode'') 0x03 b;
     b \<leftarrow> bda_writew (offsetof ''num_screen_cols'') 80 b;
     b \<leftarrow> bda_writeb (offsetof ''last_screen_row'') (25 - 1) b;
     b \<leftarrow> bda_writew (offsetof ''crt_controller_base'') 0x3d4 b;
     b \<leftarrow> bda_writeb (offsetof ''video_display_data_area'') 1 b;
     b \<leftarrow> bda_writeb (offsetof ''dcc_index'') 0x0a b;
     b \<leftarrow> do_set_cursor_shape 7 7 b;
     b \<leftarrow> write_cursor \<lparr>cur_col = 0, cur_row = 0\<rparr> b;
     outb 0x3d9 (push_bit 5 1) b
   }"

end
