(* ===== verification/BiosPrintk.thy ===== *)
theory BiosPrintk
  imports BiosDisplay
begin

text \<open>
  Formatted output (bios/printk.c). The format string is the list of its bytes with the terminating zero; reading past it,
  or taking an argument that was not passed with the type the conversion expects, has no defined meaning and is
  \<^term>\<open>None\<close>. \<open>size_t\<close>, \<open>unsigned\<close> and pointers have sixteen bits. The buffer of \<open>string_format\<close> is the list of the
  characters stored so far.
\<close>

section \<open>The formatter\<close>

datatype va_item = VaStr "u8 list" | VaInt u16

record string_formatter =
  fbuf :: "u8 list"
  flen :: u16
  fmaxlen :: u16
  ffmt :: "u8 list"
  fprecision :: int
  fzero_pad :: bool

definition output_char :: "string_formatter \<Rightarrow> u8 \<Rightarrow> string_formatter" where
  "output_char f c = (if flen f < fmaxlen f - 1 then f\<lparr>fbuf := fbuf f @ [c], flen := flen f + 1\<rparr> else f)"

definition hex_val :: "u8 list" where
  "hex_val = map of_char ''0123456789abcdef''"

text \<open>The digits arrive lowest first.\<close>

definition output_buf_reversed :: "string_formatter \<Rightarrow> nat list \<Rightarrow> string_formatter" where
  "output_buf_reversed f buf = foldl (\<lambda>f d. output_char f (hex_val ! d)) f (rev buf)"

definition output_zero_padding :: "string_formatter \<Rightarrow> int \<Rightarrow> string_formatter" where
  "output_zero_padding f num_zeroes =
     (if fzero_pad f \<and> num_zeroes > 0 then foldl output_char f (replicate (nat num_zeroes) 0x30) else f)"

text \<open>The loop \<open>do reversal_buf[nchars++] = val % base; while (val /= base)\<close>, for a base above one.\<close>

function digits :: "nat \<Rightarrow> nat \<Rightarrow> nat list" where
  "digits base val = val mod base # (if base > 1 \<and> val div base \<noteq> 0 then digits base (val div base) else [])"
  by auto
termination
  by (relation "measure snd") (auto simp: div_eq_0_iff not_less)

declare digits.simps [simp del]

definition output_unsigned :: "string_formatter \<Rightarrow> u16 \<Rightarrow> nat \<Rightarrow> string_formatter" where
  "output_unsigned f val base =
     (let reversal_buf = digits base (unat val);
          f = output_zero_padding f (fprecision f - int (length reversal_buf))
      in output_buf_reversed f reversal_buf)"

definition output_string :: "string_formatter \<Rightarrow> u8 list \<Rightarrow> string_formatter" where
  "output_string f str = foldl output_char f str"

definition output_pointer :: "string_formatter \<Rightarrow> u16 \<Rightarrow> string_formatter" where
  "output_pointer f val =
     (let f = f\<lparr>fprecision := 4, fzero_pad := True\<rparr> in
      if val = 0 then output_string f (c_str ''(null)'')
      else output_unsigned (output_string f (c_str ''0x'')) val 16)"

section \<open>Conversions\<close>

text \<open>\<open>*formatter->fmt\<close> and \<open>formatter->fmt++\<close>.\<close>

definition fmt_char :: "string_formatter \<Rightarrow> u8 option" where
  "fmt_char f = (case ffmt f of [] \<Rightarrow> None | c # _ \<Rightarrow> Some c)"

definition fmt_next :: "string_formatter \<Rightarrow> string_formatter" where
  "fmt_next f = f\<lparr>ffmt := tl (ffmt f)\<rparr>"

fun va_int :: "va_item list \<Rightarrow> (u16 \<times> va_item list) option" where
  "va_int (VaInt v # ap) = Some (v, ap)"
| "va_int _ = None"

fun va_str :: "va_item list \<Rightarrow> (u8 list \<times> va_item list) option" where
  "va_str (VaStr s # ap) = Some (s, ap)"
| "va_str _ = None"

definition output_item :: "string_formatter \<Rightarrow> va_item list \<Rightarrow> (string_formatter \<times> va_item list) option" where
  "output_item f ap = do {
     c \<leftarrow> fmt_char f;
     (f, ap) \<leftarrow>
       (if c = of_char CHR ''s'' then do { (s, ap) \<leftarrow> va_str ap; Some (output_string f s, ap) }
        else if c = of_char CHR ''u'' then do { (v, ap) \<leftarrow> va_int ap; Some (output_unsigned f v 10, ap) }
        else if c = of_char CHR ''x'' then do { (v, ap) \<leftarrow> va_int ap; Some (output_unsigned f v 16, ap) }
        else if c = of_char CHR ''p'' then do { (v, ap) \<leftarrow> va_int ap; Some (output_pointer f v, ap) }
        else do { (v, ap) \<leftarrow> va_int ap; Some (output_char f (ucast v), ap) });
     Some (fmt_next f, ap)
   }"

fun precision_digits :: "u8 list \<Rightarrow> int \<Rightarrow> int \<times> u8 list" where
  "precision_digits [] p = (p, [])"
| "precision_digits (c # cs) p =
     (if c \<ge> 0x30 \<and> c \<le> 0x39 then precision_digits cs (p * 10 + (uint c - 0x30)) else (p, c # cs))"

definition read_precision :: "string_formatter \<Rightarrow> string_formatter" where
  "read_precision f = (let (p, cs) = precision_digits (ffmt f) 0 in f\<lparr>fprecision := p, ffmt := cs\<rparr>)"

definition read_zero_pad :: "string_formatter \<Rightarrow> string_formatter option" where
  "read_zero_pad f = do {
     c \<leftarrow> fmt_char f;
     Some (if c = 0x30 then fmt_next (f\<lparr>fzero_pad := True\<rparr>) else f\<lparr>fzero_pad := False\<rparr>)
   }"

definition parse_specifier :: "string_formatter \<Rightarrow> string_formatter option" where
  "parse_specifier f = do {
     f \<leftarrow> read_zero_pad (fmt_next f);
     Some (read_precision f)
   }"

partial_function (option) format_loop :: "string_formatter \<Rightarrow> va_item list \<Rightarrow> string_formatter option" where
  "format_loop f ap =
     (if flen f < fmaxlen f - 1 then do {
        c \<leftarrow> fmt_char f;
        if c = 0 then Some f
        else if c = of_char CHR ''%'' then do {
          f \<leftarrow> parse_specifier f;
          (f, ap) \<leftarrow> output_item f ap;
          format_loop f ap
        } else format_loop (fmt_next (output_char f c)) ap
      } else Some f)"

definition string_format :: "u16 \<Rightarrow> u8 list \<Rightarrow> va_item list \<Rightarrow> u8 list option" where
  "string_format maxlen fmt ap = do {
     f \<leftarrow> format_loop \<lparr>fbuf = [], flen = 0, fmaxlen = maxlen, ffmt = fmt, fprecision = 0, fzero_pad = False\<rparr> ap;
     Some (fbuf f)
   }"

definition printk :: "string \<Rightarrow> va_item list \<Rightarrow> bios \<Rightarrow> bios option" where
  "printk fmt ap b = do {
     out \<leftarrow> string_format 128 (c_str fmt @ [0]) ap;
     putstr (takeWhile (\<lambda>c. c \<noteq> 0) out) b
   }"

end
