(* ===== verification/BiosInput.thy ===== *)
theory BiosInput
  imports BiosPrintk
begin

text \<open>
  Interrupt control (part of bios/bios.c), the keyboard (bios/keyboard.c, bios/scancodes.h), serial input (bios/serial.c), the
  clock (bios/timer.c) and the mouse (bios/mouse.c).
\<close>

section \<open>Interrupt control\<close>

definition PIC_COMMAND :: u16 where "PIC_COMMAND = 0x20"
definition PIC_DATA :: u16 where "PIC_DATA = 0x21"

definition irq_ack :: "bios \<Rightarrow> bios option" where
  "irq_ack b = outb 0x20 0x20 b"

definition irq_init :: "bios \<Rightarrow> bios option" where
  "irq_init b = do {
     b \<leftarrow> outb PIC_COMMAND (push_bit 4 1 OR push_bit 1 1 OR push_bit 0 1) b;
     b \<leftarrow> outb PIC_DATA 0x08 b;
     b \<leftarrow> outb PIC_DATA (push_bit 0 1) b;
     b \<leftarrow> outb PIC_DATA (NOT 0) b;
     irq_ack b
   }"

definition irq_enable :: "nat \<Rightarrow> bios \<Rightarrow> bios option" where
  "irq_enable irq_num b = do { (v, b) \<leftarrow> inb PIC_DATA b; outb PIC_DATA (v AND NOT (push_bit irq_num 1)) b }"

definition irq_disable :: "nat \<Rightarrow> bios \<Rightarrow> bios option" where
  "irq_disable irq_num b = do { (v, b) \<leftarrow> inb PIC_DATA b; outb PIC_DATA (v OR push_bit irq_num 1) b }"

section \<open>The keyboard buffer\<close>

definition kbd_start :: u16 where "kbd_start = offsetof ''kbd_buffer''"
definition kbd_end :: u16 where "kbd_end = offsetof ''drive_recalibration_status''"

definition kbd_buffer_full :: "bios \<Rightarrow> bool option" where
  "kbd_buffer_full b = do {
     tail \<leftarrow> bda_readw (offsetof ''kbd_buffer_tail'') b;
     head \<leftarrow> bda_readw (offsetof ''kbd_buffer_head'') b;
     Some (tail = head - 2 \<or> head = kbd_start \<and> tail = kbd_end - 2)
   }"

text \<open>The address of \<open>kbd_buffer[circ_offset / 2]\<close>.\<close>

definition kbd_slot :: "u16 \<Rightarrow> u16" where
  "kbd_slot p = kbd_start + ((p - kbd_start) div 2) * 2"

definition kbd_advance :: "u16 \<Rightarrow> u16" where
  "kbd_advance p = (if p + 2 \<ge> kbd_end then kbd_start else p + 2)"

definition kbd_buffer_add :: "u16 \<Rightarrow> bios \<Rightarrow> bios option" where
  "kbd_buffer_add key b = do {
     full \<leftarrow> kbd_buffer_full b;
     if full then led_set LED_KBD_BUFFER_FULL b
     else do {
       b \<leftarrow> led_clear LED_KBD_BUFFER_FULL b;
       b \<leftarrow> led_set LED_KBD_BUFFER_NON_EMPTY b;
       tail \<leftarrow> bda_readw (offsetof ''kbd_buffer_tail'') b;
       b \<leftarrow> bda_writew (kbd_slot tail) key b;
       bda_writew (offsetof ''kbd_buffer_tail'') (kbd_advance tail) b
     }
   }"

definition kbd_buffer_pop :: "bios \<Rightarrow> bios option" where
  "kbd_buffer_pop b = do {
     head \<leftarrow> bda_readw (offsetof ''kbd_buffer_head'') b;
     let head = kbd_advance head;
     b \<leftarrow> bda_writew (offsetof ''kbd_buffer_head'') head b;
     tail \<leftarrow> bda_readw (offsetof ''kbd_buffer_tail'') b;
     if head = tail then led_clear LED_KBD_BUFFER_NON_EMPTY b else Some b
   }"

section \<open>Scan codes\<close>

record keydef =
  key_normal :: u16
  key_shifted :: u16
  key_ctrl :: u16
  key_alt :: u16

abbreviation kd :: "u16 \<Rightarrow> u16 \<Rightarrow> u16 \<Rightarrow> u16 \<Rightarrow> keydef" where
  "kd n s c a \<equiv> \<lparr>key_normal = n, key_shifted = s, key_ctrl = c, key_alt = a\<rparr>"

definition keycode_list :: "(u8 \<times> keydef) list" where
  "keycode_list = [
     (0x1e, kd 0x1e61 0x1e41 0x1e01 0x1e00), (0x30, kd 0x3062 0x3042 0x3002 0x3000), (0x2e, kd 0x2e63 0x2e43 0x2e03 0x2e00),
     (0x20, kd 0x2064 0x2044 0x2004 0x2000), (0x12, kd 0x1265 0x1245 0x1205 0x1200), (0x21, kd 0x2166 0x2146 0x2106 0x2100),
     (0x22, kd 0x2267 0x2247 0x2207 0x2200), (0x23, kd 0x2368 0x2348 0x2308 0x2300), (0x17, kd 0x1769 0x1749 0x1709 0x1700),
     (0x24, kd 0x246a 0x244a 0x240a 0x2400), (0x25, kd 0x256b 0x254b 0x250b 0x2500), (0x26, kd 0x266c 0x264c 0x260c 0x2600),
     (0x32, kd 0x326d 0x324d 0x320d 0x3200), (0x31, kd 0x316e 0x314e 0x310e 0x3100), (0x18, kd 0x186f 0x184f 0x180f 0x1800),
     (0x19, kd 0x1970 0x1950 0x1910 0x1900), (0x10, kd 0x1071 0x1051 0x1011 0x1000), (0x13, kd 0x1372 0x1352 0x1312 0x1300),
     (0x1f, kd 0x1f73 0x1f53 0x1f13 0x1f00), (0x14, kd 0x1474 0x1454 0x1414 0x1400), (0x16, kd 0x1675 0x1655 0x1615 0x1600),
     (0x2f, kd 0x2f76 0x2f56 0x2f16 0x2f00), (0x11, kd 0x1177 0x1157 0x1117 0x1100), (0x2d, kd 0x2d78 0x2d58 0x2d18 0x2d00),
     (0x15, kd 0x1579 0x1559 0x1519 0x1500), (0x2c, kd 0x2c7a 0x2c5a 0x2c1a 0x2c00), (0x02, kd 0x0231 0x0221 0x0231 0x7800),
     (0x03, kd 0x0332 0x0340 0x0300 0x7900), (0x04, kd 0x0433 0x0423 0x0433 0x7a00), (0x05, kd 0x0534 0x0524 0x0534 0x7b00),
     (0x06, kd 0x0635 0x0625 0x0635 0x7c00), (0x07, kd 0x0736 0x075e 0x071e 0x7d00), (0x08, kd 0x0837 0x0826 0x0837 0x7e00),
     (0x09, kd 0x0938 0x092a 0x0938 0x7f00), (0x0a, kd 0x0a39 0x0a28 0x0a39 0x8000), (0x0b, kd 0x0b30 0x0b29 0x0b30 0x8100),
     (0x0c, kd 0x0c2d 0x0c5f 0x0c1f 0x8200), (0x0d, kd 0x0d3d 0x0d2b 0x0d2b 0x8300), (0x1a, kd 0x1a5b 0x1a7b 0x1a1b 0x1a00),
     (0x1b, kd 0x1b5d 0x1b7d 0x1b1d 0x1b00), (0x27, kd 0x273b 0x273a 0x273b 0x2700), (0x28, kd 0x2827 0x2822 0x2827 0x2827),
     (0x29, kd 0x2960 0x297e 0x2960 0x2960), (0x2b, kd 0x2b5c 0x2b7c 0x2b1c 0x2600), (0x33, kd 0x332c 0x333c 0x332c 0x332c),
     (0x34, kd 0x342e 0x343e 0x342e 0x342e), (0x35, kd 0x352f 0x353f 0x352f 0x352f), (0x3b, kd 0x3b00 0x5400 0x5e00 0x6800),
     (0x3c, kd 0x3c00 0x5500 0x5f00 0x6900), (0x3d, kd 0x3d00 0x5600 0x6000 0x6a00), (0x3e, kd 0x3e00 0x5700 0x6100 0x6b00),
     (0x3f, kd 0x3f00 0x5800 0x6200 0x6c00), (0x40, kd 0x4000 0x5900 0x6300 0x6d00), (0x41, kd 0x4100 0x5a00 0x6400 0x6e00),
     (0x42, kd 0x4200 0x5b00 0x6500 0x6f00), (0x43, kd 0x4300 0x5c00 0x6600 0x7000), (0x44, kd 0x4400 0x5d00 0x6700 0x7100),
     (0x85, kd 0x8500 0x8700 0x8900 0x8b00), (0x86, kd 0x8600 0x8800 0x8a00 0x8c00), (0x0e, kd 0x0e08 0x0e08 0x0e7f 0x0e00),
     (0x1c, kd 0x1c0d 0x1c0d 0x1c0a 0xa600), (0x01, kd 0x011b 0x011b 0x011b 0x0100), (0x39, kd 0x3920 0x3920 0x3920 0x3920),
     (0x0f, kd 0x0f09 0x0f00 0x9400 0xa500), (0x53, kd 0x5300 0x532e 0x9300 0xa300), (0x50, kd 0x5000 0x5032 0x9100 0xa000),
     (0x4f, kd 0x4f00 0x4f31 0x7500 0x9f00), (0x47, kd 0x4700 0x4737 0x7700 0x9700), (0x52, kd 0x5200 0x5230 0x9200 0xa200),
     (0x4b, kd 0x4b00 0x4b34 0x7300 0x9b00), (0x51, kd 0x5100 0x5133 0x7600 0xa100), (0x49, kd 0x4900 0x4939 0x8400 0x9900),
     (0x4d, kd 0x4d00 0x4d36 0x7400 0x9d00), (0x48, kd 0x4800 0x4838 0x8d00 0x9800)]"

text \<open>The array has 0x87 elements; those without an initialiser are zero.\<close>

definition keycode_map_size :: u8 where "keycode_map_size = 0x87"

definition keycode_map :: "u8 \<Rightarrow> keydef" where
  "keycode_map c = (case map_of keycode_list c of None \<Rightarrow> kd 0 0 0 0 | Some d \<Rightarrow> d)"

definition SCANCODE_LSHIFT :: u8 where "SCANCODE_LSHIFT = 0x2a"
definition SCANCODE_LCTRL :: u8 where "SCANCODE_LCTRL = 0x1d"
definition SCANCODE_LALT :: u8 where "SCANCODE_LALT = 0x38"
definition KBD_FLAG_LSHIFT :: u8 where "KBD_FLAG_LSHIFT = push_bit 1 1"
definition KBD_FLAG_LCTRL :: u8 where "KBD_FLAG_LCTRL = push_bit 2 1"
definition KBD_FLAG_LALT :: u8 where "KBD_FLAG_LALT = push_bit 3 1"

definition is_modifier :: "u8 \<Rightarrow> bool" where
  "is_modifier c = (let c = c AND NOT 0x80 in c = SCANCODE_LALT \<or> c = SCANCODE_LCTRL \<or> c = SCANCODE_LSHIFT)"

definition modifier_key :: "u8 \<Rightarrow> bool \<Rightarrow> bios \<Rightarrow> bios option" where
  "modifier_key c keyup b = do {
     flags \<leftarrow> bda_readb (offsetof ''keyboard_flags'') b;
     let c = c AND NOT 0x80;
     let m = (if c = SCANCODE_LALT then KBD_FLAG_LALT else 0);
     let m = (if c = SCANCODE_LSHIFT then KBD_FLAG_LSHIFT else m);
     let m = (if c = SCANCODE_LCTRL then KBD_FLAG_LCTRL else m);
     bda_writeb (offsetof ''keyboard_flags'') (if keyup then flags AND NOT m else flags OR m) b
   }"

definition get_kbd_flags :: "bios \<Rightarrow> u8 option" where
  "get_kbd_flags b = bda_readb (offsetof ''keyboard_flags'') b"

definition keypress :: "u8 \<Rightarrow> bios \<Rightarrow> bios option" where
  "keypress c b = do {
     let def = keycode_map c;
     flags \<leftarrow> get_kbd_flags b;
     if flags AND KBD_FLAG_LSHIFT \<noteq> 0 \<and> key_shifted def \<noteq> 0 then kbd_buffer_add (key_shifted def) b
     else if flags AND KBD_FLAG_LCTRL \<noteq> 0 \<and> key_ctrl def \<noteq> 0 then kbd_buffer_add (key_ctrl def) b
     else if flags AND KBD_FLAG_LALT \<noteq> 0 \<and> key_alt def \<noteq> 0 then kbd_buffer_add (key_alt def) b
     else if key_normal def \<noteq> 0 then kbd_buffer_add (key_normal def) b
     else Some b
   }"

section \<open>Polling\<close>

definition PS2_DATA_PORT :: u16 where "PS2_DATA_PORT = 0x60"
definition PS2_CTRL_PORT :: u16 where "PS2_CTRL_PORT = 0x61"
definition PS2_CTRL_CLEAR :: u8 where "PS2_CTRL_CLEAR = push_bit 7 1"

definition keyboard_reset :: "bios \<Rightarrow> bios option" where
  "keyboard_reset b = do { (v, b) \<leftarrow> inb PS2_CTRL_PORT b; outb PS2_CTRL_PORT (v OR PS2_CTRL_CLEAR) b }"

definition keyboard_poll :: "bios \<Rightarrow> (bool \<times> bios) option" where
  "keyboard_poll b = do {
     (c, b) \<leftarrow> inb PS2_DATA_PORT b;
     if c = 0 then Some (False, b)
     else do {
       (v, b) \<leftarrow> inb PS2_CTRL_PORT b;
       b \<leftarrow> outb PS2_CTRL_PORT (v OR PS2_CTRL_CLEAR) b;
       let keyup = (c AND 0x80 \<noteq> 0);
       b \<leftarrow> (if is_modifier c then modifier_key c keyup b
             else if \<not> keyup \<and> c < keycode_map_size then keypress c b
             else Some b);
       Some (True, b)
     }
   }"

text \<open>\<open>while (keyboard_poll())\<close>.\<close>

partial_function (option) poll_all :: "bios \<Rightarrow> bios option" where
  "poll_all b = do {
     (more, b) \<leftarrow> keyboard_poll b;
     if more then poll_all b else Some b
   }"

definition serial_poll :: "bios \<Rightarrow> (bool \<times> bios) option" where
  "serial_poll b = do {
     (v, b) \<leftarrow> inb UART_STATUS_PORT b;
     let ready = (v AND UART_RX_READY \<noteq> 0);
     if ready then do {
       (c, b) \<leftarrow> inb UART_DATA_PORT b;
       b \<leftarrow> kbd_buffer_add (ucast c) b;
       Some (True, b)
     } else Some (False, b)
   }"

definition kbd_buffer_peek :: "bios \<Rightarrow> (u16 \<times> bios) option" where
  "kbd_buffer_peek b = do {
     head \<leftarrow> bda_readw (offsetof ''kbd_buffer_head'') b;
     tail \<leftarrow> bda_readw (offsetof ''kbd_buffer_tail'') b;
     b \<leftarrow> (if head = tail then poll_all b else Some b);
     if head = tail then Some (0, b)
     else do { v \<leftarrow> bda_readw (kbd_slot head) b; Some (v, b) }
   }"

section \<open>Keyboard services\<close>

partial_function (option) wait_key :: "bios \<Rightarrow> (u16 \<times> bios) option" where
  "wait_key b = do {
     (c, b) \<leftarrow> kbd_buffer_peek b;
     if c \<noteq> 0 then Some (c, b)
     else do {
       b \<leftarrow> (if serial_stdio b then map_option snd (serial_poll b) else Some b);
       b \<leftarrow> poll_all b;
       wait_key b
     }
   }"

definition keyboard_wait :: "callregs \<Rightarrow> bios \<Rightarrow> (callregs \<times> bios) option" where
  "keyboard_wait r b = do {
     let r = clear_cf r;
     (c, b) \<leftarrow> wait_key b;
     b \<leftarrow> kbd_buffer_pop b;
     Some (r\<lparr>cr_ax := c\<rparr>, b)
   }"

definition keyboard_status :: "callregs \<Rightarrow> bios \<Rightarrow> (callregs \<times> bios) option" where
  "keyboard_status r b = do {
     let r = clear_cf r;
     (c, b) \<leftarrow> kbd_buffer_peek b;
     b \<leftarrow> (if c = 0 then map_option snd (keyboard_poll b) else Some b);
     b \<leftarrow> (if serial_stdio b \<and> c = 0 then map_option snd (serial_poll b) else Some b);
     (c, b) \<leftarrow> kbd_buffer_peek b;
     let r = (if c \<noteq> 0 then r\<lparr>cr_flags := cr_flags r AND NOT ZF\<rparr> else r\<lparr>cr_flags := cr_flags r OR ZF\<rparr>);
     Some (r\<lparr>cr_ax := c\<rparr>, b)
   }"

definition keyboard_shift_status :: "callregs \<Rightarrow> bios \<Rightarrow> callregs option" where
  "keyboard_shift_status r b = do {
     let r = clear_cf r;
     let r = r\<lparr>cr_ax := set_h (cr_ax r) 0\<rparr>;
     v \<leftarrow> bda_readb (offsetof ''keyboard_flags'') b;
     Some (r\<lparr>cr_ax := set_l (cr_ax r) v\<rparr>)
   }"

definition keyboard_services :: "callregs \<Rightarrow> bios \<Rightarrow> (callregs \<times> bios) option" where
  "keyboard_services r b =
     (let r = set_cf r; f = reg_h (cr_ax r) in
      if f = 0x0 \<or> f = 0x10 then keyboard_wait r b
      else if f = 0x1 \<or> f = 0x11 then keyboard_status r b
      else if f = 0x2 then do { r \<leftarrow> keyboard_shift_status r b; Some (r, b) }
      else Some (r, b))"

definition keyboard_init :: "bios \<Rightarrow> bios option" where
  "keyboard_init b = do {
     b \<leftarrow> bda_writeb (offsetof ''keyboard_flags'') 0 b;
     b \<leftarrow> bda_writeb (offsetof ''keyboard_flags'' + 1) 0 b;
     b \<leftarrow> bda_writew (offsetof ''kbd_buffer_tail'') kbd_start b;
     b \<leftarrow> bda_writew (offsetof ''kbd_buffer_head'') kbd_start b;
     b \<leftarrow> keyboard_reset b;
     irq_enable 1 b
   }"

section \<open>The clock\<close>

definition timer_services :: "callregs \<Rightarrow> bios \<Rightarrow> (callregs \<times> bios) option" where
  "timer_services r b =
     (let f = reg_h (cr_ax r); (hour, minute, second, year, month, day) = build_time b in
      if f = 0x0 then do {
        lo \<leftarrow> bda_readw (offsetof ''timer_counter_low'') b;
        hi \<leftarrow> bda_readw (offsetof ''timer_counter_high'') b;
        v \<leftarrow> bda_readb (offsetof ''clock_rollover'') b;
        b \<leftarrow> bda_writeb (offsetof ''clock_rollover'') 0 b;
        Some (clear_cf (r\<lparr>cr_dx := lo, cr_cx := hi, cr_ax := set_l (cr_ax r) v\<rparr>), b)
      } else if f = 0x1 then do {
        b \<leftarrow> bda_writew (offsetof ''timer_counter_low'') (cr_dx r) b;
        b \<leftarrow> bda_writew (offsetof ''timer_counter_high'') (cr_cx r) b;
        b \<leftarrow> bda_writeb (offsetof ''clock_rollover'') 0 b;
        Some (clear_cf r, b)
      } else if f = 0x2 then
        Some (clear_cf (r\<lparr>cr_cx := set_l (set_h (cr_cx r) (of_nat hour)) (of_nat minute),
                          cr_dx := set_h (cr_dx r) (of_nat second)\<rparr>), b)
      else if f = 0x4 then
        Some (clear_cf (r\<lparr>cr_cx := of_nat year, cr_dx := set_l (set_h (cr_dx r) (of_nat month)) (of_nat day)\<rparr>), b)
      else Some (set_cf r, b))"

text \<open>\<open>INIT_TIME_COUNT_VAL\<close>: the seconds of the build time of day times 18.2, truncated.\<close>

definition INIT_TIME_COUNT_VAL :: "bios \<Rightarrow> u32" where
  "INIT_TIME_COUNT_VAL b =
     (let (hour, minute, second, _) = build_time b
      in of_nat (((hour * 60 * 60 + minute * 60 + second) * 182) div 10))"

definition init_timer :: "bios \<Rightarrow> bios option" where
  "init_timer b = do {
     b \<leftarrow> irq_enable 0 b;
     b \<leftarrow> outb (0x40 + 0x3) 0x34 b;
     b \<leftarrow> outb (0x40 + 0x0) 0x00 b;
     b \<leftarrow> outb (0x40 + 0x0) 0x00 b;
     b \<leftarrow> bda_writew (offsetof ''timer_counter_low'') (ucast (INIT_TIME_COUNT_VAL b AND 0xffff)) b;
     bda_writew (offsetof ''timer_counter_high'') (ucast (drop_bit 16 (INIT_TIME_COUNT_VAL b) AND 0xffff)) b
   }"

definition jiffies :: "bios \<Rightarrow> u32 option" where
  "jiffies b = do {
     low \<leftarrow> bda_readw (offsetof ''timer_counter_low'') b;
     high \<leftarrow> bda_readw (offsetof ''timer_counter_high'') b;
     Some (push_bit 16 (ucast high) OR ucast low)
   }"

section \<open>The mouse\<close>

definition MOUSE_DATA :: u16 where "MOUSE_DATA = 0xffe0"
definition MOUSE_STATUS :: u16 where "MOUSE_STATUS = 0xffe1"
definition MOUSE_IRQ :: nat where "MOUSE_IRQ = 7"
definition CMD_TIMEOUT :: nat where "CMD_TIMEOUT = 32768"
definition CMD_REFRESH :: u8 where "CMD_REFRESH = 0xf3"
definition CMD_DISABLE :: u8 where "CMD_DISABLE = 0xf5"
definition CMD_ENABLE :: u8 where "CMD_ENABLE = 0xf4"

text \<open>\<open>None\<close> in the result is the return value -1.\<close>

definition mouse_read :: "bios \<Rightarrow> (u8 option \<times> bios) option" where
  "mouse_read b = do {
     (v, b) \<leftarrow> inb MOUSE_STATUS b;
     if v AND push_bit 4 1 = 0 then Some (None, b)
     else do { (v, b) \<leftarrow> inb MOUSE_DATA b; Some (Some v, b) }
   }"

text \<open>The loop of \<open>mouse_cmd\<close> with the tries that are left: \<open>CMD_TIMEOUT + 1\<close> in all.\<close>

fun mouse_tries :: "nat \<Rightarrow> bios \<Rightarrow> (u8 option \<times> bios) option" where
  "mouse_tries 0 b = Some (None, b)"
| "mouse_tries (Suc n) b = do {
     (v, b) \<leftarrow> mouse_read b;
     case v of Some v \<Rightarrow> Some (Some v, b) | None \<Rightarrow> mouse_tries n b
   }"

text \<open>The answer, or \<open>None\<close> after the time-out (where \<open>*out\<close> is 0xfe).\<close>

definition mouse_cmd :: "u8 \<Rightarrow> bios \<Rightarrow> (u8 option \<times> bios) option" where
  "mouse_cmd v b = do {
     b \<leftarrow> outb MOUSE_DATA v b;
     mouse_tries (Suc CMD_TIMEOUT) b
   }"

text \<open>\<open>while (mouse_read(&b))\<close>.\<close>

partial_function (option) mouse_wait :: "bios \<Rightarrow> (u8 \<times> bios) option" where
  "mouse_wait b = do {
     (v, b) \<leftarrow> mouse_read b;
     case v of Some v \<Rightarrow> Some (v, b) | None \<Rightarrow> mouse_wait b
   }"

definition wait_self_test :: "bios \<Rightarrow> (bool \<times> bios) option" where
  "wait_self_test b = do {
     (v, b) \<leftarrow> mouse_wait b;
     if v \<noteq> 0xaa then do {
       b \<leftarrow> printk (''self test failed (%02x)'' @ [CHR 0x0a]) [VaInt (ucast v)] b;
       Some (False, b)
     } else do {
       (_, b) \<leftarrow> mouse_wait b;
       Some (True, b)
     }
   }"

definition mouse_hw_init :: "bios \<Rightarrow> (bool \<times> bios) option" where
  "mouse_hw_init b = do {
     b \<leftarrow> outb MOUSE_STATUS PS2_CTRL_CLEAR b;
     (resp, b) \<leftarrow> mouse_cmd 0xff b;
     if resp \<noteq> Some 0xfa then do { b \<leftarrow> printk (''mouse: not present'' @ [CHR 0x0a]) [] b; Some (False, b) }
     else do {
       (passed, b) \<leftarrow> wait_self_test b;
       if \<not> passed then Some (False, b)
       else do {
         (resp, b) \<leftarrow> mouse_cmd CMD_ENABLE b;
         if resp \<noteq> Some 0xfa then do {
           b \<leftarrow> printk (''failed to enable scanning %02x'' @ [CHR 0x0a])
                 [VaInt (case resp of Some v \<Rightarrow> ucast v | None \<Rightarrow> 0xfe)] b;
           Some (False, b)
         } else do {
           (_, b) \<leftarrow> mouse_cmd CMD_REFRESH b;
           (_, b) \<leftarrow> mouse_cmd 40 b;
           Some (True, b\<lparr>have_mouse := True\<rparr>)
         }
       }
     }
   }"

definition mouse_init :: "bios \<Rightarrow> bios option" where
  "mouse_init b = outb MOUSE_STATUS PS2_CTRL_CLEAR b"

definition setup_mouse :: "callregs \<Rightarrow> bios \<Rightarrow> (callregs \<times> bios) option" where
  "setup_mouse r b = do {
     let b = b\<lparr>mouse_driver_addr := (cr_bx r, rget (sys b) ES)\<rparr>;
     if have_mouse b then do { b \<leftarrow> mouse_init b; Some (clear_cf r, b) } else Some (r, b)
   }"

definition enable_mouse :: "callregs \<Rightarrow> bios \<Rightarrow> (callregs \<times> bios) option" where
  "enable_mouse r b = do {
     let r = clear_cf r;
     let b = b\<lparr>mouse_driver_enabled := ucast (reg_h (cr_bx r))\<rparr>;
     b \<leftarrow> (if mouse_driver_enabled b \<noteq> 0 then irq_enable MOUSE_IRQ b else irq_disable MOUSE_IRQ b);
     Some (r, b)
   }"

definition mouse_services :: "callregs \<Rightarrow> bios \<Rightarrow> (callregs \<times> bios) option" where
  "mouse_services r b =
     (let f = reg_l (cr_ax r) in
      if f = 0x7 then do { (r, b) \<leftarrow> setup_mouse r b; Some (r\<lparr>cr_ax := 0\<rparr>, b) }
      else if f = 0x0 then do { (r, b) \<leftarrow> enable_mouse r b; Some (r\<lparr>cr_ax := 0\<rparr>, b) }
      else if f = 0x5 \<or> f = 0x3 then Some ((clear_cf r)\<lparr>cr_ax := 0\<rparr>, b)
      else Some (set_cf r, b))"

definition mouse_suspend :: "bios \<Rightarrow> bios option" where
  "mouse_suspend b = (if \<not> have_mouse b then Some b else map_option snd (mouse_cmd CMD_DISABLE b))"

definition mouse_resume :: "bios \<Rightarrow> bios option" where
  "mouse_resume b =
     (if \<not> have_mouse b then Some b
      else do {
        b \<leftarrow> mouse_init b;
        let b = b\<lparr>mouse_nbytes := 0\<rparr>;
        (_, b) \<leftarrow> mouse_cmd CMD_ENABLE b;
        mouse_init b
      })"

end
