(* ===== verification/BiosSD.thy ===== *)
theory BiosSD
  imports BiosInput
begin

text \<open>
  The SD card driver (bios/sd.c), over the SPI port of the machine. \<open>spi_xfer_buf\<close> is the driver's buffer of 1280 bytes; an
  index outside it is \<^term>\<open>None\<close>. A loop that waits for the card is a partial function.
\<close>

section \<open>Transfers\<close>

definition SPI_CONTROL_PORT :: u16 where "SPI_CONTROL_PORT = 0xfff0"
definition SPI_TRANSFER_PORT :: u16 where "SPI_TRANSFER_PORT = 0xfff2"
definition SPI_XFER_BUSY :: u16 where "SPI_XFER_BUSY = push_bit 8 1"
definition SPI_CS_DEACTIVATE :: u16 where "SPI_CS_DEACTIVATE = push_bit 9 1"

definition XFER_BUF_SIZE :: nat where "XFER_BUF_SIZE = 1280"

definition spi_xfer_buf_set :: "nat \<Rightarrow> u8 \<Rightarrow> bios \<Rightarrow> bios option" where
  "spi_xfer_buf_set offs v b =
     (if offs < length (spi_xfer_buf b) then Some (b\<lparr>spi_xfer_buf := (spi_xfer_buf b)[offs := v]\<rparr>) else None)"

definition spi_xfer_buf_get :: "nat \<Rightarrow> bios \<Rightarrow> u8 option" where
  "spi_xfer_buf_get offs b = (if offs < length (spi_xfer_buf b) then Some (spi_xfer_buf b ! offs) else None)"

partial_function (option) spi_wait_idle :: "bios \<Rightarrow> bios option" where
  "spi_wait_idle b = do {
     (v, b) \<leftarrow> inw SPI_TRANSFER_PORT b;
     if v AND SPI_XFER_BUSY \<noteq> 0 then spi_wait_idle b else Some b
   }"

text \<open>The buffer is an array of \<open>char\<close>, which the output promotes to \<open>int\<close>.\<close>

partial_function (option) spi_xfer_loop :: "nat \<Rightarrow> bool \<Rightarrow> nat \<Rightarrow> nat \<Rightarrow> bool \<Rightarrow> bios \<Rightarrow> bios option" where
  "spi_xfer_loop len wait_for_resp src dst non_ff_byte_received b =
     (if dst < len then do {
        (v, src) \<leftarrow> (if src < len then do { c \<leftarrow> spi_xfer_buf_get src b; Some (scast c, src + 1) } else Some (0xff, src));
        b \<leftarrow> outw SPI_TRANSFER_PORT v b;
        b \<leftarrow> spi_wait_idle b;
        if \<not> wait_for_resp \<and> src = len then Some b
        else do {
          (w, b) \<leftarrow> inw SPI_TRANSFER_PORT b;
          let c = (ucast (w AND 0xff) :: u8);
          if \<not> non_ff_byte_received \<and> c = 0xff then spi_xfer_loop len wait_for_resp src dst non_ff_byte_received b
          else do {
            b \<leftarrow> spi_xfer_buf_set dst c b;
            spi_xfer_loop len wait_for_resp src (dst + 1) True b
          }
        }
      } else Some b)"

definition spi_xfer :: "nat \<Rightarrow> bool \<Rightarrow> bios \<Rightarrow> bios option" where
  "spi_xfer len wait_for_resp b = spi_xfer_loop len wait_for_resp 0 0 False b"

text \<open>\<open>for (m = from; m < to; ++m) spi_xfer_buf_set(m, v)\<close>.\<close>

fun buf_fill :: "nat list \<Rightarrow> u8 \<Rightarrow> bios \<Rightarrow> bios option" where
  "buf_fill [] v b = Some b"
| "buf_fill (m # ms) v b = spi_xfer_buf_set m v b \<bind> buf_fill ms v"

fun buf_copy :: "nat \<Rightarrow> u8 list \<Rightarrow> bios \<Rightarrow> bios option" where
  "buf_copy offs [] b = Some b"
| "buf_copy offs (v # vs) b = spi_xfer_buf_set offs v b \<bind> buf_copy (Suc offs) vs"

definition sd_send_initial_clock :: "bios \<Rightarrow> bios option" where
  "sd_send_initial_clock b = do {
     b \<leftarrow> buf_fill [0..<8] 0xff b;
     b \<leftarrow> outw SPI_CONTROL_PORT (SPI_CS_DEACTIVATE OR 0x1ff) b;
     spi_xfer 8 False b
   }"

definition sd_flush_fifo :: "bios \<Rightarrow> bios option" where
  "sd_flush_fifo b = do {
     b \<leftarrow> buf_fill [0..<128] 0xff b;
     b \<leftarrow> outw SPI_CONTROL_PORT 0x1ff b;
     spi_xfer 8 False b
   }"

section \<open>Commands\<close>

record spi_cmd =
  sc_cmd :: u8
  sc_arg :: "u8 list"
  sc_crc :: u8
  sc_rx_datalen :: nat

definition R1_ERROR_MASK :: u8 where "R1_ERROR_MASK = 0xfe"
definition SD_NCR :: nat where "SD_NCR = 8"
definition DATA_START_TOKEN :: u8 where "DATA_START_TOKEN = 0xfe"
definition BLOCK_SIZE :: nat where "BLOCK_SIZE = 512"
definition MAX_DATA_START_OFFS :: nat where "MAX_DATA_START_OFFS = 512"

definition spi_command_len :: "spi_cmd \<Rightarrow> nat" where
  "spi_command_len cmd = 1 + 6 + sc_rx_datalen cmd + SD_NCR"

definition spi_do_command :: "spi_cmd \<Rightarrow> bios \<Rightarrow> bios option" where
  "spi_do_command cmd b = do {
     let cmdlen = spi_command_len cmd;
     b \<leftarrow> spi_xfer_buf_set 0 0xff b;
     b \<leftarrow> spi_xfer_buf_set 1 (sc_cmd cmd) b;
     b \<leftarrow> buf_copy 2 (take 4 (sc_arg cmd)) b;
     b \<leftarrow> spi_xfer_buf_set 6 (sc_crc cmd) b;
     b \<leftarrow> buf_fill [7..<cmdlen] 0xff b;
     b \<leftarrow> outw SPI_CONTROL_PORT 0x1 b;
     spi_xfer cmdlen True b
   }"

text \<open>The index of the first byte that is not 0xff, and that byte; \<open>None\<close> is the return value -1.\<close>

definition find_r1_response :: "bios \<Rightarrow> (nat \<times> u8) option" where
  "find_r1_response b =
     (case find (\<lambda>i. spi_xfer_buf b ! i \<noteq> 0xff) [0..<length (spi_xfer_buf b)] of
        None \<Rightarrow> None | Some i \<Rightarrow> Some (i, spi_xfer_buf b ! i))"

text \<open>The return value of a command: -1 without a response, otherwise the error bits of the response.\<close>

definition r1_result :: "bios \<Rightarrow> int" where
  "r1_result b = (case find_r1_response b of None \<Rightarrow> -1 | Some (_, v) \<Rightarrow> uint (v AND R1_ERROR_MASK))"

definition simple_command :: "u8 \<Rightarrow> u8 list \<Rightarrow> u8 \<Rightarrow> bios \<Rightarrow> (int \<times> bios) option" where
  "simple_command c as crc b = do {
     b \<leftarrow> spi_do_command \<lparr>sc_cmd = c, sc_arg = as, sc_crc = crc, sc_rx_datalen = 1\<rparr> b;
     Some (r1_result b, b)
   }"

definition sd_send_reset :: "bios \<Rightarrow> (int \<times> bios) option" where
  "sd_send_reset b = simple_command 0x40 [0, 0, 0, 0] 0x95 b"

definition sd_send_if_cond :: "bios \<Rightarrow> (int \<times> bios) option" where
  "sd_send_if_cond b = simple_command 0x48 [0x00, 0x00, 0x01, 0xaa] 0x87 b"

definition sd_send_read_ocr :: "bios \<Rightarrow> (int \<times> bios) option" where
  "sd_send_read_ocr b = do {
     b \<leftarrow> spi_do_command \<lparr>sc_cmd = 0x7a, sc_arg = [0, 0, 0, 0], sc_crc = 0, sc_rx_datalen = 5\<rparr> b;
     case find_r1_response b of
       None \<Rightarrow> Some (-1, b)
     | Some (r1_offs, v) \<Rightarrow> do {
         u0 \<leftarrow> spi_xfer_buf_get (r1_offs + 4) b;
         u1 \<leftarrow> spi_xfer_buf_get (r1_offs + 3) b;
         u2 \<leftarrow> spi_xfer_buf_get (r1_offs + 2) b;
         u3 \<leftarrow> spi_xfer_buf_get (r1_offs + 1) b;
         let ocr = (ucast u0 OR push_bit 8 (ucast u1) OR push_bit 16 (ucast u2) OR push_bit 24 (ucast u3) :: u32);
         Some (uint (v AND R1_ERROR_MASK), b\<lparr>sd_is_sdhc := (ocr AND push_bit 30 1 \<noteq> 0)\<rparr>)
       }
   }"

definition send_acmd :: "bios \<Rightarrow> (int \<times> bios) option" where
  "send_acmd b = simple_command 0x77 [0x00, 0x00, 0x00, 0x00] 0 b"

partial_function (option) sd_wait_ready :: "bios \<Rightarrow> (int \<times> bios) option" where
  "sd_wait_ready b = do {
     (rc, b) \<leftarrow> send_acmd b;
     if rc \<noteq> 0 then Some (rc, b)
     else do {
       b \<leftarrow> spi_do_command \<lparr>sc_cmd = 0x69, sc_arg = [0x40, 0x00, 0x00, 0x00], sc_crc = 0, sc_rx_datalen = 1\<rparr> b;
       case find_r1_response b of
         None \<Rightarrow> Some (-1, b)
       | Some (_, v) \<Rightarrow>
           if v AND R1_ERROR_MASK \<noteq> 0 then Some (uint (v AND R1_ERROR_MASK), b)
           else if v AND 0x1 \<noteq> 0 then sd_wait_ready b
           else Some (0, b)
     }
   }"

definition sd_set_blocklen :: "bios \<Rightarrow> (int \<times> bios) option" where
  "sd_set_blocklen b = simple_command 0x50 [0x00, 0x00, 0x02, 0x00] 0 b"

section \<open>Sectors\<close>

text \<open>
  The loop reads the buffer before it checks the index; at the end of the buffer that read is out of bounds. The result is the
  return value.
\<close>

partial_function (option) find_data_loop :: "nat \<Rightarrow> bios \<Rightarrow> nat option" where
  "find_data_loop i b = do {
     c \<leftarrow> spi_xfer_buf_get i b;
     if c \<noteq> DATA_START_TOKEN \<and> i < XFER_BUF_SIZE then find_data_loop (i + 1) b else Some i
   }"

definition find_data_start :: "nat \<Rightarrow> bios \<Rightarrow> int option" where
  "find_data_start r1offs b = do {
     i \<leftarrow> find_data_loop (r1offs + 1) b;
     Some (if i = XFER_BUF_SIZE then -1 else int i + 1)
   }"

definition address_bytes :: "u32 \<Rightarrow> u8 list" where
  "address_bytes address = [ucast (drop_bit 24 address AND 0xff), ucast (drop_bit 16 address AND 0xff),
     ucast (drop_bit 8 address AND 0xff), ucast (drop_bit 0 address AND 0xff)]"

definition sd_make_write_request :: "u32 \<Rightarrow> bios \<Rightarrow> (int \<times> bios) option" where
  "sd_make_write_request address b = simple_command 0x58 (address_bytes address) 0 b"

definition sd_write_block :: "u16 \<Rightarrow> u16 \<Rightarrow> bios \<Rightarrow> bios option" where
  "sd_write_block sseg saddr b = do {
     b \<leftarrow> spi_xfer_buf_set 0 0xff b;
     b \<leftarrow> spi_xfer_buf_set 1 0xfe b;
     data \<leftarrow> memcpy_seg_from sseg saddr 512 b;
     b \<leftarrow> buf_copy 2 data b;
     b \<leftarrow> spi_xfer_buf_set (2 + 512) 0x0 b;
     b \<leftarrow> spi_xfer_buf_set (3 + 512) 0x0 b;
     b \<leftarrow> spi_xfer_buf_set (4 + 512) 0xff b;
     spi_xfer (5 + 512) True b
   }"

definition write_received :: "u8 \<Rightarrow> bool" where
  "write_received packet_response \<longleftrightarrow> packet_response AND 0x1 \<noteq> 0 \<and> drop_bit 1 packet_response AND 0x7 = 0x2"

text \<open>The tries that are left, of 32768.\<close>

fun completion_tries :: "nat \<Rightarrow> bios \<Rightarrow> (int \<times> bios) option" where
  "completion_tries 0 b = Some (-1, b)"
| "completion_tries (Suc n) b = do {
     b \<leftarrow> spi_xfer_buf_set 0 0xff b;
     b \<leftarrow> spi_xfer 1 True b;
     v \<leftarrow> spi_xfer_buf_get 0 b;
     if v \<noteq> 0 then Some (0, b) else completion_tries n b
   }"

definition wait_for_write_completion :: "bios \<Rightarrow> (int \<times> bios) option" where
  "wait_for_write_completion b = completion_tries 32768 b"

definition write_sector :: "u32 \<Rightarrow> u16 \<Rightarrow> u16 \<Rightarrow> bios \<Rightarrow> (int \<times> bios) option" where
  "write_sector sector sseg saddr b = do {
     let address = (if sd_is_sdhc b then sector else sector * 512);
     b \<leftarrow> mouse_suspend b;
     (rc, b) \<leftarrow> sd_make_write_request address b;
     if rc \<noteq> 0 then do { b \<leftarrow> mouse_resume b; Some (-1, b) }
     else do {
       b \<leftarrow> sd_write_block sseg saddr b;
       packet_response \<leftarrow> spi_xfer_buf_get 0 b;
       if \<not> write_received packet_response then do { b \<leftarrow> mouse_resume b; Some (-1, b) }
       else do {
         (rc, b) \<leftarrow> wait_for_write_completion b;
         b \<leftarrow> mouse_resume b;
         Some (rc, b)
       }
     }
   }"

definition read_sector :: "u32 \<Rightarrow> u16 \<Rightarrow> u16 \<Rightarrow> bios \<Rightarrow> (int \<times> bios) option" where
  "read_sector sector dseg daddr b = do {
     let address = (if sd_is_sdhc b then sector else sector * 512);
     let cmd = \<lparr>sc_cmd = 0x51, sc_arg = address_bytes address, sc_crc = 0,
                sc_rx_datalen = 1 + 1 + BLOCK_SIZE + 2 + MAX_DATA_START_OFFS\<rparr>;
     b \<leftarrow> mouse_suspend b;
     b \<leftarrow> spi_do_command cmd b;
     case find_r1_response b of
       None \<Rightarrow> do {
         b \<leftarrow> putstr (c_str ''Failed to find R1 response'' @ [0x0a]) b;
         b \<leftarrow> mouse_resume b;
         Some (-1, b) }
     | Some (r1offs, v) \<Rightarrow>
         if v AND R1_ERROR_MASK \<noteq> 0 then do {
           b \<leftarrow> putstr (c_str ''Read sector failed'' @ [0x0a]) b;
           b \<leftarrow> mouse_resume b;
           Some (-1, b) }
         else do {
           data_start \<leftarrow> find_data_start r1offs b;
           if data_start < 0 then do {
             b \<leftarrow> putstr (c_str ''No data start token'' @ [0x0a]) b;
             b \<leftarrow> mouse_resume b;
             Some (-1, b) }
           else if nat data_start + 512 \<le> length (spi_xfer_buf b) then do {
             b \<leftarrow> memcpy_seg_to dseg daddr (take 512 (drop (nat data_start) (spi_xfer_buf b))) b;
             b \<leftarrow> mouse_resume b;
             Some (0, b) }
           else None
         }
   }"

definition sd_init :: "bios \<Rightarrow> bios option" where
  "sd_init b = do {
     b \<leftarrow> sd_send_initial_clock b;
     b \<leftarrow> sd_flush_fifo b;
     (rc, b) \<leftarrow> sd_send_reset b;
     b \<leftarrow> (if rc \<noteq> 0 then panic ''Failed to reset SD card'' b else Some b);
     (rc, b) \<leftarrow> sd_send_if_cond b;
     b \<leftarrow> (if rc \<noteq> 0 then panic ''Failed to send interface conditions to SD card'' b else Some b);
     (rc, b) \<leftarrow> sd_send_read_ocr b;
     b \<leftarrow> (if rc \<noteq> 0 then panic ''Failed to read OCR for SD card'' b else Some b);
     (rc, b) \<leftarrow> sd_wait_ready b;
     b \<leftarrow> (if rc \<noteq> 0 then panic ''Failed to wait for SD card init'' b else Some b);
     (rc, b) \<leftarrow> sd_send_read_ocr b;
     b \<leftarrow> (if rc \<noteq> 0 then panic ''Failed to re-read OCR for SD card'' b else Some b);
     (rc, b) \<leftarrow> sd_set_blocklen b;
     b \<leftarrow> (if rc \<noteq> 0 then panic ''Failed to wait for SD card init'' b else Some b);
     putstr (c_str ''SD card ready'' @ [0x0a]) b
   }"

text \<open>The jump to the boot sector: DL is the drive and the processor continues at 0000:7c00.\<close>

definition sd_boot :: "bios \<Rightarrow> bios option" where
  "sd_boot b = do {
     (rc, b) \<leftarrow> read_sector 0 0 0x7c00 b;
     b \<leftarrow> (if rc \<noteq> 0 then panic (''Failed to read boot sector'' @ [CHR 0x0a]) b else Some b);
     b \<leftarrow> putstr (c_str ''Booting from SD card...'' @ [0x0a]) b;
     Some (b\<lparr>sys := rset (rset (rset (sys b) DL 0x80) CS 0) IP 0x7c00\<rparr>)
   }"

end
