(* ===== verification/BiosDisk.thy ===== *)
theory BiosDisk
  imports BiosSD
begin

text \<open>The disk services (bios/disk.c) and the rest of bios/bios.c: simple services, initialisation and \<open>root\<close>.\<close>

section \<open>Disk services\<close>

definition SECTORS_PER_TRACK :: u32 where "SECTORS_PER_TRACK = 63"
definition NUM_HEADS :: u32 where "NUM_HEADS = 32"
definition NUM_CYLINDERS :: u32 where "NUM_CYLINDERS = 65"
definition SECTOR_SIZE :: u32 where "SECTOR_SIZE = 512"
definition FLOPPY_TIMEOUT :: u8 where "FLOPPY_TIMEOUT = 0x80"

definition set_disk_status :: "callregs \<Rightarrow> u8 \<Rightarrow> bios \<Rightarrow> (callregs \<times> bios) option" where
  "set_disk_status r err b = do {
     let r = (if err \<noteq> 0 then set_cf r else clear_cf r);
     b \<leftarrow> bda_writeb (offsetof ''diskette_status'') err b;
     Some (r\<lparr>cr_ax := set_h (cr_ax r) err\<rparr>, b)
   }"

text \<open>Cylinder, head and sector of CX and DH as a block number.\<close>

definition chs_lba :: "callregs \<Rightarrow> u32" where
  "chs_lba r =
     (let cylinder = ucast (reg_h (cr_cx r)) OR ucast (push_bit 2 (ucast (reg_l (cr_cx r)) AND 0xc0 :: u16));
          head = ucast (reg_h (cr_dx r));
          sector = ucast (reg_l (cr_cx r) AND 0x3f)
      in (cylinder * NUM_HEADS + head) * SECTORS_PER_TRACK + (sector - 1))"

fun read_sectors :: "nat \<Rightarrow> u32 \<Rightarrow> u16 \<Rightarrow> callregs \<Rightarrow> bios \<Rightarrow> (callregs \<times> bios) option" where
  "read_sectors 0 lba dst r b = Some (r, b)"
| "read_sectors (Suc n) lba dst r b = do {
     (_, b) \<leftarrow> read_sector lba (cr_es r) dst b;
     let r = r\<lparr>cr_ax := set_l (cr_ax r) (reg_l (cr_ax r) + 1)\<rparr>;
     read_sectors n (lba + 1) (dst + ucast SECTOR_SIZE) r b
   }"

definition disk_read :: "callregs \<Rightarrow> bios \<Rightarrow> (callregs \<times> bios) option" where
  "disk_read r b =
     (if reg_l (cr_dx r) \<noteq> 0x80 then set_disk_status r FLOPPY_TIMEOUT b
      else do {
        let lba = chs_lba r;
        let dst = cr_bx r;
        let count = reg_l (cr_ax r);
        let r = clear_cf (r\<lparr>cr_ax := set_l (cr_ax r) 0\<rparr>);
        (r, b) \<leftarrow> read_sectors (unat count) lba dst r b;
        set_disk_status r (if reg_l (cr_ax r) \<noteq> count then 0xff else 0x00) b
      })"

fun write_sectors :: "nat \<Rightarrow> u32 \<Rightarrow> u16 \<Rightarrow> callregs \<Rightarrow> bios \<Rightarrow> (callregs \<times> bios) option" where
  "write_sectors 0 lba dst r b = Some (r, b)"
| "write_sectors (Suc n) lba dst r b = do {
     (rc, b) \<leftarrow> write_sector lba (cr_es r) dst b;
     if rc \<noteq> 0 then Some (set_cf r, b)
     else do {
       let r = r\<lparr>cr_ax := set_l (cr_ax r) (reg_l (cr_ax r) + 1)\<rparr>;
       write_sectors n (lba + 1) (dst + ucast SECTOR_SIZE) r b
     }
   }"

definition disk_write :: "callregs \<Rightarrow> bios \<Rightarrow> (callregs \<times> bios) option" where
  "disk_write r b =
     (if reg_l (cr_dx r) \<noteq> 0x80 then set_disk_status r FLOPPY_TIMEOUT b
      else do {
        let lba = chs_lba r;
        let dst = cr_bx r;
        let count = reg_l (cr_ax r);
        let r = clear_cf (r\<lparr>cr_ax := set_l (cr_ax r) 0\<rparr>);
        (r, b) \<leftarrow> write_sectors (unat count) lba dst r b;
        set_disk_status r (if reg_l (cr_ax r) \<noteq> count then 0xff else 0x00) b
      })"

definition disk_status :: "callregs \<Rightarrow> bios \<Rightarrow> (callregs \<times> bios) option" where
  "disk_status r b =
     (if reg_l (cr_dx r) \<noteq> 0x80 then set_disk_status r FLOPPY_TIMEOUT b
      else do {
        v \<leftarrow> bda_readb (offsetof ''diskette_status'') b;
        b \<leftarrow> bda_writeb (offsetof ''diskette_status'') v b;
        Some (r, b)
      })"

definition disk_reset :: "callregs \<Rightarrow> bios \<Rightarrow> (callregs \<times> bios) option" where
  "disk_reset r b =
     (let r = clear_cf r in
      if reg_l (cr_dx r) \<noteq> 0x80 then set_disk_status r FLOPPY_TIMEOUT b else set_disk_status r 0 b)"

definition disk_parameters :: "callregs \<Rightarrow> bios \<Rightarrow> (callregs \<times> bios) option" where
  "disk_parameters r b =
     (let r = clear_cf r in
      if reg_l (cr_dx r) \<noteq> 0x80 then set_disk_status (set_cf r) FLOPPY_TIMEOUT b
      else
        let r = r\<lparr>cr_dx := set_l (cr_dx r) 1\<rparr>;
            r = r\<lparr>cr_dx := set_h (cr_dx r) (ucast (NUM_HEADS - 1))\<rparr>;
            r = r\<lparr>cr_cx := ucast (SECTORS_PER_TRACK OR push_bit 8 NUM_CYLINDERS)\<rparr>;
            r = r\<lparr>cr_bx := set_l (cr_bx r) 0\<rparr>
        in set_disk_status r 0 b)"

definition disk_get_type :: "callregs \<Rightarrow> bios \<Rightarrow> (callregs \<times> bios) option" where
  "disk_get_type r b =
     (let r = clear_cf r in
      if reg_l (cr_dx r) \<noteq> 0x80 then set_disk_status r FLOPPY_TIMEOUT b
      else Some (r\<lparr>cr_ax := set_h (cr_ax r) 3, cr_cx := 0xffff, cr_dx := 0xffff\<rparr>, b))"

definition disk_services :: "callregs \<Rightarrow> bios \<Rightarrow> (callregs \<times> bios) option" where
  "disk_services r b = do {
     let r = set_cf r;
     b \<leftarrow> led_set LED_DISK b;
     (r, b) \<leftarrow> (let f = reg_h (cr_ax r) in
        if f = 0x00 then disk_reset r b
        else if f = 0x01 then disk_status r b
        else if f = 0x02 then disk_read r b
        else if f = 0x03 then disk_write r b
        else if f = 0x08 then disk_parameters r b
        else if f = 0x15 then disk_get_type r b
        else Some (r, b));
     b \<leftarrow> led_clear LED_DISK b;
     Some (r, b)
   }"

section \<open>Other services\<close>

definition equipment_check :: "callregs \<Rightarrow> callregs" where
  "equipment_check r = r\<lparr>cr_ax := push_bit 4 2 OR push_bit 2 1\<rparr>"

definition serial_services :: "callregs \<Rightarrow> callregs" where
  "serial_services r = set_cf r"

definition system_services :: "callregs \<Rightarrow> bios \<Rightarrow> (callregs \<times> bios) option" where
  "system_services r b =
     (let r = set_cf r in if reg_h (cr_ax r) = 0xc2 then mouse_services r b else Some (r, b))"

definition printer_services :: "callregs \<Rightarrow> callregs" where
  "printer_services r = set_cf r"

definition basic_services :: "callregs \<Rightarrow> bios \<Rightarrow> (callregs \<times> bios) option" where
  "basic_services r b = panic (''No basic services'' @ [CHR 0x0a]) b"

definition boostrap_loader :: "callregs \<Rightarrow> bios \<Rightarrow> bios" where
  "boostrap_loader r b = b\<lparr>sys := rset (rset (sys b) CS 0xffff) IP 0\<rparr>"

definition conventional_memory :: "callregs \<Rightarrow> callregs" where
  "conventional_memory r = r\<lparr>cr_ax := 640\<rparr>"

definition break_handler :: "callregs \<Rightarrow> bios \<Rightarrow> (callregs \<times> bios) option" where
  "break_handler r b = panic (''No break handler'' @ [CHR 0x0a]) b"

definition do_unused_int :: "callregs \<Rightarrow> callregs" where
  "do_unused_int r = set_cf r"

section \<open>Initialisation\<close>

definition set_vector :: "u16 \<Rightarrow> u16 \<Rightarrow> bios \<Rightarrow> bios option" where
  "set_vector vector handler b = do {
     b \<leftarrow> writew 0 (vector * 4) handler b;
     writew 0 (vector * 4 + 2) (get_cs b) b
   }"

fun set_vectors :: "(u16 \<times> u16) list \<Rightarrow> bios \<Rightarrow> bios option" where
  "set_vectors [] b = Some b"
| "set_vectors ((n, h) # vs) b = set_vector n h b \<bind> set_vectors vs"

text \<open>\<open>vectors\<close> is the table that the linker collects, \<open>unused\<close> and \<open>vpt\<close> the addresses of \<open>unused_int\<close> and \<open>vpt\<close>.\<close>

definition install_vectors :: "(u16 \<times> u16) list \<Rightarrow> u16 \<Rightarrow> u16 \<Rightarrow> bios \<Rightarrow> bios option" where
  "install_vectors vectors unused vpt b = do {
     b \<leftarrow> set_vectors (map (\<lambda>i. (of_nat i, unused)) [0..<256]) b;
     b \<leftarrow> set_vectors vectors b;
     set_vector 0x1d vpt b
   }"

definition bda_init :: "bios \<Rightarrow> bios option" where
  "bda_init b = memset_seg 0x40 0 0 256 b"

fun scrub_segments :: "nat list \<Rightarrow> bios \<Rightarrow> bios option" where
  "scrub_segments [] b = Some b"
| "scrub_segments (seg # segs) b = memset_seg (push_bit 12 (of_nat seg)) 0 0 65535 b \<bind> scrub_segments segs"

definition scrub_mem :: "bios \<Rightarrow> bios option" where
  "scrub_mem b = scrub_segments [0..<15] b"

text \<open>\<open>root\<close>; the strings that carry the build date are the argument \<open>banner\<close>, \<open>cache\<close> and \<open>p286\<close> are build constants.\<close>

definition root :: "(u16 \<times> u16) list \<Rightarrow> u16 \<Rightarrow> u16 \<Rightarrow> u8 list \<Rightarrow> u16 \<Rightarrow> bool \<Rightarrow> bios \<Rightarrow> bios option" where
  "root vectors unused vpt banner cache p286 b = do {
     b \<leftarrow> scrub_mem b;
     b \<leftarrow> install_vectors vectors unused vpt b;
     b \<leftarrow> irq_init b;
     b \<leftarrow> bda_init b;
     b \<leftarrow> display_init b;
     b \<leftarrow> putstr banner b;
     b \<leftarrow> printk (''Cache: %uKB'' @ [CHR 0x0a]) [VaInt cache] b;
     b \<leftarrow> printk (''Pseudo-286: %s'' @ [CHR 0x0a]) [VaStr (c_str (if p286 then ''enabled'' else ''disabled''))] b;
     b \<leftarrow> putstr [0x0a] b;
     b \<leftarrow> init_timer b;
     b \<leftarrow> keyboard_init b;
     (_, b) \<leftarrow> mouse_hw_init b;
     b \<leftarrow> sd_init b;
     sd_boot b
   }"

end
