(* ===== verification/BiosCard.thy ===== *)
theory BiosCard
  imports BiosDisk
begin

text \<open>
  The SD card driver of the firmware on the simulated card: what \<open>spi_xfer\<close> exchanges with the card is a sequence of transfers
  of theory SPI, so the commands of the driver are the command sequences of the card; with them, reading and writing
  sectors through the disk services is reading and writing the disk image.
\<close>

section \<open>The driver and the simulated card\<close>

abbreviation spi_of :: "bios \<Rightarrow> SPI" where
  "spi_of b \<equiv> spi (devs (sys b))"

abbreviation set_spi :: "SPI \<Rightarrow> bios \<Rightarrow> bios" where
  "set_spi s b \<equiv> b\<lparr>sys := (sys b)\<lparr>devs := (devs (sys b))\<lparr>spi := s\<rparr>\<rparr>\<rparr>"

lemma sim_bus_sys [simp]: "io s = io (sys b) \<Longrightarrow> sim_bus (b\<lparr>sys := s\<rparr>) = sim_bus b"
  by (simp add: sim_bus_def)

lemma sim_bus_buf [simp]: "sim_bus (b\<lparr>spi_xfer_buf := x\<rparr>) = sim_bus b"
  by (simp add: sim_bus_def)

lemma spi_ports:
  assumes "sim_bus b"
  shows "io (sys b) 0xfff0 = Some spi_port" "io (sys b) 0xfff2 = Some spi_port"
  using sim_bus_lookup [OF assms, of spi_port 0] sim_bus_lookup [OF assms, of spi_port 1]
  by (simp_all add: sim_ports_def) (simp_all add: spi_port_def)

lemma spi_port_sel [simp]: "port_base spi_port = 0xfff0"
  "io_write16 spi_port n v d = (SPI_write16 (spi d) n v \<bind> (\<lambda>s. Some ((), d\<lparr>spi := s\<rparr>, [])))"
  "io_read16 spi_port n d = Some (SPI_read16 (spi d) n, d, [])"
  by (simp_all add: spi_port_def)

lemma outw_control:
  assumes "sim_bus b"
  shows "outw SPI_CONTROL_PORT v b = Some (set_spi ((spi_of b)\<lparr>control_reg := v\<rparr>) b)"
proof -
  have "SPI_write16 s 0 v = Some (s\<lparr>control_reg := v\<rparr>)" for s
  proof -
    have "((control_reg s AND NOT 0xff OR ucast (ucast v :: u8)) AND NOT (push_bit 8 0xff)) OR push_bit 8 (ucast (ucast (drop_bit 8 v) :: u8)) = v"
      by (rule bit_word_eqI) (auto simp: bit_simps mask_literals)
    then show ?thesis by (simp add: SPI_write16_def SPI_write8_def Let_def)
  qed
  then show ?thesis using spi_ports(1) [OF assms] by (simp add: outw_def write_io16_def io_call_def SPI_CONTROL_PORT_def)
qed

lemma outw_transfer:
  assumes "sim_bus b"
  shows "outw SPI_TRANSFER_PORT v b = do { s \<leftarrow> transfer (spi_of b) (ucast v); Some (set_spi s b) }"
  using spi_ports(2) [OF assms]
  by (simp add: outw_def write_io16_def io_call_def SPI_TRANSFER_PORT_def SPI_write16_def SPI_write8_def Let_def
      split: Option.bind_splits)

lemma inw_transfer:
  assumes "sim_bus b"
  shows "inw SPI_TRANSFER_PORT b = Some (ucast (rx_val (spi_of b)), b)"
  using spi_ports(2) [OF assms]
  by (simp add: inw_def read_io16_def io_call_def SPI_TRANSFER_PORT_def SPI_read16_def SPI_read8_def Let_def)

lemma spi_wait_idle_sim:
  assumes "sim_bus b"
  shows "spi_wait_idle b = Some b"
proof -
  have "\<not> bit (ucast (v :: u8) :: u16) 8" for v by (simp add: bit_simps bit_beyond)
  then have "(ucast (v :: u8) :: u16) AND SPI_XFER_BUSY = 0" for v
    unfolding SPI_XFER_BUSY_def using and_exp_nonzero by blast
  then show ?thesis by (subst spi_wait_idle.simps) (simp add: inw_transfer [OF assms])
qed

text \<open>
  The loop sends the rest of the buffer and then ff, and stores what it receives from the first byte that is not ff on; a byte
  is stored only where the buffer has been sent already.
\<close>

lemma spi_xfer_loop_transfers:
  assumes "sim_bus b" "dst \<le> src" "src \<le> len" "len \<le> length (spi_xfer_buf b)" "nf \<or> dst < len"
    and "transfers (spi_of b) out = Some (rs, s')" "out = drop src (take len (spi_xfer_buf b)) @ replicate k 0xff"
    and "ns = (if nf then rs else dropWhile (\<lambda>c. c = 0xff) rs)" "dst + length ns = len"
  shows "spi_xfer_loop len True src dst nf b =
    Some (set_spi s' (b\<lparr>spi_xfer_buf := take dst (spi_xfer_buf b) @ ns @ drop len (spi_xfer_buf b)\<rparr>))"
  using assms
proof (induction out arbitrary: b src dst nf k rs ns)
  case Nil
  then have "rs = []" "ns = []" "dst = len" by (auto split: if_splits)
  then show ?case using Nil by (subst spi_xfer_loop.simps) simp
next
  case (Cons c out)
  let ?buf = "spi_xfer_buf b"
  from Cons.prems(6) obtain s1 rs1 where s1: "transfer (spi_of b) c = Some s1" "transfers s1 out = Some (rs1, s')"
    and rs: "rs = rx_val s1 # rs1"
    by (auto simp: write_data_port bind_eq_Some Let_def)
  have dst: "dst < len" using Cons.prems(5,8,9) rs by (auto split: if_splits)
  define src1 where "src1 = (if src < len then src + 1 else src)"
  obtain k1 where out: "out = drop src1 (take len ?buf) @ replicate k1 0xff"
    and pick: "(if src < len then do { c \<leftarrow> spi_xfer_buf_get src b; Some (scast c, src + 1) } else Some (0xff, src)) =
      Some (if src < len then scast c else (0xff :: u16), src1)" and c: "src < len \<or> c = 0xff"
  proof (cases "src < len")
    case True
    have "drop src (take len ?buf) = ?buf ! src # drop (Suc src) (take len ?buf)"
      using True Cons.prems(4) by (simp add: Cons_nth_drop_Suc [symmetric])
    with Cons.prems(7) have "c = ?buf ! src" "out = drop (Suc src) (take len ?buf) @ replicate k 0xff" by auto
    then show ?thesis using True Cons.prems(4) that [of k] by (simp add: src1_def spi_xfer_buf_get_def)
  next
    case False
    then have "c # out = replicate k 0xff" using Cons.prems(7) by simp
    then obtain k1 where "k = Suc k1" "c = 0xff" "out = replicate k1 0xff" by (cases k) auto
    then show ?thesis using False that [of k1] by (simp add: src1_def)
  qed
  have uc: "ucast (if src < len then scast c else (0xff :: u16)) = c"
  proof -
    have "ucast (scast c :: u16) = c" by (rule bit_word_eqI) (auto simp: bit_simps)
    then show ?thesis using c by auto
  qed
  have rx: "(ucast ((ucast (rx_val s1) :: u16) AND 0xff) :: u8) = rx_val s1"
    by (rule bit_word_eqI) (auto simp: bit_simps mask_literals)
  let ?b1 = "set_spi s1 b"
  have step: "spi_xfer_loop len True src dst nf b =
      (if \<not> nf \<and> rx_val s1 = 0xff then spi_xfer_loop len True src1 dst nf ?b1
       else spi_xfer_buf_set dst (rx_val s1) ?b1 \<bind> spi_xfer_loop len True src1 (dst + 1) True)"
    using Cons.prems(1) dst
    by (subst spi_xfer_loop.simps) (simp add: pick outw_transfer uc s1(1) spi_wait_idle_sim inw_transfer rx Let_def)
  have src1: "dst < src1" "src1 \<le> len" using dst Cons.prems(2,3) by (auto simp: src1_def)
  show ?case
  proof (cases "\<not> nf \<and> rx_val s1 = 0xff")
    case True
    have "spi_xfer_loop len True src1 dst nf ?b1 = Some (set_spi s' (?b1\<lparr>spi_xfer_buf := take dst (spi_xfer_buf ?b1) @ ns @ drop len (spi_xfer_buf ?b1)\<rparr>))"
      using Cons.prems src1 s1(2) out True dst rs by (intro Cons.IH [where k = k1 and rs = rs1]) auto
    then show ?thesis unfolding step using True by simp
  next
    case False
    then have ns: "ns = rx_val s1 # rs1" using Cons.prems(8) rs by auto
    let ?b2 = "?b1\<lparr>spi_xfer_buf := ?buf[dst := rx_val s1]\<rparr>"
    have "spi_xfer_loop len True src1 (dst + 1) True ?b2 =
        Some (set_spi s' (?b2\<lparr>spi_xfer_buf := take (dst + 1) (spi_xfer_buf ?b2) @ rs1 @ drop len (spi_xfer_buf ?b2)\<rparr>))"
      using Cons.prems(1,4,9) src1 s1(2) out ns dst
      by (intro Cons.IH [where k = k1]) (auto simp: take_update_swap)
    then show ?thesis
      unfolding step if_not_P [OF False] using dst Cons.prems(4) ns
      by (simp add: spi_xfer_buf_set_def take_Suc_conv_app_nth take_update_cancel drop_update_cancel)
  qed
qed

lemma spi_xfer_transfers:
  assumes "sim_bus b" "0 < len" "len \<le> length (spi_xfer_buf b)"
    and "transfers (spi_of b) (take len (spi_xfer_buf b) @ replicate k 0xff) = Some (rs, s')"
    and "ns = dropWhile (\<lambda>c. c = 0xff) rs" "length ns = len"
  shows "spi_xfer len True b = Some (set_spi s' (b\<lparr>spi_xfer_buf := ns @ drop len (spi_xfer_buf b)\<rparr>))"
  using spi_xfer_loop_transfers [of b 0 0 len False _ rs s' k ns] assms by (simp add: spi_xfer_def)

lemma buf_set: "m < length (spi_xfer_buf b) \<Longrightarrow>
  spi_xfer_buf_set m v b = Some (b\<lparr>spi_xfer_buf := take m (spi_xfer_buf b) @ v # drop (Suc m) (spi_xfer_buf b)\<rparr>)"
  by (simp add: spi_xfer_buf_set_def upd_conv_take_nth_drop)

lemma buf_copy_eq:
  "offs + length vs \<le> length (spi_xfer_buf b) \<Longrightarrow>
   buf_copy offs vs b = Some (b\<lparr>spi_xfer_buf := take offs (spi_xfer_buf b) @ vs @ drop (offs + length vs) (spi_xfer_buf b)\<rparr>)"
proof (induction vs arbitrary: offs b)
  case (Cons v vs)
  then show ?case by (simp add: buf_set min_def add.commute)
qed simp

lemma buf_fill_copy: "m \<le> n \<Longrightarrow> buf_fill [m..<n] v b = buf_copy m (replicate (n - m) v) b"
proof (induction "n - m" arbitrary: m b)
  case (Suc k)
  then have "[m..<n] = m # [Suc m..<n]" "n - m = Suc (n - Suc m)" by (simp_all add: upt_conv_Cons)
  moreover have "(\<lambda>b. buf_fill [Suc m..<n] v b) = buf_copy (Suc m) (replicate (n - Suc m) v)"
    using Suc by (intro ext Suc.hyps(1)) auto
  ultimately show ?case by simp
qed simp

lemma spi_do_command_transfers:
  assumes "sim_bus b" "length (sc_arg cmd) = 4" "len = spi_command_len cmd" "len \<le> length (spi_xfer_buf b)"
    and "transfers ((spi_of b)\<lparr>control_reg := 1\<rparr>)
      (0xff # sc_cmd cmd # sc_arg cmd @ sc_crc cmd # replicate (len - 7) 0xff @ replicate k 0xff) = Some (rs, s')"
    and "ns = dropWhile (\<lambda>c. c = 0xff) rs" "length ns = len"
  shows "spi_do_command cmd b = Some (set_spi s' (b\<lparr>spi_xfer_buf := ns @ drop len (spi_xfer_buf b)\<rparr>))"
proof -
  let ?buf = "spi_xfer_buf b"
  let ?c = "0xff # sc_cmd cmd # sc_arg cmd @ sc_crc cmd # replicate (len - 7) 0xff"
  have len: "8 < len" using assms(3) by (simp add: spi_command_len_def SD_NCR_def)
  let ?b1 = "b\<lparr>spi_xfer_buf := ?c @ drop len ?buf\<rparr>"
  have "do { b \<leftarrow> spi_xfer_buf_set 0 0xff b; b \<leftarrow> spi_xfer_buf_set 1 (sc_cmd cmd) b; b \<leftarrow> buf_copy 2 (take 4 (sc_arg cmd)) b;
      b \<leftarrow> spi_xfer_buf_set 6 (sc_crc cmd) b; b \<leftarrow> buf_fill [7..<len] 0xff b; f b } = f ?b1" for f :: "bios \<Rightarrow> bios option"
  proof -
    obtain a0 a1 a2 a3 where a: "sc_arg cmd = [a0, a1, a2, a3]"
      using assms(2) by (auto simp: length_Suc_conv numeral_eq_Suc)
    obtain x0 x1 x2 x3 x4 x5 x6 r where b: "?buf = x0 # x1 # x2 # x3 # x4 # x5 # x6 # r" and "len - 7 \<le> length r"
    proof -
      have "Suc (Suc (Suc (Suc (Suc (Suc (Suc 0)))))) \<le> length ?buf" using len assms(4) by simp
      then show ?thesis using that assms(4) unfolding Suc_le_length_iff by fastforce
    qed
    then have "buf_fill [7..<len] 0xff (b\<lparr>spi_xfer_buf := 0xff # sc_cmd cmd # a0 # a1 # a2 # a3 # sc_crc cmd # r\<rparr>) = Some ?b1"
      using len by (simp add: buf_fill_copy buf_copy_eq a b drop_Cons' )
    then show ?thesis by (simp add: a b spi_xfer_buf_set_def numeral_eq_Suc)
  qed
  then have cmd: "spi_do_command cmd b = do { b \<leftarrow> outw SPI_CONTROL_PORT 1 ?b1; spi_xfer len True b }"
    using assms(3) by (simp add: spi_do_command_def Let_def)
  define c where "c = ?c"
  have c: "length c = len" using len assms(2) by (simp add: c_def)
  let ?b2 = "set_spi ((spi_of b)\<lparr>control_reg := 1\<rparr>) (b\<lparr>spi_xfer_buf := c @ drop len ?buf\<rparr>)"
  have "transfers ((spi_of b)\<lparr>control_reg := 1\<rparr>) (c @ replicate k 0xff) = Some (rs, s')"
    using assms(5) by (simp add: c_def del: transfers.simps)
  then have "transfers (spi_of ?b2) (take len (spi_xfer_buf ?b2) @ replicate k 0xff) = Some (rs, s')"
    using c by simp
  with spi_xfer_transfers [of ?b2 len k rs s' ns] show ?thesis
    unfolding cmd c_def [symmetric] using assms(1,4,6,7) c len by (simp add: outw_control)
qed

lemma idle_bytes:
  assumes "ready s"
  shows "\<exists>s'. transfers s (replicate n 0xff) = Some (replicate n 0xff, s') \<and> ready s' \<and> disk_image s' = disk_image s"
  using assms
proof (induction n arbitrary: s)
  case (Suc n)
  let ?s = "s\<lparr>do_write := False, rx_val := 0xff\<rparr>"
  have "transfer s 0xff = Some ?s" "ready ?s" using Suc.prems by (auto simp: ready_def transfer_def Let_def)
  with Suc.IH [of ?s] show ?case by (auto simp: write_data_port)
qed auto

lemma command_address_bytes: "command_address (address_bytes a @ as) = a"
proof (rule bit_word_eqI)
  fix n assume "n < LENGTH(32)"
  then show "bit (command_address (address_bytes a @ as)) n = bit a n"
    by (cases "n < 8"; cases "n < 16"; cases "n < 24")
      (auto simp: command_address_def address_bytes_def bit_simps mask_literals)
qed

section \<open>The mouse during a transfer\<close>

text \<open>Suspending and resuming the mouse leaves everything alone that the driver of the card depends on.\<close>

definition text_state :: "bios \<Rightarrow> CGA \<times> bool \<times> bool" where
  "text_state b = (cga (devs (sys b)), serial_stdio b, video_mode_active b)"

definition mouse_only :: "bios \<Rightarrow> bios \<Rightarrow> bool" where
  "mouse_only b b' \<longleftrightarrow> io (sys b') = io (sys b) \<and> mem (sys b') = mem (sys b) \<and> regs (sys b') = regs (sys b) \<and>
     spi_of b' = spi_of b \<and> spi_xfer_buf b' = spi_xfer_buf b \<and> sd_is_sdhc b' = sd_is_sdhc b \<and> text_state b' = text_state b"

lemma mouse_only_refl [simp]: "mouse_only b b"
  by (simp add: mouse_only_def)

lemma mouse_only_trans: "mouse_only a b \<Longrightarrow> mouse_only b c \<Longrightarrow> mouse_only a c"
  by (simp add: mouse_only_def)

lemma mouse_only_bus: "mouse_only b b' \<Longrightarrow> sim_bus b' = sim_bus b"
  by (simp add: mouse_only_def sim_bus_def)

lemma foldl_raise_irq [simp]:
  "io (foldl raise_irq s l) = io s" "mem (foldl raise_irq s l) = mem s" "regs (foldl raise_irq s l) = regs s"
  "devs (foldl raise_irq s l) = devs s"
  by (induction l arbitrary: s) (simp_all add: raise_irq_def)

lemma mouse_port_bus: "sim_bus b \<Longrightarrow> io (sys b) 0xffe0 = Some mouse_port"
  using sim_bus_lookup [of b mouse_port 0] by (simp add: sim_ports_def) (simp add: mouse_port_def byte_port_def)

lemma mouse_inb:
  assumes "sim_bus b" "p \<in> {MOUSE_DATA, MOUSE_STATUS}"
  shows "\<exists>v b'. inb p b = Some (v, b') \<and> mouse_only b b'"
  using assms(2) mouse_port_bus [OF assms(1)]
  by (auto simp: inb_def read_io8_def io_call_def MOUSE_DATA_def MOUSE_STATUS_def mouse_port_def byte_port_def Let_def
      mouse_only_def text_state_def split: prod.splits)

lemma mouse_outb:
  assumes "sim_bus b" "p \<in> {MOUSE_DATA, MOUSE_STATUS}"
  shows "\<exists>b'. outb p v b = Some b' \<and> mouse_only b b'"
  using assms(2) mouse_port_bus [OF assms(1)]
  by (auto simp: outb_def write_io8_def io_call_def MOUSE_DATA_def MOUSE_STATUS_def mouse_port_def byte_port_def Let_def
      mouse_only_def text_state_def with_lines_def split: prod.splits)

lemma mouse_read_frame:
  assumes "sim_bus b"
  shows "\<exists>v b'. mouse_read b = Some (v, b') \<and> mouse_only b b'"
proof -
  obtain v b1 where 1: "inb MOUSE_STATUS b = Some (v, b1)" "mouse_only b b1" using mouse_inb [OF assms, of MOUSE_STATUS] by auto
  obtain w b2 where "inb MOUSE_DATA b1 = Some (w, b2)" "mouse_only b1 b2"
    using mouse_inb [of b1 MOUSE_DATA] mouse_only_bus [OF 1(2)] assms by auto
  with 1 show ?thesis by (auto simp: mouse_read_def intro: mouse_only_trans)
qed

lemma mouse_tries_frame: "sim_bus b \<Longrightarrow> \<exists>v b'. mouse_tries n b = Some (v, b') \<and> mouse_only b b'"
proof (induction n arbitrary: b)
  case (Suc n)
  then obtain v b1 where 1: "mouse_read b = Some (v, b1)" "mouse_only b b1" using mouse_read_frame by blast
  with Suc.IH [of b1] Suc.prems show ?case by (auto simp: mouse_only_bus split: option.splits intro: mouse_only_trans)
qed simp

lemma mouse_cmd_frame:
  assumes "sim_bus b"
  shows "\<exists>v b'. mouse_cmd c b = Some (v, b') \<and> mouse_only b b'"
proof -
  obtain b1 where 1: "outb MOUSE_DATA c b = Some b1" "mouse_only b b1" using mouse_outb [OF assms, of MOUSE_DATA] by auto
  with mouse_tries_frame [of b1 "Suc CMD_TIMEOUT"] assms show ?thesis
    unfolding mouse_cmd_def by (auto simp: mouse_only_bus simp del: mouse_tries.simps intro: mouse_only_trans)
qed

lemma mouse_suspend_frame: "sim_bus b \<Longrightarrow> \<exists>b'. mouse_suspend b = Some b' \<and> mouse_only b b'"
  using mouse_cmd_frame [of b CMD_DISABLE] by (auto simp: mouse_suspend_def)

lemma mouse_resume_frame:
  assumes "sim_bus b"
  shows "\<exists>b'. mouse_resume b = Some b' \<and> mouse_only b b'"
proof (cases "have_mouse b")
  case True
  obtain b1 where 1: "mouse_init b = Some b1" "mouse_only b b1"
    using mouse_outb [OF assms, of MOUSE_STATUS] by (auto simp: mouse_init_def)
  let ?b1 = "b1\<lparr>mouse_nbytes := 0\<rparr>"
  have m: "mouse_only b ?b1" using 1(2) by (simp add: mouse_only_def text_state_def)
  then obtain v b2 where 2: "mouse_cmd CMD_ENABLE ?b1 = Some (v, b2)" "mouse_only ?b1 b2"
    using mouse_cmd_frame [of ?b1 CMD_ENABLE] mouse_only_bus [OF m] assms by auto
  then obtain b3 where "mouse_init b2 = Some b3" "mouse_only b2 b3"
    using mouse_outb [of b2 MOUSE_STATUS] mouse_only_bus m assms unfolding mouse_init_def by blast
  then show ?thesis using True 1 2 m by (auto simp: mouse_resume_def intro: mouse_only_trans)
qed (simp add: mouse_resume_def)

section \<open>Reading a sector\<close>

text \<open>The state in which the driver finds the card between two commands.\<close>

definition card_idle :: "bios \<Rightarrow> bool" where
  "card_idle b \<longleftrightarrow> sim_bus b \<and> ready ((spi_of b)\<lparr>control_reg := 1\<rparr>) \<and> length (spi_xfer_buf b) = XFER_BUF_SIZE \<and> \<not> sd_is_sdhc b"

definition image_of :: "bios \<Rightarrow> u8 list" where
  "image_of b = disk_bytes (disk_image (spi_of b))"

lemma card_idle_mouse: "mouse_only b b' \<Longrightarrow> card_idle b' = card_idle b \<and> image_of b' = image_of b"
  by (auto simp: card_idle_def image_of_def mouse_only_def sim_bus_def)

lemma read_transfers:
  assumes "ready s" "length as = 4" "a = unat (command_address as)" "a + 512 \<le> length (disk_bytes (disk_image s))"
  shows "\<exists>s'. transfers s (0xff # 0x51 # as @ 0 # replicate 1036 0xff @ replicate 10 0xff) =
      Some (replicate 10 0xff @ 0x00 # 0xff # 0xfe # take 512 (drop a (disk_bytes (disk_image s))) @ 0x77 # 0x77 # replicate 526 0xff, s') \<and>
    ready s' \<and> disk_bytes (disk_image s') = disk_bytes (disk_image s)"
proof -
  obtain s1 where 1: "transfers s (replicate 1 0xff) = Some (replicate 1 0xff, s1)" "ready s1" "disk_image s1 = disk_image s"
    using idle_bytes [OF assms(1)] by blast
  have "command_address (as @ [0, 0xff]) = command_address as" using assms(2) by (simp add: command_address_def nth_append)
  then obtain s2 where 2: "transfers s1 (0x51 # (as @ [0, 0xff]) @ replicate 520 0xff) = Some (replicate 7 0xff @ [0xff, 0xff, 0x00, 0xff, 0xfe] @
      take 512 (drop a (disk_bytes (disk_image s))) @ [0x77, 0x77, 0xff], s2)" "ready s2" "disk_bytes (disk_image s2) = disk_bytes (disk_image s)"
    using read_sequence [OF 1(2), of "as @ [0, 0xff]" "replicate 520 0xff" a] assms(2-4) 1(3) by auto
  obtain s3 where 3: "transfers s2 (replicate 525 0xff) = Some (replicate 525 0xff, s3)" "ready s3" "disk_image s3 = disk_image s2"
    using idle_bytes [OF 2(2)] by blast
  have "transfers s (replicate 1 0xff @ (0x51 # (as @ [0, 0xff]) @ replicate 520 0xff) @ replicate 525 0xff) =
      Some (replicate 1 0xff @ (replicate 7 0xff @ [0xff, 0xff, 0x00, 0xff, 0xfe] @
      take 512 (drop a (disk_bytes (disk_image s))) @ [0x77, 0x77, 0xff]) @ replicate 525 0xff, s3)"
    unfolding transfers_append 1(1) 2(1) 3(1) Option.bind.bind_lunit prod.case ..
  moreover have "replicate 1 0xff @ (0x51 # (as @ [0, 0xff]) @ replicate 520 0xff) @ replicate 525 0xff =
      0xff # 0x51 # as @ 0 # replicate 1036 0xff @ replicate 10 (0xff :: u8)"
  proof -
    have "replicate 1036 0xff @ replicate 10 0xff = 0xff # replicate 520 0xff @ replicate 525 (0xff :: u8)"
      unfolding replicate_add [symmetric] replicate_Suc [symmetric] by (rule arg_cong2 [where f = replicate]) simp_all
    then show ?thesis by simp
  qed
  moreover have "replicate 1 0xff @ (replicate 7 0xff @ [0xff, 0xff, 0x00, 0xff, 0xfe] @ d @ [0x77, 0x77, 0xff]) @ replicate 525 0xff =
      replicate 10 0xff @ 0x00 # 0xff # 0xfe # d @ 0x77 # 0x77 # replicate 526 (0xff :: u8)" for d
    by (simp add: numeral_eq_Suc)
  ultimately show ?thesis using 2 3 by auto
qed

text \<open>The memory after a list of bytes has been copied to a segment.\<close>

fun store_seg :: "(u32 \<Rightarrow> u8) \<Rightarrow> u16 \<Rightarrow> u16 \<Rightarrow> u8 list \<Rightarrow> u32 \<Rightarrow> u8" where
  "store_seg m seg ptr [] = m"
| "store_seg m seg ptr (v # vs) = store_seg (m(get_phys_addr seg (ucast ptr) := v)) seg (ptr + 1) vs"

lemma store_seg_append:
  "store_seg m seg ptr (vs @ ws) = store_seg (store_seg m seg ptr vs) seg (ptr + of_nat (length vs)) ws"
  by (induction vs arbitrary: m ptr) (simp_all add: algebra_simps)

lemma store_seg_other: "(\<forall>i < length vs. x \<noteq> string_addr seg ptr i) \<Longrightarrow> store_seg m seg ptr vs x = m x"
proof (induction vs arbitrary: m ptr)
  case (Cons v vs)
  have "\<forall>i < length vs. x \<noteq> string_addr seg (ptr + 1) i" using Cons.prems by (auto simp: string_addr_Suc)
  moreover have "x \<noteq> get_phys_addr seg (ucast ptr)" using Cons.prems string_addr_0 [of seg ptr] by (metis length_greater_0_conv list.discI)
  ultimately show ?case by (simp add: Cons.IH)
qed simp

lemma store_seg_at: "i < length vs \<Longrightarrow> length vs \<le> 65536 \<Longrightarrow> store_seg m seg ptr vs (string_addr seg ptr i) = vs ! i"
proof (induction vs arbitrary: m ptr i)
  case (Cons v vs)
  show ?case
  proof (cases i)
    case 0
    have "\<forall>j < length vs. string_addr seg ptr 0 \<noteq> string_addr seg (ptr + 1) j"
      using Cons.prems(2) string_addr_inj [of seg ptr 0] by (fastforce simp: string_addr_Suc)
    then show ?thesis using 0 by (simp add: store_seg_other) (simp add: string_addr_0)
  next
    case (Suc j)
    then show ?thesis using Cons by (simp flip: string_addr_Suc)
  qed
qed simp

lemma writeb_eq: "writeb s a v b = Some (b\<lparr>sys := (sys b)\<lparr>mem := (mem (sys b))\<lparr>mem_bytes := (mem_bytes (mem (sys b)))(get_phys_addr s (ucast a) := v),
    mem_written := True\<rparr>\<rparr>\<rparr>)"
  by (simp add: writeb_def mwrite_def)

lemma memcpy_seg_to_eq:
  "\<exists>m. memcpy_seg_to dseg dst vs b = Some (b\<lparr>sys := (sys b)\<lparr>mem := m\<rparr>\<rparr>) \<and> mem_bytes m = store_seg (mem_bytes (mem (sys b))) dseg dst vs"
proof (induction vs arbitrary: dst b)
  case (Cons v vs)
  let ?b = "b\<lparr>sys := (sys b)\<lparr>mem := (mem (sys b))\<lparr>mem_bytes := (mem_bytes (mem (sys b)))(get_phys_addr dseg (ucast dst) := v), mem_written := True\<rparr>\<rparr>\<rparr>"
  show ?case using Cons.IH [of "dst + 1" ?b] by (auto simp: writeb_eq simp del: fun_upd_apply)
next
  case Nil
  show ?case by (rule exI [of _ "mem (sys b)"]) simp
qed

lemma find_r1_first: "spi_xfer_buf b = v # vs \<Longrightarrow> v \<noteq> 0xff \<Longrightarrow> find_r1_response b = Some (0, v)"
  by (simp add: find_r1_response_def upt_conv_Cons del: upt_Suc)

lemma read_sector_card:
  assumes "card_idle b" "a = unat (sector * 512)" "a + 512 \<le> length (image_of b)"
  shows "\<exists>b'. read_sector sector dseg daddr b = Some (0, b') \<and> card_idle b' \<and> image_of b' = image_of b \<and> text_state b' = text_state b \<and>
    mem_bytes (mem (sys b')) = store_seg (mem_bytes (mem (sys b))) dseg daddr (take 512 (drop a (image_of b)))"
proof -
  let ?d = "take 512 (drop a (image_of b))"
  let ?cmd = "\<lparr>sc_cmd = 0x51, sc_arg = address_bytes (sector * 512), sc_crc = 0, sc_rx_datalen = 1 + 1 + BLOCK_SIZE + 2 + MAX_DATA_START_OFFS\<rparr>"
  obtain b1 where b1: "mouse_suspend b = Some b1" "mouse_only b b1" using mouse_suspend_frame assms(1) card_idle_def by blast
  then have idle: "card_idle b1" "image_of b1 = image_of b" using card_idle_mouse assms(1) by blast+
  have m: "mem (sys b1) = mem (sys b)" "sd_is_sdhc b1 = sd_is_sdhc b" using b1(2) by (simp_all add: mouse_only_def)
  let ?s = "(spi_of b1)\<lparr>control_reg := 1\<rparr>"
  have rd: "ready ?s" "a = unat (command_address (address_bytes (sector * 512)))" "disk_bytes (disk_image ?s) = image_of b"
    using idle assms(2) command_address_bytes [of "sector * 512" "[]"] by (simp_all add: card_idle_def image_of_def)
  obtain s' where s': "transfers ?s (0xff # 0x51 # address_bytes (sector * 512) @ 0 # replicate 1036 0xff @ replicate 10 0xff) =
      Some (replicate 10 0xff @ 0x00 # 0xff # 0xfe # ?d @ 0x77 # 0x77 # replicate 526 0xff, s')" "ready s'" "disk_bytes (disk_image s') = image_of b"
    using read_transfers [of ?s "address_bytes (sector * 512)" a] rd assms(3) by (auto simp: address_bytes_def)
  define ns where "ns = 0x00 # 0xff # 0xfe # ?d @ 0x77 # 0x77 # replicate 526 (0xff :: u8)"
  let ?buf = "ns @ drop 1043 (spi_xfer_buf b1)"
  let ?b2 = "set_spi s' (b1\<lparr>spi_xfer_buf := ?buf\<rparr>)"
  have len: "length ?d = 512" "length ns = 1043" "length (spi_xfer_buf b1) = 1280"
    using assms(3) idle(1) by (simp_all add: ns_def card_idle_def XFER_BUF_SIZE_def)
  have cl: "spi_command_len ?cmd = 1043" by (simp add: spi_command_len_def BLOCK_SIZE_def MAX_DATA_START_OFFS_def SD_NCR_def)
  have cmd: "spi_do_command ?cmd b1 = Some ?b2"
  proof (rule spi_do_command_transfers)
    show "ns = dropWhile (\<lambda>c. c = 0xff) (replicate 10 0xff @ ns)" by (simp add: dropWhile_append ns_def)
  qed (use idle(1) s'(1) len cl in \<open>simp_all add: card_idle_def ns_def address_bytes_def del: transfers.simps\<close>)
  have r1: "find_r1_response ?b2 = Some (0, 0)"
    by (rule find_r1_first) (simp_all add: ns_def)
  have ds: "find_data_start 0 ?b2 = Some 3"
    using len by (simp add: find_data_start_def find_data_loop.simps [of "Suc 0"] find_data_loop.simps [of "Suc (Suc 0)"]
        spi_xfer_buf_get_def ns_def DATA_START_TOKEN_def XFER_BUF_SIZE_def)
  have d: "take 512 (drop 3 ?buf) = ?d" "nat 3 + 512 \<le> length ?buf" using len by (simp_all add: ns_def numeral_3_eq_3)
  obtain mm where mm: "memcpy_seg_to dseg daddr ?d ?b2 = Some (?b2\<lparr>sys := (sys ?b2)\<lparr>mem := mm\<rparr>\<rparr>)"
    "mem_bytes mm = store_seg (mem_bytes (mem (sys b))) dseg daddr ?d"
    using memcpy_seg_to_eq [of dseg daddr ?d ?b2] m by auto
  let ?b3 = "?b2\<lparr>sys := (sys ?b2)\<lparr>mem := mm\<rparr>\<rparr>"
  have idle3: "card_idle ?b3" "image_of ?b3 = image_of b"
  proof -
    have "ready (s'\<lparr>control_reg := 1\<rparr>)" using s'(2) by (auto simp: ready_def)
    then show "card_idle ?b3" "image_of ?b3 = image_of b"
      using idle(1) s' len by (simp_all add: card_idle_def image_of_def XFER_BUF_SIZE_def)
  qed
  obtain b4 where b4: "mouse_resume ?b3 = Some b4" "mouse_only ?b3 b4"
    using mouse_resume_frame [of ?b3] idle3(1) unfolding card_idle_def by blast
  have "read_sector sector dseg daddr b = Some (0, b4)"
    using assms(1) b1(1) cmd r1 ds d mm(1) b4(1)
    by (simp add: read_sector_def Let_def card_idle_def R1_ERROR_MASK_def)
  moreover have "text_state b4 = text_state b"
    using b1(2) b4(2) by (simp add: mouse_only_def text_state_def)
  moreover have "card_idle b4" "image_of b4 = image_of b" "mem_bytes (mem (sys b4)) = store_seg (mem_bytes (mem (sys b))) dseg daddr ?d"
    using card_idle_mouse [OF b4(2)] idle3 mm(2) b4(2) by (simp_all add: mouse_only_def)
  ultimately show ?thesis by blast
qed

section \<open>Reading through the disk service\<close>

lemma reg_halves [simp]:
  "reg_l (set_l x v) = v" "reg_h (set_h x v) = v" "reg_l (set_h x v) = reg_l x" "reg_h (set_l x v) = reg_h x"
  "set_l (set_l x v) w = set_l x w" "set_l x (reg_l x) = x"
  by (rule bit_word_eqI, simp add: reg_l_def reg_h_def set_l_def set_h_def bit_simps mask_literals bit_beyond;
      auto dest: bit_imp_le_length)+

lemma read_sectors_card:
  assumes "card_idle b" "512 * (unat lba + n) \<le> length (image_of b)" "512 * (unat lba + n) < 2 ^ 32"
  shows "\<exists>b'. read_sectors n lba dst r b = Some (r\<lparr>cr_ax := set_l (cr_ax r) (reg_l (cr_ax r) + of_nat n)\<rparr>, b') \<and> card_idle b' \<and>
    image_of b' = image_of b \<and> mem_bytes (mem (sys b')) =
      store_seg (mem_bytes (mem (sys b))) (cr_es r) dst (take (512 * n) (drop (512 * unat lba) (image_of b)))"
  using assms
proof (induction n arbitrary: lba dst r b)
  case (Suc n)
  let ?a = "512 * unat lba" and ?d = "\<lambda>k. take (512 * k) (drop (512 * unat lba) (image_of b))"
  have a: "unat (lba * 512) = ?a" using Suc.prems(3) by (simp add: unat_word_ariths)
  have l: "unat (lba + 1) = Suc (unat lba)" using Suc.prems(3) by (simp add: unat_word_ariths)
  obtain b1 where b1: "read_sector lba (cr_es r) dst b = Some (0, b1)" "card_idle b1" "image_of b1 = image_of b"
    "mem_bytes (mem (sys b1)) = store_seg (mem_bytes (mem (sys b))) (cr_es r) dst (take 512 (drop ?a (image_of b)))"
    using read_sector_card [OF Suc.prems(1) a [symmetric]] Suc.prems(2) by auto
  let ?r = "r\<lparr>cr_ax := set_l (cr_ax r) (reg_l (cr_ax r) + 1)\<rparr>"
  obtain b2 where b2: "read_sectors n (lba + 1) (dst + 512) ?r b1 = Some (?r\<lparr>cr_ax := set_l (cr_ax ?r) (reg_l (cr_ax ?r) + of_nat n)\<rparr>, b2)"
    "card_idle b2" "image_of b2 = image_of b1"
    "mem_bytes (mem (sys b2)) = store_seg (mem_bytes (mem (sys b1))) (cr_es r) (dst + 512) (take (512 * n) (drop (512 * Suc (unat lba)) (image_of b1)))"
    using Suc.IH [of b1 "lba + 1" "dst + 512" ?r] b1(2,3) Suc.prems(2,3) by (auto simp: l)
  have d: "take (512 * Suc n) (drop ?a (image_of b)) = take 512 (drop ?a (image_of b)) @ take (512 * n) (drop (512 * Suc (unat lba)) (image_of b))"
    by (simp add: take_add add.commute)
  have len: "of_nat (length (take 512 (drop ?a (image_of b)))) = (512 :: u16)" using Suc.prems(2) by simp
  have "mem_bytes (mem (sys b2)) = store_seg (mem_bytes (mem (sys b))) (cr_es r) dst (take (512 * Suc n) (drop ?a (image_of b)))"
    unfolding d store_seg_append len b2(4) b1(3,4) ..
  then show ?case using b1 b2(1-3) by (simp add: SECTOR_SIZE_def add.assoc)
qed simp

lemma or_shifted_add:
  fixes m q :: nat
  assumes "m < 256"
  shows "m OR push_bit 8 q = m + 256 * q"
proof -
  have "take_bit 8 m = m" using assms by (simp add: take_bit_nat_eq_self)
  then have "m AND push_bit 8 q = 0"
    by (intro bit_eqI) (metis (no_types, lifting) bit_0_eq bit_and_iff bit_push_bit_iff bit_take_bit_iff bot_apply bot_bool_def not_less)
  from disjunctive_add_eq_or [OF this] show ?thesis by (simp add: push_bit_eq_mult mult.commute)
qed

lemma sector_bits:
  "\<forall>q\<in>set [0..<4]. \<forall>s\<in>set [0..<64]. (ucast ((of_nat (q * 64 + s) :: u8) AND 0x3f) :: u32) = of_nat s \<and>
     (ucast (of_nat (q * 64 + s) :: u8) AND 0xc0 :: u16) = of_nat (q * 64)"
  by code_simp

lemma chs_lba_eq:
  assumes "reg_h (cr_cx r) = of_nat (c mod 256)" "reg_l (cr_cx r) = of_nat (c div 256 * 64 + s)" "reg_h (cr_dx r) = of_nat h"
    and "c < 1024" "h < 32" "1 \<le> s" "s < 64"
  shows "unat (chs_lba r) = (c * 32 + h) * 63 + (s - 1)"
proof -
  define m q where "m = c mod 256" and "q = c div 256"
  have mq: "m < 256" "q < 4" "c = m + 256 * q" using assms(4) by (simp_all add: m_def q_def)
  have s: "(ucast (reg_l (cr_cx r) AND 0x3f) :: u32) = of_nat s" "(ucast (reg_l (cr_cx r)) AND 0xc0 :: u16) = of_nat (q * 64)"
    using sector_bits mq(2) assms(7) by (auto simp: assms(2) q_def [symmetric])
  have "ucast (push_bit 2 (of_nat (q * 64) :: u16)) = (of_nat (push_bit 8 q) :: u32)"
    using mq(2) by (intro word_unat_eq_iff [THEN iffD2]) (simp add: push_bit_eq_mult unat_word_ariths unat_of_nat unsigned_ucast_eq take_bit_eq_mod)
  moreover have "ucast (of_nat m :: u8) = (of_nat m :: u32)"
    using mq(1) by (simp add: word_unat_eq_iff unat_of_nat unsigned_ucast_eq take_bit_eq_mod)
  ultimately have c: "(ucast (reg_h (cr_cx r)) :: u32) OR ucast (push_bit 2 (of_nat (q * 64) :: u16)) = of_nat c"
    unfolding assms(1) m_def [symmetric] by (simp only: of_nat_or_eq [symmetric] or_shifted_add [OF mq(1)] mq(3) [symmetric])
  have h: "(ucast (reg_h (cr_dx r)) :: u32) = of_nat h"
    using assms(3,5) by (simp add: word_unat_eq_iff unat_of_nat unsigned_ucast_eq take_bit_eq_mod)
  have "chs_lba r = of_nat ((c * 32 + h) * 63 + (s - 1))"
    using assms(6) unfolding chs_lba_def Let_def s c h NUM_HEADS_def SECTORS_PER_TRACK_def by (simp add: of_nat_diff)
  from of_nat_inverse [OF this [symmetric]] show ?thesis using assms(4,5,7) by simp
qed

lemma led_none:
  assumes "sim_bus b"
  shows "io (sys b) 0xfffe = None"
proof -
  have "\<forall>p\<in>set sim_ports. unat (port_base p) + 2 * num_ports p \<le> 0xfffe"
    unfolding sim_ports_def by (simp add: sim_port_defs)
  then have "(0xfffe, q) \<notin> set (port_entries p)" if "p \<in> set sim_ports" for p q
    using port_entries_in [of p "0xfffe" q] that by fastforce
  then show ?thesis unfolding assms [unfolded sim_bus_def] by (auto simp: map_of_eq_None_iff)
qed

lemma led_idle: "sim_bus b \<Longrightarrow> led_set l b = Some b" "sim_bus b \<Longrightarrow> led_clear l b = Some b"
  by (simp_all add: led_set_def led_clear_def inw_def outw_def read_io16_def write_io16_def LED_PORT_def led_none)


lemma set_disk_status_eq:
  "set_disk_status r err b = Some ((if err \<noteq> 0 then set_cf r else clear_cf r)\<lparr>cr_ax := set_h (cr_ax r) err\<rparr>,
     b\<lparr>sys := (sys b)\<lparr>mem := (mem (sys b))\<lparr>mem_bytes := (mem_bytes (mem (sys b)))(0x441 := err), mem_written := True\<rparr>\<rparr>\<rparr>)"
  by (simp add: set_disk_status_def bda_writeb_def offsetof_fields writeb_eq get_phys_addr_def Let_def)

lemma card_idle_mem [simp]: "card_idle (b\<lparr>sys := (sys b)\<lparr>mem := m\<rparr>\<rparr>) = card_idle b" "image_of (b\<lparr>sys := (sys b)\<lparr>mem := m\<rparr>\<rparr>) = image_of b"
  by (simp_all add: card_idle_def image_of_def)

text \<open>
  C12. Reading sectors (int 13h, function 2) on the simulated machine: for a drive of 80h, cylinder \<open>c\<close>, head \<open>h\<close> and sector
  \<open>s\<close> in CX and DH as the service expects them and a count of at most 128 in AL, the service returns with AH zero, AL the
  count and carry clear; the bytes at ES:BX are the \<open>512 * n\<close> bytes of the disk image from block
  \<open>(c * 32 + h) * 63 + (s - 1)\<close> on, apart from the status byte of the BIOS data area, and nothing else in memory, on the
  disk or in the state of the card changes. The card must be idle and the blocks must lie inside the image.
\<close>

theorem disk_read_sectors:
  assumes "card_idle b" "reg_h (cr_ax r) = 2" "reg_l (cr_ax r) = of_nat n" "reg_l (cr_dx r) = 0x80" "n \<le> 128"
    and "reg_h (cr_cx r) = of_nat (c mod 256)" "reg_l (cr_cx r) = of_nat (c div 256 * 64 + s)" "reg_h (cr_dx r) = of_nat h"
    and "c < 1024" "h < 32" "1 \<le> s" "s < 64" "a = 512 * ((c * 32 + h) * 63 + (s - 1))" "a + 512 * n \<le> length (image_of b)"
  shows "\<exists>r' b'. disk_services r b = Some (r', b') \<and> reg_l (cr_ax r') = of_nat n \<and> reg_h (cr_ax r') = 0 \<and> \<not> bit (cr_flags r') 0 \<and>
    card_idle b' \<and> image_of b' = image_of b \<and> mem_bytes (mem (sys b')) 0x441 = 0 \<and>
    (\<forall>i < 512 * n. string_addr (cr_es r) (cr_bx r) i \<noteq> 0x441 \<longrightarrow>
       mem_bytes (mem (sys b')) (string_addr (cr_es r) (cr_bx r) i) = image_of b ! (a + i)) \<and>
    (\<forall>x. x \<noteq> 0x441 \<and> (\<forall>i < 512 * n. x \<noteq> string_addr (cr_es r) (cr_bx r) i) \<longrightarrow>
       mem_bytes (mem (sys b')) x = mem_bytes (mem (sys b)) x)"
proof -
  let ?r = "clear_cf ((set_cf r)\<lparr>cr_ax := set_l (cr_ax r) 0\<rparr>)"
  have lba: "unat (chs_lba (set_cf r)) = (c * 32 + h) * 63 + (s - 1)"
    using chs_lba_eq [of "set_cf r" c s h] assms by simp
  have n: "unat (of_nat n :: u8) = n" using assms(5) by (simp add: unat_of_nat)
  have bus: "sim_bus b" using assms(1) by (simp add: card_idle_def)
  have "512 * ((c * 32 + h) * 63 + (s - 1) + n) < 2 ^ 32" using assms(5,9,10,12) by simp
  then obtain b1 where b1: "read_sectors n (chs_lba (set_cf r)) (cr_bx r) ?r b = Some (?r\<lparr>cr_ax := set_l (cr_ax ?r) (reg_l (cr_ax ?r) + of_nat n)\<rparr>, b1)"
      "card_idle b1" "image_of b1 = image_of b"
      "mem_bytes (mem (sys b1)) = store_seg (mem_bytes (mem (sys b))) (cr_es r) (cr_bx r) (take (512 * n) (drop a (image_of b)))"
    using read_sectors_card [OF assms(1), of "chs_lba (set_cf r)" n "cr_bx r" ?r] assms(13,14) by (auto simp: lba)
  let ?m = "(mem (sys b1))\<lparr>mem_bytes := (mem_bytes (mem (sys b1)))(0x441 := 0), mem_written := True\<rparr>"
  let ?b2 = "b1\<lparr>sys := (sys b1)\<lparr>mem := ?m\<rparr>\<rparr>"
  have bus2: "sim_bus ?b2" using b1(2) by (simp add: card_idle_def)
  let ?r2 = "clear_cf (?r\<lparr>cr_ax := set_h (set_l (cr_ax r) (of_nat n)) 0\<rparr>)"
  have "disk_read (set_cf r) b = Some (?r2, ?b2)"
    using assms(3,4) b1(1) by (simp add: disk_read_def n Let_def set_disk_status_eq)
  then have "disk_services r b = Some (?r2, ?b2)"
    using assms(2) by (simp add: disk_services_def led_idle bus bus2 Let_def)
  moreover have len: "length (take (512 * n) (drop a (image_of b))) = 512 * n" using assms(14) by simp
  have "mem_bytes (mem (sys ?b2)) (string_addr (cr_es r) (cr_bx r) i) = image_of b ! (a + i)"
    if "i < 512 * n" "string_addr (cr_es r) (cr_bx r) i \<noteq> 0x441" for i
    using that store_seg_at [of i "take (512 * n) (drop a (image_of b))"] len assms(5,14) by (simp add: b1(4))
  moreover have "mem_bytes (mem (sys ?b2)) x = mem_bytes (mem (sys b)) x"
    if "x \<noteq> 0x441" "\<forall>i < 512 * n. x \<noteq> string_addr (cr_es r) (cr_bx r) i" for x
    using that store_seg_other [of "take (512 * n) (drop a (image_of b))" x] len by (simp add: b1(4))
  moreover have "\<not> bit (cr_flags ?r2) 0" by (simp add: CF_def bit_simps)
  ultimately show ?thesis using b1(2,3) by (intro exI [of _ ?r2] exI [of _ ?b2]) simp
qed

lemma demo_bios_card [simp]: "card_idle (demo_bios img)" "image_of (demo_bios img) = img"
  by (simp_all add: card_idle_def image_of_def) (simp_all add: demo_bios_def ready_def SPI_new_def XFER_BUF_SIZE_def)

theorem disk_read_sectors_witness:
  "\<exists>r' b'. disk_services (demo_call 0x0201 0x7c00 0x0002 0x0080) (demo_bios (replicate 512 0x11 @ replicate 512 0x22)) = Some (r', b') \<and>
     mem_bytes (mem (sys b')) 0x7c00 = 0x22 \<and> \<not> bit (cr_flags r') 0"
proof -
  let ?r = "demo_call 0x0201 0x7c00 0x0002 0x0080" and ?b = "demo_bios (replicate 512 0x11 @ replicate 512 0x22)"
  have h: "card_idle ?b" "reg_h (cr_ax ?r) = 2" "reg_l (cr_ax ?r) = of_nat 1" "reg_l (cr_dx ?r) = 0x80" "1 \<le> (128 :: nat)"
    "reg_h (cr_cx ?r) = of_nat (0 mod 256)" "reg_l (cr_cx ?r) = of_nat (0 div 256 * 64 + 2)" "reg_h (cr_dx ?r) = of_nat 0"
    "0 < (1024 :: nat)" "0 < (32 :: nat)" "1 \<le> (2 :: nat)" "2 < (64 :: nat)" "512 = 512 * ((0 * 32 + 0) * 63 + (2 - 1 :: nat))"
    "512 + 512 * 1 \<le> length (image_of ?b)"
    by (simp_all add: reg_h_def reg_l_def)
  have "string_addr (cr_es ?r) (cr_bx ?r) 0 = 0x7c00" by (simp add: string_addr_def get_phys_addr_def)
  with disk_read_sectors [OF h] show ?thesis by (fastforce simp: nth_append)
qed

section \<open>Writing a sector\<close>

lemma write_command_transfers:
  assumes "ready s" "length as = 4" "a = unat (command_address as)"
  shows "\<exists>s'. transfers s (0xff # 0x58 # as @ 0 # replicate 9 0xff @ replicate 9 0xff) =
      Some (replicate 9 0xff @ 0x00 # 0xff # 0xff # 0x05 # replicate 12 0xff, s') \<and> waiting a (disk_bytes (disk_image s)) s'"
proof -
  obtain s1 where 1: "transfers s (replicate 1 0xff) = Some (replicate 1 0xff, s1)" "ready s1" "disk_image s1 = disk_image s"
    using idle_bytes [OF assms(1)] by blast
  have "command_address (as @ [0, 0xff]) = command_address as" using assms(2) by (simp add: command_address_def nth_append)
  then obtain s2 where 2: "transfers s1 (0x58 # (as @ [0, 0xff]) @ replicate 6 0xff) =
      Some (replicate 7 0xff @ [0xff, 0x00, 0xff, 0xff, 0x05, 0xff], s2)" "waiting a (disk_bytes (disk_image s)) s2"
    using write_command [OF 1(2), of "as @ [0, 0xff]" "replicate 6 0xff" a] assms(2,3) 1(3) by auto
  obtain s3 where 3: "transfers s2 (replicate 11 0xff) = Some (replicate 11 0xff, s3)" "waiting a (disk_bytes (disk_image s)) s3"
    using waiting_bytes [OF 2(2)] by blast
  have "transfers s (replicate 1 0xff @ (0x58 # (as @ [0, 0xff]) @ replicate 6 0xff) @ replicate 11 0xff) =
      Some (replicate 1 0xff @ (replicate 7 0xff @ [0xff, 0x00, 0xff, 0xff, 0x05, 0xff]) @ replicate 11 0xff, s3)"
    unfolding transfers_append 1(1) 2(1) 3(1) Option.bind.bind_lunit prod.case ..
  then show ?thesis using 3(2) by (intro exI [of _ s3]) (simp add: numeral_eq_Suc del: transfers.simps)
qed

lemma write_data_transfers:
  assumes "waiting a img s" "length data = 512" "a + 512 \<le> length img"
  shows "\<exists>s'. transfers s (0xff # 0xfe # data @ 0 # 0 # 0xff # replicate 514 0xff) =
      Some (replicate 514 0xff @ 0xaa # 0xaa # 0x05 # replicate 514 0xff, s') \<and> ready s' \<and>
      disk_bytes (disk_image s') = take a img @ data @ drop (a + 512) img"
proof -
  obtain s1 where 1: "transfers s (replicate 1 0xff) = Some (replicate 1 0xff, s1)" "waiting a img s1"
    using waiting_bytes [OF assms(1)] by blast
  obtain s2 where 2: "transfers s1 (0xfe # data @ [0, 0, 0xff]) = Some (replicate 513 0xff @ [0xaa, 0xaa, 0x05], s2)" "ready s2"
      "disk_bytes (disk_image s2) = take a img @ data @ drop (a + 512) img"
    using write_data [OF 1(2) assms(2) _ assms(3), of "[0, 0, 0xff]"] by auto
  obtain s3 where 3: "transfers s2 (replicate 514 0xff) = Some (replicate 514 0xff, s3)" "ready s3" "disk_image s3 = disk_image s2"
    using idle_bytes [OF 2(2)] by blast
  have "transfers s (replicate 1 0xff @ (0xfe # data @ [0, 0, 0xff]) @ replicate 514 0xff) =
      Some (replicate 1 0xff @ (replicate 513 0xff @ [0xaa, 0xaa, 0x05]) @ replicate 514 0xff, s3)"
    unfolding transfers_append 1(1) 2(1) 3(1) Option.bind.bind_lunit prod.case ..
  moreover have "replicate 514 (0xff :: u8) = replicate 1 0xff @ replicate 513 0xff"
    unfolding replicate_add [symmetric] by simp
  ultimately show ?thesis using 2(3) 3(2,3) by (intro exI [of _ s3]) (simp del: transfers.simps)
qed

lemma memcpy_seg_from_eq:
  "memcpy_seg_from sseg src n b = Some (map (\<lambda>i. mem_bytes (mem (sys b)) (string_addr sseg src i)) [0..<n])"
proof (induction n arbitrary: src)
  case (Suc n)
  have "[0..<Suc n] = 0 # map Suc [0..<n]" by (simp add: map_Suc_upt upt_conv_Cons)
  then show ?case by (simp add: Suc readb_def comp_def string_addr_Suc) (simp add: string_addr_0)
qed simp

lemma sd_write_block_card:
  assumes "sim_bus b" "waiting a img (spi_of b)" "length (spi_xfer_buf b) = XFER_BUF_SIZE" "a + 512 \<le> length img"
    and "data = map (\<lambda>i. mem_bytes (mem (sys b)) (string_addr sseg saddr i)) [0..<512]"
  shows "\<exists>s' buf. sd_write_block sseg saddr b = Some (set_spi s' (b\<lparr>spi_xfer_buf := 0xaa # buf\<rparr>)) \<and> length buf = 1279 \<and>
    ready s' \<and> disk_bytes (disk_image s') = take a img @ data @ drop (a + 512) img"
proof -
  have data: "length data = 512" using assms(5) by simp
  obtain s' where s': "transfers (spi_of b) (0xff # 0xfe # data @ 0 # 0 # 0xff # replicate 514 0xff) =
      Some (replicate 514 0xff @ 0xaa # 0xaa # 0x05 # replicate 514 0xff, s')" "ready s'"
      "disk_bytes (disk_image s') = take a img @ data @ drop (a + 512) img"
    using write_data_transfers [OF assms(2) data assms(4)] by blast
  define c where "c = 0xff # 0xfe # data @ [0, 0, 0xff :: u8]"
  have c: "length c = 517" using data by (simp add: c_def)
  let ?b1 = "b\<lparr>spi_xfer_buf := c @ drop 517 (spi_xfer_buf b)\<rparr>"
  have "sd_write_block sseg saddr b = spi_xfer 517 True ?b1"
  proof -
    obtain x0 x1 r where b: "spi_xfer_buf b = x0 # x1 # r" "length r = 1278"
      using assms(3) by (cases "spi_xfer_buf b"; cases "tl (spi_xfer_buf b)") (auto simp: XFER_BUF_SIZE_def)
    have "buf_copy 2 data (b\<lparr>spi_xfer_buf := 0xff # 0xfe # r\<rparr>) = Some (b\<lparr>spi_xfer_buf := 0xff # 0xfe # data @ drop 512 r\<rparr>)"
      using data b(2) by (simp add: buf_copy_eq)
    moreover obtain y0 y1 y2 t where t: "drop 512 r = y0 # y1 # y2 # t" "drop 515 r = t"
    proof -
      have "Suc (Suc (Suc 0)) \<le> length (drop 512 r)" using b(2) by simp
      then obtain y0 y1 y2 t where y: "drop 512 r = y0 # y1 # y2 # t" unfolding Suc_le_length_iff by fastforce
      have "drop 515 r = drop 3 (drop 512 r)" by simp
      also have "\<dots> = t" unfolding y by (simp add: numeral_3_eq_3)
      finally show ?thesis using that y by blast
    qed
    moreover have "length t = 763" using b(2) t(2) by auto
    ultimately show ?thesis
      using data b(1) assms(5) unfolding sd_write_block_def
      by (simp add: memcpy_seg_from_eq buf_set c_def numeral_2_eq_2 [symmetric])
  qed
  moreover have "spi_xfer 517 True ?b1 = Some (set_spi s' (?b1\<lparr>spi_xfer_buf := (0xaa # 0xaa # 0x05 # replicate 514 0xff) @ drop 517 (spi_xfer_buf ?b1)\<rparr>))"
  proof (rule spi_xfer_transfers)
    have "take 517 (spi_xfer_buf ?b1) = c" using c by simp
    then show "transfers (spi_of ?b1) (take 517 (spi_xfer_buf ?b1) @ replicate 514 0xff) =
        Some (replicate 514 0xff @ 0xaa # 0xaa # 0x05 # replicate 514 0xff, s')"
      using s'(1) by (simp add: c_def del: transfers.simps)
  qed (use assms(1,3) c in \<open>simp_all add: dropWhile_append XFER_BUF_SIZE_def\<close>)
  ultimately show ?thesis using s'(2,3) c assms(3)
    by (intro exI [of _ s'] exI [of _ "0xaa # 0x05 # replicate 514 0xff @ drop 517 (spi_xfer_buf b)"]) (simp add: XFER_BUF_SIZE_def)
qed

lemma write_sector_card:
  assumes "card_idle b" "a = unat (sector * 512)" "a + 512 \<le> length (image_of b)"
    and "data = map (\<lambda>i. mem_bytes (mem (sys b)) (string_addr sseg saddr i)) [0..<512]"
  shows "\<exists>b'. write_sector sector sseg saddr b = Some (-1, b') \<and> card_idle b' \<and> mem (sys b') = mem (sys b) \<and>
    image_of b' = take a (image_of b) @ data @ drop (a + 512) (image_of b)"
proof -
  let ?img = "take a (image_of b) @ data @ drop (a + 512) (image_of b)"
  let ?cmd = "\<lparr>sc_cmd = 0x58, sc_arg = address_bytes (sector * 512), sc_crc = 0, sc_rx_datalen = 1\<rparr>"
  obtain b1 where b1: "mouse_suspend b = Some b1" "mouse_only b b1" using mouse_suspend_frame assms(1) card_idle_def by blast
  then have idle: "card_idle b1" "image_of b1 = image_of b" using card_idle_mouse assms(1) by blast+
  have m: "mem (sys b1) = mem (sys b)" using b1(2) by (simp add: mouse_only_def)
  let ?s = "(spi_of b1)\<lparr>control_reg := 1\<rparr>"
  have rd: "ready ?s" "a = unat (command_address (address_bytes (sector * 512)))" "disk_bytes (disk_image ?s) = image_of b"
    using idle assms(2) command_address_bytes [of "sector * 512" "[]"] by (simp_all add: card_idle_def image_of_def)
  obtain s' where s': "transfers ?s (0xff # 0x58 # address_bytes (sector * 512) @ 0 # replicate 9 0xff @ replicate 9 0xff) =
      Some (replicate 9 0xff @ 0x00 # 0xff # 0xff # 0x05 # replicate 12 0xff, s')" "waiting a (image_of b) s'"
    using write_command_transfers [of ?s "address_bytes (sector * 512)" a] rd by (auto simp: address_bytes_def)
  define ns where "ns = 0x00 # 0xff # 0xff # 0x05 # replicate 12 (0xff :: u8)"
  let ?b2 = "set_spi s' (b1\<lparr>spi_xfer_buf := ns @ drop 16 (spi_xfer_buf b1)\<rparr>)"
  have len: "length ns = 16" "length (spi_xfer_buf b1) = 1280"
    using idle(1) by (simp_all add: ns_def card_idle_def XFER_BUF_SIZE_def)
  have cl: "spi_command_len ?cmd = 16" by (simp add: spi_command_len_def SD_NCR_def)
  have cmd: "spi_do_command ?cmd b1 = Some ?b2"
  proof (rule spi_do_command_transfers)
    show "ns = dropWhile (\<lambda>c. c = 0xff) (replicate 9 0xff @ ns)" by (simp add: dropWhile_append ns_def)
  qed (use idle(1) s'(1) len cl in \<open>simp_all add: card_idle_def ns_def address_bytes_def del: transfers.simps\<close>)
  have "find_r1_response ?b2 = Some (0, 0)" by (rule find_r1_first) (simp_all add: ns_def)
  with cmd have req: "sd_make_write_request (sector * 512) b1 = Some (0, ?b2)"
    by (simp add: sd_make_write_request_def simple_command_def r1_result_def)
  obtain s3 buf where s3: "sd_write_block sseg saddr ?b2 = Some (set_spi s3 (?b2\<lparr>spi_xfer_buf := 0xaa # buf\<rparr>))" "length buf = 1279"
      "ready s3" "disk_bytes (disk_image s3) = ?img"
    using sd_write_block_card [of ?b2 a "image_of b" data sseg saddr] idle(1) s'(2) assms(3,4) len m
    by (auto simp: card_idle_def XFER_BUF_SIZE_def)
  let ?b3 = "set_spi s3 (?b2\<lparr>spi_xfer_buf := 0xaa # buf\<rparr>)"
  have "ready (s3\<lparr>control_reg := 1\<rparr>)" using s3(3) by (auto simp: ready_def)
  then have idle3: "card_idle ?b3" "image_of ?b3 = ?img"
    using idle(1) s3 by (simp_all add: card_idle_def image_of_def XFER_BUF_SIZE_def)
  obtain b4 where b4: "mouse_resume ?b3 = Some b4" "mouse_only ?b3 b4"
    using mouse_resume_frame [of ?b3] idle3(1) unfolding card_idle_def by blast
  have "write_sector sector sseg saddr b = Some (-1, b4)"
    using assms(1) b1 req s3(1) b4(1)
    by (simp add: write_sector_def Let_def card_idle_def spi_xfer_buf_get_def write_received_def)
  moreover have "card_idle b4" "image_of b4 = ?img" "mem (sys b4) = mem (sys b)"
    using card_idle_mouse [OF b4(2)] idle3 b4(2) m by (simp_all add: mouse_only_def)
  ultimately show ?thesis by blast
qed

text \<open>
  C35. Writing sectors (int 13h, function 3) on the simulated machine stores the first block and reports a failure: the card
  answers the two checksum bytes with aah, which the driver takes for the data response, so \<open>write_sector\<close> returns -1
  although the 512 bytes at ES:BX are now in the image at the addressed block. The service then returns with AH ffh, AL zero
  and carry set, and does not write the remaining blocks. Memory changes only in the status byte.
\<close>

theorem disk_write_reports_failure:
  assumes "card_idle b" "reg_h (cr_ax r) = 3" "reg_l (cr_ax r) = of_nat n" "reg_l (cr_dx r) = 0x80" "1 \<le> n" "n < 256"
    and "reg_h (cr_cx r) = of_nat (c mod 256)" "reg_l (cr_cx r) = of_nat (c div 256 * 64 + s)" "reg_h (cr_dx r) = of_nat h"
    and "c < 1024" "h < 32" "1 \<le> s" "s < 64" "a = 512 * ((c * 32 + h) * 63 + (s - 1))" "a + 512 \<le> length (image_of b)"
    and "data = map (\<lambda>i. mem_bytes (mem (sys b)) (string_addr (cr_es r) (cr_bx r) i)) [0..<512]"
  shows "\<exists>r' b'. disk_services r b = Some (r', b') \<and> reg_l (cr_ax r') = 0 \<and> reg_h (cr_ax r') = 0xff \<and> bit (cr_flags r') 0 \<and>
    card_idle b' \<and> image_of b' = take a (image_of b) @ data @ drop (a + 512) (image_of b) \<and>
    mem_bytes (mem (sys b')) = (mem_bytes (mem (sys b)))(0x441 := 0xff)"
proof -
  let ?r = "clear_cf ((set_cf r)\<lparr>cr_ax := set_l (cr_ax r) 0\<rparr>)"
  have lba: "unat (chs_lba (set_cf r)) = (c * 32 + h) * 63 + (s - 1)"
    using chs_lba_eq [of "set_cf r" c s h] assms by simp
  have addr: "a = unat (chs_lba (set_cf r) * 512)"
    using assms(10,11,13,14) by (simp add: unat_word_ariths lba)
  obtain k where n: "n = Suc k" using assms(5) by (cases n) auto
  have un: "unat (of_nat n :: u8) = n" "(of_nat n :: u8) \<noteq> 0" using assms(5,6) by (simp_all add: unat_of_nat word_unat_eq_iff)
  have bus: "sim_bus b" using assms(1) by (simp add: card_idle_def)
  obtain b1 where b1: "write_sector (chs_lba (set_cf r)) (cr_es r) (cr_bx r) b = Some (-1, b1)" "card_idle b1" "mem (sys b1) = mem (sys b)"
      "image_of b1 = take a (image_of b) @ data @ drop (a + 512) (image_of b)"
    using write_sector_card [OF assms(1) addr assms(15,16)] by blast
  let ?m = "(mem (sys b1))\<lparr>mem_bytes := (mem_bytes (mem (sys b1)))(0x441 := 0xff), mem_written := True\<rparr>"
  let ?b2 = "b1\<lparr>sys := (sys b1)\<lparr>mem := ?m\<rparr>\<rparr>"
  have bus2: "sim_bus ?b2" using b1(2) by (simp add: card_idle_def)
  let ?r2 = "set_cf ((set_cf ?r)\<lparr>cr_ax := set_h (set_l (cr_ax r) 0) 0xff\<rparr>)"
  have "disk_write (set_cf r) b = Some (?r2, ?b2)"
    using assms(3,4) b1(1) un by (simp add: disk_write_def n Let_def set_disk_status_eq)
  then have "disk_services r b = Some (?r2, ?b2)"
    using assms(2) by (simp add: disk_services_def led_idle bus bus2 Let_def)
  moreover have "bit (cr_flags ?r2) 0" by (simp add: CF_def bit_simps)
  ultimately show ?thesis using b1(2-4) by (intro exI [of _ ?r2] exI [of _ ?b2]) simp
qed

theorem disk_write_reports_failure_witness:
  "\<exists>r' b'. disk_services (demo_call 0x0301 0x7c00 0x0001 0x0080) (demo_bios (replicate 512 0x11)) = Some (r', b') \<and>
     image_of b' = replicate 512 0 \<and> reg_h (cr_ax r') = 0xff \<and> bit (cr_flags r') 0"
proof -
  let ?r = "demo_call 0x0301 0x7c00 0x0001 0x0080" and ?b = "demo_bios (replicate 512 0x11)"
  let ?d = "map (\<lambda>i. mem_bytes (mem (sys ?b)) (string_addr (cr_es ?r) (cr_bx ?r) i)) [0..<512]"
  have h: "card_idle ?b" "reg_h (cr_ax ?r) = 3" "reg_l (cr_ax ?r) = of_nat 1" "reg_l (cr_dx ?r) = 0x80" "1 \<le> (1 :: nat)" "1 < (256 :: nat)"
    "reg_h (cr_cx ?r) = of_nat (0 mod 256)" "reg_l (cr_cx ?r) = of_nat (0 div 256 * 64 + 1)" "reg_h (cr_dx ?r) = of_nat 0"
    "0 < (1024 :: nat)" "0 < (32 :: nat)" "1 \<le> (1 :: nat)" "1 < (64 :: nat)" "0 = 512 * ((0 * 32 + 0) * 63 + (1 - 1 :: nat))"
    "0 + 512 \<le> length (image_of ?b)" "?d = ?d"
    by (simp_all add: reg_h_def reg_l_def)
  have "mem_bytes (mem (sys ?b)) x = 0" for x
    by (simp add: demo_bios_def demo_sim_def write_flags_def set_inta_handler_def SoftwareCPU_new_def EmulatorPimpl_new_def reset_def Memory_new_def mem_init_8_def)
  then have "?d = replicate 512 0" by (simp add: map_replicate_const)
  with disk_write_reports_failure [OF h] show ?thesis by fastforce
qed
end
