(* ===== verification/BiosKeyboard.thy ===== *)
theory BiosKeyboard
  imports BiosCard
begin

text \<open>
  The keyboard buffer of the firmware: the ring of sixteen words in the BIOS data area, with its head and tail as offsets, is
  a queue of at most fifteen keys.
\<close>

section \<open>Words of the BIOS data area\<close>

abbreviation set_mem :: "Memory \<Rightarrow> bios \<Rightarrow> bios" where
  "set_mem m b \<equiv> b\<lparr>sys := (sys b)\<lparr>mem := m\<rparr>\<rparr>"

definition bda_word :: "bios \<Rightarrow> nat \<Rightarrow> u16" where
  "bda_word b n = (case bda_readw (of_nat n) b of None \<Rightarrow> 0 | Some v \<Rightarrow> v)"

text \<open>Offsets stay in the form \<open>of_nat n\<close>.\<close>

lemmas of_nat_split = of_nat_add of_nat_mult of_nat_numeral of_nat_Suc

lemma unat_of_nat_small: "n < 65536 \<Longrightarrow> unat (of_nat n :: u16) = n" "n < 4294967296 \<Longrightarrow> unat (of_nat n :: u32) = n"
  by (simp_all add: unat_of_nat)

lemma bda_addr: "n < 256 \<Longrightarrow> get_phys_addr 0x40 (ucast (of_nat n :: u16)) = of_nat (0x400 + n)"
proof -
  assume n: "n < 256"
  have u: "unat (ucast (of_nat n :: u16) :: u32) = n" using n by (simp add: unsigned_ucast_eq unat_of_nat take_bit_eq_mod)
  then have "unat (get_phys_addr 0x40 (ucast (of_nat n :: u16))) = 0x400 + n"
    using n by (subst get_phys_addr_wrap) (simp_all add: MEMORY_SIZE_def)
  then show ?thesis using n by (simp add: word_unat_eq_iff unat_of_nat_small del: of_nat_split)
qed

lemma bda_readw_word: "n < 254 \<Longrightarrow> bda_readw (of_nat n) b = Some (bda_word b n)"
proof -
  assume n: "n < 254"
  have "mem_read16 (mem (sys b)) (of_nat (0x400 + n)) \<noteq> None"
    using n by (subst mem16.rd_ok) (simp add: MEMORY_SIZE_def unat_of_nat_small del: of_nat_split)
  then show ?thesis using n by (auto simp: bda_word_def bda_readw_def readw_def bda_addr)
qed

lemma bda_writew_word:
  assumes "n < 254"
  shows "\<exists>m. bda_writew (of_nat n) v b = Some (set_mem m b) \<and> bda_word (set_mem m b) n = v \<and>
    (\<forall>k < 254. k + 2 \<le> n \<or> n + 2 \<le> k \<longrightarrow> bda_word (set_mem m b) k = bda_word b k)"
proof -
  have u: "k < 254 \<Longrightarrow> unat (of_nat (0x400 + k) :: u32) = 0x400 + k" for k by (simp add: unat_of_nat_small del: of_nat_split)
  have "mem_write16 (mem (sys b)) (of_nat (0x400 + n)) v \<noteq> None"
    using assms by (subst mem16.wr_ok) (simp add: MEMORY_SIZE_def u del: of_nat_split)
  then obtain m where m: "mem_write16 (mem (sys b)) (of_nat (0x400 + n)) v = Some m" by auto
  have "bda_writew (of_nat n) v b = Some (set_mem m b)"
    using assms m by (simp add: bda_writew_def writew_def mwrite_def bda_addr)
  moreover have "bda_word (set_mem m b) n = v"
    using mem16.rd_wr_same [OF m] assms by (simp add: bda_word_def bda_readw_def readw_def bda_addr)
  moreover have "bda_word (set_mem m b) k = bda_word b k" if "k < 254" "k + 2 \<le> n \<or> n + 2 \<le> k" for k
    using mem16.rd_wr_dis [OF m, of "of_nat (0x400 + k)"] that assms u
    by (auto simp: bda_word_def bda_readw_def readw_def bda_addr)
  ultimately show ?thesis by blast
qed

section \<open>The ring\<close>

definition ring_index :: "u16 \<Rightarrow> nat" where
  "ring_index p = (unat p - 30) div 2"

definition kbd_ok :: "bios \<Rightarrow> bool" where
  "kbd_ok b \<longleftrightarrow> (\<exists>i < 16. bda_word b 0x1a = of_nat (30 + 2 * i)) \<and> (\<exists>j < 16. bda_word b 0x1c = of_nat (30 + 2 * j))"

definition kbd_keys :: "bios \<Rightarrow> u16 list" where
  "kbd_keys b = (let i = ring_index (bda_word b 0x1a); j = ring_index (bda_word b 0x1c)
     in map (\<lambda>k. bda_word b (30 + 2 * ((i + k) mod 16))) [0..<(j + 16 - i) mod 16])"

lemma ring_index [simp]: "i < 16 \<Longrightarrow> ring_index (of_nat (30 + 2 * i)) = i"
  by (simp add: ring_index_def unat_of_nat_small del: of_nat_split)

lemma kbd_offsets: "kbd_start = of_nat 30" "kbd_end = of_nat 62" "offsetof ''kbd_buffer_head'' = of_nat 26" "offsetof ''kbd_buffer_tail'' = of_nat 28"
  by (simp_all add: kbd_start_def kbd_end_def offsetof_fields)

lemma kbd_slot_index: "i < 16 \<Longrightarrow> kbd_slot (of_nat (30 + 2 * i)) = of_nat (30 + 2 * i)"
proof -
  assume i: "i < 16"
  have "(of_nat (30 + 2 * i) - of_nat 30 :: u16) = of_nat (2 * i)" by simp
  moreover have "(of_nat (2 * i) :: u16) div 2 = of_nat i"
    using i by (simp add: word_unat_eq_iff unat_div unat_of_nat_small del: of_nat_split)
  ultimately show ?thesis unfolding kbd_slot_def kbd_offsets by simp
qed

lemma kbd_advance_index: "i < 16 \<Longrightarrow> kbd_advance (of_nat (30 + 2 * i)) = of_nat (30 + 2 * (Suc i mod 16))"
proof -
  assume i: "i < 16"
  have "(of_nat (30 + 2 * i) + 2 :: u16) = of_nat (32 + 2 * i)" by simp
  moreover have "(of_nat 62 \<le> (of_nat (32 + 2 * i) :: u16)) = (62 \<le> 32 + 2 * i)"
    using i by (simp add: word_le_nat_alt unat_of_nat_small del: of_nat_split)
  ultimately show ?thesis unfolding kbd_advance_def kbd_offsets using i by (auto simp: mod_Suc simp del: of_nat_split)
qed

lemma kbd_full_index:
  assumes "bda_word b 26 = of_nat (30 + 2 * i)" "bda_word b 28 = of_nat (30 + 2 * j)" "i < 16" "j < 16"
  shows "kbd_buffer_full b = Some (Suc j mod 16 = i)"
proof -
  have eq: "(of_nat m :: u16) = of_nat n \<longleftrightarrow> m = n" if "m < 100" "n < 100" for m n
    using that by (auto simp: word_unat_eq_iff unat_of_nat_small)
  have "of_nat (30 + 2 * j) = (of_nat (30 + 2 * i) - 2 :: u16) \<longleftrightarrow> of_nat (30 + 2 * j + 2) = (of_nat (30 + 2 * i) :: u16)"
    by (simp add: algebra_simps eq_diff_eq)
  also have "\<dots> \<longleftrightarrow> Suc j = i" using assms(3,4) by (subst eq) auto
  finally have 1: "of_nat (30 + 2 * j) = (of_nat (30 + 2 * i) - 2 :: u16) \<longleftrightarrow> Suc j = i" .
  have 2: "of_nat (30 + 2 * i) = (of_nat 30 :: u16) \<longleftrightarrow> i = 0" using assms(3) by (subst eq) auto
  have "(of_nat 62 - 2 :: u16) = of_nat 60" by simp
  then have 3: "of_nat (30 + 2 * j) = (of_nat 62 - 2 :: u16) \<longleftrightarrow> j = 15" using assms(4) by (simp only: eq) auto
  have "kbd_buffer_full b = Some (of_nat (30 + 2 * j) = (of_nat (30 + 2 * i) - 2 :: u16) \<or> of_nat (30 + 2 * i) = (of_nat 30 :: u16) \<and>
      of_nat (30 + 2 * j) = (of_nat 62 - 2 :: u16))"
    unfolding kbd_buffer_full_def kbd_offsets using assms(1,2) by (simp add: bda_readw_word del: of_nat_split)
  also have "\<dots> = Some (Suc j mod 16 = i)" unfolding 1 2 3 using assms(3,4) by (auto simp: mod_Suc)
  finally show ?thesis .
qed


definition ring_length :: "nat \<Rightarrow> nat \<Rightarrow> nat" where
  "ring_length i j = (if i \<le> j then j - i else j + 16 - i)"

lemma ring_length: "i < 16 \<Longrightarrow> j < 16 \<Longrightarrow> (j + 16 - i) mod 16 = ring_length i j"
  by (auto simp: ring_length_def mod_if)

lemma ring_mod: "i < 16 \<Longrightarrow> k < 16 \<Longrightarrow> (i + k) mod 16 = (if i + k < 16 then i + k else i + k - 16)" for i k :: nat
  by (simp add: le_mod_geq)

lemma ring_last: "i < 16 \<Longrightarrow> j < 16 \<Longrightarrow> (i + ring_length i j) mod 16 = j"
  by (simp add: ring_length_def ring_mod)

lemma ring_before: "i < 16 \<Longrightarrow> j < 16 \<Longrightarrow> k < ring_length i j \<Longrightarrow> (i + k) mod 16 \<noteq> j"
  by (auto simp: ring_length_def ring_mod split: if_splits)

text \<open>The two pointers as indices.\<close>

definition ring :: "bios \<Rightarrow> nat \<Rightarrow> nat \<Rightarrow> bool" where
  "ring b i j \<longleftrightarrow> i < 16 \<and> j < 16 \<and> bda_word b 26 = of_nat (30 + 2 * i) \<and> bda_word b 28 = of_nat (30 + 2 * j)"

lemma kbd_ok_ring: "kbd_ok b \<longleftrightarrow> (\<exists>i j. ring b i j)"
  by (auto simp: kbd_ok_def ring_def)

lemma kbd_keys_ring:
  "ring b i j \<Longrightarrow> kbd_keys b = map (\<lambda>k. bda_word b (30 + 2 * ((i + k) mod 16))) [0..<ring_length i j]"
  by (simp add: kbd_keys_def ring_def Let_def ring_length del: of_nat_split)

lemma kbd_keys_length: "kbd_ok b \<Longrightarrow> length (kbd_keys b) \<le> 15"
  by (auto simp: kbd_ok_ring kbd_keys_ring) (auto simp: ring_def ring_length_def)

lemma sim_bus_mem [simp]: "sim_bus (set_mem m b) = sim_bus b"
  by simp

lemma kbd_buffer_add_ring:
  assumes "sim_bus b" "ring b i j"
  shows "\<exists>m. kbd_buffer_add key b = Some (set_mem m b) \<and> kbd_ok (set_mem m b) \<and>
    kbd_keys (set_mem m b) = (if length (kbd_keys b) = 15 then kbd_keys b else kbd_keys b @ [key])"
proof -
  have ij: "i < 16" "j < 16" "bda_word b 26 = of_nat (30 + 2 * i)" "bda_word b 28 = of_nat (30 + 2 * j)"
    using assms(2) by (simp_all add: ring_def)
  have full: "kbd_buffer_full b = Some (Suc j mod 16 = i)" by (rule kbd_full_index [OF ij(3,4,1,2)])
  have keys: "kbd_keys b = map (\<lambda>k. bda_word b (30 + 2 * ((i + k) mod 16))) [0..<ring_length i j]"
    by (rule kbd_keys_ring [OF assms(2)])
  have len: "length (kbd_keys b) = 15 \<longleftrightarrow> Suc j mod 16 = i"
    using ij(1,2) by (auto simp: keys ring_length_def mod_Suc)
  show ?thesis
  proof (cases "Suc j mod 16 = i")
    case True
    have "kbd_buffer_add key b = Some b" using full True led_idle [OF assms(1)] by (simp add: kbd_buffer_add_def)
    then show ?thesis using len True assms(2) by (intro exI [of _ "mem (sys b)"]) (auto simp: kbd_ok_ring)
  next
    case False
    let ?s = "30 + 2 * j" and ?t = "30 + 2 * (Suc j mod 16)"
    have s: "?s < 254" using ij(2) by simp
    obtain m1 where m1: "bda_writew (of_nat ?s) key b = Some (set_mem m1 b)" "bda_word (set_mem m1 b) ?s = key"
        "\<forall>k < 254. k + 2 \<le> ?s \<or> ?s + 2 \<le> k \<longrightarrow> bda_word (set_mem m1 b) k = bda_word b k"
      using bda_writew_word [OF s] by blast
    obtain m2 where m2: "bda_writew (of_nat 28) (of_nat ?t) (set_mem m1 b) = Some (set_mem m2 b)" "bda_word (set_mem m2 b) 28 = of_nat ?t"
        "\<forall>k < 254. k + 2 \<le> 28 \<or> 28 + 2 \<le> k \<longrightarrow> bda_word (set_mem m2 b) k = bda_word (set_mem m1 b) k"
      using bda_writew_word [of 28 "of_nat ?t" "set_mem m1 b"] by auto
    have w: "bda_word (set_mem m2 b) 26 = of_nat (30 + 2 * i)" "bda_word (set_mem m2 b) ?s = key"
      using m1(2,3) m2(3) ij by (auto simp del: of_nat_split)
    have w': "bda_word (set_mem m2 b) (30 + 2 * k) = bda_word b (30 + 2 * k)" if "k < 16" "k \<noteq> j" for k
    proof -
      have "30 + 2 * k + 2 \<le> ?s \<or> ?s + 2 \<le> 30 + 2 * k" "30 + 2 * k < 254" using that by auto
      then have "bda_word (set_mem m1 b) (30 + 2 * k) = bda_word b (30 + 2 * k)" using m1(3) by blast
      moreover have "bda_word (set_mem m2 b) (30 + 2 * k) = bda_word (set_mem m1 b) (30 + 2 * k)" using m2(3) that(1) by simp
      ultimately show ?thesis by simp
    qed
    have add: "kbd_buffer_add key b = Some (set_mem m2 b)"
      using full False led_idle [OF assms(1)] m1(1) m2(1) ij(2,4)
      by (simp add: kbd_buffer_add_def kbd_offsets bda_readw_word kbd_slot_index kbd_advance_index del: of_nat_split)
    have r: "ring (set_mem m2 b) i (Suc j mod 16)" using ij(1) w(1) m2(2) by (simp add: ring_def del: of_nat_split)
    have l: "ring_length i (Suc j mod 16) = Suc (ring_length i j)" using False ij(1,2) by (auto simp: ring_length_def mod_Suc)
    note idx = ring_last [OF ij(1,2)] ring_before [OF ij(1,2)]
    have "kbd_keys (set_mem m2 b) = kbd_keys b @ [key]"
      unfolding kbd_keys_ring [OF r] keys l using idx w(2) w' by auto
    moreover have "kbd_ok (set_mem m2 b)" using r by (auto simp: kbd_ok_ring)
    ultimately show ?thesis using add len False by (intro exI [of _ m2]) simp
  qed
qed

lemma kbd_buffer_pop_ring:
  assumes "sim_bus b" "ring b i j" "i \<noteq> j"
  shows "\<exists>m. kbd_buffer_pop b = Some (set_mem m b) \<and> kbd_ok (set_mem m b) \<and> kbd_keys (set_mem m b) = tl (kbd_keys b)"
proof -
  have ij: "i < 16" "j < 16" "bda_word b 26 = of_nat (30 + 2 * i)" "bda_word b 28 = of_nat (30 + 2 * j)"
    using assms(2) by (simp_all add: ring_def)
  let ?t = "30 + 2 * (Suc i mod 16)"
  obtain m where m: "bda_writew (of_nat 26) (of_nat ?t) b = Some (set_mem m b)" "bda_word (set_mem m b) 26 = of_nat ?t"
      "\<forall>k < 254. k + 2 \<le> 26 \<or> 26 + 2 \<le> k \<longrightarrow> bda_word (set_mem m b) k = bda_word b k"
    using bda_writew_word [of 26 "of_nat ?t" b] by auto
  have pop: "kbd_buffer_pop b = Some (set_mem m b)"
    using m(1) ij(1,3) led_idle [of "set_mem m b"] assms(1)
    by (simp add: kbd_buffer_pop_def kbd_offsets bda_readw_word kbd_advance_index Let_def del: of_nat_split)
  have r: "ring (set_mem m b) (Suc i mod 16) j" using ij m(2,3) by (simp add: ring_def del: of_nat_split)
  have l: "ring_length i j = Suc (ring_length (Suc i mod 16) j)" using assms(3) ij(1,2) by (auto simp: ring_length_def mod_Suc)
  have "kbd_keys b = bda_word b (30 + 2 * i) # map (\<lambda>k. bda_word b (30 + 2 * ((i + k) mod 16))) [Suc 0..<ring_length i j]"
    unfolding kbd_keys_ring [OF assms(2)] l using ij(1) by (simp add: upt_conv_Cons del: upt_Suc)
  moreover have "kbd_keys (set_mem m b) = map (\<lambda>k. bda_word b (30 + 2 * ((i + k) mod 16))) [Suc 0..<ring_length i j]"
  proof -
    have "(Suc i mod 16 + k) mod 16 = (i + Suc k) mod 16" for k by (simp add: mod_simps)
    then show ?thesis
      unfolding kbd_keys_ring [OF r] l map_Suc_upt [symmetric] map_map comp_def using m(3) by simp
  qed
  ultimately show ?thesis using pop r kbd_ok_ring by auto
qed

lemma kbd_buffer_peek_ring:
  assumes "ring b i j" "i \<noteq> j"
  shows "kbd_buffer_peek b = Some (hd (kbd_keys b), b)"
proof -
  have ij: "i < 16" "j < 16" "bda_word b 26 = of_nat (30 + 2 * i)" "bda_word b 28 = of_nat (30 + 2 * j)"
    using assms(1) by (simp_all add: ring_def)
  have ne: "(of_nat (30 + 2 * i) :: u16) \<noteq> of_nat (30 + 2 * j)"
    using assms(2) ij(1,2) by (simp add: word_unat_eq_iff unat_of_nat_small del: of_nat_split)
  have "0 < ring_length i j" using assms(2) ij(1,2) by (auto simp: ring_length_def)
  then have "hd (kbd_keys b) = bda_word b (30 + 2 * i)"
    unfolding kbd_keys_ring [OF assms(1)] using ij(1) by (simp add: hd_map upt_conv_Cons)
  then show ?thesis
    using ne ij by (simp add: kbd_buffer_peek_def kbd_offsets bda_readw_word kbd_slot_index del: of_nat_split)
qed

section \<open>The queue\<close>

lemma kbd_buffer_add_keys:
  assumes "sim_bus b" "kbd_ok b"
  shows "\<exists>b'. kbd_buffer_add key b = Some b' \<and> sim_bus b' \<and> kbd_ok b' \<and>
    kbd_keys b' = (if length (kbd_keys b) = 15 then kbd_keys b else kbd_keys b @ [key])"
proof -
  obtain i j where "ring b i j" using assms(2) by (auto simp: kbd_ok_ring)
  then obtain m where "kbd_buffer_add key b = Some (set_mem m b) \<and> kbd_ok (set_mem m b) \<and>
      kbd_keys (set_mem m b) = (if length (kbd_keys b) = 15 then kbd_keys b else kbd_keys b @ [key])"
    using kbd_buffer_add_ring [OF assms(1)] by blast
  then show ?thesis using assms(1) by (intro exI [of _ "set_mem m b"]) simp
qed

text \<open>A read through the service: int 16h, function 0.\<close>

lemma keyboard_services_key:
  assumes "sim_bus b" "kbd_ok b" "kbd_keys b = c # cs" "c \<noteq> 0" "reg_h (cr_ax r) = 0"
  shows "\<exists>r' b'. keyboard_services r b = Some (r', b') \<and> cr_ax r' = c \<and> \<not> bit (cr_flags r') 0 \<and> sim_bus b' \<and> kbd_ok b' \<and> kbd_keys b' = cs"
proof -
  obtain i j where r: "ring b i j" using assms(2) by (auto simp: kbd_ok_ring)
  have "i \<noteq> j" using assms(3) kbd_keys_ring [OF r] by (auto simp: ring_length_def)
  then have peek: "kbd_buffer_peek b = Some (c, b)" using kbd_buffer_peek_ring [OF r] assms(3) by simp
  obtain m where m: "kbd_buffer_pop b = Some (set_mem m b)" "kbd_ok (set_mem m b)" "kbd_keys (set_mem m b) = cs"
    using kbd_buffer_pop_ring [OF assms(1) r \<open>i \<noteq> j\<close>] assms(3) by auto
  have "wait_key b = Some (c, b)" using peek assms(4) by (subst wait_key.simps) simp
  then have "keyboard_services r b = Some ((clear_cf (set_cf r))\<lparr>cr_ax := c\<rparr>, set_mem m b)"
    using assms(5) m(1) by (simp add: keyboard_services_def keyboard_wait_def Let_def)
  then show ?thesis using m(2,3) assms(1) by (simp add: CF_def bit_simps)
qed

fun add_keys :: "u16 list \<Rightarrow> bios \<Rightarrow> bios option" where
  "add_keys [] b = Some b"
| "add_keys (c # cs) b = kbd_buffer_add c b \<bind> add_keys cs"

fun read_keys :: "nat \<Rightarrow> callregs \<Rightarrow> bios \<Rightarrow> (u16 list \<times> bios) option" where
  "read_keys 0 r b = Some ([], b)"
| "read_keys (Suc n) r b = do { (r', b) \<leftarrow> keyboard_services r b; (cs, b) \<leftarrow> read_keys n r b; Some (cr_ax r' # cs, b) }"

lemma add_keys_keys:
  "sim_bus b \<Longrightarrow> kbd_ok b \<Longrightarrow> \<exists>b'. add_keys cs b = Some b' \<and> sim_bus b' \<and> kbd_ok b' \<and> kbd_keys b' = take 15 (kbd_keys b @ cs)"
proof (induction cs arbitrary: b)
  case Nil
  then show ?case using kbd_keys_length by simp
next
  case (Cons c cs)
  obtain b1 where b1: "kbd_buffer_add c b = Some b1" "sim_bus b1" "kbd_ok b1"
      "kbd_keys b1 = (if length (kbd_keys b) = 15 then kbd_keys b else kbd_keys b @ [c])"
    using kbd_buffer_add_keys [OF Cons.prems] by blast
  have "take 15 (kbd_keys b1 @ cs) = take 15 (kbd_keys b @ c # cs)"
    using b1(4) kbd_keys_length [OF Cons.prems(2)] by (auto simp: take_Cons')
  then show ?case using Cons.IH [OF b1(2,3)] b1(1) by simp
qed

lemma read_keys_keys:
  "sim_bus b \<Longrightarrow> kbd_ok b \<Longrightarrow> 0 \<notin> set (kbd_keys b) \<Longrightarrow> reg_h (cr_ax r) = 0 \<Longrightarrow>
   \<exists>b'. read_keys (length (kbd_keys b)) r b = Some (kbd_keys b, b') \<and> sim_bus b' \<and> kbd_ok b' \<and> kbd_keys b' = []"
proof (induction "kbd_keys b" arbitrary: b)
  case (Cons c cs)
  then obtain r' b1 where b1: "keyboard_services r b = Some (r', b1)" "cr_ax r' = c" "sim_bus b1" "kbd_ok b1" "kbd_keys b1 = cs"
    using keyboard_services_key [of b c cs r] by (metis list.set_intros(1))
  have "\<exists>b'. read_keys (length (kbd_keys b1)) r b1 = Some (kbd_keys b1, b') \<and> sim_bus b' \<and> kbd_ok b' \<and> kbd_keys b' = []"
    using Cons b1(3-5) by (intro Cons.hyps(1)) (auto simp: Cons.hyps(2) [symmetric])
  then show ?case using b1 by (auto simp: Cons.hyps(2) [symmetric])
qed simp


section \<open>Interrupts, clock and keyboard after startup\<close>

lemma startup_ports:
  assumes "sim_bus b"
  shows "io (sys b) 0x20 = Some pic_port" "io (sys b) 0x40 = Some timer_port" "io (sys b) 0x42 = Some timer_port" "io (sys b) 0x60 = Some kbd_port"
  using sim_bus_lookup [OF assms, of pic_port 0] sim_bus_lookup [OF assms, of timer_port 0] sim_bus_lookup [OF assms, of timer_port 1]
    sim_bus_lookup [OF assms, of kbd_port 0]
  by (simp_all add: sim_ports_def) (simp_all add: pic_port_def timer_port_def kbd_port_def byte_port_def)

abbreviation set_devs :: "devices \<Rightarrow> bios \<Rightarrow> bios" where
  "set_devs d b \<equiv> b\<lparr>sys := (sys b)\<lparr>devs := d\<rparr>\<rparr>"

abbreviation devs_of :: "bios \<Rightarrow> devices" where
  "devs_of b \<equiv> devs (sys b)"

lemma startup_io:
  assumes "sim_bus b"
  shows "inb 0x21 b = Some (pic_mask (pic (devs_of b)), b)"
    "outb 0x20 v b = do { p \<leftarrow> PIC_write_command (pic (devs_of b)) v; Some (set_devs ((devs_of b)\<lparr>pic := p\<rparr>) b) }"
    "outb 0x21 v b = do { p \<leftarrow> PIC_write_data (pic (devs_of b)) v; Some (set_devs ((devs_of b)\<lparr>pic := p\<rparr>) b) }"
    "outb 0x43 v b = do { t \<leftarrow> write_mode (timer (devs_of b)) v; Some (set_devs ((devs_of b)\<lparr>timer := t\<rparr>) b) }"
    "outb 0x40 v b = Some (set_devs ((devs_of b)\<lparr>timer := write_reload (timer (devs_of b)) v\<rparr>) b)"
    "outb 0x61 v b = Some (set_devs ((devs_of b)\<lparr>kbd := PS2_write8 (kbd (devs_of b)) 0 1 v\<rparr>) b)"
    "\<exists>v. inb 0x61 b = Some (v, b)"
  using startup_ports [OF assms]
  by (simp_all add: inb_def outb_def read_io8_def write_io8_def io_call_def pic_port_def timer_port_def kbd_port_def byte_port_def
      PIC_read8_def PIC_write8_def TimerTick_write8_def PS2_read8_def Let_def split: Option.bind_splits)

lemma irq_init_pic:
  assumes "sim_bus b"
  shows "\<exists>p. irq_init b = Some (set_devs ((devs_of b)\<lparr>pic := p\<rparr>) b) \<and> pic_state p = PIC_STATE_IDLE \<and> vector_address p = 8 \<and>
    pic_mask p = - 1 \<and> irr p = irr (pic (devs_of b)) \<and> isr p = eoi_loop [0..<8] (isr (pic (devs_of b)))"
proof -
  let ?p = "(pic (devs_of b))\<lparr>vector_address := 8, pic_state := PIC_STATE_IDLE, pic_mask := - 1\<rparr>"
  have "irq_init b = Some (set_devs ((devs_of b)\<lparr>pic := ocw2 ?p 0x20\<rparr>) b)"
    using assms by (simp add: irq_init_def irq_ack_def PIC_COMMAND_def PIC_DATA_def startup_io PIC_write_command_def is_icw1_def
        icw1_def PIC_write_data_def set_mask_def is_ocw2_def)
  then show ?thesis by (auto simp: ocw2_def)
qed


lemma irq_enable_pic:
  assumes "sim_bus b" "pic_state (pic (devs_of b)) = PIC_STATE_IDLE"
  shows "irq_enable n b = Some (set_devs ((devs_of b)\<lparr>pic := (pic (devs_of b))\<lparr>pic_mask := pic_mask (pic (devs_of b)) AND NOT (push_bit n 1)\<rparr>\<rparr>) b)"
  using assms by (simp add: irq_enable_def PIC_DATA_def startup_io PIC_write_data_def set_mask_def)

lemma timer_program:
  assumes "sim_bus b"
  shows "\<exists>t. do { b \<leftarrow> outb (0x40 + 0x3) 0x34 b; b \<leftarrow> outb (0x40 + 0x0) 0x00 b; outb (0x40 + 0x0) 0x00 b } =
      Some (set_devs ((devs_of b)\<lparr>timer := t\<rparr>) b) \<and>
    enabled t \<and> operating_mode t = 2 \<and> reload t = 0 \<and> count t = count (do_reload t)"
proof -
  let ?t = "(timer (devs_of b))\<lparr>access := 3, operating_mode := 2, enabled := False, access_low := True\<rparr>"
  have m: "write_mode (timer (devs_of b)) 0x34 = Some ?t" by (simp add: write_mode_def Let_def)
  let ?u = "write_reload (write_reload ?t 0) 0"
  have r: "(reload (timer (devs_of b)) AND NOT 0xff) AND NOT 0xff00 = 0"
    by (rule bit_word_eqI) (auto simp: bit_simps mask_literals)
  have "enabled ?u" "operating_mode ?u = 2" "reload ?u = 0" "count ?u = count (do_reload ?u)"
    using r by (simp_all add: write_reload_def Let_def) (simp_all add: do_reload_def)
  then show ?thesis using assms m by (intro exI [of _ ?u]) (simp add: startup_io)
qed

lemma bda_writeb_word:
  assumes "n < 254"
  shows "\<exists>m. bda_writeb (of_nat n) v b = Some (set_mem m b) \<and>
    (\<forall>k < 254. k + 2 \<le> n \<or> n + 1 \<le> k \<longrightarrow> bda_word (set_mem m b) k = bda_word b k)"
proof -
  have u: "k < 254 \<Longrightarrow> unat (of_nat (0x400 + k) :: u32) = 0x400 + k" for k by (simp add: unat_of_nat_small del: of_nat_split)
  obtain m where m: "mem_write8 (mem (sys b)) (of_nat (0x400 + n)) v = Some m"
    using mem8.wr_ok [of "mem (sys b)" "of_nat (0x400 + n)" v] u [OF assms] assms by (auto simp: MEMORY_SIZE_def)
  have "bda_writeb (of_nat n) v b = Some (set_mem m b)"
    using assms m by (simp add: bda_writeb_def writeb_def mwrite_def bda_addr)
  moreover have "bda_word (set_mem m b) k = bda_word b k" if "k < 254" "k + 2 \<le> n \<or> n + 1 \<le> k" for k
    using mem_read_write_disjoint [OF m, of "of_nat (0x400 + k)", where 'b = 16] that assms u
    by (auto simp: bda_word_def bda_readw_def readw_def bda_addr)
  ultimately show ?thesis by blast
qed

lemma bda_devs [simp]: "bda_word (set_devs d b) n = bda_word b n"
  by (simp add: bda_word_def bda_readw_def readw_def)

lemma sim_bus_devs [simp]: "sim_bus (set_devs d b) = sim_bus b"
  by simp

definition startup :: "bios \<Rightarrow> bios option" where
  "startup b = do { b \<leftarrow> irq_init b; b \<leftarrow> init_timer b; keyboard_init b }"

lemma timer_offsets: "offsetof ''timer_counter_low'' = of_nat 108" "offsetof ''timer_counter_high'' = of_nat 110"
    "offsetof ''keyboard_flags'' = of_nat 23"
  by (simp_all add: offsetof_fields)

lemma halves_join: "push_bit 16 (ucast (ucast (drop_bit 16 t AND 0xffff) :: u16)) OR ucast (ucast (t AND 0xffff) :: u16) = t" for t :: u32
  by (rule bit_word_eqI) (auto simp: bit_simps mask_literals)

lemma init_timer_run:
  assumes "sim_bus b" "pic_state (pic (devs_of b)) = PIC_STATE_IDLE"
  shows "\<exists>m t. init_timer b = Some (set_mem m (set_devs ((devs_of b)\<lparr>pic := (pic (devs_of b))\<lparr>pic_mask := pic_mask (pic (devs_of b)) AND NOT 1\<rparr>, timer := t\<rparr>) b)) \<and>
    enabled t \<and> operating_mode t = 2 \<and> reload t = 0 \<and> count t = count (do_reload t) \<and>
    bda_word (set_mem m b) 108 = ucast (INIT_TIME_COUNT_VAL b AND 0xffff) \<and>
    bda_word (set_mem m b) 110 = ucast (drop_bit 16 (INIT_TIME_COUNT_VAL b) AND 0xffff)"
proof -
  let ?b1 = "set_devs ((devs_of b)\<lparr>pic := (pic (devs_of b))\<lparr>pic_mask := pic_mask (pic (devs_of b)) AND NOT 1\<rparr>\<rparr>) b"
  have 1: "irq_enable 0 b = Some ?b1" using irq_enable_pic [OF assms, of 0] by simp
  obtain t where t: "do { b \<leftarrow> outb (0x40 + 0x3) 0x34 ?b1; b \<leftarrow> outb (0x40 + 0x0) 0x00 b; outb (0x40 + 0x0) 0x00 b } =
      Some (set_devs ((devs_of ?b1)\<lparr>timer := t\<rparr>) ?b1)" "enabled t" "operating_mode t = 2" "reload t = 0" "count t = count (do_reload t)"
    using timer_program [of ?b1] assms(1) by auto
  let ?b2 = "set_devs ((devs_of ?b1)\<lparr>timer := t\<rparr>) ?b1"
  let ?l = "ucast (INIT_TIME_COUNT_VAL b AND 0xffff) :: u16" and ?h = "ucast (drop_bit 16 (INIT_TIME_COUNT_VAL b) AND 0xffff) :: u16"
  obtain m1 where m1: "bda_writew (of_nat 108) ?l ?b2 = Some (set_mem m1 ?b2)" "bda_word (set_mem m1 ?b2) 108 = ?l"
    using bda_writew_word [of 108 ?l ?b2] by auto
  obtain m2 where m2: "bda_writew (of_nat 110) ?h (set_mem m1 ?b2) = Some (set_mem m2 (set_mem m1 ?b2))"
      "bda_word (set_mem m2 (set_mem m1 ?b2)) 110 = ?h" "bda_word (set_mem m2 (set_mem m1 ?b2)) 108 = bda_word (set_mem m1 ?b2) 108"
    using bda_writew_word [of 110 ?h "set_mem m1 ?b2"] by auto
  have v: "INIT_TIME_COUNT_VAL ?b2 = INIT_TIME_COUNT_VAL b" "INIT_TIME_COUNT_VAL (set_mem m1 ?b2) = INIT_TIME_COUNT_VAL b"
    by (simp_all add: INIT_TIME_COUNT_VAL_def)
  obtain x1 x2 where x: "outb (0x40 + 0x3) 0x34 ?b1 = Some x1" "outb (0x40 + 0x0) 0x00 x1 = Some x2" "outb (0x40 + 0x0) 0x00 x2 = Some ?b2"
    using t(1) unfolding bind_eq_Some by blast
  have "init_timer b = Some (set_mem m2 (set_mem m1 ?b2))"
    unfolding init_timer_def timer_offsets by (simp only: 1 x v m1(1) m2(1) Option.bind.bind_lunit)
  then have "init_timer b = Some (set_mem m2 ?b2)" by simp
  moreover have "bda_word (set_mem m2 b) k = bda_word (set_mem m2 (set_mem m1 ?b2)) k" for k
    by (simp add: bda_word_def bda_readw_def readw_def)
  ultimately show ?thesis using t m1(2) m2(2,3) by (intro exI [of _ m2] exI [of _ t]) simp
qed


lemma keyboard_init_run:
  assumes "sim_bus b" "pic_state (pic (devs_of b)) = PIC_STATE_IDLE"
  shows "\<exists>m k. keyboard_init b = Some (set_mem m (set_devs ((devs_of b)\<lparr>kbd := k, pic := (pic (devs_of b))\<lparr>pic_mask := pic_mask (pic (devs_of b)) AND NOT 2\<rparr>\<rparr>) b)) \<and>
    pending k = [] \<and> bda_word (set_mem m b) 26 = of_nat 30 \<and> bda_word (set_mem m b) 28 = of_nat 30 \<and>
    (\<forall>n < 254. 30 \<le> n \<longrightarrow> bda_word (set_mem m b) n = bda_word b n)"
proof -
  obtain m1 where m1: "bda_writeb (of_nat 23) 0 b = Some (set_mem m1 b)" "\<forall>k < 254. 24 \<le> k \<longrightarrow> bda_word (set_mem m1 b) k = bda_word b k"
    using bda_writeb_word [of 23 0 b] by auto
  obtain m2 where m2: "bda_writeb (of_nat 24) 0 (set_mem m1 b) = Some (set_mem m2 b)" "\<forall>k < 254. 25 \<le> k \<longrightarrow> bda_word (set_mem m2 b) k = bda_word (set_mem m1 b) k"
    using bda_writeb_word [of 24 0 "set_mem m1 b"] by auto
  obtain m3 where m3: "bda_writew (of_nat 28) (of_nat 30) (set_mem m2 b) = Some (set_mem m3 b)" "bda_word (set_mem m3 b) 28 = of_nat 30"
      "\<forall>k < 254. 30 \<le> k \<longrightarrow> bda_word (set_mem m3 b) k = bda_word (set_mem m2 b) k"
    using bda_writew_word [of 28 "of_nat 30" "set_mem m2 b"] by auto
  obtain m4 where m4: "bda_writew (of_nat 26) (of_nat 30) (set_mem m3 b) = Some (set_mem m4 b)" "bda_word (set_mem m4 b) 26 = of_nat 30"
      "\<forall>k < 254. 28 \<le> k \<longrightarrow> bda_word (set_mem m4 b) k = bda_word (set_mem m3 b) k"
    using bda_writew_word [of 26 "of_nat 30" "set_mem m3 b"] by auto
  have bus: "sim_bus (set_mem m4 b)" using assms(1) by simp
  obtain v where v: "inb PS2_CTRL_PORT (set_mem m4 b) = Some (v, set_mem m4 b)"
    using startup_io(7) [OF bus] by (auto simp: PS2_CTRL_PORT_def)
  let ?k = "PS2_write8 (kbd (devs_of b)) 0 1 (v OR PS2_CTRL_CLEAR)"
  let ?b5 = "set_devs ((devs_of b)\<lparr>kbd := ?k\<rparr>) (set_mem m4 b)"
  have reset: "keyboard_reset (set_mem m4 b) = Some ?b5"
    using startup_io(6) [OF bus, of "v OR PS2_CTRL_CLEAR"] v by (simp add: keyboard_reset_def) (simp add: PS2_CTRL_PORT_def)
  have "(v OR PS2_CTRL_CLEAR) AND ps2_ctrl_clear \<noteq> 0"
    unfolding ps2_ctrl_clear_def PS2_CTRL_CLEAR_def and_exp_nonzero by (simp add: bit_or_iff bit_single)
  then have k: "pending ?k = []" by (simp add: PS2_write8_def)
  have e: "irq_enable 1 ?b5 = Some (set_devs ((devs_of ?b5)\<lparr>pic := (pic (devs_of b))\<lparr>pic_mask := pic_mask (pic (devs_of b)) AND NOT 2\<rparr>\<rparr>) ?b5)"
    using irq_enable_pic [of ?b5 1] assms by simp
  have n: "of_nat 23 + 1 = (of_nat 24 :: u16)" by simp
  have "keyboard_init b = Some (set_devs ((devs_of ?b5)\<lparr>pic := (pic (devs_of b))\<lparr>pic_mask := pic_mask (pic (devs_of b)) AND NOT 2\<rparr>\<rparr>) ?b5)"
    unfolding keyboard_init_def timer_offsets kbd_offsets by (simp only: n m1(1) m2(1) m3(1) m4(1) reset e Option.bind.bind_lunit)
  then show ?thesis using k m4(2,3) m3(2,3) m2(2) m1(2) by (intro exI [of _ m4] exI [of _ ?k]) simp
qed

text \<open>
  Starting the interrupts, the clock and the keyboard (the calls \<open>irq_init\<close>, \<open>init_timer\<close> and \<open>keyboard_init\<close> of \<open>root\<close>)
  on the simulated machine returns, whatever the state of the controller, the timer and the keyboard was. Then the interrupt
  controller has vector 8 and every line but 0 and 1 masked, so that a tick raises interrupt 8, a key
  interrupt 9 and the other lines nothing (if nothing was in service and line 0 was not already requested); the timer runs
  in mode 2 with the longest period; the keyboard has no pending byte and its buffer is empty; and the tick
  counter \<open>jiffies\<close> has its initial value.
\<close>

theorem firmware_startup:
  assumes "sim_bus b" "isr (pic (devs_of b)) = 0" "\<not> bit (irr (pic (devs_of b))) 0"
  shows "\<exists>b'. startup b = Some b' \<and> pic_mask (pic (devs_of b')) = 0xfc \<and>
    (\<forall>n < 8. snd (PIC_raise_irq (pic (devs_of b')) n) = (if n < 2 then [8 + int n] else [])) \<and>
    enabled (timer (devs_of b')) \<and> operating_mode (timer (devs_of b')) = 2 \<and> unat (count (timer (devs_of b'))) = max_count \<and>
    pending (kbd (devs_of b')) = [] \<and> kbd_ok b' \<and> kbd_keys b' = [] \<and> jiffies b' = Some (INIT_TIME_COUNT_VAL b)"
proof -
  obtain p where p: "irq_init b = Some (set_devs ((devs_of b)\<lparr>pic := p\<rparr>) b)" "pic_state p = PIC_STATE_IDLE" "vector_address p = 8"
      "pic_mask p = - 1" "irr p = irr (pic (devs_of b))" "isr p = 0"
    using irq_init_pic [OF assms(1)] assms(2) by (auto simp: upt_rec)
  let ?b1 = "set_devs ((devs_of b)\<lparr>pic := p\<rparr>) b"
  let ?p2 = "p\<lparr>pic_mask := - 1 AND NOT 1\<rparr>" and ?p3 = "p\<lparr>pic_mask := - 4\<rparr>"
  obtain m t where t: "init_timer ?b1 = Some (set_mem m (set_devs ((devs_of b)\<lparr>pic := ?p2, timer := t\<rparr>) b))"
      "enabled t" "operating_mode t = 2" "reload t = 0" "count t = count (do_reload t)"
      "bda_word (set_mem m ?b1) 108 = ucast (INIT_TIME_COUNT_VAL ?b1 AND 0xffff)"
      "bda_word (set_mem m ?b1) 110 = ucast (drop_bit 16 (INIT_TIME_COUNT_VAL ?b1) AND 0xffff)"
    using init_timer_run [of ?b1] assms(1) p(2,4) by auto
  let ?b2 = "set_mem m (set_devs ((devs_of b)\<lparr>pic := ?p2, timer := t\<rparr>) b)"
  obtain m' k where k: "keyboard_init ?b2 = Some (set_mem m' (set_devs ((devs_of b)\<lparr>timer := t, kbd := k, pic := ?p3\<rparr>) b))"
      "pending k = []" "bda_word (set_mem m' ?b2) 26 = of_nat 30" "bda_word (set_mem m' ?b2) 28 = of_nat 30"
      "\<forall>n < 254. 30 \<le> n \<longrightarrow> bda_word (set_mem m' ?b2) n = bda_word ?b2 n"
    using keyboard_init_run [of ?b2] assms(1) p(2) by auto
  let ?b3 = "set_mem m' (set_devs ((devs_of b)\<lparr>timer := t, kbd := k, pic := ?p3\<rparr>) b)"
  have w: "bda_word ?b3 n = bda_word (set_mem m' ?b2) n" "bda_word ?b2 n = bda_word (set_mem m ?b1) n" for n
    by (simp_all add: bda_word_def bda_readw_def readw_def)
  have v: "INIT_TIME_COUNT_VAL ?b1 = INIT_TIME_COUNT_VAL b" by (simp add: INIT_TIME_COUNT_VAL_def)
  have "startup b = Some ?b3" unfolding startup_def using p(1) t(1) k(1) by simp
  moreover have "ring ?b3 0 0" unfolding ring_def w(1) k(3,4) by simp
  then have "kbd_ok ?b3" "kbd_keys ?b3 = []" by (auto simp: kbd_ok_ring kbd_keys_ring ring_length_def)
  moreover have "jiffies ?b3 = Some (INIT_TIME_COUNT_VAL b)"
  proof -
    have r: "bda_readw (of_nat n) ?b3 = Some (bda_word (set_mem m ?b1) n)" if "30 \<le> n" "n < 254" for n
      using k(5) that unfolding bda_readw_word [OF that(2)] w by simp
    have "bda_readw (of_nat 108) ?b3 = Some (ucast (INIT_TIME_COUNT_VAL b AND 0xffff))"
      "bda_readw (of_nat 110) ?b3 = Some (ucast (drop_bit 16 (INIT_TIME_COUNT_VAL b) AND 0xffff))"
      using r [of 108] r [of 110] unfolding t(6,7) v by simp_all
    then show ?thesis unfolding jiffies_def timer_offsets by (simp add: halves_join del: of_nat_numeral)
  qed
  moreover have "unat (count t) = max_count"
    by (simp add: t(5) count_do_reload t(4) reload_cycles_def max_count_def unat_minus_one_word)
  moreover have "\<forall>n < 8. snd (PIC_raise_irq ?p3 n) = (if n < 2 then [8 + int n] else [])"
    unfolding all_less_8 using p(3,5,6) assms(3)
    by (simp add: PIC_raise_irq_def raise_loop_find upt_rec bit_simps Let_def)
  ultimately show ?thesis using t(2,3) k(2) by (intro exI [of _ ?b3]) simp
qed

lemma demo_bios_pic: "isr (pic (devs_of (demo_bios img))) = 0" "\<not> bit (irr (pic (devs_of (demo_bios img)))) 0"
  by (simp_all add: demo_bios_def demo_devices_def devices_new_def Keyboard_new_def PS2_add_byte_def PS2_new_def PIC_new_def
      PIC_raise_irq_def raise_loop_find upt_rec bit_simps Let_def)

theorem firmware_startup_witness:
  "\<exists>b'. startup (demo_bios []) = Some b' \<and> snd (PIC_raise_irq (pic (devs_of b')) 0) = [8] \<and> snd (PIC_raise_irq (pic (devs_of b')) 1) = [9] \<and>
     kbd_keys b' = []"
  using firmware_startup [OF demo_bios_bus demo_bios_pic, of "[]"] by fastforce


end
