(* ===== verification/BiosConsole.thy ===== *)
theory BiosConsole
  imports BiosKeyboard
begin

text \<open>
  The console of the firmware as a screen of 25 rows of 80 cells with a cursor: the output functions of \<open>display.c\<close> on the
  frame buffer and the adapter of the simulated machine implement operations on such a screen, and change nothing else.
\<close>

section \<open>The frame buffer\<close>

text \<open>The cell \<open>k\<close> of the frame buffer, in row \<open>k div 80\<close> and column \<open>k mod 80\<close>; the buffer has 32 kilobytes.\<close>

definition screen :: "bios \<Rightarrow> nat \<Rightarrow> u16" where
  "screen b k = (if k < 16384 then the (mem_read16 (mem (sys b)) (of_nat (0xb8000 + 2 * k))) else 0)"

text \<open>A change of the memory in the frame buffer only.\<close>

definition screen_only :: "bios \<Rightarrow> bios \<Rightarrow> bool" where
  "screen_only b b' \<longleftrightarrow> (\<exists>m. b' = set_mem m b \<and> (\<forall>x. unat x < 0xb8000 \<or> 0xc0000 \<le> unat x \<longrightarrow> mem_bytes m x = mem_bytes (mem (sys b)) x))"

lemma screen_only_refl [simp]: "screen_only b b"
  unfolding screen_only_def by (rule exI [of _ "mem (sys b)"]) simp

lemma screen_only_trans: "screen_only a b \<Longrightarrow> screen_only b c \<Longrightarrow> screen_only a c"
  by (auto simp: screen_only_def)

lemma cell_unat: "k < 16384 \<Longrightarrow> unat (of_nat (0xb8000 + 2 * k) :: u32) = 0xb8000 + 2 * k"
  by (simp add: unat_of_nat_small del: of_nat_split)

lemma cell_addr:
  assumes "k < 16384"
  shows "get_phys_addr 0xb000 (ucast (of_nat (0x8000 + 2 * k) :: u16)) = of_nat (0xb8000 + 2 * k)"
proof -
  have u: "unat (ucast (of_nat (0x8000 + 2 * k) :: u16) :: u32) = 0x8000 + 2 * k"
    using assms by (simp add: unsigned_ucast_eq unat_of_nat_small take_bit_eq_mod del: of_nat_split)
  then have "unat (get_phys_addr 0xb000 (ucast (of_nat (0x8000 + 2 * k) :: u16))) = 0xb8000 + 2 * k"
    using assms by (subst get_phys_addr_wrap) (simp_all add: MEMORY_SIZE_def del: of_nat_split)
  then show ?thesis using assms by (simp only: word_unat_eq_iff cell_unat)
qed

lemma cell_offset_eq: "cell_offset (of_nat r) (of_nat c) = of_nat (0x8000 + 2 * (r * 80 + c))" if "r < 256"
proof -
  have "(ucast (of_nat r :: u8) :: u16) = of_nat r"
    using that by (simp add: word_unat_eq_iff unat_of_nat unsigned_ucast_eq take_bit_eq_mod)
  then show ?thesis by (simp add: cell_offset_def frame_buffer_offset_def algebra_simps)
qed

lemma readw_cell:
  assumes "k < 16384"
  shows "readw frame_buffer_segment (of_nat (0x8000 + 2 * k)) b = Some (screen b k)"
proof -
  have "mem_read16 (mem (sys b)) (of_nat (0xb8000 + 2 * k)) \<noteq> None"
    using assms unfolding mem16.rd_ok cell_unat [OF assms] by (simp add: MEMORY_SIZE_def)
  then show ?thesis using assms by (auto simp: readw_def frame_buffer_segment_def cell_addr screen_def simp del: of_nat_split)
qed

lemma writew_cell:
  assumes "k < 16384"
  shows "\<exists>b'. writew frame_buffer_segment (of_nat (0x8000 + 2 * k)) v b = Some b' \<and> screen b' = (screen b)(k := v) \<and> screen_only b b'"
proof -
  have "mem_write16 (mem (sys b)) (of_nat (0xb8000 + 2 * k)) v \<noteq> None"
    using assms unfolding mem16.wr_ok cell_unat [OF assms] by (simp add: MEMORY_SIZE_def)
  then obtain m where m: "mem_write16 (mem (sys b)) (of_nat (0xb8000 + 2 * k)) v = Some m" by auto
  have "writew frame_buffer_segment (of_nat (0x8000 + 2 * k)) v b = Some (set_mem m b)"
    using assms m by (simp add: writew_def mwrite_def frame_buffer_segment_def cell_addr del: of_nat_split)
  moreover have "screen (set_mem m b) j = ((screen b)(k := v)) j" for j
    using mem16.rd_wr_same [OF m] mem16.rd_wr_dis [OF m, of "of_nat (0xb8000 + 2 * j)"] assms cell_unat [of j] cell_unat [OF assms]
    by (cases "j < k \<or> k < j") (auto simp: screen_def simp del: of_nat_split)
  moreover have "screen_only b (set_mem m b)"
    using mem_write_bytes [OF m] store_bytes_apply [of "of_nat (0xb8000 + 2 * k)" "word_to_bytes 2 v"] cell_unat [OF assms] assms
    unfolding screen_only_def by (intro exI [of _ m]) (auto simp del: of_nat_split)
  ultimately show ?thesis by blast
qed

lemma unat_of_nat_u8: "n < 256 \<Longrightarrow> unat (of_nat n :: u8) = n"
  by (simp add: unat_of_nat)

lemma mem_read16_bytes: "unat a + 2 \<le> MEMORY_SIZE \<Longrightarrow> mem_read16 m a = Some (ucast (mem_bytes m a) OR push_bit 8 (ucast (mem_bytes m (a + 1))))"
  by (simp add: mem_read_def numeral_2_eq_2)

lemma screen_bytes:
  assumes "k < 16384"
  shows "screen b k = ucast (mem_bytes (mem (sys b)) (of_nat (0xb8000 + 2 * k))) OR
    push_bit 8 (ucast (mem_bytes (mem (sys b)) (of_nat (0xb8000 + 2 * k) + 1)))"
proof -
  have "unat (of_nat (0xb8000 + 2 * k) :: u32) + 2 \<le> MEMORY_SIZE" unfolding cell_unat [OF assms] using assms by (simp add: MEMORY_SIZE_def)
  from mem_read16_bytes [OF this] show ?thesis using assms by (simp add: screen_def del: of_nat_split)
qed

definition set_char :: "u8 \<Rightarrow> u16 \<Rightarrow> u16" where
  "set_char ch w = (w AND 0xff00) OR ucast ch"

lemma writeb_cell:
  assumes "k < 16384"
  shows "\<exists>b'. writeb frame_buffer_segment (of_nat (0x8000 + 2 * k)) ch b = Some b' \<and>
    screen b' = (screen b)(k := set_char ch (screen b k)) \<and> screen_only b b'"
proof -
  let ?a = "\<lambda>k. of_nat (0xb8000 + 2 * k) :: u32"
  let ?m = "(mem (sys b))\<lparr>mem_bytes := (mem_bytes (mem (sys b)))(?a k := ch), mem_written := True\<rparr>"
  have w: "writeb frame_buffer_segment (of_nat (0x8000 + 2 * k)) ch b = Some (set_mem ?m b)"
    using assms by (simp add: writeb_eq frame_buffer_segment_def cell_addr del: of_nat_split)
  have ne: "?a j + 1 \<noteq> ?a k" "?a j = ?a k \<longleftrightarrow> j = k" if "j < 16384" for j
  proof -
    have "unat (?a j + 1) = 0xb8000 + 2 * j + 1"
      using that cell_unat [OF that] by (subst unat_plus_one [of _ 1]) (simp_all del: of_nat_split)
    then show "?a j + 1 \<noteq> ?a k" using cell_unat [OF assms] by (metis add_left_cancel even_Suc even_add even_mult_iff even_numeral odd_one)
    show "?a j = ?a k \<longleftrightarrow> j = k" by (simp add: word_unat_eq_iff cell_unat [OF that] cell_unat [OF assms] del: of_nat_split)
  qed
  have "screen (set_mem ?m b) j = ((screen b)(k := set_char ch (screen b k))) j" for j
  proof (cases "j < 16384")
    case True
    have "ucast ch OR push_bit 8 (ucast h) = set_char ch (ucast l OR push_bit 8 (ucast h))" for l h :: u8
      by (rule bit_word_eqI) (auto simp: set_char_def bit_simps mask_literals dest: bit_imp_le_length)
    then show ?thesis using ne [OF True] ne [OF assms] unfolding fun_upd_def screen_bytes [OF True] screen_bytes [OF assms]
      by (simp del: of_nat_split)
  qed (use assms in \<open>simp add: screen_def\<close>)
  moreover have "screen_only b (set_mem ?m b)"
    using cell_unat [OF assms] assms unfolding screen_only_def by (intro exI [of _ ?m]) (auto simp del: of_nat_split)
  ultimately show ?thesis using w by blast
qed

section \<open>Rows\<close>

lemma clear_cells_screen:
  assumes "r < 25" "c \<le> n + 1" "n < 80"
  shows "\<exists>b'. clear_cells (of_nat r) (of_nat c) (of_nat n) v b = Some b' \<and> screen_only b b' \<and>
    screen b' = (\<lambda>k. if r * 80 + c \<le> k \<and> k \<le> r * 80 + n then v else screen b k)"
  using assms
proof (induction "n + 1 - c" arbitrary: c b)
  case 0
  then have "\<not> (of_nat c :: u8) \<le> of_nat n" by (simp add: word_le_nat_alt unat_of_nat_u8 del: of_nat_split)
  then show ?case using 0 by (subst clear_cells.simps) (auto simp: fun_eq_iff)
next
  case (Suc d)
  have le: "(of_nat c :: u8) \<le> of_nat n" using Suc.hyps(2) Suc.prems by (simp add: word_le_nat_alt unat_of_nat_u8 del: of_nat_split)
  let ?k = "r * 80 + c"
  have k: "?k < 16384" "r < 256" using Suc.hyps(2) Suc.prems by simp_all
  have u: "ucast (of_nat c :: u8) = (of_nat c :: u16)"
    using Suc.hyps(2) Suc.prems by (simp add: word_unat_eq_iff unat_of_nat unsigned_ucast_eq take_bit_eq_mod)
  obtain b1 where b1: "writew frame_buffer_segment (of_nat (0x8000 + 2 * ?k)) v b = Some b1" "screen b1 = (screen b)(?k := v)" "screen_only b b1"
    using writew_cell [OF k(1)] by blast
  have s: "(of_nat c + 1 :: u8) = of_nat (Suc c)" by simp
  have d: "d = n + 1 - Suc c" "Suc c \<le> n + 1" using Suc.hyps(2) by auto
  obtain b2 where b2: "clear_cells (of_nat r) (of_nat (Suc c)) (of_nat n) v b1 = Some b2" "screen_only b1 b2"
      "screen b2 = (\<lambda>k. if r * 80 + Suc c \<le> k \<and> k \<le> r * 80 + n then v else screen b1 k)"
    using Suc.hyps(1) [OF d(1) Suc.prems(1) d(2) Suc.prems(3), of b1] by blast
  have "clear_cells (of_nat r) (of_nat c) (of_nat n) v b = Some b2"
    using le by (subst clear_cells.simps) (simp only: u cell_offset_eq [OF k(2)] b1(1) s b2(1) if_True Option.bind.bind_lunit)
  moreover have "screen b2 = (\<lambda>k. if r * 80 + c \<le> k \<and> k \<le> r * 80 + n then v else screen b k)"
    using Suc.hyps(2) by (auto simp: b2(3) b1(2) fun_eq_iff)
  ultimately show ?case using screen_only_trans [OF b1(3) b2(2)] by blast
qed

lemma row_mod: "c < 80 \<Longrightarrow> (r * 80 + c) mod 80 = c" "c < 80 \<Longrightarrow> (r * 80 + c) div 80 = r" for r c :: nat
  by simp_all

lemma copy_cells_screen:
  assumes "r < 25" "q < 25" "r \<noteq> q" "c \<le> n + 1" "n < 80"
  shows "\<exists>b'. copy_cells (of_nat r) (of_nat q) (of_nat c) (of_nat n) b = Some b' \<and> screen_only b b' \<and>
    screen b' = (\<lambda>k. if r * 80 + c \<le> k \<and> k \<le> r * 80 + n then screen b (q * 80 + k mod 80) else screen b k)"
  using assms
proof (induction "n + 1 - c" arbitrary: c b)
  case 0
  then have "\<not> (of_nat c :: u8) \<le> of_nat n" by (simp add: word_le_nat_alt unat_of_nat_u8 del: of_nat_split)
  then show ?case using 0 by (subst copy_cells.simps) (auto simp: fun_eq_iff)
next
  case (Suc d)
  have d: "d = n + 1 - Suc c" "Suc c \<le> n + 1" "c < 80" using Suc.hyps(2) Suc.prems(5) by auto
  have le: "(of_nat c :: u8) \<le> of_nat n" using d Suc.prems(5) by (simp add: word_le_nat_alt unat_of_nat_u8 del: of_nat_split)
  let ?k = "r * 80 + c" and ?q = "q * 80 + c"
  have k: "?k < 16384" "?q < 16384" "r < 256" "q < 256" using d(3) Suc.prems by simp_all
  have u: "ucast (of_nat c :: u8) = (of_nat c :: u16)"
    using d(3) by (simp add: word_unat_eq_iff unat_of_nat unsigned_ucast_eq take_bit_eq_mod)
  obtain b1 where b1: "writew frame_buffer_segment (of_nat (0x8000 + 2 * ?k)) (screen b ?q) b = Some b1"
      "screen b1 = (screen b)(?k := screen b ?q)" "screen_only b b1"
    using writew_cell [OF k(1)] by blast
  have s: "(of_nat c + 1 :: u8) = of_nat (Suc c)" by simp
  obtain b2 where b2: "copy_cells (of_nat r) (of_nat q) (of_nat (Suc c)) (of_nat n) b1 = Some b2" "screen_only b1 b2"
      "screen b2 = (\<lambda>k. if r * 80 + Suc c \<le> k \<and> k \<le> r * 80 + n then screen b1 (q * 80 + k mod 80) else screen b1 k)"
    using Suc.hyps(1) [OF d(1) Suc.prems(1-3) d(2) Suc.prems(5), of b1] by blast
  have "copy_cells (of_nat r) (of_nat q) (of_nat c) (of_nat n) b = Some b2"
    using le by (subst copy_cells.simps)
      (simp only: u cell_offset_eq [OF k(3)] cell_offset_eq [OF k(4)] readw_cell [OF k(2)] b1(1) s b2(1) if_True Option.bind.bind_lunit)
  moreover have "q * 80 + j mod 80 \<noteq> ?k" for j
    using row_mod(2) [of c r] row_mod(2) [of "j mod 80" q] d(3) Suc.prems(3) by (metis mod_less_divisor zero_less_numeral)
  then have "screen b2 = (\<lambda>k. if r * 80 + c \<le> k \<and> k \<le> r * 80 + n then screen b (q * 80 + k mod 80) else screen b k)"
    using d row_mod(1) [of c r] by (auto simp: b2(3) b1(2) fun_eq_iff)
  ultimately show ?case using screen_only_trans [OF b1(3) b2(2)] by blast
qed

section \<open>Scrolling\<close>

text \<open>Scrolling the whole screen up by one row: row \<open>r\<close> takes the contents of the row below, the last row is blank.\<close>

definition scrolled :: "(nat \<Rightarrow> u16) \<Rightarrow> nat \<Rightarrow> u16" where
  "scrolled f k = (if k < 1920 then f (k + 80) else if k < 2000 then 0x0720 else f k)"

lemma scroll_step:
  assumes "r < 25"
  shows "\<exists>b'. (if int r + 1 > 24 then clear_row (word_of_int (int r)) (word_of_int 0) (word_of_int 79) (word_of_int 7) b
       else copy_row (word_of_int (int r)) (word_of_int (int r + 1)) (word_of_int 0) (word_of_int 79) b) = Some b' \<and> screen_only b b' \<and>
    screen b' = (\<lambda>k. if k div 80 = r then (if r = 24 then 0x0720 else screen b (k + 80)) else screen b k)"
proof -
  have w: "word_of_int (int r) = (of_nat r :: u8)" "word_of_int (int r + 1) = (of_nat (Suc r) :: u8)"
    "word_of_int 0 = (of_nat 0 :: u8)" "word_of_int 79 = (of_nat 79 :: u8)" by simp_all
  have row: "r * 80 + 0 \<le> k \<and> k \<le> r * 80 + 79 \<longleftrightarrow> k div 80 = r" for k by (auto simp: div_nat_eqI)
  show ?thesis
  proof (cases "r = 24")
    case True
    have "push_bit 8 (ucast (word_of_int 7 :: u8)) OR 0x20 = (0x0720 :: u16)" by simp
    then show ?thesis using clear_cells_screen [of r 0 79 "0x0720" b] assms True
      unfolding clear_row_def Let_def w row by (auto simp: fun_eq_iff)
  next
    case False
    have "k div 80 = r \<Longrightarrow> Suc r * 80 + k mod 80 = k + 80" for k using div_mult_mod_eq [of k 80] by auto
    then have e: "(\<lambda>k. if k div 80 = r then screen b (Suc r * 80 + k mod 80) else screen b k) = (\<lambda>k. if k div 80 = r then screen b (k + 80) else screen b k)"
      by (intro ext) (simp only: cong: if_cong)
    have "\<not> int r + 1 > 24" "r \<noteq> Suc r" "Suc r < 25" "0 \<le> (79 :: nat) + 1" "(79 :: nat) < 80" using assms False by auto
    then show ?thesis using copy_cells_screen [of r "Suc r" 0 79 b] assms False
      unfolding copy_row_def w row e by (simp only: if_False not_False_eq_True True_implies_equals)
  qed
qed

lemma row_iff: "k div 80 = r \<longleftrightarrow> 80 * r \<le> k \<and> k < 80 * r + 80" for k r :: nat
  by (auto simp: div_nat_eqI)

lemma sint_word_of_int_8: "- 128 \<le> i \<Longrightarrow> i < 128 \<Longrightarrow> sint (word_of_int i :: u8) = i"
proof -
  assume "- 128 \<le> i" "i < 128"
  then have "signed_take_bit 7 i = i" by (intro signed_take_bit_int_eq_self) auto
  then show ?thesis by (simp only: signed_of_int) simp
qed

lemma scroll_up_rows_screen:
  assumes "r \<le> 25"
  shows "\<exists>b'. scroll_up_rows (int r) 24 (word_of_int 0) (word_of_int 79) (word_of_int 7) 1 b = Some b' \<and> screen_only b b' \<and>
    screen b' = (\<lambda>k. if 80 * r \<le> k then scrolled (screen b) k else screen b k)"
  using assms
proof (induction "25 - r" arbitrary: r b)
  case 0
  then show ?case by (subst scroll_up_rows.simps) (auto simp: scrolled_def fun_eq_iff)
next
  case (Suc n)
  have r: "r < 25" using Suc.hyps(2) by simp
  obtain b1 where b1: "(if int r + 1 > 24 then clear_row (word_of_int (int r)) (word_of_int 0) (word_of_int 79) (word_of_int 7) b
       else copy_row (word_of_int (int r)) (word_of_int (int r + 1)) (word_of_int 0) (word_of_int 79) b) = Some b1" "screen_only b b1"
      "screen b1 = (\<lambda>k. if k div 80 = r then (if r = 24 then 0x0720 else screen b (k + 80)) else screen b k)"
    using scroll_step [OF r, of b] by blast
  have n: "n = 25 - Suc r" "Suc r \<le> 25" using Suc.hyps(2) by auto
  obtain b2 where b2: "scroll_up_rows (int (Suc r)) 24 (word_of_int 0) (word_of_int 79) (word_of_int 7) 1 b1 = Some b2" "screen_only b1 b2"
      "screen b2 = (\<lambda>k. if 80 * Suc r \<le> k then scrolled (screen b1) k else screen b1 k)"
    using Suc.hyps(1) [OF n, of b1] by blast
  have s: "to_schar (int r + 1) = int (Suc r)" using r sint_word_of_int_8 [of "int r + 1"] by (simp add: to_schar_def)
  have "scroll_up_rows (int r) 24 (word_of_int 0) (word_of_int 79) (word_of_int 7) 1 b = Some b2"
  proof -
    have "int r \<le> 24" using r by simp
    then show ?thesis by (subst scroll_up_rows.simps) (simp only: b1(1) s b2(1) if_True Option.bind.bind_lunit)
  qed
  moreover have "screen b2 k = (if 80 * r \<le> k then scrolled (screen b) k else screen b k)" for k
    using n(2) by (auto simp: b2(3) b1(3) scrolled_def row_iff)
  ultimately show ?case using screen_only_trans [OF b1(2) b2(2)] by blast
qed

lemma scroll_up_one_screen: "\<exists>b'. scroll_up_one b = Some b' \<and> screen_only b b' \<and> screen b' = scrolled (screen b)"
  using scroll_up_rows_screen [of 0 b] by (simp add: scroll_up_one_def do_scroll_up_def)

lemma blank_cells_screen:
  assumes "r < 25" "c \<le> 80"
  shows "\<exists>b'. blank_cells (of_nat r) [c..<80] b = Some b' \<and> screen_only b b' \<and>
    screen b' = (\<lambda>k. if r * 80 + c \<le> k \<and> k < r * 80 + 80 then 0x0720 else screen b k)"
  using assms
proof (induction "80 - c" arbitrary: c b)
  case 0
  then show ?case by (auto simp: fun_eq_iff)
next
  case (Suc n)
  have n: "n = 80 - Suc c" "Suc c \<le> 80" "[c..<80] = c # [Suc c..<80]" "r * 80 + c < 16384" "r < 256"
    using Suc.hyps(2) Suc.prems(1) by (auto simp: upt_conv_Cons)
  obtain b1 where b1: "writew frame_buffer_segment (of_nat (0x8000 + 2 * (r * 80 + c))) 0x0720 b = Some b1"
      "screen b1 = (screen b)(r * 80 + c := 0x0720)" "screen_only b b1"
    using writew_cell [OF n(4)] by blast
  obtain b2 where b2: "blank_cells (of_nat r) [Suc c..<80] b1 = Some b2" "screen_only b1 b2"
      "screen b2 = (\<lambda>k. if r * 80 + Suc c \<le> k \<and> k < r * 80 + 80 then 0x0720 else screen b1 k)"
    using Suc.hyps(1) [OF n(1) Suc.prems(1) n(2), of b1] by blast
  have "blank_cells (of_nat r) [c..<80] b = Some b2"
    unfolding n(3) by (simp only: blank_cells.simps cell_offset_eq [OF n(5)] b1(1) b2(1) Option.bind.bind_lunit)
  moreover have "screen b2 = (\<lambda>k. if r * 80 + c \<le> k \<and> k < r * 80 + 80 then 0x0720 else screen b k)"
    using n(2) by (auto simp: b2(3) b1(2) fun_eq_iff)
  ultimately show ?case using screen_only_trans [OF b1(3) b2(2)] by blast
qed

section \<open>The cursor\<close>

text \<open>The position of the cursor in the registers of the adapter: 80 times the row plus the column.\<close>

definition cursor_pos :: "bios \<Rightarrow> nat" where
  "cursor_pos b = unat (push_bit 8 (ucast (idx_regs (cga (devs_of b)) 0xe)) OR ucast (idx_regs (cga (devs_of b)) 0xf) :: u16)"

abbreviation set_cga :: "CGA \<Rightarrow> bios \<Rightarrow> bios" where
  "set_cga c b \<equiv> set_devs ((devs_of b)\<lparr>cga := c\<rparr>) b"

lemma cursor_pos_mem [simp]: "cursor_pos (set_mem m b) = cursor_pos b"
  by (simp add: cursor_pos_def)

lemma screen_devs [simp]: "screen (set_devs d b) = screen b"
  by (simp add: fun_eq_iff screen_def)

lemma screen_cong:
  assumes "\<And>x. 0xb8000 \<le> unat x \<Longrightarrow> mem_bytes m x = mem_bytes (mem (sys b)) x"
  shows "screen (set_mem m b) = screen b"
proof
  fix k
  show "screen (set_mem m b) k = screen b k"
  proof (cases "k < 16384")
    case True
    have "unat (of_nat (0xb8000 + 2 * k) + 1 :: u32) = 0xb8000 + 2 * k + 1"
      using True cell_unat [OF True] by (subst unat_plus_one [of _ 1]) (simp_all del: of_nat_split)
    then show ?thesis using assms cell_unat [OF True] unfolding screen_bytes [OF True] by (simp del: of_nat_split)
  qed (simp add: screen_def)
qed

lemma crtc_ports:
  assumes "sim_bus b"
  shows "outb 0x3d4 v b = Some (set_cga ((cga (devs_of b))\<lparr>reg_idx := v\<rparr>) b)"
    "outb 0x3d5 v b = Some (set_cga ((cga (devs_of b))\<lparr>idx_regs := (idx_regs (cga (devs_of b)))(reg_idx (cga (devs_of b)) := v)\<rparr>) b)"
    "inb 0x3d5 b = Some (idx_regs (cga (devs_of b)) (reg_idx (cga (devs_of b))), b)"
proof -
  have p: "io (sys b) 0x3d4 = Some cga_port" using sim_bus_lookup [OF assms, of cga_port 16]
    by (simp add: sim_ports_def) (simp add: cga_port_def byte_port_def)
  then show "outb 0x3d4 v b = Some (set_cga ((cga (devs_of b))\<lparr>reg_idx := v\<rparr>) b)"
    "outb 0x3d5 v b = Some (set_cga ((cga (devs_of b))\<lparr>idx_regs := (idx_regs (cga (devs_of b)))(reg_idx (cga (devs_of b)) := v)\<rparr>) b)"
    "inb 0x3d5 b = Some (idx_regs (cga (devs_of b)) (reg_idx (cga (devs_of b))), b)"
    by (simp_all add: inb_def outb_def read_io8_def write_io8_def io_call_def cga_port_def byte_port_def CGA_write8_def CGA_read8_def Let_def)
qed

lemma crtc_regs:
  assumes "sim_bus b"
  shows "crtc_reg_write i v b = Some (set_cga ((cga (devs_of b))\<lparr>reg_idx := i, idx_regs := (idx_regs (cga (devs_of b)))(i := v)\<rparr>) b)"
    "crtc_reg_read i b = Some (idx_regs (cga (devs_of b)) i, set_cga ((cga (devs_of b))\<lparr>reg_idx := i\<rparr>) b)"
  using assms by (simp_all add: crtc_reg_write_def crtc_reg_read_def crtc_ports)

lemma read_cursor_pos:
  assumes "sim_bus b" "cursor_pos b = r * 80 + c" "r < 25" "c < 80"
  shows "read_cursor b = Some (\<lparr>cur_col = of_nat c, cur_row = of_nat r\<rparr>, set_cga ((cga (devs_of b))\<lparr>reg_idx := 0xf\<rparr>) b)"
proof -
  let ?w = "push_bit 8 (ucast (idx_regs (cga (devs_of b)) 0xe)) OR ucast (idx_regs (cga (devs_of b)) 0xf) :: u16"
  have w: "unat ?w = r * 80 + c" using assms(2) by (simp add: cursor_pos_def)
  have "ucast (?w mod 80) = (of_nat c :: u8)" "ucast (?w div 80) = (of_nat r :: u8)"
    using assms(3,4) by (simp_all add: word_unat_eq_iff unsigned_ucast_eq unat_mod unat_div w unat_of_nat take_bit_eq_mod)
  then show ?thesis using assms(1) by (simp add: read_cursor_def crtc_regs Let_def)
qed

lemma write_cursor_pos:
  assumes "sim_bus b" "r < 25" "c < 80"
  shows "\<exists>m h l. write_cursor \<lparr>cur_col = of_nat c, cur_row = of_nat r\<rparr> b =
      Some (set_mem m (set_cga ((cga (devs_of b))\<lparr>reg_idx := 0xf, idx_regs := (idx_regs (cga (devs_of b)))(0xe := h, 0xf := l)\<rparr>) b)) \<and>
    unat (push_bit 8 (ucast h) OR ucast l :: u16) = r * 80 + c \<and>
    (\<forall>x. unat x \<noteq> 0x450 \<and> unat x \<noteq> 0x451 \<longrightarrow> mem_bytes m x = mem_bytes (mem (sys b)) x)"
proof -
  let ?v = "cursor_v \<lparr>cur_col = of_nat c, cur_row = of_nat r\<rparr>" and ?p = "of_nat (r * 80 + c) :: u16"
  let ?b = "set_cga ((cga (devs_of b))\<lparr>reg_idx := 0xf, idx_regs := (idx_regs (cga (devs_of b)))(0xe := ucast (drop_bit 8 ?p), 0xf := ucast ?p)\<rparr>) b"
  have u: "unat (of_nat 0x450 :: u32) = 0x450" by simp
  have "mem_write16 (mem (sys b)) (of_nat 0x450) ?v \<noteq> None" unfolding mem16.wr_ok u by (simp add: MEMORY_SIZE_def)
  then obtain m where m: "mem_write16 (mem (sys b)) (of_nat 0x450) ?v = Some m" by auto
  have "bda_writew (offsetof ''cursor_offsets'') ?v ?b = Some (set_mem m ?b)"
    using m by (simp add: bda_writew_def writew_def mwrite_def offsetof_fields get_phys_addr_def)
  moreover have "mem_bytes m x = mem_bytes (mem (sys b)) x" if "unat x \<noteq> 0x450" "unat x \<noteq> 0x451" for x
    using mem_write_bytes [OF m] store_bytes_apply [of "of_nat 0x450" "word_to_bytes 2 ?v"] that u by auto
  moreover have "ucast (of_nat r :: u8) * 80 + ucast (of_nat c :: u8) = ?p"
    using assms(2,3) by (simp add: word_unat_eq_iff unat_word_ariths unat_of_nat unsigned_ucast_eq take_bit_eq_mod)
  moreover have "push_bit 8 (ucast (ucast (drop_bit 8 w) :: u8)) OR ucast (ucast w :: u8) = w" for w :: u16
    by (rule bit_word_eqI) (auto simp: bit_simps)
  moreover have "unat ?p = r * 80 + c" using assms(2,3) by (simp add: unat_of_nat_small del: of_nat_split)
  ultimately show ?thesis using assms(1)
    by (intro exI [of _ m] exI [of _ "ucast (drop_bit 8 ?p)"] exI [of _ "ucast ?p"]) (simp add: write_cursor_def crtc_regs Let_def)
qed

section \<open>Printing a character\<close>

text \<open>
  The screen as cells and a position. A character replaces that of the cell at the position, which keeps its attribute;
  backspace erases the cell at the position and, except in column 0, goes back and erases that cell too; a line feed
  blanks the rest of the row and goes to the next one; leaving the last row scrolls.
\<close>

type_synonym console = "(nat \<Rightarrow> u16) \<times> nat"

definition wrap_screen :: "console \<Rightarrow> console" where
  "wrap_screen = (\<lambda>(f, p). if p = 2000 then (scrolled f, 1920) else (f, p))"

definition print_char :: "u8 \<Rightarrow> console \<Rightarrow> console" where
  "print_char ch = (\<lambda>(f, p).
     if ch = 0x0d then (f, p)
     else if ch = 0x08 then
       (let f = f(p := set_char 0x20 (f p))
        in if p mod 80 = 0 then (f, p) else (f(p - 1 := set_char 0x20 (f (p - 1))), p - 1))
     else if ch = 0x0a then
       wrap_screen (\<lambda>k. if p \<le> k \<and> k < (p div 80 + 1) * 80 then 0x0720 else f k, (p div 80 + 1) * 80)
     else wrap_screen (f(p := set_char ch (f p)), p + 1))"

text \<open>What printing leaves unchanged: everything but the frame buffer, the cursor word of the BIOS data area and the cursor of the adapter.\<close>

definition console_only :: "bios \<Rightarrow> bios \<Rightarrow> bool" where
  "console_only b b' \<longleftrightarrow> (\<exists>m i h l.
     b' = set_mem m (set_cga ((cga (devs_of b))\<lparr>reg_idx := i, idx_regs := (idx_regs (cga (devs_of b)))(0xe := h, 0xf := l)\<rparr>) b) \<and>
     (\<forall>x. (unat x < 0xb8000 \<or> 0xc0000 \<le> unat x) \<and> unat x \<noteq> 0x450 \<and> unat x \<noteq> 0x451 \<longrightarrow> mem_bytes m x = mem_bytes (mem (sys b)) x))"

lemma console_only_refl [simp]: "console_only b b"
  unfolding console_only_def
  by (rule exI [of _ "mem (sys b)"], rule exI [of _ "reg_idx (cga (devs_of b))"], rule exI [of _ "idx_regs (cga (devs_of b)) 0xe"],
      rule exI [of _ "idx_regs (cga (devs_of b)) 0xf"]) simp

lemma console_only_trans:
  assumes "console_only a b" "console_only b c"
  shows "console_only a c"
proof -
  obtain m i h l where b: "b = set_mem m (set_cga ((cga (devs_of a))\<lparr>reg_idx := i, idx_regs := (idx_regs (cga (devs_of a)))(0xe := h, 0xf := l)\<rparr>) a)"
      "\<forall>x. (unat x < 0xb8000 \<or> 0xc0000 \<le> unat x) \<and> unat x \<noteq> 0x450 \<and> unat x \<noteq> 0x451 \<longrightarrow> mem_bytes m x = mem_bytes (mem (sys a)) x"
    using assms(1) unfolding console_only_def by blast
  obtain m' i' h' l' where c: "c = set_mem m' (set_cga ((cga (devs_of b))\<lparr>reg_idx := i', idx_regs := (idx_regs (cga (devs_of b)))(0xe := h', 0xf := l')\<rparr>) b)"
      "\<forall>x. (unat x < 0xb8000 \<or> 0xc0000 \<le> unat x) \<and> unat x \<noteq> 0x450 \<and> unat x \<noteq> 0x451 \<longrightarrow> mem_bytes m' x = mem_bytes (mem (sys b)) x"
    using assms(2) unfolding console_only_def by blast
  show ?thesis unfolding console_only_def
    by (rule exI [of _ m'], rule exI [of _ i'], rule exI [of _ h'], rule exI [of _ l'])
      (use b(2) c(2) in \<open>auto simp: c(1) b(1) fun_upd_twist\<close>)
qed

lemma screen_only_console: "screen_only b b' \<Longrightarrow> console_only b b'"
  unfolding screen_only_def console_only_def
  by (elim exE, rule_tac x = m in exI, rule exI [of _ "reg_idx (cga (devs_of b))"], rule exI [of _ "idx_regs (cga (devs_of b)) 0xe"],
      rule exI [of _ "idx_regs (cga (devs_of b)) 0xf"]) auto

lemma console_only_bus: "console_only b b' \<Longrightarrow> sim_bus b' = sim_bus b \<and> serial_stdio b' = serial_stdio b \<and> video_mode_active b' = video_mode_active b"
  by (auto simp: console_only_def)

lemma screen_only_pos: "screen_only b b' \<Longrightarrow> cursor_pos b' = cursor_pos b \<and> sim_bus b' = sim_bus b"
  by (auto simp: screen_only_def)

definition end_char :: "cursor \<Rightarrow> bios \<Rightarrow> bios option" where
  "end_char c b = do {
     (c, b) \<leftarrow> (if cur_row c \<ge> 25 then do {
        b \<leftarrow> scroll_up_one b;
        Some (c\<lparr>cur_row := 24\<rparr>, b)
      } else Some (c, b));
     write_cursor c b
   }"

lemma write_cursor_screen:
  assumes "sim_bus b" "r < 25" "c < 80"
  shows "\<exists>b'. write_cursor \<lparr>cur_col = of_nat c, cur_row = of_nat r\<rparr> b = Some b' \<and> (screen b', cursor_pos b') = (screen b, r * 80 + c) \<and> console_only b b'"
proof -
  obtain m h l where w: "write_cursor \<lparr>cur_col = of_nat c, cur_row = of_nat r\<rparr> b =
      Some (set_mem m (set_cga ((cga (devs_of b))\<lparr>reg_idx := 0xf, idx_regs := (idx_regs (cga (devs_of b)))(0xe := h, 0xf := l)\<rparr>) b))"
    "unat (push_bit 8 (ucast h) OR ucast l :: u16) = r * 80 + c"
    "\<forall>x. unat x \<noteq> 0x450 \<and> unat x \<noteq> 0x451 \<longrightarrow> mem_bytes m x = mem_bytes (mem (sys b)) x"
    using write_cursor_pos [OF assms] by blast
  let ?c = "set_cga ((cga (devs_of b))\<lparr>reg_idx := 0xf, idx_regs := (idx_regs (cga (devs_of b)))(0xe := h, 0xf := l)\<rparr>) b"
  have "screen (set_mem m ?c) = screen ?c" by (rule screen_cong) (use w(3) in auto)
  moreover have "cursor_pos (set_mem m ?c) = r * 80 + c" using w(2) by (simp add: cursor_pos_def)
  moreover have "console_only b (set_mem m ?c)" unfolding console_only_def using w(3)
    by (intro exI [of _ m] exI [of _ 15] exI [of _ h] exI [of _ l]) simp
  ultimately show ?thesis using w(1) by simp
qed

lemma end_char_screen:
  assumes "sim_bus b" "r < 25 \<and> c < 80 \<or> r = 25 \<and> c = 0"
  shows "\<exists>b'. end_char \<lparr>cur_col = of_nat c, cur_row = of_nat r\<rparr> b = Some b' \<and>
    (screen b', cursor_pos b') = wrap_screen (screen b, r * 80 + c) \<and> console_only b b'"
proof (cases "r = 25")
  case True
  obtain b1 where b1: "scroll_up_one b = Some b1" "screen_only b b1" "screen b1 = scrolled (screen b)" using scroll_up_one_screen by blast
  have c: "c = 0" and bus: "sim_bus b1" using assms True screen_only_pos [OF b1(2)] by auto
  obtain b2 where "write_cursor \<lparr>cur_col = of_nat c, cur_row = of_nat 24\<rparr> b1 = Some b2" "(screen b2, cursor_pos b2) = (screen b1, 24 * 80 + c)"
      "console_only b1 b2"
    using write_cursor_screen [OF bus, of 24 c] c by auto
  then show ?thesis using b1 True c console_only_trans [OF screen_only_console [OF b1(2)]]
    by (auto simp: end_char_def wrap_screen_def)
next
  case False
  then have r: "r < 25" "c < 80" "\<not> (25 :: u8) \<le> of_nat r" using assms(2) by (auto simp: word_le_nat_alt unat_of_nat_u8)
  moreover have "r * 80 + c \<noteq> 2000" using r(1,2) by linarith
  ultimately show ?thesis using write_cursor_screen [OF assms(1) r(1,2)] by (auto simp: end_char_def wrap_screen_def)
qed

lemma u8_col: "c < 80 \<Longrightarrow> (of_nat c + 1 :: u8) = of_nat (Suc c)" "(of_nat (Suc c) - 1 :: u8) = of_nat c"
    "c < 80 \<Longrightarrow> (0 :: u8) < of_nat (Suc c)" "c < 80 \<Longrightarrow> (ucast (of_nat c :: u8) :: u16) = of_nat c" "c < 80 \<Longrightarrow> unat (of_nat c :: u8) = c"
    "c < 80 \<Longrightarrow> (of_nat (Suc c) = (80 :: u8)) = (Suc c = 80)"
proof -
  show "c < 80 \<Longrightarrow> (0 :: u8) < of_nat (Suc c)" by (simp add: word_less_nat_alt unat_of_nat_u8 del: of_nat_split)
  show "c < 80 \<Longrightarrow> (ucast (of_nat c :: u8) :: u16) = of_nat c" by (simp add: word_unat_eq_iff unat_of_nat unsigned_ucast_eq take_bit_eq_mod)
  show "c < 80 \<Longrightarrow> (of_nat (Suc c) = (80 :: u8)) = (Suc c = 80)" by (simp add: word_unat_eq_iff unat_of_nat_u8 del: of_nat_split)
qed (simp_all add: unat_of_nat_u8)

lemma backspace_screen:
  assumes "r < 25" "c < 80" "p = r * 80 + c"
  shows "\<exists>b' c'. do_backspace \<lparr>cur_col = of_nat (Suc c), cur_row = of_nat r\<rparr> b = Some (\<lparr>cur_col = of_nat c', cur_row = of_nat r\<rparr>, b') \<and>
    c' < 80 \<and> screen_only b b' \<and> (screen b', r * 80 + c') = print_char 0x08 (screen b, p)"
proof -
  have k: "r * 80 + c < 16384" "r < 256" using assms by auto
  obtain b1 where b1: "writeb frame_buffer_segment (of_nat (0x8000 + 2 * (r * 80 + c))) 0x20 b = Some b1"
      "screen b1 = (screen b)(p := set_char 0x20 (screen b p))" "screen_only b b1"
    using writeb_cell [OF k(1)] assms(3) by blast
  show ?thesis
  proof (cases c)
    case 0
    then have "do_backspace \<lparr>cur_col = of_nat (Suc c), cur_row = of_nat r\<rparr> b = Some (\<lparr>cur_col = of_nat c, cur_row = of_nat r\<rparr>, b1)"
      using b1(1) by (simp add: do_backspace_def numeral_2_eq_2 cell_offset_eq [OF k(2), of 0, simplified])
    then show ?thesis using b1 0 assms by (intro exI [of _ b1] exI [of _ 0]) (auto simp: print_char_def Let_def)
  next
    case (Suc d)
    have k2: "r * 80 + d < 16384" "d < 80" using Suc k(1) assms(2) by auto
    obtain b2 where b2: "writeb frame_buffer_segment (of_nat (0x8000 + 2 * (r * 80 + d))) 0x20 b1 = Some b2"
        "screen b2 = (screen b1)(r * 80 + d := set_char 0x20 (screen b1 (r * 80 + d)))" "screen_only b1 b2"
      using writeb_cell [OF k2(1)] by blast
    have two: "backspaces 2 = backspaces (Suc (Suc 0))" by (simp only: numeral_2_eq_2)
    have "0 < (of_nat (Suc (Suc d)) :: u8)" "0 < (of_nat (Suc d) :: u8)" using u8_col(3) [of c] u8_col(3) [of d] assms(2) Suc by simp_all
    moreover note cell_offset_eq [OF k(2), of c, unfolded Suc] cell_offset_eq [OF k(2), of d]
      u8_col(4) [OF assms(2), unfolded Suc] u8_col(4) [OF k2(2)]
    ultimately have "do_backspace \<lparr>cur_col = of_nat (Suc c), cur_row = of_nat r\<rparr> b = Some (\<lparr>cur_col = of_nat d, cur_row = of_nat r\<rparr>, b2)"
      unfolding Suc do_backspace_def two backspaces.simps using b1(1) b2(1)
      by (simp only: u8_col(2) cursor.simps Let_def if_True Suc Option.bind.bind_lunit cursor.update_convs)
    moreover have "p mod 80 \<noteq> 0" "p - 1 = r * 80 + d" using assms Suc by simp_all
    ultimately show ?thesis using b1(2,3) b2(2,3) k2(2)
      by (intro exI [of _ b2] exI [of _ d]) (auto simp: print_char_def Let_def intro: screen_only_trans)
  qed
qed

lemma set_char_twice [simp]: "set_char x (set_char y w) = set_char x w"
  by (rule bit_word_eqI) (auto simp: set_char_def bit_simps mask_literals dest: bit_imp_le_length)

text \<open>Up to the scrolling and the update of the cursor.\<close>

lemma emit_char_end:
  assumes "sim_bus b" "cursor_pos b = r * 80 + c" "r < 25" "c < 80" "ch \<noteq> 0x0d"
    and b1: "writeb frame_buffer_segment (of_nat (0x8000 + 2 * (r * 80 + c))) ch (set_cga ((cga (devs_of b))\<lparr>reg_idx := 0xf\<rparr>) b) = Some b1"
      "screen b1 = (screen b)(r * 80 + c := set_char ch (screen b (r * 80 + c)))"
  shows "\<exists>b2 r' c'. emit_char ch b = end_char \<lparr>cur_col = of_nat c', cur_row = of_nat r'\<rparr> b2 \<and> (r' < 25 \<and> c' < 80 \<or> r' = 25 \<and> c' = 0) \<and>
    screen_only b1 b2 \<and> wrap_screen (screen b2, r' * 80 + c') = print_char ch (screen b, r * 80 + c)"
proof -
  let ?p = "r * 80 + c"
  let ?Q = "\<lambda>b2 r' c'. emit_char ch b = end_char \<lparr>cur_col = of_nat c', cur_row = of_nat r'\<rparr> b2 \<and> (r' < 25 \<and> c' < 80 \<or> r' = 25 \<and> c' = 0) \<and>
    screen_only b1 b2 \<and> wrap_screen (screen b2, r' * 80 + c') = print_char ch (screen b, ?p)"
  have k: "r < 256" using assms(3) by simp
  note start = read_cursor_pos [OF assms(1-4)] cell_offset_eq [OF k] u8_col(1) [OF assms(4)] u8_col(4) [OF assms(4)] b1(1)
  have row: "(of_nat (Suc r) :: u8) = of_nat r + 1" by simp
  consider "ch = 0x08" | "ch = 0x0a" | "ch \<noteq> 0x08" "ch \<noteq> 0x0a" by blast
  then show ?thesis
  proof cases
    case 1
    obtain b2 c' where b2: "do_backspace \<lparr>cur_col = of_nat (Suc c), cur_row = of_nat r\<rparr> b1 = Some (\<lparr>cur_col = of_nat c', cur_row = of_nat r\<rparr>, b2)"
        "c' < 80" "screen_only b1 b2" "(screen b2, r * 80 + c') = print_char 0x08 (screen b1, ?p)"
      using backspace_screen [OF assms(3,4) refl] by blast
    have "of_nat c' \<noteq> (80 :: u8)" using b2(2) by (simp add: word_unat_eq_iff unat_of_nat_u8)
    then have "emit_char ch b = end_char \<lparr>cur_col = of_nat c', cur_row = of_nat r\<rparr> b2"
      using 1 start b2(1) by (simp add: emit_char_def end_char_def Let_def del: of_nat_split)
    moreover have "r * 80 + c' \<noteq> 2000" using assms(3) b2(2) by linarith
    then have "wrap_screen (screen b2, r * 80 + c') = (screen b2, r * 80 + c')" by (simp add: wrap_screen_def)
    moreover have "print_char 0x08 (screen b1, ?p) = print_char ch (screen b, ?p)" unfolding b1(2) 1 by (simp add: print_char_def Let_def)
    ultimately have "?Q b2 r c'" using b2(2-4) assms(3) by simp
    then show ?thesis by blast
  next
    case 2
    obtain b2 where b2: "blank_cells (of_nat r) [c..<80] b1 = Some b2" "screen_only b1 b2"
        "screen b2 = (\<lambda>k. if r * 80 + c \<le> k \<and> k < r * 80 + 80 then 0x0720 else screen b1 k)"
      using blank_cells_screen [of r c b1] assms(3,4) by auto
    have "emit_char ch b = end_char \<lparr>cur_col = of_nat 0, cur_row = of_nat (Suc r)\<rparr> b2"
      unfolding row using 2 start b2(1) u8_col(2) [of c] u8_col(5) [OF assms(4)] by (simp add: emit_char_def end_char_def Let_def del: upt_rec_numeral)
    moreover have "print_char ch (screen b, ?p) = wrap_screen (screen b2, Suc r * 80 + 0)"
    proof -
      have "?p div 80 = r" using assms(4) by simp
      moreover have "screen b2 = (\<lambda>k. if ?p \<le> k \<and> k < (r + 1) * 80 then 0x0720 else screen b k)"
        using assms(4) by (auto simp: b2(3) b1(2) fun_eq_iff)
      ultimately show ?thesis unfolding print_char_def 2 by simp
    qed
    ultimately have "?Q b2 (Suc r) 0" using b2(2) assms(3) by auto
    then show ?thesis by blast
  next
    case 3
    have pr: "print_char ch (screen b, ?p) = wrap_screen (screen b1, ?p + 1)" using 3 assms(5) by (simp add: print_char_def b1(2))
    show ?thesis
    proof (cases "Suc c = 80")
      case True
      then have "of_nat (Suc c) = (80 :: u8)" using u8_col(6) [OF assms(4)] by simp
      then have "emit_char ch b = end_char \<lparr>cur_col = of_nat 0, cur_row = of_nat (Suc r)\<rparr> b1"
        unfolding row using 3 assms(5) start by (simp add: emit_char_def end_char_def Let_def del: of_nat_split)
      moreover have "?p + 1 = Suc r * 80 + 0" "Suc r < 25 \<or> Suc r = 25" using True assms(3) by auto
      ultimately have "?Q b1 (Suc r) 0" unfolding pr by simp
      then show ?thesis by blast
    next
      case False
      then have "of_nat c \<noteq> (79 :: u8)" using assms(4) by (simp add: word_unat_eq_iff unat_of_nat_u8)
      then have "emit_char ch b = end_char \<lparr>cur_col = of_nat (Suc c), cur_row = of_nat r\<rparr> b1"
        using False 3 assms(5) start u8_col(6) [OF assms(4)] by (simp add: emit_char_def end_char_def Let_def del: of_nat_split)
      moreover have "?p + 1 = r * 80 + Suc c" "Suc c < 80" using False assms(4) by auto
      ultimately have "?Q b1 r (Suc c)" unfolding pr using assms(3) by simp
      then show ?thesis by blast
    qed
  qed
qed

lemma emit_char_screen:
  assumes "sim_bus b" "cursor_pos b < 2000" "ch \<noteq> 0x0d"
  shows "\<exists>b'. emit_char ch b = Some b' \<and> (screen b', cursor_pos b') = print_char ch (screen b, cursor_pos b) \<and> console_only b b'"
proof -
  define r c where "r = cursor_pos b div 80" and "c = cursor_pos b mod 80"
  have p: "cursor_pos b = r * 80 + c" "r < 25" "c < 80" using assms(2) by (auto simp: r_def c_def)
  let ?b = "set_cga ((cga (devs_of b))\<lparr>reg_idx := 0xf\<rparr>) b" and ?p = "r * 80 + c"
  have b0: "console_only b ?b" unfolding console_only_def
    by (rule exI [of _ "mem (sys b)"], rule exI [of _ 15], rule exI [of _ "idx_regs (cga (devs_of b)) 0xe"],
      rule exI [of _ "idx_regs (cga (devs_of b)) 0xf"]) simp
  have k: "?p < 16384" "r < 256" using p by auto
  obtain b1 where b1: "writeb frame_buffer_segment (of_nat (0x8000 + 2 * ?p)) ch ?b = Some b1"
      "screen b1 = (screen b)(?p := set_char ch (screen b ?p))" "screen_only ?b b1"
    using writeb_cell [OF k(1), of ch ?b] by auto
  have bus: "sim_bus b1" using screen_only_pos [OF b1(3)] assms(1) by simp
  obtain b2 r' c' where b2: "emit_char ch b = end_char \<lparr>cur_col = of_nat c', cur_row = of_nat r'\<rparr> b2"
      "r' < 25 \<and> c' < 80 \<or> r' = 25 \<and> c' = 0" "screen_only b1 b2" "wrap_screen (screen b2, r' * 80 + c') = print_char ch (screen b, ?p)"
    using emit_char_end [OF assms(1) p assms(3) b1(1,2)] by blast
  have "sim_bus b2" using bus screen_only_pos [OF b2(3)] by simp
  from end_char_screen [OF this b2(2)] obtain b3 where b3: "end_char \<lparr>cur_col = of_nat c', cur_row = of_nat r'\<rparr> b2 = Some b3"
      "(screen b3, cursor_pos b3) = wrap_screen (screen b2, r' * 80 + c')" "console_only b2 b3" by blast
  have "console_only b b3"
    using console_only_trans [OF b0 console_only_trans [OF screen_only_console [OF screen_only_trans [OF b1(3) b2(3)]] b3(3)]] .
  then show ?thesis using b2(1,4) b3(1,2) p(1) by (intro exI [of _ b3]) auto
qed

lemma print_char_pos: "p < 2000 \<Longrightarrow> snd (print_char ch (f, p)) < 2000"
proof -
  assume "p < 2000"
  then have "p div 80 < 25" by auto
  then show ?thesis using \<open>p < 2000\<close> by (auto simp: print_char_def wrap_screen_def Let_def)
qed

lemma putchar_screen:
  assumes "sim_bus b" "cursor_pos b < 2000" "\<not> serial_stdio b" "\<not> video_mode_active b"
  shows "\<exists>b'. putchar ch b = Some b' \<and> (screen b', cursor_pos b') = print_char ch (screen b, cursor_pos b) \<and> console_only b b'"
proof (cases "ch = 0x0d")
  case True
  then show ?thesis using assms by (auto simp: putchar_def putchar_once_def in_video_mode_def video_putchar_def print_char_def)
next
  case False
  from emit_char_screen [OF assms(1,2) this] obtain b' where b': "emit_char ch b = Some b'"
      "(screen b', cursor_pos b') = print_char ch (screen b, cursor_pos b)" "console_only b b'" by blast
  then show ?thesis using assms(3,4) False console_only_bus [OF b'(3)]
    by (auto simp: putchar_def putchar_once_def in_video_mode_def video_putchar_def)
qed

lemma putstr_screen:
  assumes "sim_bus b" "cursor_pos b < 2000" "\<not> serial_stdio b" "\<not> video_mode_active b"
  shows "\<exists>b'. putstr cs b = Some b' \<and> (screen b', cursor_pos b') = fold print_char cs (screen b, cursor_pos b) \<and> cursor_pos b' < 2000 \<and> console_only b b'"
  using assms
proof (induction cs arbitrary: b)
  case (Cons ch cs)
  obtain b1 where b1: "putchar ch b = Some b1" "(screen b1, cursor_pos b1) = print_char ch (screen b, cursor_pos b)" "console_only b b1"
    using putchar_screen [OF Cons.prems] by blast
  have "cursor_pos b1 < 2000" using print_char_pos [OF Cons.prems(2), of ch "screen b"] b1(2) [symmetric] by simp
  then obtain b2 where "putstr cs b1 = Some b2" "(screen b2, cursor_pos b2) = fold print_char cs (screen b1, cursor_pos b1)" "cursor_pos b2 < 2000"
      "console_only b1 b2"
    using Cons.IH [of b1] Cons.prems console_only_bus [OF b1(3)] by blast
  then show ?case using b1 console_only_trans [OF b1(3)] by auto
qed simp

text \<open>
  C32. Printing a string on the console of the simulated machine, in text mode and without the serial console, is printing its
  characters one by one on a screen of 25 rows and 80 columns: it returns, the frame buffer and the cursor of the adapter are those of
  the abstract screen after all characters, whatever they are, the cursor stays on the screen, and nothing else of the machine changes but
  the cursor word of the BIOS data area and the index register of the adapter.
\<close>

theorem console_output:
  assumes "sim_bus b" "cursor_pos b < 2000" "\<not> serial_stdio b" "\<not> video_mode_active b"
  shows "\<exists>b'. putstr cs b = Some b' \<and> (screen b', cursor_pos b') = fold print_char cs (screen b, cursor_pos b) \<and> cursor_pos b' < 2000 \<and> console_only b b'"
  by (rule putstr_screen [OF assms])

lemma demo_bios_cursor: "cursor_pos (demo_bios img) = 0"
  by (simp add: cursor_pos_def demo_bios_def demo_devices_def devices_new_def CGA_new_def Let_def split: prod.splits)

theorem console_output_witness:
  "\<exists>b'. putstr [0x48, 0x69, 0x0a, 0x21] (demo_bios []) = Some b' \<and> cursor_pos b' = 81 \<and>
     screen b' 1 = set_char 0x69 (screen (demo_bios []) 1) \<and> screen b' 2 = 0x0720 \<and> screen b' 80 = set_char 0x21 (screen (demo_bios []) 80)"
proof -
  have "\<not> serial_stdio (demo_bios [])" "\<not> video_mode_active (demo_bios [])" by (simp_all add: demo_bios_def)
  from console_output [OF demo_bios_bus _ this, of "[0x48, 0x69, 0x0a, 0x21]"] demo_bios_cursor obtain b' where
    b': "putstr [0x48, 0x69, 0x0a, 0x21] (demo_bios []) = Some b'"
      "(screen b', cursor_pos b') = fold print_char [0x48, 0x69, 0x0a, 0x21] (screen (demo_bios []), 0)" by auto
  then have "screen b' = fst (fold print_char [0x48, 0x69, 0x0a, 0x21] (screen (demo_bios []), 0))"
    "cursor_pos b' = snd (fold print_char [0x48, 0x69, 0x0a, 0x21] (screen (demo_bios []), 0))" by (metis fst_conv, metis snd_conv)
  then show ?thesis using b'(1) by (simp add: print_char_def wrap_screen_def Let_def)
qed

section \<open>What is seen\<close>

text \<open>The cursor of the adapter at a position of the screen.\<close>

definition text_cursor :: "CGA \<Rightarrow> nat \<Rightarrow> Cursor" where
  "text_cursor c p = \<lparr>row_top = p div 80 * 8 + unat (idx_regs c 0xa AND 0xf), row_bottom = p div 80 * 8 + unat (idx_regs c 0xb AND 0xf),
     col_left = p mod 80 * 8, col_right = p mod 80 * 8 + 8, cursor_enabled = (idx_regs c 0xa AND 0x30 \<noteq> 0x10)\<rparr>"

lemma get_cursor_console: "console_only b b' \<Longrightarrow> get_cursor (cga (devs_of b')) = text_cursor (cga (devs_of b)) (cursor_pos b')"
  by (auto simp: console_only_def get_cursor_def text_cursor_def cursor_pos_def CURSOR_HIGH_def CURSOR_LOW_def CURSOR_SCAN_START_def
      CURSOR_SCAN_END_def Let_def)

lemma console_only_cga:
  "console_only b b' \<Longrightarrow> display (cga (devs_of b')) = display (cga (devs_of b)) \<and>
     CGA_is_graphics (cga (devs_of b')) = CGA_is_graphics (cga (devs_of b)) \<and> is_graphics_256 (cga (devs_of b')) = is_graphics_256 (cga (devs_of b))"
  by (auto simp: console_only_def CGA_is_graphics_def is_graphics_256_def)

lemma screen_word_screen: "r < 25 \<Longrightarrow> c < 80 \<Longrightarrow> screen_word (mem (sys b)) r c = screen b (r * 80 + c)"
  using read_screen_word [of r c "mem (sys b)"] cell_bound [of r c]
  by (simp add: screen_def buffer_phys_def algebra_simps)

text \<open>
  C7. What the firmware prints is what is seen: with the adapter in a text mode, printing a string and then drawing the screen returns, and
  each point of the window has the colour that the font, the attribute and the cursor give to the cell of the abstract screen, after
  the string, the point lies in.
\<close>

theorem console_shown:
  assumes "sim_bus b" "cursor_pos b < 2000" "\<not> serial_stdio b" "\<not> video_mode_active b"
    and "num_rows (display (cga (devs_of b))) = 25" "num_cols (display (cga (devs_of b))) = 80"
    and "\<not> CGA_is_graphics (cga (devs_of b))" "\<not> is_graphics_256 (cga (devs_of b))"
    and "fold print_char cs (screen b, cursor_pos b) = (f, p)"
  shows "\<exists>b' c'. putstr cs b = Some b' \<and> CGA_update (cga (devs_of b')) (mem (sys b')) = Some c' \<and>
    (\<forall>px py. px < 640 \<and> py < 200 \<longrightarrow> window (display c') (px, py) =
      cell_color (font_bitmap (display (cga (devs_of b)))) (text_cursor (cga (devs_of b)) p) (f (py div 8 * 80 + px div 8)) px py)"
proof -
  obtain b' where b': "putstr cs b = Some b'" "screen b' = f" "cursor_pos b' = p" "console_only b b'"
    using putstr_screen [OF assms(1-4), of cs] assms(9) by auto
  obtain c' where c': "CGA_update (cga (devs_of b')) (mem (sys b')) = Some c'"
      "\<forall>px py. px < 640 \<and> py < 200 \<longrightarrow> window (display c') (px, py) =
        cell_color (font_bitmap (display (cga (devs_of b)))) (text_cursor (cga (devs_of b)) p) (screen_word (mem (sys b')) (py div 8) (px div 8)) px py"
    using update_text_window [of "cga (devs_of b')" "mem (sys b')"] console_only_cga [OF b'(4)] assms(5-8)
    unfolding get_cursor_console [OF b'(4)] b'(3) by auto
  have "screen_word (mem (sys b')) (py div 8) (px div 8) = f (py div 8 * 80 + px div 8)" if "px < 640" "py < 200" for px py
    using that screen_word_screen [of "py div 8" "px div 8" b'] b'(2) by (simp add: less_mult_imp_div_less)
  then show ?thesis using b'(1) c' by (intro exI [of _ b'] exI [of _ c']) simp
qed

theorem console_shown_witness:
  "\<exists>b' c'. putstr [0x48] (demo_bios []) = Some b' \<and> CGA_update (cga (devs_of b')) (mem (sys b')) = Some c' \<and>
     window (display c') (3, 5) = cell_color (font_bitmap (display (cga (devs_of (demo_bios []))))) (text_cursor (cga (devs_of (demo_bios []))) 1)
       (set_char 0x48 (screen (demo_bios []) 0)) 3 5"
proof -
  have "\<not> serial_stdio (demo_bios [])" "\<not> video_mode_active (demo_bios [])" by (simp_all add: demo_bios_def)
  moreover have "num_rows (display (cga (devs_of (demo_bios [])))) = 25" "num_cols (display (cga (devs_of (demo_bios [])))) = 80"
      "\<not> CGA_is_graphics (cga (devs_of (demo_bios [])))" "\<not> is_graphics_256 (cga (devs_of (demo_bios [])))"
    by (simp_all add: demo_bios_def demo_devices_def devices_new_def CGA_new_def Display_new_def set_graphics_palette_def CGA_is_graphics_def
        is_graphics_256_def Let_def split: prod.splits)
  moreover have "fold print_char [0x48] (screen (demo_bios []), cursor_pos (demo_bios [])) =
      ((screen (demo_bios []))(0 := set_char 0x48 (screen (demo_bios []) 0)), 1)"
    by (simp add: demo_bios_cursor print_char_def wrap_screen_def)
  ultimately obtain b' c' where "putstr [0x48] (demo_bios []) = Some b'" "CGA_update (cga (devs_of b')) (mem (sys b')) = Some c'"
    "\<forall>px py. px < 640 \<and> py < 200 \<longrightarrow> window (display c') (px, py) =
      cell_color (font_bitmap (display (cga (devs_of (demo_bios []))))) (text_cursor (cga (devs_of (demo_bios []))) 1)
        (((screen (demo_bios []))(0 := set_char 0x48 (screen (demo_bios []) 0))) (py div 8 * 80 + px div 8)) px py"
    using console_shown [OF demo_bios_bus, of "[]" "[0x48]"] demo_bios_cursor by auto
  then show ?thesis by (intro exI [of _ b'] exI [of _ c']) simp
qed

end
