(* ===== verification/BiosBoot.thy ===== *)
theory BiosBoot
  imports BiosConsole
begin

text \<open>
  Booting from the simulated card: the initialisation of the card and the loading of the boot sector, the last two calls of
  \<open>root\<close>.
\<close>

section \<open>The answers of the card\<close>

text \<open>What the card answers to a command that moves no block.\<close>

definition response :: "u8 \<Rightarrow> u8 list" where
  "response c = (if c = 0x69 then [0x00] else if c = 0x7a then [0x01, 0x00, 0x00, 0x00, 0x00] else [0x01])"

lemma response_transfers:
  assumes "ready s" "c \<in> {0x40, 0x48, 0x50, 0x69, 0x77, 0x7a}" "length as = 4"
  shows "\<exists>s'. transfers s (0xff # c # as @ crc # replicate (length (response c) + 2 + j) 0xff) =
      Some (replicate 8 0xff @ response c @ replicate (Suc j) 0xff, s') \<and> ready s' \<and> disk_image s' = disk_image s"
proof -
  obtain s0 where 0: "transfers s (replicate 1 0xff) = Some (replicate 1 0xff, s0)" "ready s0" "disk_image s0 = disk_image s"
    using idle_bytes [OF assms(1)] by blast
  define s1 where "s1 = s0\<lparr>do_write := False, spi_state := STATE_RECEIVING, mosi_buf := [c], rx_val := 0xff\<rparr>"
  have 1: "transfers s0 [c] = Some ([0xff], s1)"
    using 0(2) assms(2) by (auto simp: ready_def write_data_port transfer_def s1_def Let_def)
  define s2 where "s2 = s1\<lparr>mosi_buf := c # as @ [crc]\<rparr>"
  have c: "c \<in> {0x40, 0x48, 0x50, 0x51, 0x58, 0x69, 0x77, 0x7a}" using assms(2) by blast
  have 2: "transfers s1 (as @ [crc]) = Some (replicate 5 0xff, s2)"
    using receive_bytes [of s1 c "[]" "as @ [crc]"] c assms(3) by (simp add: s1_def s2_def)
  define s3 where "s3 = s2\<lparr>mosi_buf := c # as @ [crc, 0xff], miso_buf := response c, spi_state := STATE_TRANSMITTING, rx_val := 0xff\<rparr>"
  have "transmit_ready (s2\<lparr>mosi_buf := c # as @ [crc, 0xff]\<rparr>) =
      Some (True, s2\<lparr>mosi_buf := c # as @ [crc, 0xff], miso_buf := response c\<rparr>)"
    using assms(2,3) by (auto simp: transmit_ready_def response_def Let_def)
  then have 3: "transfers s2 [0xff] = Some ([0xff], s3)"
    by (simp add: write_data_port transfer_def s3_def s2_def s1_def Let_def)
  define s4 where "s4 = s3\<lparr>miso_buf := [], rx_val := last (response c)\<rparr>"
  have ne: "response c \<noteq> []" by (simp add: response_def)
  have 4: "transfers s3 (replicate (length (response c)) 0xff) = Some (response c, s4)"
    using transmit_bytes [of s3 "replicate (length (response c)) 0xff"] ne by (simp add: s3_def s4_def)
  define s5 where "s5 = s4\<lparr>rx_val := 0xff, spi_state := SPI_STATE_IDLE, mosi_buf := []\<rparr>"
  have 5: "transfers s4 (replicate 1 0xff) = Some (replicate 1 0xff, s5)"
    by (simp add: write_data_port transfer_def s5_def s4_def s3_def s2_def s1_def)
  have "ready s5" "disk_image s5 = disk_image s"
    using 0(2,3) by (simp_all add: ready_def s5_def s4_def s3_def s2_def s1_def)
  then obtain s6 where 6: "transfers s5 (replicate j 0xff) = Some (replicate j 0xff, s6)" "ready s6" "disk_image s6 = disk_image s"
    using idle_bytes [of s5 j] by auto
  have "transfers s (replicate 1 0xff @ [c] @ (as @ [crc]) @ [0xff] @ replicate (length (response c)) 0xff @ replicate 1 0xff @ replicate j 0xff) =
      Some (replicate 1 0xff @ [0xff] @ replicate 5 0xff @ [0xff] @ response c @ replicate 1 0xff @ replicate j 0xff, s6)"
    unfolding transfers_append [of _ "replicate 1 0xff"] transfers_append [of _ "[c]"] transfers_append [of _ "as @ [crc]"]
      transfers_append [of _ "[0xff]"] transfers_append [of _ "replicate (length (response c)) 0xff"] 0(1) 1 2 3 4 5 6(1) Option.bind.bind_lunit prod.case ..
  moreover have "replicate 1 0xff @ [c] @ (as @ [crc]) @ [0xff] @ replicate (length (response c)) 0xff @ replicate 1 0xff @ replicate j 0xff =
      0xff # c # as @ crc # replicate (length (response c) + 2 + j) 0xff"
    by (simp add: replicate_add replicate_app_Cons_same)
  moreover have "replicate 1 0xff @ [0xff] @ replicate 5 0xff @ [0xff] @ r @ replicate 1 0xff @ replicate j 0xff =
      replicate 8 0xff @ r @ replicate (Suc j) (0xff :: u8)" for r
    by (simp add: numeral_eq_Suc)
  ultimately show ?thesis using 6(2,3) by auto
qed

section \<open>Initialising the card\<close>

text \<open>The driver changes the card's registers, its own buffer and the type of the card only.\<close>

definition card_only :: "bios \<Rightarrow> bios \<Rightarrow> bool" where
  "card_only b b' \<longleftrightarrow> (\<exists>s buf h. b' = set_spi s (b\<lparr>spi_xfer_buf := buf, sd_is_sdhc := h\<rparr>) \<and> disk_image s = disk_image (spi_of b))"

lemma card_only_trans: "card_only a b \<Longrightarrow> card_only b c \<Longrightarrow> card_only a c"
proof -
  assume "card_only a b"
  then obtain s buf h where b: "b = set_spi s (a\<lparr>spi_xfer_buf := buf, sd_is_sdhc := h\<rparr>)" "disk_image s = disk_image (spi_of a)"
    unfolding card_only_def by blast
  assume "card_only b c"
  then obtain s' buf' h' where "c = set_spi s' (b\<lparr>spi_xfer_buf := buf', sd_is_sdhc := h'\<rparr>)" "disk_image s' = disk_image (spi_of b)"
    unfolding card_only_def by blast
  then show "card_only a c" using b unfolding card_only_def by (intro exI [of _ s'] exI [of _ buf'] exI [of _ h']) simp
qed

lemma card_only_frame: "card_only b b' \<Longrightarrow> mem (sys b') = mem (sys b) \<and> regs (sys b') = regs (sys b) \<and> text_state b' = text_state b \<and> image_of b' = image_of b"
  by (auto simp: card_only_def text_state_def image_of_def)

text \<open>The card is idle, whether or not the driver has selected it.\<close>

definition card_ready :: "bios \<Rightarrow> bool" where
  "card_ready b \<longleftrightarrow> sim_bus b \<and> ready ((spi_of b)\<lparr>control_reg := 1\<rparr>) \<and> length (spi_xfer_buf b) = XFER_BUF_SIZE"

lemma command_response:
  assumes "card_ready b" "c \<in> {0x40, 0x48, 0x50, 0x69, 0x77, 0x7a}" "length as = 4" "n \<le> 5" "length (response c) = n"
  shows "\<exists>b' vs. spi_do_command \<lparr>sc_cmd = c, sc_arg = as, sc_crc = crc, sc_rx_datalen = n\<rparr> b = Some b' \<and> card_ready b' \<and> card_only b b' \<and>
    sd_is_sdhc b' = sd_is_sdhc b \<and> spi_xfer_buf b' = response c @ vs"
proof -
  let ?cmd = "\<lparr>sc_cmd = c, sc_arg = as, sc_crc = crc, sc_rx_datalen = n\<rparr>" and ?s = "(spi_of b)\<lparr>control_reg := 1\<rparr>"
  have len: "spi_command_len ?cmd = n + 15" "length (spi_xfer_buf b) = 1280"
    using assms(1) by (simp_all add: spi_command_len_def SD_NCR_def card_ready_def XFER_BUF_SIZE_def)
  obtain s' where s': "transfers ?s (0xff # c # as @ crc # replicate (n + 2 + 14) 0xff) = Some (replicate 8 0xff @ response c @ replicate (Suc 14) 0xff, s')"
      "ready s'" "disk_image s' = disk_image (spi_of b)"
    using response_transfers [of ?s c as crc 14] assms by (auto simp: card_ready_def)
  define ns where "ns = response c @ replicate 15 (0xff :: u8)"
  have rep: "replicate (n + 2 + 14) (0xff :: u8) = replicate (n + 15 - 7) 0xff @ replicate 8 0xff"
    unfolding replicate_add [symmetric] by simp
  let ?b = "set_spi s' (b\<lparr>spi_xfer_buf := ns @ drop (n + 15) (spi_xfer_buf b)\<rparr>)"
  have "spi_do_command ?cmd b = Some ?b"
  proof (rule spi_do_command_transfers)
    show "ns = dropWhile (\<lambda>c. c = 0xff) (replicate 8 0xff @ ns)" by (auto simp: dropWhile_append ns_def response_def)
    show "transfers ?s (0xff # sc_cmd ?cmd # sc_arg ?cmd @ sc_crc ?cmd # replicate (n + 15 - 7) 0xff @ replicate 8 0xff) = Some (replicate 8 0xff @ ns, s')"
      using s'(1) unfolding rep ns_def by (simp only: spi_cmd.simps) (simp add: numeral_eq_Suc del: transfers.simps)
  qed (use assms len in \<open>simp_all add: card_ready_def ns_def\<close>)
  moreover have "card_ready ?b"
    using assms(1,4,5) s'(2) len by (auto simp: card_ready_def ready_def ns_def XFER_BUF_SIZE_def)
  moreover have "card_only b ?b" using s'(3) unfolding card_only_def
    by (intro exI [of _ s'] exI [of _ "ns @ drop (n + 15) (spi_xfer_buf b)"] exI [of _ "sd_is_sdhc b"]) simp
  ultimately show ?thesis by (intro exI [of _ ?b] exI [of _ "replicate 15 0xff @ drop (n + 15) (spi_xfer_buf b)"]) (simp add: ns_def)
qed

text \<open>Clocking the card with ff, without waiting for an answer.\<close>

lemma spi_xfer_loop_clock:
  assumes "card_ready b" "src < len" "\<forall>i < len. spi_xfer_buf b ! i = 0xff" "len \<le> 1280"
  shows "\<exists>b'. spi_xfer_loop len False src 0 False b = Some b' \<and> card_ready b' \<and> card_only b b'"
  using assms
proof (induction "len - src" arbitrary: src b)
  case (Suc n)
  let ?s = "(spi_of b)\<lparr>do_write := False, rx_val := 0xff\<rparr>"
  have bus: "sim_bus b" "length (spi_xfer_buf b) = 1280" "spi_state (spi_of b) = SPI_STATE_IDLE"
    using Suc.prems(1) by (simp_all add: card_ready_def ready_def XFER_BUF_SIZE_def)
  have tr: "transfer (spi_of b) 0xff = Some ?s" using bus(3) by (simp add: transfer_def Let_def)
  let ?b = "set_spi ?s b"
  have uc: "ucast (- 1 :: u16) = (0xff :: u8)" by (rule bit_word_eqI) (auto simp: bit_simps mask_literals)
  have step: "spi_xfer_loop len False src 0 False b = (if Suc src = len then Some ?b else spi_xfer_loop len False (Suc src) 0 False ?b)"
    using Suc.prems(2-4) bus tr uc
    by (subst spi_xfer_loop.simps) (auto simp: spi_xfer_buf_get_def outw_transfer spi_wait_idle_sim inw_transfer Let_def)
  have ready: "card_ready ?b" "card_only b ?b"
    using Suc.prems(1) unfolding card_only_def
    by (simp add: card_ready_def ready_def, intro exI [of _ ?s] exI [of _ "spi_xfer_buf b"] exI [of _ "sd_is_sdhc b"]) simp
  show ?case
  proof (cases "Suc src = len")
    case False
    have "\<exists>b'. spi_xfer_loop len False (Suc src) 0 False ?b = Some b' \<and> card_ready b' \<and> card_only ?b b'"
      using Suc.hyps(2) Suc.prems(2-4) ready(1) False by (intro Suc.hyps(1)) auto
    then show ?thesis unfolding step using False card_only_trans [OF ready(2)] by auto
  qed (use step ready in simp)
qed simp

lemma buf_fill_start:
  assumes "card_ready b" "n \<le> 1280"
  shows "\<exists>b'. buf_fill [0..<n] v b = Some b' \<and> card_ready b' \<and> card_only b b' \<and> (\<forall>i < n. spi_xfer_buf b' ! i = v)"
proof -
  let ?b = "b\<lparr>spi_xfer_buf := replicate n v @ drop n (spi_xfer_buf b)\<rparr>"
  have len: "length (spi_xfer_buf b) = 1280" using assms(1) by (simp add: card_ready_def XFER_BUF_SIZE_def)
  have "buf_fill [0..<n] v b = Some ?b" using assms(2) len by (simp add: buf_fill_copy buf_copy_eq)
  moreover have "card_ready ?b" using assms len by (simp add: card_ready_def XFER_BUF_SIZE_def)
  moreover have "card_only b ?b" unfolding card_only_def
    by (intro exI [of _ "spi_of b"] exI [of _ "replicate n v @ drop n (spi_xfer_buf b)"] exI [of _ "sd_is_sdhc b"]) simp
  ultimately show ?thesis by (auto simp: nth_append)
qed

lemma sd_clock:
  assumes "card_ready b" "8 \<le> n" "n \<le> 1280"
  shows "\<exists>b'. do { b \<leftarrow> buf_fill [0..<n] 0xff b; b \<leftarrow> outw SPI_CONTROL_PORT v b; spi_xfer 8 False b } = Some b' \<and> card_ready b' \<and> card_only b b'"
proof -
  obtain b1 where b1: "buf_fill [0..<n] 0xff b = Some b1" "card_ready b1" "card_only b b1" "\<forall>i < n. spi_xfer_buf b1 ! i = 0xff"
    using buf_fill_start [OF assms(1,3)] by blast
  let ?b2 = "set_spi ((spi_of b1)\<lparr>control_reg := v\<rparr>) b1"
  have o: "outw SPI_CONTROL_PORT v b1 = Some ?b2" using b1(2) by (intro outw_control) (simp add: card_ready_def)
  have ff: "\<forall>i < 8. spi_xfer_buf ?b2 ! i = 0xff" using b1(4) assms(2) by auto
  have 2: "card_ready ?b2" "card_only b1 ?b2"
    using b1(2) unfolding card_only_def
    by (simp add: card_ready_def ready_def, intro exI [of _ "(spi_of b1)\<lparr>control_reg := v\<rparr>"] exI [of _ "spi_xfer_buf b1"] exI [of _ "sd_is_sdhc b1"]) simp_all
  obtain b3 where "spi_xfer_loop 8 False 0 0 False ?b2 = Some b3" "card_ready b3" "card_only ?b2 b3"
    using spi_xfer_loop_clock [OF 2(1) _ ff, of 0] by auto
  then show ?thesis using b1(1) o card_only_trans [OF card_only_trans [OF b1(3) 2(2)]] by (auto simp: spi_xfer_def)
qed

lemma simple_command_card:
  assumes "card_ready b" "c \<in> {0x40, 0x48, 0x50, 0x77}" "length as = 4"
  shows "\<exists>b'. simple_command c as crc b = Some (0, b') \<and> card_ready b' \<and> card_only b b' \<and> sd_is_sdhc b' = sd_is_sdhc b"
proof -
  have c: "c \<in> {0x40, 0x48, 0x50, 0x69, 0x77, 0x7a}" "length (response c) = 1" "response c = [0x01]" using assms(2) by (auto simp: response_def)
  obtain b' vs where b': "spi_do_command \<lparr>sc_cmd = c, sc_arg = as, sc_crc = crc, sc_rx_datalen = 1\<rparr> b = Some b'" "card_ready b'" "card_only b b'"
      "sd_is_sdhc b' = sd_is_sdhc b" "spi_xfer_buf b' = 0x01 # vs"
    using command_response [OF assms(1) c(1) assms(3) _ c(2), of crc] c(3) by auto
  then show ?thesis using find_r1_first [OF b'(5)] by (simp add: simple_command_def r1_result_def R1_ERROR_MASK_def)
qed

lemma sd_read_ocr_card:
  assumes "card_ready b"
  shows "\<exists>b'. sd_send_read_ocr b = Some (0, b') \<and> card_ready b' \<and> card_only b b' \<and> \<not> sd_is_sdhc b'"
proof -
  have r: "response 0x7a = [0x01, 0x00, 0x00, 0x00, 0x00]" by (simp add: response_def)
  obtain b' vs where b': "spi_do_command \<lparr>sc_cmd = 0x7a, sc_arg = [0, 0, 0, 0], sc_crc = 0, sc_rx_datalen = 5\<rparr> b = Some b'" "card_ready b'" "card_only b b'"
      "spi_xfer_buf b' = 0x01 # 0 # 0 # 0 # 0 # vs"
    using command_response [OF assms, of "0x7a" "[0, 0, 0, 0]" 5 0] r by auto
  let ?b = "b'\<lparr>sd_is_sdhc := False\<rparr>"
  have "sd_send_read_ocr b = Some (0, ?b)"
    using b'(1,4) find_r1_first [OF b'(4)] by (simp add: sd_send_read_ocr_def spi_xfer_buf_get_def R1_ERROR_MASK_def Let_def)
  moreover have "card_only b' ?b" unfolding card_only_def by (intro exI [of _ "spi_of b'"] exI [of _ "spi_xfer_buf b'"] exI [of _ False]) simp
  moreover have "card_ready ?b" using b'(2) by (simp add: card_ready_def sim_bus_def)
  ultimately show ?thesis using card_only_trans [OF b'(3)] by auto
qed

lemma sd_wait_ready_card:
  assumes "card_ready b"
  shows "\<exists>b'. sd_wait_ready b = Some (0, b') \<and> card_ready b' \<and> card_only b b'"
proof -
  obtain b1 where b1: "send_acmd b = Some (0, b1)" "card_ready b1" "card_only b b1"
    using simple_command_card [OF assms, of "0x77" "[0, 0, 0, 0]" 0] by (auto simp: send_acmd_def)
  obtain b2 vs where b2: "spi_do_command \<lparr>sc_cmd = 0x69, sc_arg = [0x40, 0, 0, 0], sc_crc = 0, sc_rx_datalen = 1\<rparr> b1 = Some b2" "card_ready b2" "card_only b1 b2"
      "spi_xfer_buf b2 = 0x00 # vs"
    using command_response [OF b1(2), of "0x69" "[0x40, 0, 0, 0]" 1 0] by (auto simp: response_def)
  have "sd_wait_ready b = Some (0, b2)"
    using b1(1) b2(1) find_r1_first [OF b2(4)] by (subst sd_wait_ready.simps) simp
  then show ?thesis using b2(2) card_only_trans [OF b1(3) b2(3)] by blast
qed

section \<open>Booting\<close>

lemma card_idle_ready: "card_idle b \<longleftrightarrow> card_ready b \<and> \<not> sd_is_sdhc b"
  by (auto simp: card_idle_def card_ready_def)

text \<open>The firmware can print on the screen.\<close>

definition text_ready :: "bios \<Rightarrow> bool" where
  "text_ready b \<longleftrightarrow> cursor_pos b < 2000 \<and> \<not> serial_stdio b \<and> \<not> video_mode_active b"

lemma text_ready_state: "text_state b' = text_state b \<Longrightarrow> text_ready b' = text_ready b"
  by (simp add: text_state_def text_ready_def cursor_pos_def)

lemma putstr_idle:
  assumes "card_idle b" "text_ready b"
  shows "\<exists>b'. putstr cs b = Some b' \<and> card_idle b' \<and> text_ready b' \<and> image_of b' = image_of b \<and> regs (sys b') = regs (sys b) \<and>
    (\<forall>x. (unat x < 0xb8000 \<or> 0xc0000 \<le> unat x) \<and> unat x \<noteq> 0x450 \<and> unat x \<noteq> 0x451 \<longrightarrow> mem_bytes (mem (sys b')) x = mem_bytes (mem (sys b)) x)"
proof -
  obtain b' where b': "putstr cs b = Some b'" "cursor_pos b' < 2000" "console_only b b'"
    using putstr_screen [of b cs] assms by (auto simp: card_idle_def text_ready_def)
  from b'(3) have "card_idle b' \<and> image_of b' = image_of b \<and> regs (sys b') = regs (sys b) \<and>
      (\<forall>x. (unat x < 0xb8000 \<or> 0xc0000 \<le> unat x) \<and> unat x \<noteq> 0x450 \<and> unat x \<noteq> 0x451 \<longrightarrow> mem_bytes (mem (sys b')) x = mem_bytes (mem (sys b)) x)"
    using assms(1) unfolding console_only_def by (auto simp: card_idle_def image_of_def)
  then show ?thesis using b' assms(2) console_only_bus [OF b'(3)] by (auto simp: text_ready_def)
qed

lemma sd_init_card:
  assumes "card_ready b" "text_ready b"
  shows "\<exists>b'. sd_init b = Some b' \<and> card_idle b' \<and> text_ready b' \<and> image_of b' = image_of b \<and>
    (\<forall>x. (unat x < 0xb8000 \<or> 0xc0000 \<le> unat x) \<and> unat x \<noteq> 0x450 \<and> unat x \<noteq> 0x451 \<longrightarrow> mem_bytes (mem (sys b')) x = mem_bytes (mem (sys b)) x)"
proof -
  obtain b1 where b1: "sd_send_initial_clock b = Some b1" "card_ready b1" "card_only b b1"
    using sd_clock [OF assms(1), of 8] by (auto simp: sd_send_initial_clock_def)
  obtain b2 where b2: "sd_flush_fifo b1 = Some b2" "card_ready b2" "card_only b1 b2"
    using sd_clock [OF b1(2), of 128] by (auto simp: sd_flush_fifo_def)
  obtain b3 where b3: "sd_send_reset b2 = Some (0, b3)" "card_ready b3" "card_only b2 b3"
    using simple_command_card [OF b2(2), of "0x40" "[0, 0, 0, 0]" "0x95"] by (auto simp: sd_send_reset_def)
  obtain b4 where b4: "sd_send_if_cond b3 = Some (0, b4)" "card_ready b4" "card_only b3 b4"
    using simple_command_card [OF b3(2), of "0x48" "[0, 0, 1, 0xaa]" "0x87"] by (auto simp: sd_send_if_cond_def)
  obtain b5 where b5: "sd_send_read_ocr b4 = Some (0, b5)" "card_ready b5" "card_only b4 b5" using sd_read_ocr_card [OF b4(2)] by blast
  obtain b6 where b6: "sd_wait_ready b5 = Some (0, b6)" "card_ready b6" "card_only b5 b6" using sd_wait_ready_card [OF b5(2)] by blast
  obtain b7 where b7: "sd_send_read_ocr b6 = Some (0, b7)" "card_ready b7" "card_only b6 b7" "\<not> sd_is_sdhc b7"
    using sd_read_ocr_card [OF b6(2)] by blast
  obtain b8 where b8: "sd_set_blocklen b7 = Some (0, b8)" "card_ready b8" "card_only b7 b8" "sd_is_sdhc b8 = sd_is_sdhc b7"
    using simple_command_card [OF b7(2), of "0x50" "[0, 0, 2, 0]" 0] by (auto simp: sd_set_blocklen_def)
  have "card_only b b8" using b1(3) b2(3) b3(3) b4(3) b5(3) b6(3) b7(3) b8(3) by (meson card_only_trans)
  note f = card_only_frame [OF this]
  have "card_idle b8" "text_ready b8" using b8(2,4) b7(4) f assms(2) text_ready_state [of b8 b] by (simp_all add: card_idle_ready)
  from putstr_idle [OF this, of "c_str ''SD card ready'' @ [0x0a]"] f
  obtain b9 where "putstr (c_str ''SD card ready'' @ [0x0a]) b8 = Some b9" "card_idle b9" "text_ready b9" "image_of b9 = image_of b"
      "\<forall>x. (unat x < 0xb8000 \<or> 0xc0000 \<le> unat x) \<and> unat x \<noteq> 0x450 \<and> unat x \<noteq> 0x451 \<longrightarrow> mem_bytes (mem (sys b9)) x = mem_bytes (mem (sys b)) x"
    by auto
  moreover from this(1) have "sd_init b = Some b9"
    unfolding sd_init_def using b1(1) b2(1) b3(1) b4(1) b5(1) b6(1) b7(1) b8(1) by simp
  ultimately show ?thesis by blast
qed

lemma boot_addr: "i < 512 \<Longrightarrow> string_addr 0 0x7c00 i = of_nat (0x7c00 + i)"
proof -
  assume i: "i < 512"
  have s: "(0x7c00 + of_nat i :: u16) = of_nat (0x7c00 + i)" by simp
  have u: "unat (ucast (of_nat (0x7c00 + i) :: u16) :: u32) = 0x7c00 + i"
    using i by (simp add: unsigned_ucast_eq unat_of_nat_small take_bit_eq_mod del: of_nat_split)
  then have "unat (get_phys_addr 0 (ucast (of_nat (0x7c00 + i) :: u16))) = 0x7c00 + i"
    using i by (subst get_phys_addr_wrap) (simp_all add: MEMORY_SIZE_def del: of_nat_split)
  then show ?thesis using i unfolding string_addr_def s by (simp add: word_unat_eq_iff unat_of_nat_small del: of_nat_split)
qed

text \<open>
  With the card idle (in particular as constructed), the driver's buffer of its size and a screen to print on, \<open>sd_init\<close> and
  \<open>sd_boot\<close> return; the processor then continues at 0000:7c00 with drive 80h in DL, the first sector of the image is at 7c00h,
  and of the rest of the memory only the frame buffer and the cursor word of the BIOS data area may have changed.
\<close>

lemma sd_init_boot:
  assumes "card_ready b" "text_ready b" "512 \<le> length (image_of b)"
  shows "\<exists>b'. (sd_init b \<bind> sd_boot) = Some b' \<and> rget (sys b') CS = 0 \<and> rget (sys b') IP = 0x7c00 \<and> rget (sys b') DL = 0x80 \<and>
    (\<forall>i < 512. mem_bytes (mem (sys b')) (of_nat (0x7c00 + i)) = image_of b ! i) \<and>
    (\<forall>x. (unat x < 0x7c00 \<or> 0x7e00 \<le> unat x) \<and> (unat x < 0xb8000 \<or> 0xc0000 \<le> unat x) \<and> unat x \<noteq> 0x450 \<and> unat x \<noteq> 0x451 \<longrightarrow>
      mem_bytes (mem (sys b')) x = mem_bytes (mem (sys b)) x)"
proof -
  obtain b1 where b1: "sd_init b = Some b1" "card_idle b1" "text_ready b1" "image_of b1 = image_of b"
      "\<forall>x. (unat x < 0xb8000 \<or> 0xc0000 \<le> unat x) \<and> unat x \<noteq> 0x450 \<and> unat x \<noteq> 0x451 \<longrightarrow> mem_bytes (mem (sys b1)) x = mem_bytes (mem (sys b)) x"
    using sd_init_card [OF assms(1,2)] by blast
  let ?d = "take 512 (image_of b)"
  obtain b2 where b2: "read_sector 0 0 0x7c00 b1 = Some (0, b2)" "card_idle b2" "text_state b2 = text_state b1"
      "mem_bytes (mem (sys b2)) = store_seg (mem_bytes (mem (sys b1))) 0 0x7c00 ?d"
    using read_sector_card [OF b1(2), of 0 0] assms(3) b1(4) by auto
  have "text_ready b2" using text_ready_state [OF b2(3)] b1(3) by simp
  from putstr_idle [OF b2(2) this] obtain b3 where b3: "putstr (c_str ''Booting from SD card...'' @ [0x0a]) b2 = Some b3"
      "\<forall>x. (unat x < 0xb8000 \<or> 0xc0000 \<le> unat x) \<and> unat x \<noteq> 0x450 \<and> unat x \<noteq> 0x451 \<longrightarrow> mem_bytes (mem (sys b3)) x = mem_bytes (mem (sys b2)) x"
    by blast
  let ?b = "b3\<lparr>sys := rset (rset (rset (sys b3) DL 0x80) CS 0) IP 0x7c00\<rparr>"
  have len: "length ?d = 512" using assms(3) by simp
  have "(sd_init b \<bind> sd_boot) = Some ?b" using b1(1) b2(1) b3(1) by (simp add: sd_boot_def)
  moreover have "rget (sys ?b) CS = 0" "rget (sys ?b) IP = 0x7c00" "rget (sys ?b) DL = 0x80"
    by (simp_all add: reg_get_set_byte_wide reg_get_set_wide_byte)
  moreover have "mem_bytes (mem (sys ?b)) (of_nat (0x7c00 + i)) = image_of b ! i" if "i < 512" for i
    using that b3(2) [rule_format, of "of_nat (0x7c00 + i)"] store_seg_at [of i ?d "mem_bytes (mem (sys b1))" 0 "0x7c00"] len
    unfolding boot_addr [OF that] by (simp add: b2(4) unat_of_nat_small del: of_nat_split)
  moreover have "mem_bytes (mem (sys ?b)) x = mem_bytes (mem (sys b)) x"
    if "unat x < 0x7c00 \<or> 0x7e00 \<le> unat x" "(unat x < 0xb8000 \<or> 0xc0000 \<le> unat x) \<and> unat x \<noteq> 0x450 \<and> unat x \<noteq> 0x451" for x
  proof -
    have "\<forall>i < length ?d. x \<noteq> string_addr 0 0x7c00 i"
      using that(1) len by (auto simp: boot_addr unat_of_nat_small simp del: of_nat_split)
    then show ?thesis using that(2) b3(2) b1(5) store_seg_other [of ?d x 0 "0x7c00"] by (simp add: b2(4))
  qed
  ultimately show ?thesis by (intro exI [of _ ?b]) blast
qed

end
