(* ===== verification/BiosFormat.thy ===== *)
theory BiosFormat
  imports BiosConsole
begin

text \<open>The formatter of \<open>printk.c\<close> against a description of formats as lists of items and of what each item prints.\<close>

section \<open>What the formatter prints\<close>

text \<open>
  A format as a list of items. A number has a base, the zero flag and a width; its digits are those of the positional system, most
  significant first, and the zero flag fills up to the width.
\<close>

datatype fmt_item = FmtChar u8 | FmtStr | FmtNum nat bool nat | FmtPtr | FmtC

definition digit_char :: "nat \<Rightarrow> u8" where
  "digit_char d = of_nat (if d < 10 then 0x30 + d else 0x57 + d)"

fun digit_count :: "nat \<Rightarrow> nat \<Rightarrow> nat" where
  "digit_count base v = (if base < 2 \<or> v < base then 1 else Suc (digit_count base (v div base)))"

declare digit_count.simps [simp del]

definition number :: "nat \<Rightarrow> nat \<Rightarrow> u8 list" where
  "number base v = map (\<lambda>i. digit_char (v div base ^ i mod base)) (rev [0..<digit_count base v])"

definition padded :: "nat \<Rightarrow> bool \<Rightarrow> nat \<Rightarrow> nat \<Rightarrow> u8 list" where
  "padded base zero wd v = (if zero then replicate (wd - digit_count base v) 0x30 else []) @ number base v"

definition fmt_bytes :: "fmt_item \<Rightarrow> u8 list" where
  "fmt_bytes i = (case i of
     FmtChar c \<Rightarrow> [c] | FmtStr \<Rightarrow> c_str ''%s'' | FmtPtr \<Rightarrow> c_str ''%p'' | FmtC \<Rightarrow> c_str ''%c''
   | FmtNum base zero wd \<Rightarrow> c_str ''%'' @ (if zero then [0x30] else []) @ (if wd = 0 then [] else number 10 wd) @
       c_str (if base = 16 then ''x'' else ''u''))"

definition fmt_ok :: "fmt_item \<Rightarrow> bool" where
  "fmt_ok i = (case i of FmtChar c \<Rightarrow> c \<noteq> 0 \<and> c \<noteq> of_char CHR ''%'' | FmtNum base _ _ \<Rightarrow> base = 10 \<or> base = 16 | _ \<Rightarrow> True)"

fun render :: "fmt_item list \<Rightarrow> va_item list \<Rightarrow> u8 list option" where
  "render [] ap = Some []"
| "render (FmtChar c # is) ap = map_option ((@) [c]) (render is ap)"
| "render (FmtStr # is) (VaStr s # ap) = map_option ((@) s) (render is ap)"
| "render (FmtNum base zero wd # is) (VaInt v # ap) = map_option ((@) (padded base zero wd (unat v))) (render is ap)"
| "render (FmtPtr # is) (VaInt v # ap) =
     map_option ((@) (if v = 0 then c_str ''(null)'' else c_str ''0x'' @ padded 16 True 4 (unat v))) (render is ap)"
| "render (FmtC # is) (VaInt v # ap) = map_option ((@) [ucast v]) (render is ap)"
| "render _ _ = None"

section \<open>Characters and numbers\<close>

definition buf_ok :: "string_formatter \<Rightarrow> bool" where
  "buf_ok f \<longleftrightarrow> fmaxlen f \<noteq> 0 \<and> flen f = of_nat (length (fbuf f)) \<and> length (fbuf f) < unat (fmaxlen f)"

definition emit :: "string_formatter \<Rightarrow> u8 list \<Rightarrow> string_formatter" where
  "emit f s = (let s = take (unat (fmaxlen f) - 1) (fbuf f @ s) in f\<lparr>fbuf := s, flen := of_nat (length s)\<rparr>)"

lemma room: "buf_ok f \<Longrightarrow> flen f < fmaxlen f - 1 \<longleftrightarrow> length (fbuf f) < unat (fmaxlen f) - 1"
proof -
  assume f: "buf_ok f"
  have "unat (fmaxlen f - 1) = unat (fmaxlen f) - 1"
    using f by (simp add: buf_ok_def unat_minus_one)
  moreover have "unat (flen f) = length (fbuf f)"
  proof -
    have "unat (fmaxlen f) < 2 ^ LENGTH(16)" by (rule unsigned_less)
    then show ?thesis using f by (simp add: buf_ok_def unat_of_nat)
  qed
  ultimately show ?thesis by (simp add: word_less_nat_alt)
qed

lemma emit_ok [simp]: "buf_ok f \<Longrightarrow> buf_ok (emit f s)"
  by (auto simp: buf_ok_def emit_def Let_def min_def)

lemma emit_Nil: "buf_ok f \<Longrightarrow> emit f [] = f"
  by (auto simp: buf_ok_def emit_def Let_def)

lemma emit_emit: "emit (emit f s) t = emit f (s @ t)"
  by (auto simp: emit_def Let_def take_append min_def)

lemma output_char_emit: "buf_ok f \<Longrightarrow> output_char f c = emit f [c]"
  using room [of f] by (auto simp: output_char_def emit_def Let_def buf_ok_def min_def)

lemma output_chars: "buf_ok f \<Longrightarrow> foldl output_char f s = emit f s"
proof (induction s arbitrary: f)
  case (Cons c s)
  then show ?case using Cons.IH [of "emit f [c]"] by (simp add: output_char_emit emit_emit)
qed (simp add: emit_Nil)

lemma digits_number:
  assumes "1 < base"
  shows "digits base v = map (\<lambda>i. v div base ^ i mod base) [0..<digit_count base v]"
proof (induction v rule: less_induct)
  case (less v)
  show ?case
  proof (cases "v < base")
    case True
    then show ?thesis using assms by (simp add: digits.simps [of base v] digit_count.simps [of base v])
  next
    case False
    then have "v div base < v" "v div base \<noteq> 0" using assms by (auto simp: div_eq_0_iff)
    moreover have "map (\<lambda>i. v div base ^ i mod base) [Suc 0..<Suc n] = map (\<lambda>i. v div base div base ^ i mod base) [0..<n]" for n
      unfolding map_Suc_upt [symmetric] by (simp add: div_mult2_eq)
    ultimately show ?thesis using less [of "v div base"] assms False
      by (simp add: digits.simps [of base v] digit_count.simps [of base v] upt_conv_Cons del: upt_Suc)
  qed
qed

lemma digits_less: "1 < base \<Longrightarrow> d \<in> set (digits base v) \<Longrightarrow> d < base"
  by (auto simp: digits_number)

lemma hex_val_digit: "d < 16 \<Longrightarrow> hex_val ! d = digit_char d"
proof -
  have "\<forall>d \<in> {0..<16}. hex_val ! d = digit_char d" by (simp add: hex_val_def digit_char_def atLeast0_lessThan_Suc numeral_eq_Suc)
  then show "d < 16 \<Longrightarrow> hex_val ! d = digit_char d" by simp
qed

lemma output_buf_emit:
  assumes "buf_ok f" "1 < base" "base \<le> 16"
  shows "output_buf_reversed f (digits base v) = emit f (number base v)"
proof -
  have "map (\<lambda>d. hex_val ! d) (digits base v) = map digit_char (digits base v)"
    using assms(2,3) digits_less [of base _ v] hex_val_digit by (fastforce intro!: map_cong)
  then have "map (\<lambda>d. hex_val ! d) (rev (digits base v)) = number base v"
    using assms(2) by (simp add: number_def digits_number rev_map o_def)
  then show ?thesis
    using output_chars [OF assms(1), of "number base v"] by (simp add: output_buf_reversed_def foldl_map [symmetric])
qed

lemma length_number [simp]: "length (number base v) = digit_count base v"
  by (simp add: number_def)

lemma output_unsigned_emit:
  assumes "buf_ok f" "1 < base" "base \<le> 16" "fprecision f = int wd"
  shows "output_unsigned f v base = emit f (padded base (fzero_pad f) wd (unat v))"
proof -
  let ?n = "digit_count base (unat v)"
  have l: "length (digits base (unat v)) = ?n" using assms(2) by (simp add: digits_number)
  have nn: "nat (int wd - int ?n) = wd - ?n" by linarith
  have "output_zero_padding f (fprecision f - int ?n) = emit f (if fzero_pad f then replicate (wd - ?n) 0x30 else [])"
    using assms(1,4) by (auto simp: output_zero_padding_def output_chars emit_Nil nn)
  then show ?thesis
    using output_buf_emit [of "emit f (if fzero_pad f then replicate (wd - ?n) 0x30 else [])" base "unat v"] assms(1-3)
    by (auto simp: output_unsigned_def l padded_def emit_emit Let_def)
qed

section \<open>Specifiers\<close>

lemma digit_count_range: "0 < v \<Longrightarrow> 1 < base \<Longrightarrow> \<exists>k. digit_count base v = Suc k \<and> base ^ k \<le> v \<and> v < base ^ Suc k"
proof (induction v rule: less_induct)
  case (less v)
  show ?case
  proof (cases "v < base")
    case False
    then have "v div base < v" "0 < v div base" using less.prems by (auto simp: div_greater_zero_iff)
    then obtain k where "digit_count base (v div base) = Suc k" "base ^ k \<le> v div base" "v div base < base ^ Suc k"
      using less by blast
    then show ?thesis using False less.prems
      by (intro exI [of _ "Suc k"]) (simp add: digit_count.simps [of base v] less_eq_div_iff_mult_less_eq div_less_iff_less_mult mult.commute)
  qed (use less.prems in \<open>simp add: digit_count.simps [of base v]\<close>)
qed

lemma horner: "foldl (\<lambda>p d. p * 10 + int d) p (map (\<lambda>i. v div 10 ^ i mod 10) (rev [0..<n])) = p * 10 ^ n + int (v mod 10 ^ n)"
proof (induction n arbitrary: p)
  case (Suc n)
  have "v mod 10 ^ Suc n = 10 ^ n * (v div 10 ^ n mod 10) + v mod 10 ^ n" by (simp add: mod_mult2_eq mult.commute [of 10])
  then show ?case using Suc.IH by (simp add: algebra_simps)
qed simp

lemma digit_char_decimal: "d < 10 \<Longrightarrow> digit_char d \<ge> 0x30 \<and> digit_char d \<le> 0x39 \<and> uint (digit_char d) - 0x30 = int d"
proof -
  assume d: "d < 10"
  then have u: "unat (digit_char d) = 0x30 + d" by (simp add: digit_char_def unat_of_nat_u8 del: of_nat_split)
  have "uint (digit_char d) = int (unat (digit_char d))" by simp
  then show ?thesis using d u by (simp only: word_le_nat_alt) simp
qed

lemma precision_digits_append:
  assumes "\<forall>d \<in> set ds. d < 10" "\<not> (c \<ge> 0x30 \<and> c \<le> 0x39)"
  shows "precision_digits (map digit_char ds @ c # cs) p = (foldl (\<lambda>p d. p * 10 + int d) p ds, c # cs)"
  using assms(1)
proof (induction ds arbitrary: p)
  case (Cons d ds)
  then show ?case using digit_char_decimal [of d] by simp
qed (use assms(2) in auto)

lemma precision_number:
  assumes "0 < w" "\<not> (c \<ge> 0x30 \<and> c \<le> 0x39)"
  shows "precision_digits (number 10 w @ c # cs) 0 = (int w, c # cs)"
proof -
  let ?ds = "map (\<lambda>i. w div 10 ^ i mod 10) (rev [0..<digit_count 10 w])"
  have "number 10 w = map digit_char ?ds" by (simp add: number_def)
  moreover obtain k where "digit_count 10 w = Suc k" "w < 10 ^ Suc k" using digit_count_range [OF assms(1), of 10] by auto
  ultimately show ?thesis using precision_digits_append [of ?ds c cs 0] assms(2) horner [of 0 w "digit_count 10 w"] by (simp del: upt_Suc power_Suc)
qed

lemma number_first: "0 < w \<Longrightarrow> \<exists>c cs. number 10 w = c # cs \<and> c \<noteq> 0x30"
proof -
  assume "0 < w"
  then obtain k where k: "digit_count 10 w = Suc k" "10 ^ k \<le> w" "w < 10 ^ Suc k" using digit_count_range [of w 10] by auto
  then have "w div 10 ^ k < 10" "w div 10 ^ k \<noteq> 0" by (simp_all add: div_less_iff_less_mult mult.commute div_eq_0_iff)
  then have "digit_char (w div 10 ^ k mod 10) \<noteq> 0x30"
    using digit_char_decimal [of "w div 10 ^ k mod 10"] by auto
  then show ?thesis unfolding number_def k(1) by simp
qed

lemma parse_number:
  assumes "ffmt f = c_str ''%'' @ (if zero then [0x30] else []) @ (if wd = 0 then [] else number 10 wd) @ c # cs"
    "\<not> (c \<ge> 0x30 \<and> c \<le> 0x39)"
  shows "parse_specifier f = Some (f\<lparr>ffmt := c # cs, fzero_pad := zero, fprecision := int wd\<rparr>)"
proof -
  have "c \<noteq> 0x30" using assms(2) by auto
  moreover have "precision_digits ((if wd = 0 then [] else number 10 wd) @ c # cs) 0 = (int wd, c # cs)"
    using precision_number [of wd c cs] assms(2) by auto
  moreover obtain d ds where "wd \<noteq> 0 \<Longrightarrow> number 10 wd = d # ds \<and> d \<noteq> 0x30" using number_first [of wd] by blast
  ultimately show ?thesis using assms(1)
    by (cases "zero"; cases "wd = 0") (simp_all add: parse_specifier_def fmt_next_def read_zero_pad_def fmt_char_def read_precision_def c_str_def)
qed

section \<open>The loop\<close>

lemma output_item_number:
  assumes "buf_ok f" "ffmt f = c_str (if base = 16 then ''x'' else ''u'') @ cs" "base = 10 \<or> base = 16" "fprecision f = int wd"
  shows "output_item f (VaInt v # ap) = Some (emit f (padded base (fzero_pad f) wd (unat v))\<lparr>ffmt := cs\<rparr>, ap)"
  using assms output_unsigned_emit [OF assms(1) _ _ assms(4), of base v]
  by (auto simp: output_item_def fmt_char_def fmt_next_def c_str_def emit_def Let_def)

lemma emit_simps [simp]: "fmaxlen (emit f s) = fmaxlen f" "ffmt (emit f s) = ffmt f" "fbuf (emit f s) = take (unat (fmaxlen f) - 1) (fbuf f @ s)"
    "fprecision (emit f s) = fprecision f" "fzero_pad (emit f s) = fzero_pad f"
  by (simp_all add: emit_def Let_def)

lemma output_pointer_emit:
  assumes "buf_ok f"
  shows "output_pointer f v = emit (f\<lparr>fzero_pad := True, fprecision := 4\<rparr>)
    (if v = 0 then c_str ''(null)'' else c_str ''0x'' @ padded 16 True 4 (unat v))"
proof -
  let ?f = "f\<lparr>fprecision := 4, fzero_pad := True\<rparr>"
  have ok: "buf_ok ?f" and sw: "f\<lparr>fzero_pad := True, fprecision := 4\<rparr> = ?f" using assms by (simp_all add: buf_ok_def)
  have "output_unsigned (emit ?f (c_str ''0x'')) v 16 = emit (emit ?f (c_str ''0x'')) (padded 16 True 4 (unat v))"
    using output_unsigned_emit [of "emit ?f (c_str ''0x'')" 16 4 v] by (simp add: ok)
  then show ?thesis unfolding sw using output_chars [OF ok] by (simp add: output_pointer_def output_string_def emit_emit Let_def)
qed

text \<open>One item of the format.\<close>

lemma format_step:
  assumes "buf_ok f" "fmt_ok i" "ffmt f = fmt_bytes i @ cs" "render (i # is) ap = Some s" "flen f < fmaxlen f - 1"
  shows "\<exists>g s1 s2 ap'. format_loop f ap = format_loop g ap' \<and> buf_ok g \<and> fmaxlen g = fmaxlen f \<and> ffmt g = cs \<and>
    fbuf g = take (unat (fmaxlen f) - 1) (fbuf f @ s1) \<and> render is ap' = Some s2 \<and> s = s1 @ s2"
proof -
  let ?Q = "\<lambda>g s1 s2 ap'. format_loop f ap = format_loop g ap' \<and> buf_ok g \<and> fmaxlen g = fmaxlen f \<and> ffmt g = cs \<and>
    fbuf g = take (unat (fmaxlen f) - 1) (fbuf f @ s1) \<and> render is ap' = Some s2 \<and> s = s1 @ s2"
  have loop: "format_loop f ap = (parse_specifier f \<bind> (\<lambda>f. output_item f ap \<bind> (\<lambda>(f, ap). format_loop f ap)))"
    if "ffmt f = c_str ''%'' @ x" for x
    using that assms(5) by (subst format_loop.simps) (simp add: fmt_char_def c_str_def)
  have plain: "parse_specifier f = Some (f\<lparr>ffmt := c # cs, fzero_pad := False, fprecision := 0\<rparr>)"
    if "ffmt f = c_str ''%'' @ c # cs" "\<not> (c \<ge> 0x30 \<and> c \<le> 0x39)" for c
    using parse_number [of f False 0 c cs] that by simp
  have ok: "buf_ok (f\<lparr>ffmt := x, fzero_pad := z, fprecision := p\<rparr>)" for x z p using assms(1) by (simp add: buf_ok_def)
  show ?thesis
  proof (cases i)
    case (FmtChar c)
    then obtain s2 where s2: "render is ap = Some s2" "s = [c] @ s2" using assms(4) by auto
    have "format_loop f ap = format_loop (emit f [c]\<lparr>ffmt := cs\<rparr>) ap"
      using FmtChar assms(2,3,5) output_char_emit [OF assms(1), of c]
      by (subst format_loop.simps) (simp add: fmt_char_def fmt_next_def fmt_bytes_def fmt_ok_def)
    then have "?Q (emit f [c]\<lparr>ffmt := cs\<rparr>) [c] s2 ap" using s2 emit_ok [OF assms(1), of "[c]"] by (simp add: buf_ok_def)
    then show ?thesis by blast
  next
    case FmtStr
    then obtain t ap' s2 where t: "ap = VaStr t # ap'" "render is ap' = Some s2" "s = t @ s2"
      using assms(4) by (cases ap; cases "hd ap") auto
    let ?f = "f\<lparr>ffmt := of_char CHR ''s'' # cs, fzero_pad := False, fprecision := 0\<rparr>"
    have "format_loop f ap = format_loop (emit ?f t\<lparr>ffmt := cs\<rparr>) ap'"
      using loop [of "of_char CHR ''s'' # cs"] plain [of "of_char CHR ''s''"] FmtStr assms(3) output_chars [OF ok, where s = t]
      by (simp add: t(1) fmt_bytes_def c_str_def output_item_def fmt_char_def fmt_next_def output_string_def)
    then have "?Q (emit ?f t\<lparr>ffmt := cs\<rparr>) t s2 ap'" using t emit_ok [OF ok, where s = t] by (simp add: buf_ok_def)
    then show ?thesis by blast
  next
    case (FmtNum base zero wd)
    then obtain v ap' s2 where v: "ap = VaInt v # ap'" "render is ap' = Some s2" "s = padded base zero wd (unat v) @ s2"
      using assms(4) by (cases ap; cases "hd ap") auto
    let ?c = "of_char (if base = 16 then CHR ''x'' else CHR ''u'') :: u8" and ?t = "padded base zero wd (unat v)"
    let ?f = "f\<lparr>ffmt := ?c # cs, fzero_pad := zero, fprecision := int wd\<rparr>"
    have "parse_specifier f = Some ?f"
      using FmtNum assms(3) by (intro parse_number) (auto simp: fmt_bytes_def c_str_def)
    moreover have "output_item ?f (VaInt v # ap') = Some (emit ?f ?t\<lparr>ffmt := cs\<rparr>, ap')"
      using output_item_number [of ?f base cs wd v ap'] ok assms(2) FmtNum by (auto simp: fmt_ok_def c_str_def)
    ultimately have "format_loop f ap = format_loop (emit ?f ?t\<lparr>ffmt := cs\<rparr>) ap'"
      using loop FmtNum assms(3) by (simp add: v(1) fmt_bytes_def c_str_def)
    then have "?Q (emit ?f ?t\<lparr>ffmt := cs\<rparr>) ?t s2 ap'" using v emit_ok [OF ok, where s = ?t] by (simp add: buf_ok_def)
    then show ?thesis by blast
  next
    case FmtPtr
    then obtain v ap' s2 where v: "ap = VaInt v # ap'" "render is ap' = Some s2"
        "s = (if v = 0 then c_str ''(null)'' else c_str ''0x'' @ padded 16 True 4 (unat v)) @ s2"
      using assms(4) by (cases ap; cases "hd ap") auto
    let ?t = "if v = 0 then c_str ''(null)'' else c_str ''0x'' @ padded 16 True 4 (unat v)"
    let ?f = "f\<lparr>ffmt := of_char CHR ''p'' # cs, fzero_pad := True, fprecision := 4\<rparr>"
    have "output_pointer (f\<lparr>ffmt := of_char CHR ''p'' # cs, fzero_pad := False, fprecision := 0\<rparr>) v = emit ?f ?t"
      using output_pointer_emit [OF ok, of _ _ _ v] by simp
    then have "format_loop f ap = format_loop (emit ?f ?t\<lparr>ffmt := cs\<rparr>) ap'"
      using loop [of "of_char CHR ''p'' # cs"] plain [of "of_char CHR ''p''"] FmtPtr assms(3)
      by (simp add: v(1) fmt_bytes_def c_str_def output_item_def fmt_char_def fmt_next_def)
    then have "?Q (emit ?f ?t\<lparr>ffmt := cs\<rparr>) ?t s2 ap'" using v emit_ok [OF ok, where s = ?t] by (simp add: buf_ok_def)
    then show ?thesis by blast
  next
    case FmtC
    then obtain v ap' s2 where v: "ap = VaInt v # ap'" "render is ap' = Some s2" "s = [ucast v] @ s2"
      using assms(4) by (cases ap; cases "hd ap") auto
    let ?f = "f\<lparr>ffmt := of_char CHR ''c'' # cs, fzero_pad := False, fprecision := 0\<rparr>"
    have "format_loop f ap = format_loop (emit ?f [ucast v]\<lparr>ffmt := cs\<rparr>) ap'"
      using loop [of "of_char CHR ''c'' # cs"] plain [of "of_char CHR ''c''"] FmtC assms(3) output_char_emit [OF ok, where c = "ucast v"]
      by (simp add: v(1) fmt_bytes_def c_str_def output_item_def fmt_char_def fmt_next_def)
    then have "?Q (emit ?f [ucast v]\<lparr>ffmt := cs\<rparr>) [ucast v] s2 ap'" using v emit_ok [OF ok, where s = "[ucast v]"] by (simp add: buf_ok_def)
    then show ?thesis by blast
  qed
qed

lemma format_loop_renders:
  assumes "buf_ok f" "list_all fmt_ok is" "ffmt f = concat (map fmt_bytes is) @ [0]" "render is ap = Some s"
  shows "\<exists>g. format_loop f ap = Some g \<and> fbuf g = take (unat (fmaxlen f) - 1) (fbuf f @ s)"
  using assms
proof (induction "is" arbitrary: f ap s)
  case Nil
  then show ?case by (subst format_loop.simps) (auto simp: fmt_char_def buf_ok_def)
next
  case (Cons i "is")
  show ?case
  proof (cases "flen f < fmaxlen f - 1")
    case True
    obtain g s1 s2 ap' where g: "format_loop f ap = format_loop g ap'" "buf_ok g" "fmaxlen g = fmaxlen f"
        "ffmt g = concat (map fmt_bytes is) @ [0]" "fbuf g = take (unat (fmaxlen f) - 1) (fbuf f @ s1)" "render is ap' = Some s2" "s = s1 @ s2"
      using format_step [OF Cons.prems(1) _ _ Cons.prems(4) True, of "concat (map fmt_bytes is) @ [0]"] Cons.prems(2,3) by auto
    then obtain h where "format_loop g ap' = Some h" "fbuf h = take (unat (fmaxlen f) - 1) (fbuf g @ s2)"
      using Cons.IH [OF g(2) _ g(4,6)] Cons.prems(2) by auto
    then show ?thesis using g by (auto simp: min_def take_append)
  next
    case False
    then have "length (fbuf f) = unat (fmaxlen f) - 1" using room [OF Cons.prems(1)] Cons.prems(1) by (auto simp: buf_ok_def)
    then show ?thesis using False by (subst format_loop.simps) simp
  qed
qed

lemma string_format_items:
  assumes "list_all fmt_ok is" "render is ap = Some s" "n \<noteq> 0"
  shows "string_format n (concat (map fmt_bytes is) @ [0]) ap = Some (take (unat n - 1) s)"
proof -
  let ?f = "\<lparr>fbuf = [], flen = 0, fmaxlen = n, ffmt = concat (map fmt_bytes is) @ [0], fprecision = 0, fzero_pad = False\<rparr>"
  have "buf_ok ?f" using assms(3) by (simp add: buf_ok_def unat_gt_0)
  from format_loop_renders [OF this assms(1) _ assms(2)] show ?thesis by (auto simp: string_format_def)
qed



end
