(* ===== verification/BiosRoot.thy ===== *)
theory BiosRoot
  imports BiosBoot BiosFormat
begin

text \<open>
  The startup of the firmware as a whole: \<open>root\<close> of \<open>bios.c\<close> on the simulated machine, from the clearing of the memory to the jump to
  the boot sector.
\<close>

section \<open>What startup keeps\<close>

text \<open>Every step after the installation of the vectors leaves the vectors, the registers, the card and the driver's buffer alone.\<close>

definition keeps :: "bios \<Rightarrow> bios \<Rightarrow> bool" where
  "keeps b b' \<longleftrightarrow> sim_bus b' = sim_bus b \<and> regs (sys b') = regs (sys b) \<and> spi_of b' = spi_of b \<and> spi_xfer_buf b' = spi_xfer_buf b \<and>
     serial_stdio b' = serial_stdio b \<and> (\<forall>x. unat x < 0x400 \<longrightarrow> mem_bytes (mem (sys b')) x = mem_bytes (mem (sys b)) x)"

lemma keeps_refl [simp]: "keeps b b"
  by (simp add: keeps_def)

lemma keeps_trans: "keeps a b \<Longrightarrow> keeps b c \<Longrightarrow> keeps a c"
  by (simp add: keeps_def)

lemma keeps_mem: "\<forall>x. unat x < 0x400 \<longrightarrow> mem_bytes m x = mem_bytes (mem (sys b)) x \<Longrightarrow> keeps b (set_mem m b)"
  by (simp add: keeps_def)

lemma keeps_cga [simp]: "keeps b (set_cga c b)"
  by (simp add: keeps_def)

lemma console_only_keeps: "console_only b b' \<Longrightarrow> keeps b b' \<and> pic (devs_of b') = pic (devs_of b)"
  unfolding console_only_def keeps_def by auto

lemma screen_only_keeps: "screen_only b b' \<Longrightarrow> keeps b b' \<and> devs_of b' = devs_of b \<and> video_mode_active b' = video_mode_active b"
  unfolding screen_only_def keeps_def by auto

section \<open>Clearing memory\<close>

lemma memset_seg_mem: "\<exists>m. memset_seg seg dst v n b = Some (set_mem m b)"
  using memcpy_seg_to_eq [of seg dst "replicate n v" b] by (auto simp: memset_seg_def)

lemma scrub_segments_mem: "\<exists>m. scrub_segments segs b = Some (set_mem m b)"
proof (induction segs arbitrary: b)
  case Nil
  show ?case by (rule exI [of _ "mem (sys b)"]) simp
next
  case (Cons seg segs)
  obtain m where "memset_seg (push_bit 12 (of_nat seg)) 0 0 65535 b = Some (set_mem m b)" using memset_seg_mem by blast
  then show ?case using Cons [of "set_mem m b"] by simp
qed

lemma bda_init_keeps: "\<exists>m. bda_init b = Some (set_mem m b) \<and> keeps b (set_mem m b)"
proof -
  obtain m where m: "memcpy_seg_to 0x40 0 (replicate 256 0) b = Some (set_mem m b)"
      "mem_bytes m = store_seg (mem_bytes (mem (sys b))) 0x40 0 (replicate 256 0)"
    using memcpy_seg_to_eq [of "0x40" 0 "replicate 256 0" b] by auto
  have "mem_bytes m x = mem_bytes (mem (sys b)) x" if "unat x < 0x400" for x
  proof -
    have "unat (string_addr 0x40 0 i) = 0x400 + i" if "i < 256" for i
      using that bda_addr [of i] by (simp add: string_addr_def unat_of_nat_small del: of_nat_split)
    then have "\<forall>i < length (replicate 256 (0 :: u8)). x \<noteq> string_addr 0x40 0 i" using \<open>unat x < 0x400\<close> by auto
    then show ?thesis by (simp add: m(2) store_seg_other)
  qed
  then show ?thesis using m(1) by (intro exI [of _ m]) (simp add: bda_init_def memset_seg_def keeps_mem)
qed

section \<open>Vectors\<close>

definition vector_at :: "Memory \<Rightarrow> nat \<Rightarrow> u16 option \<times> u16 option" where
  "vector_at m n = (mem_read16 m (of_nat (4 * n)), mem_read16 m (of_nat (4 * n + 2)))"

lemma vector_unat: "n < 256 \<Longrightarrow> unat (of_nat (4 * n) :: u32) = 4 * n" "n < 256 \<Longrightarrow> unat (of_nat (4 * n + 2) :: u32) = 4 * n + 2"
  by (simp_all add: unat_of_nat_small del: of_nat_split)

lemma vector_at_cong:
  assumes "\<forall>x. unat x < 0x400 \<longrightarrow> mem_bytes m' x = mem_bytes m x" "n < 256"
  shows "vector_at m' n = vector_at m n"
proof -
  have "unat (of_nat (4 * n) + 1 :: u32) = 4 * n + 1" "unat (of_nat (4 * n + 2) + 1 :: u32) = 4 * n + 3"
    using assms(2) vector_unat [OF assms(2)] by (simp_all add: unat_plus_one [of _ 1] del: of_nat_split)
  moreover have "unat (of_nat (4 * n) :: u32) + 2 \<le> MEMORY_SIZE" "unat (of_nat (4 * n + 2) :: u32) + 2 \<le> MEMORY_SIZE"
    using assms(2) vector_unat [OF assms(2)] by (simp_all add: MEMORY_SIZE_def del: of_nat_split)
  ultimately show ?thesis
    using assms vector_unat [OF assms(2)] by (simp add: vector_at_def mem_read16_bytes del: of_nat_split)
qed

lemma zero_seg: "n < 0x8000 \<Longrightarrow> get_phys_addr 0 (ucast (of_nat n :: u16)) = of_nat n"
proof -
  assume n: "n < 0x8000"
  have u: "unat (ucast (of_nat n :: u16) :: u32) = n" using n by (simp add: unsigned_ucast_eq unat_of_nat_small take_bit_eq_mod)
  then have "unat (get_phys_addr 0 (ucast (of_nat n :: u16))) = n"
    using n by (subst get_phys_addr_wrap) (simp_all add: MEMORY_SIZE_def)
  then show ?thesis using n by (simp add: word_unat_eq_iff unat_of_nat_small)
qed

lemma get_cs_mem: "get_cs (set_mem m b) = get_cs b" "mem (sys (set_mem m b)) = m" "set_mem m' (set_mem m b) = set_mem m' b"
  by (simp_all add: get_cs_def)

lemma set_vector_at:
  assumes "n < 256"
  shows "\<exists>m. set_vector (of_nat n) h b = Some (set_mem m b) \<and> vector_at m n = (Some h, Some (get_cs b)) \<and>
    (\<forall>k < 256. k \<noteq> n \<longrightarrow> vector_at m k = vector_at (mem (sys b)) k)"
proof -
  note u = vector_unat
  have "mem_write16 (mem (sys b)) (of_nat (4 * n)) h \<noteq> None" unfolding mem16.wr_ok u [OF assms] using assms by (simp add: MEMORY_SIZE_def)
  then obtain m1 where m1: "mem_write16 (mem (sys b)) (of_nat (4 * n)) h = Some m1" by auto
  have "mem_write16 m1 (of_nat (4 * n + 2)) (get_cs b) \<noteq> None" unfolding mem16.wr_ok u [OF assms] using assms by (simp add: MEMORY_SIZE_def)
  then obtain m2 where m2: "mem_write16 m1 (of_nat (4 * n + 2)) (get_cs b) = Some m2" by auto
  have a: "(of_nat n * 4 :: u16) = of_nat (4 * n)" "(of_nat n * 4 + 2 :: u16) = of_nat (4 * n + 2)" by simp_all
  have "writew 0 (of_nat (4 * n)) h b = Some (set_mem m1 b)" "writew 0 (of_nat (4 * n + 2)) (get_cs b) (set_mem m1 b) = Some (set_mem m2 b)"
    using m1 m2 zero_seg [of "4 * n"] zero_seg [of "4 * n + 2"] assms by (simp_all add: writew_def mwrite_def del: of_nat_split)
  then have "set_vector (of_nat n) h b = Some (set_mem m2 b)"
    unfolding set_vector_def a(2) unfolding a(1) by (simp only: get_cs_mem Option.bind.bind_lunit)
  moreover have "vector_at m2 n = (Some h, Some (get_cs b))"
    using mem16.rd_wr_same [OF m1] mem16.rd_wr_same [OF m2] mem16.rd_wr_dis [OF m2, of "of_nat (4 * n)"] u [OF assms]
    by (simp add: vector_at_def del: of_nat_split)
  moreover have "vector_at m2 k = vector_at (mem (sys b)) k" if "k < 256" "k \<noteq> n" for k
  proof -
    have d: "k < n \<or> n < k" using that(2) by linarith
    have "mem_read16 m1 (of_nat j) = mem_read16 (mem (sys b)) (of_nat j)" "mem_read16 m2 (of_nat j) = mem_read16 m1 (of_nat j)"
      if "j = 4 * k \<or> j = 4 * k + 2" for j
      using that d u [OF assms] u [OF \<open>k < 256\<close>]
      by (intro mem16.rd_wr_dis [OF m1] mem16.rd_wr_dis [OF m2]; auto simp del: of_nat_split)+
    then show ?thesis by (simp add: vector_at_def del: of_nat_split)
  qed
  ultimately show ?thesis by blast
qed

text \<open>A list of vectors is installed in order, so the last entry for a number counts.\<close>

lemma set_vectors_at:
  "\<forall>(n, h) \<in> set vs. unat n < 256 \<Longrightarrow>
   \<exists>m. set_vectors vs b = Some (set_mem m b) \<and> (\<forall>k < 256. vector_at m k =
     (case map_of (rev vs) (of_nat k) of None \<Rightarrow> vector_at (mem (sys b)) k | Some h \<Rightarrow> (Some h, Some (get_cs b))))"
proof (induction vs arbitrary: b)
  case Nil
  show ?case by (rule exI [of _ "mem (sys b)"]) simp
next
  case (Cons v vs)
  obtain n h where v: "v = (of_nat n, h)" "n < 256"
    using Cons.prems by (cases v) (metis (mono_tags, lifting) case_prodD list.set_intros(1) of_nat_unat ucast_id)
  obtain m1 where m1: "set_vector (of_nat n) h b = Some (set_mem m1 b)" "vector_at m1 n = (Some h, Some (get_cs b))"
      "\<forall>k < 256. k \<noteq> n \<longrightarrow> vector_at m1 k = vector_at (mem (sys b)) k"
    using set_vector_at [OF v(2)] by blast
  obtain m2 where m2: "set_vectors vs (set_mem m1 b) = Some (set_mem m2 b)" "\<forall>k < 256. vector_at m2 k =
     (case map_of (rev vs) (of_nat k) of None \<Rightarrow> vector_at m1 k | Some h \<Rightarrow> (Some h, Some (get_cs b)))"
    using Cons.IH [of "set_mem m1 b", unfolded get_cs_mem] Cons.prems by auto
  have "(of_nat k = (of_nat n :: u16)) = (k = n)" if "k < 256" for k using that v(2) by (simp add: word_unat_eq_iff unat_of_nat_small)
  then show ?case using m1 m2 by (intro exI [of _ m2]) (auto simp: v(1) map_add_def split: option.splits)
qed

lemma install_vectors_at:
  assumes "\<forall>(n, h) \<in> set vectors. unat n < 256"
  shows "\<exists>m. install_vectors vectors unused vpt b = Some (set_mem m b) \<and> (\<forall>k < 256. vector_at m k =
    (Some (if k = 0x1d then vpt else case map_of (rev vectors) (of_nat k) of None \<Rightarrow> unused | Some h \<Rightarrow> h), Some (get_cs b)))"
proof -
  let ?all = "map (\<lambda>i. (of_nat i :: u16, unused)) [0..<256]"
  have "\<forall>(n, h) \<in> set ?all. unat n < 256" by (auto simp: unat_of_nat_small)
  from set_vectors_at [OF this, of b] obtain m1 where m1: "set_vectors ?all b = Some (set_mem m1 b)" "\<forall>k < 256. vector_at m1 k =
      (case map_of (rev ?all) (of_nat k) of None \<Rightarrow> vector_at (mem (sys b)) k | Some h \<Rightarrow> (Some h, Some (get_cs b)))" by blast
  have all: "map_of (rev ?all) (of_nat k) = Some unused" if "k < 256" for k
  proof -
    have "(of_nat k, unused) \<in> set (rev ?all)" using that by (auto simp del: upt_rec_numeral)
    from weak_map_of_SomeI [OF this] obtain h where h: "map_of (rev ?all) (of_nat k) = Some h" by blast
    moreover from map_of_SomeD [OF h] have "h = unused" by (auto simp del: upt_rec_numeral)
    ultimately show ?thesis by simp
  qed
  obtain m2 where m2: "set_vectors vectors (set_mem m1 b) = Some (set_mem m2 b)" "\<forall>k < 256. vector_at m2 k =
      (case map_of (rev vectors) (of_nat k) of None \<Rightarrow> vector_at m1 k | Some h \<Rightarrow> (Some h, Some (get_cs b)))"
    using set_vectors_at [OF assms, of "set_mem m1 b", unfolded get_cs_mem] by blast
  obtain m3 where m3: "set_vector (of_nat 0x1d) vpt (set_mem m2 b) = Some (set_mem m3 b)" "vector_at m3 0x1d = (Some vpt, Some (get_cs b))"
      "\<forall>k < 256. k \<noteq> 0x1d \<longrightarrow> vector_at m3 k = vector_at m2 k"
    using set_vector_at [of "0x1d" vpt "set_mem m2 b", unfolded get_cs_mem] by auto
  have "install_vectors vectors unused vpt b = Some (set_mem m3 b)"
    using m1(1) m2(1) m3(1) by (simp add: install_vectors_def del: upt_rec_numeral)
  then show ?thesis using m1(2) m2(2) m3(2,3) all by (intro exI [of _ m3]) (auto split: option.splits)
qed

section \<open>The display\<close>

text \<open>Steps that also leave the interrupt controller and the video mode alone.\<close>

definition keeps_pic :: "bios \<Rightarrow> bios \<Rightarrow> bool" where
  "keeps_pic b b' \<longleftrightarrow> keeps b b' \<and> pic (devs_of b') = pic (devs_of b) \<and> video_mode_active b' = video_mode_active b"

lemma keeps_pic_trans: "keeps_pic a b \<Longrightarrow> keeps_pic b c \<Longrightarrow> keeps_pic a c"
  by (auto simp: keeps_pic_def intro: keeps_trans)

lemma keeps_pic_bus: "keeps_pic b b' \<Longrightarrow> sim_bus b' = sim_bus b"
  by (simp add: keeps_pic_def keeps_def)

lemma keeps_pic_cga [simp]: "keeps_pic b (set_cga c b)"
  by (simp add: keeps_pic_def)

lemma screen_only_keeps_pic: "screen_only b b' \<Longrightarrow> keeps_pic b b'"
  using screen_only_keeps [of b b'] by (simp add: keeps_pic_def)

lemma console_only_keeps_pic: "console_only b b' \<Longrightarrow> keeps_pic b b'"
  using console_only_keeps [of b b'] console_only_bus [of b b'] by (simp add: keeps_pic_def)

lemma cga_ports:
  assumes "sim_bus b"
  shows "io (sys b) 0x3c0 = Some cga_port" "io (sys b) 0x3c6 = Some cga_port" "io (sys b) 0x3c8 = Some cga_port" "io (sys b) 0x3d8 = Some cga_port"
  using sim_bus_lookup [OF assms, of cga_port 6] sim_bus_lookup [OF assms, of cga_port 9] sim_bus_lookup [OF assms, of cga_port 10]
    sim_bus_lookup [OF assms, of cga_port 18]
  by (simp_all add: sim_ports_def) (simp_all add: cga_port_def byte_port_def)

lemma cga_inb: "sim_bus b \<Longrightarrow> \<exists>v c. inb 0x3c9 b = Some (v, set_cga c b)"
  using cga_ports [of b]
  by (auto simp: inb_def read_io8_def io_call_def cga_port_def byte_port_def Let_def split: prod.splits)

lemma cga_outb:
  assumes "sim_bus b" "p \<in> {0x3c0, 0x3c7, 0x3d8}"
  shows "\<exists>c. outb p v b = Some (set_cga c b)"
  using cga_ports [OF assms(1)] assms(2)
  by (auto simp: outb_def write_io8_def io_call_def cga_port_def byte_port_def Let_def split: prod.splits)

lemma read_dac_colors_cga: "sim_bus b \<Longrightarrow> \<exists>cs c. read_dac_colors n b = Some (cs, set_cga c b)"
proof (induction n arbitrary: b)
  case 0
  show ?case by (rule exI [of _ "[]"], rule exI [of _ "cga (devs_of b)"]) simp
next
  case (Suc n)
  obtain v1 c1 where 1: "inb 0x3c9 b = Some (v1, set_cga c1 b)" using cga_inb [OF Suc.prems] by blast
  obtain v2 c2 where 2: "inb 0x3c9 (set_cga c1 b) = Some (v2, set_cga c2 b)" using cga_inb [of "set_cga c1 b"] Suc.prems by auto
  obtain v3 c3 where 3: "inb 0x3c9 (set_cga c2 b) = Some (v3, set_cga c3 b)" using cga_inb [of "set_cga c2 b"] Suc.prems by auto
  show ?case using Suc.IH [of "set_cga c3 b"] Suc.prems 1 2 3 by auto
qed

lemma save_init_dac_keeps_pic: "sim_bus b \<Longrightarrow> \<exists>b'. save_init_dac b = Some b' \<and> keeps_pic b b'"
proof -
  assume b: "sim_bus b"
  obtain c1 where 1: "outb 0x3c7 0 b = Some (set_cga c1 b)" using cga_outb [OF b, of "0x3c7"] by blast
  obtain cs c2 where 2: "read_dac_colors 256 (set_cga c1 b) = Some (cs, set_cga c2 b)" using read_dac_colors_cga [of "set_cga c1 b" 256] b by auto
  show ?thesis using 1 2 by (simp add: save_init_dac_def keeps_pic_def keeps_def sim_bus_def)
qed

lemma clear_rows_screen:
  assumes "r \<le> 25"
  shows "\<exists>b'. scroll_up_rows (int r) 24 (word_of_int 0) (word_of_int 79) (word_of_int 7) 25 b = Some b' \<and> screen_only b b'"
  using assms
proof (induction "25 - r" arbitrary: r b)
  case 0
  then show ?case by (subst scroll_up_rows.simps) simp
next
  case (Suc n)
  have r: "r < 25" "n = 25 - Suc r" "Suc r \<le> 25" "int r \<le> 24" "int r + 25 > 24" using Suc.hyps(2) by auto
  have w: "word_of_int (int r) = (of_nat r :: u8)" "word_of_int 0 = (of_nat 0 :: u8)" "word_of_int 79 = (of_nat 79 :: u8)" by simp_all
  have le: "0 \<le> 79 + (1 :: nat)" "79 < (80 :: nat)" by simp_all
  obtain b1 where b1: "clear_row (word_of_int (int r)) (word_of_int 0) (word_of_int 79) (word_of_int 7) b = Some b1" "screen_only b b1"
    using clear_cells_screen [OF r(1) le, of _ b] unfolding clear_row_def Let_def w by blast
  obtain b2 where b2: "scroll_up_rows (int (Suc r)) 24 (word_of_int 0) (word_of_int 79) (word_of_int 7) 25 b1 = Some b2" "screen_only b1 b2"
    using Suc.hyps(1) [OF r(2,3), of b1] by blast
  have s: "to_schar (int r + 1) = int (Suc r)" using r(1) sint_word_of_int_8 [of "int r + 1"] by (simp add: to_schar_def)
  have "scroll_up_rows (int r) 24 (word_of_int 0) (word_of_int 79) (word_of_int 7) 25 b = Some b2"
    using r(4,5) by (subst scroll_up_rows.simps) (simp only: b1(1) s b2(1) if_True Option.bind.bind_lunit)
  then show ?case using screen_only_trans [OF b1(2) b2(2)] by blast
qed

lemma text_mode_keeps_pic:
  assumes "sim_bus b"
  shows "\<exists>b'. do_set_video_mode 3 b = Some (True, b') \<and> keeps_pic (b\<lparr>video_mode_active := False\<rparr>) b'"
proof -
  obtain c1 where 1: "outb 0x3c0 0x0c b = Some (set_cga c1 b)" using cga_outb [OF assms, of "0x3c0"] by blast
  obtain c2 where 2: "outb 0x3d8 (push_bit 0 1 OR push_bit 3 1) (set_cga c1 b) = Some (set_cga c2 b)"
    using cga_outb [of "set_cga c1 b" "0x3d8"] assms by auto
  let ?b = "set_cga c2 b\<lparr>video_mode_active := False\<rparr>"
  obtain b' where b': "do_scroll_up 0 24 0 79 0x07 25 ?b = Some b'" "screen_only ?b b'"
    using clear_rows_screen [of 0 ?b] by (auto simp: do_scroll_up_def)
  have "keeps_pic (b\<lparr>video_mode_active := False\<rparr>) ?b" by (simp add: keeps_pic_def keeps_def sim_bus_def)
  then show ?thesis using 1 2 b' keeps_pic_trans [OF _ screen_only_keeps_pic [OF b'(2)]] by (simp add: do_set_video_mode_def)
qed

lemma blank_rows_keeps_pic: "\<forall>r \<in> set rs. r < 25 \<Longrightarrow> \<exists>b'. blank_rows rs b = Some b' \<and> keeps_pic b b'"
proof (induction rs arbitrary: b)
  case (Cons r rs)
  obtain b1 where b1: "blank_cells (of_nat r) [0..<80] b = Some b1" "screen_only b b1" using blank_cells_screen [of r 0 b] Cons.prems by auto
  then show ?case using Cons.IH [of b1] Cons.prems keeps_pic_trans [OF screen_only_keeps_pic [OF b1(2)]] by (auto simp del: upt_rec_numeral)
qed (simp add: keeps_pic_def)

lemma bda_write_keeps_pic:
  assumes "unat f < 254"
  shows "\<exists>b'. bda_writeb f v b = Some b' \<and> keeps_pic b b' \<and> devs_of b' = devs_of b" "\<exists>b'. bda_writew f w b = Some b' \<and> keeps_pic b b' \<and> devs_of b' = devs_of b"
proof -
  define n where "n = unat f"
  have f: "f = of_nat n" "n < 254" using assms by (simp_all add: n_def)
  have u: "unat (of_nat (0x400 + n) :: u32) = 0x400 + n" using f(2) by (simp add: unat_of_nat_small del: of_nat_split)
  have "mem_write8 (mem (sys b)) (of_nat (0x400 + n)) v \<noteq> None" unfolding mem8.wr_ok u using f(2) by (simp add: MEMORY_SIZE_def)
  then obtain m1 where m1: "mem_write8 (mem (sys b)) (of_nat (0x400 + n)) v = Some m1" by auto
  have "mem_write16 (mem (sys b)) (of_nat (0x400 + n)) w \<noteq> None" unfolding mem16.wr_ok u using f(2) by (simp add: MEMORY_SIZE_def)
  then obtain m2 where m2: "mem_write16 (mem (sys b)) (of_nat (0x400 + n)) w = Some m2" by auto
  have "keeps_pic b (set_mem m1 b)" "keeps_pic b (set_mem m2 b)"
    using mem_write_bytes [OF m1] store_bytes_apply [of "of_nat (0x400 + n)" "word_to_bytes 1 v"]
      mem_write_bytes [OF m2] store_bytes_apply [of "of_nat (0x400 + n)" "word_to_bytes 2 w"] u f(2)
    unfolding keeps_pic_def by (auto intro!: keeps_mem simp del: of_nat_split)
  moreover have "bda_writeb f v b = Some (set_mem m1 b)" "bda_writew f w b = Some (set_mem m2 b)"
    using m1 m2 f by (simp_all add: bda_writeb_def writeb_def bda_writew_def writew_def mwrite_def bda_addr)
  ultimately show "\<exists>b'. bda_writeb f v b = Some b' \<and> keeps_pic b b' \<and> devs_of b' = devs_of b" "\<exists>b'. bda_writew f w b = Some b' \<and> keeps_pic b b' \<and> devs_of b' = devs_of b"
    by simp_all
qed

lemma keeps_pic_devs: "keeps_pic b b' \<Longrightarrow> devs_of b' = devs_of b \<Longrightarrow> text_state b' = text_state b"
  by (simp add: keeps_pic_def keeps_def text_state_def)

lemma cursor_shape_keeps_pic:
  assumes "sim_bus b"
  shows "\<exists>b'. do_set_cursor_shape x y b = Some b' \<and> keeps_pic b b'"
proof -
  have "\<exists>c. set_cursor_scan_end y b = Some (set_cga c b)" using assms by (auto simp: set_cursor_scan_end_def crtc_regs)
  then obtain c1 where 1: "set_cursor_scan_end y b = Some (set_cga c1 b)" by blast
  have "\<exists>c. set_cursor_scan_start x (set_cga c1 b) = Some (set_cga c b)" using assms by (auto simp: set_cursor_scan_start_def crtc_regs Let_def)
  then obtain c2 where 2: "set_cursor_scan_start x (set_cga c1 b) = Some (set_cga c2 b)" by blast
  obtain b3 where 3: "bda_writeb (offsetof ''cursor_start'') x (set_cga c2 b) = Some b3" "keeps_pic (set_cga c2 b) b3"
    using bda_write_keeps_pic(1) [of "offsetof ''cursor_start''"] by (auto simp: offsetof_fields)
  obtain b4 where 4: "bda_writeb (offsetof ''cursor_end'') y b3 = Some b4" "keeps_pic b3 b4"
    using bda_write_keeps_pic(1) [of "offsetof ''cursor_end''"] by (auto simp: offsetof_fields)
  have "keeps_pic b b4" using keeps_pic_trans [OF keeps_pic_trans [OF keeps_pic_cga 3(2)] 4(2)] .
  then show ?thesis using 1 2 3(1) 4(1) by (simp add: do_set_cursor_shape_def set_cursor_bda_def)
qed

lemma color_control_cursor:
  assumes "sim_bus b"
  shows "\<exists>b'. outb 0x3d9 v b = Some b' \<and> keeps_pic b b' \<and> cursor_pos b' = cursor_pos b"
proof -
  have "\<exists>c. outb 0x3d9 v b = Some (set_cga c b) \<and> idx_regs c = idx_regs (cga (devs_of b))"
    using cga_ports [OF assms]
    by (auto simp: outb_def write_io8_def io_call_def cga_port_def byte_port_def CGA_write8_def write_color_control_def Let_def)
  then show ?thesis by (auto simp: cursor_pos_def)
qed

lemma display_init_ready:
  assumes "sim_bus b" "\<not> serial_stdio b"
  shows "\<exists>b'. display_init b = Some b' \<and> keeps b b' \<and> pic (devs_of b') = pic (devs_of b) \<and> text_ready b'"
proof -
  obtain b1 where b1: "save_init_dac b = Some b1" "keeps_pic b b1" using save_init_dac_keeps_pic [OF assms(1)] by blast
  obtain b2 where b2: "do_set_video_mode 3 b1 = Some (True, b2)" "keeps_pic (b1\<lparr>video_mode_active := False\<rparr>) b2"
    using text_mode_keeps_pic [of b1] keeps_pic_bus [OF b1(2)] assms(1) by blast
  obtain b3 where b3: "blank_rows [0..<25] b2 = Some b3" "keeps_pic b2 b3" using blank_rows_keeps_pic [of "[0..<25]" b2] by auto
  note bda = bda_write_keeps_pic
  obtain b4 where b4: "bda_writeb (offsetof ''video_mode'') 0x03 b3 = Some b4" "keeps_pic b3 b4" using bda(1) [of "offsetof ''video_mode''"] by (auto simp: offsetof_fields)
  obtain b5 where b5: "bda_writew (offsetof ''num_screen_cols'') 80 b4 = Some b5" "keeps_pic b4 b5" using bda(2) [of "offsetof ''num_screen_cols''"] by (auto simp: offsetof_fields)
  obtain b6 where b6: "bda_writeb (offsetof ''last_screen_row'') (25 - 1) b5 = Some b6" "keeps_pic b5 b6" using bda(1) [of "offsetof ''last_screen_row''"] by (auto simp: offsetof_fields)
  obtain b7 where b7: "bda_writew (offsetof ''crt_controller_base'') 0x3d4 b6 = Some b7" "keeps_pic b6 b7" using bda(2) [of "offsetof ''crt_controller_base''"] by (auto simp: offsetof_fields)
  obtain b8 where b8: "bda_writeb (offsetof ''video_display_data_area'') 1 b7 = Some b8" "keeps_pic b7 b8" using bda(1) [of "offsetof ''video_display_data_area''"] by (auto simp: offsetof_fields)
  obtain b9 where b9: "bda_writeb (offsetof ''dcc_index'') 0x0a b8 = Some b9" "keeps_pic b8 b9" using bda(1) [of "offsetof ''dcc_index''"] by (auto simp: offsetof_fields)
  have k9: "keeps_pic b2 b9" using b3(2) b4(2) b5(2) b6(2) b7(2) b8(2) b9(2) by (meson keeps_pic_trans)
  have bus: "sim_bus b9" using keeps_pic_bus [OF k9] keeps_pic_bus [OF b2(2)] keeps_pic_bus [OF b1(2)] assms(1) by (simp add: sim_bus_def)
  obtain c where c: "do_set_cursor_shape 7 7 b9 = Some c" "keeps_pic b9 c" using cursor_shape_keeps_pic [OF bus] by blast
  obtain d where d: "write_cursor \<lparr>cur_col = of_nat 0, cur_row = of_nat 0\<rparr> c = Some d" "cursor_pos d = 0" "console_only c d"
    using write_cursor_screen [of c 0 0] keeps_pic_bus [OF c(2)] bus by auto
  have d': "keeps_pic c d" by (rule console_only_keeps_pic [OF d(3)])
  obtain e where e: "outb 0x3d9 (push_bit 5 1) d = Some e" "keeps_pic d e" "cursor_pos e = 0"
    using color_control_cursor [of d] keeps_pic_bus [OF d'] keeps_pic_bus [OF c(2)] bus d(2) by auto
  have k: "keeps_pic (b1\<lparr>video_mode_active := False\<rparr>) e" using b2(2) k9 c(2) d' e(2) by (meson keeps_pic_trans)
  have "display_init b = Some e"
    unfolding display_init_def using b1(1) b2(1) b3(1) b4(1) b5(1) b6(1) b7(1) b8(1) b9(1) c(1) d(1) e(1) by (simp del: upt_rec_numeral)
  moreover have "keeps b e" "pic (devs_of e) = pic (devs_of b)" "\<not> video_mode_active e"
    using k b1(2) by (auto simp: keeps_pic_def keeps_def sim_bus_def)
  moreover have "\<not> serial_stdio e" using \<open>keeps b e\<close> assms(2) by (simp add: keeps_def)
  ultimately show ?thesis using e(3) by (simp add: text_ready_def)
qed

section \<open>The banner\<close>

lemma putstr_text:
  assumes "sim_bus b" "text_ready b"
  shows "\<exists>b'. putstr cs b = Some b' \<and> keeps_pic b b' \<and> text_ready b'"
proof -
  obtain b' where b': "putstr cs b = Some b'" "cursor_pos b' < 2000" "console_only b b'"
    using putstr_screen [OF assms(1), of cs] assms(2) by (auto simp: text_ready_def)
  then show ?thesis using console_only_keeps_pic [OF b'(3)] console_only_bus [OF b'(3)] assms(2) by (auto simp: text_ready_def)
qed

lemma printk_text:
  assumes "sim_bus b" "text_ready b" "list_all fmt_ok is" "render is ap = Some s" "c_str fmt = concat (map fmt_bytes is)"
  shows "\<exists>b'. printk fmt ap b = Some b' \<and> keeps_pic b b' \<and> text_ready b'"
  using string_format_items [OF assms(3,4), of 128] putstr_text [OF assms(1,2)] by (simp add: printk_def assms(5))

lemma fmt_plain: "concat (map fmt_bytes (map FmtChar cs)) = cs" "list_all fmt_ok (map FmtChar cs) = (\<forall>c \<in> set cs. c \<noteq> 0 \<and> c \<noteq> of_char CHR ''%'')"
  by (induction cs) (auto simp: fmt_bytes_def fmt_ok_def)

lemma banner_text:
  assumes "sim_bus b" "text_ready b"
  shows "\<exists>b'. do { b \<leftarrow> putstr banner b;
      b \<leftarrow> printk (''Cache: %uKB'' @ [CHR 0x0a]) [VaInt cache] b;
      b \<leftarrow> printk (''Pseudo-286: %s'' @ [CHR 0x0a]) [VaStr s] b;
      putstr [0x0a] b } = Some b' \<and> keeps_pic b b' \<and> text_ready b'"
proof -
  obtain b1 where b1: "putstr banner b = Some b1" "keeps_pic b b1" "text_ready b1" using putstr_text [OF assms] by blast
  let ?is = "[FmtChar 0x43, FmtChar 0x61, FmtChar 0x63, FmtChar 0x68, FmtChar 0x65, FmtChar 0x3a, FmtChar 0x20, FmtNum 10 False 0, FmtChar 0x4b, FmtChar 0x42, FmtChar 0x0a]"
  obtain b2 where b2: "printk (''Cache: %uKB'' @ [CHR 0x0a]) [VaInt cache] b1 = Some b2" "keeps_pic b1 b2" "text_ready b2"
    using printk_text [of b1 ?is "[VaInt cache]" _ "''Cache: %uKB'' @ [CHR 0x0a]"] b1 keeps_pic_bus [OF b1(2)] assms(1)
    by (auto simp: fmt_ok_def fmt_bytes_def c_str_def)
  let ?is = "[FmtChar 0x50, FmtChar 0x73, FmtChar 0x65, FmtChar 0x75, FmtChar 0x64, FmtChar 0x6f, FmtChar 0x2d, FmtChar 0x32, FmtChar 0x38, FmtChar 0x36,
    FmtChar 0x3a, FmtChar 0x20, FmtStr, FmtChar 0x0a]"
  have bus2: "sim_bus b2" using keeps_pic_bus [OF b1(2)] keeps_pic_bus [OF b2(2)] assms(1) by simp
  obtain b3 where b3: "printk (''Pseudo-286: %s'' @ [CHR 0x0a]) [VaStr s] b2 = Some b3" "keeps_pic b2 b3" "text_ready b3"
    using printk_text [OF bus2 b2(3), of ?is "[VaStr s]" _ "''Pseudo-286: %s'' @ [CHR 0x0a]"]
    by (auto simp: fmt_ok_def fmt_bytes_def c_str_def)
  obtain b4 where b4: "putstr [0x0a] b3 = Some b4" "keeps_pic b3 b4" "text_ready b4"
    using putstr_text [OF _ b3(3)] keeps_pic_bus [OF b3(2)] bus2 by blast
  have "keeps_pic b b4" using b1(2) b2(2) b3(2) b4(2) by (meson keeps_pic_trans)
  then show ?thesis using b1(1) b2(1) b3(1) b4(1,3) by simp
qed

section \<open>Clock, keyboard and mouse\<close>

lemma text_keeps: "text_state b' = text_state b \<Longrightarrow> text_ready b \<Longrightarrow> text_ready b'"
  using text_ready_state [of b' b] by simp

lemma init_timer_keeps:
  assumes "sim_bus b" "pic_state (pic (devs_of b)) = PIC_STATE_IDLE"
  shows "\<exists>b'. init_timer b = Some b' \<and> keeps b b' \<and> pic_state (pic (devs_of b')) = PIC_STATE_IDLE \<and> text_state b' = text_state b"
proof -
  let ?p = "(pic (devs_of b))\<lparr>pic_mask := pic_mask (pic (devs_of b)) AND NOT (push_bit 0 1)\<rparr>"
  let ?b1 = "set_devs ((devs_of b)\<lparr>pic := ?p\<rparr>) b"
  have 1: "irq_enable 0 b = Some ?b1" by (rule irq_enable_pic [OF assms])
  obtain t where t: "do { b \<leftarrow> outb (0x40 + 0x3) 0x34 ?b1; b \<leftarrow> outb (0x40 + 0x0) 0x00 b; outb (0x40 + 0x0) 0x00 b } =
      Some (set_devs ((devs_of ?b1)\<lparr>timer := t\<rparr>) ?b1)" using timer_program [of ?b1] assms(1) by auto
  let ?b2 = "set_devs ((devs_of ?b1)\<lparr>timer := t\<rparr>) ?b1"
  obtain b3 where b3: "bda_writew (offsetof ''timer_counter_low'') (ucast (INIT_TIME_COUNT_VAL ?b2 AND 0xffff)) ?b2 = Some b3" "keeps_pic ?b2 b3" "devs_of b3 = devs_of ?b2"
    using bda_write_keeps_pic(2) [of "offsetof ''timer_counter_low''" _ ?b2] by (auto simp: offsetof_fields)
  obtain b4 where b4: "bda_writew (offsetof ''timer_counter_high'') (ucast (drop_bit 16 (INIT_TIME_COUNT_VAL b3) AND 0xffff)) b3 = Some b4" "keeps_pic b3 b4" "devs_of b4 = devs_of b3"
    using bda_write_keeps_pic(2) [of "offsetof ''timer_counter_high''" _ b3] by (auto simp: offsetof_fields)
  have bind: "do { b \<leftarrow> outb (0x40 + 0x3) 0x34 ?b1; b \<leftarrow> outb (0x40 + 0x0) 0x00 b; b \<leftarrow> outb (0x40 + 0x0) 0x00 b; f b } = f ?b2" for f :: "bios \<Rightarrow> bios option"
    using arg_cong [OF t, of "\<lambda>x. x \<bind> f"] by simp
  have "init_timer b = Some b4" unfolding init_timer_def 1 Option.bind.bind_lunit bind using b3(1) b4(1) by simp
  moreover have "keeps b b4" "pic_state (pic (devs_of b4)) = PIC_STATE_IDLE"
    using b3(2,3) b4(2,3) assms(2) by (auto simp: keeps_pic_def keeps_def)
  moreover have "text_state b4 = text_state b"
    using keeps_pic_devs [OF b4(2,3)] keeps_pic_devs [OF b3(2,3)] by (simp add: text_state_def)
  ultimately show ?thesis by blast
qed

lemma keyboard_init_keeps:
  assumes "sim_bus b" "pic_state (pic (devs_of b)) = PIC_STATE_IDLE"
  shows "\<exists>b'. keyboard_init b = Some b' \<and> keeps b b' \<and> text_state b' = text_state b"
proof -
  note bda = bda_write_keeps_pic
  obtain b1 where b1: "bda_writeb (offsetof ''keyboard_flags'') 0 b = Some b1" "keeps_pic b b1" "devs_of b1 = devs_of b"
    using bda(1) [of "offsetof ''keyboard_flags''"] by (auto simp: offsetof_fields)
  obtain b2 where b2: "bda_writeb (offsetof ''keyboard_flags'' + 1) 0 b1 = Some b2" "keeps_pic b1 b2" "devs_of b2 = devs_of b1"
    using bda(1) [of "offsetof ''keyboard_flags'' + 1"] by (auto simp: offsetof_fields)
  obtain b3 where b3: "bda_writew (offsetof ''kbd_buffer_tail'') kbd_start b2 = Some b3" "keeps_pic b2 b3" "devs_of b3 = devs_of b2"
    using bda(2) [of "offsetof ''kbd_buffer_tail''"] by (auto simp: offsetof_fields)
  obtain b4 where b4: "bda_writew (offsetof ''kbd_buffer_head'') kbd_start b3 = Some b4" "keeps_pic b3 b4" "devs_of b4 = devs_of b3"
    using bda(2) [of "offsetof ''kbd_buffer_head''"] by (auto simp: offsetof_fields)
  have k: "keeps_pic b b4" "devs_of b4 = devs_of b" using b1 b2 b3 b4 by (meson keeps_pic_trans, simp)
  have bus: "sim_bus b4" using keeps_pic_bus [OF k(1)] assms(1) by simp
  obtain v where v: "inb PS2_CTRL_PORT b4 = Some (v, b4)" using startup_io(7) [OF bus] by (auto simp: PS2_CTRL_PORT_def)
  let ?b5 = "set_devs ((devs_of b4)\<lparr>kbd := PS2_write8 (kbd (devs_of b4)) 0 1 (v OR PS2_CTRL_CLEAR)\<rparr>) b4"
  have 5: "keyboard_reset b4 = Some ?b5"
    using startup_io(6) [OF bus, of "v OR PS2_CTRL_CLEAR"] v by (simp add: keyboard_reset_def) (simp add: PS2_CTRL_PORT_def)
  let ?b6 = "set_devs ((devs_of ?b5)\<lparr>pic := (pic (devs_of ?b5))\<lparr>pic_mask := pic_mask (pic (devs_of ?b5)) AND NOT (push_bit 1 1)\<rparr>\<rparr>) ?b5"
  have 6: "irq_enable 1 ?b5 = Some ?b6" using bus k(2) assms(2) by (intro irq_enable_pic) simp_all
  have "keyboard_init b = Some ?b6" unfolding keyboard_init_def using b1(1) b2(1) b3(1) b4(1) 5 6 by simp
  moreover have "keeps b ?b6" using k(1) by (simp add: keeps_pic_def keeps_def sim_bus_def)
  moreover have "text_state ?b6 = text_state b" using keeps_pic_devs [OF k] by (simp add: text_state_def)
  ultimately show ?thesis by blast
qed

definition mouse_pending :: "bios \<Rightarrow> u8 list" where
  "mouse_pending b = pending (mouse_ps2 (mouse (devs_of b)))"

lemma mouse_clear:
  assumes "sim_bus b"
  shows "\<exists>b'. outb MOUSE_STATUS PS2_CTRL_CLEAR b = Some b' \<and> mouse_only b b' \<and> mouse_pending b' = []"
  using mouse_port_bus [OF assms]
  by (auto simp: outb_def write_io8_def io_call_def MOUSE_STATUS_def mouse_port_def byte_port_def Let_def mouse_only_def text_state_def
      with_lines_def mouse_pending_def Mouse_write8_def PS2_write8_def PS2_CTRL_CLEAR_def ps2_ctrl_clear_def split: prod.splits)

lemma mouse_send:
  assumes "sim_bus b"
  shows "\<exists>b'. outb MOUSE_DATA v b = Some b' \<and> mouse_only b b' \<and> mouse_pending b' = mouse_pending b @ (if v = 0xff then [0xfa, 0xaa, 0x55] else [0xfa])"
  using mouse_port_bus [OF assms]
  by (auto simp: outb_def write_io8_def io_call_def MOUSE_DATA_def mouse_port_def byte_port_def Let_def mouse_only_def text_state_def
      with_lines_def mouse_pending_def Mouse_write8_def Mouse_add_byte_def PS2_add_byte_def PS2_write8_def split: prod.splits)

lemma mouse_receive:
  assumes "sim_bus b" "mouse_pending b = v # vs"
  shows "\<exists>b'. mouse_read b = Some (Some v, b') \<and> mouse_only b b' \<and> mouse_pending b' = vs"
  using mouse_port_bus [OF assms(1)] assms(2)
  by (auto simp: mouse_read_def inb_def read_io8_def io_call_def MOUSE_DATA_def MOUSE_STATUS_def mouse_port_def byte_port_def Let_def mouse_only_def
      text_state_def mouse_pending_def Mouse_read8_def PS2_read8_def split: prod.splits)

lemma mouse_cmd_answer:
  assumes "sim_bus b" "mouse_pending b = []"
  shows "\<exists>b'. mouse_cmd v b = Some (Some 0xfa, b') \<and> mouse_only b b' \<and> mouse_pending b' = (if v = 0xff then [0xaa, 0x55] else [])"
proof -
  obtain b1 where b1: "outb MOUSE_DATA v b = Some b1" "mouse_only b b1" "mouse_pending b1 = 0xfa # (if v = 0xff then [0xaa, 0x55] else [])"
    using mouse_send [OF assms(1), of v] assms(2) by auto
  obtain b2 where "mouse_read b1 = Some (Some 0xfa, b2)" "mouse_only b1 b2" "mouse_pending b2 = (if v = 0xff then [0xaa, 0x55] else [])"
    using mouse_receive [OF _ b1(3)] mouse_only_bus [OF b1(2)] assms(1) by blast
  then show ?thesis using b1(1,2) by (auto simp: mouse_cmd_def intro: mouse_only_trans)
qed

lemma mouse_hw_init_keeps:
  assumes "sim_bus b"
  shows "\<exists>b'. mouse_hw_init b = Some (True, b') \<and> keeps b b' \<and> text_state b' = text_state b \<and> have_mouse b'"
proof -
  obtain b1 where b1: "outb MOUSE_STATUS PS2_CTRL_CLEAR b = Some b1" "mouse_only b b1" "mouse_pending b1 = []" using mouse_clear [OF assms] by blast
  have s1: "sim_bus b1" using mouse_only_bus [OF b1(2)] assms by simp
  obtain b2 where b2: "mouse_cmd 0xff b1 = Some (Some 0xfa, b2)" "mouse_only b1 b2" "mouse_pending b2 = [0xaa, 0x55]"
    using mouse_cmd_answer [OF s1 b1(3), of "0xff"] by auto
  have s2: "sim_bus b2" using mouse_only_bus [OF b2(2)] s1 by simp
  obtain b3 where b3: "mouse_read b2 = Some (Some 0xaa, b3)" "mouse_only b2 b3" "mouse_pending b3 = [0x55]" using mouse_receive [OF s2 b2(3)] by blast
  have s3: "sim_bus b3" using mouse_only_bus [OF b3(2)] s2 by simp
  obtain b4 where b4: "mouse_read b3 = Some (Some 0x55, b4)" "mouse_only b3 b4" "mouse_pending b4 = []" using mouse_receive [OF s3 b3(3)] by blast
  have s4: "sim_bus b4" using mouse_only_bus [OF b4(2)] s3 by simp
  obtain b5 where b5: "mouse_cmd CMD_ENABLE b4 = Some (Some 0xfa, b5)" "mouse_only b4 b5" "mouse_pending b5 = []"
    using mouse_cmd_answer [OF s4 b4(3), of CMD_ENABLE] by (auto simp: CMD_ENABLE_def)
  have s5: "sim_bus b5" using mouse_only_bus [OF b5(2)] s4 by simp
  obtain b6 where b6: "mouse_cmd CMD_REFRESH b5 = Some (Some 0xfa, b6)" "mouse_only b5 b6" "mouse_pending b6 = []"
    using mouse_cmd_answer [OF s5 b5(3), of CMD_REFRESH] by (auto simp: CMD_REFRESH_def)
  have s6: "sim_bus b6" using mouse_only_bus [OF b6(2)] s5 by simp
  obtain b7 where b7: "mouse_cmd 40 b6 = Some (Some 0xfa, b7)" "mouse_only b6 b7" using mouse_cmd_answer [OF s6 b6(3), of 40] by auto
  have m: "mouse_only b b7" using b1(2) b2(2) b3(2) b4(2) b5(2) b6(2) b7(2) by (meson mouse_only_trans)
  have "mouse_wait b2 = Some (0xaa, b3)" "mouse_wait b3 = Some (0x55, b4)"
    using b3(1) b4(1) by (subst mouse_wait.simps, simp)+
  then have "mouse_hw_init b = Some (True, b7\<lparr>have_mouse := True\<rparr>)"
    unfolding mouse_hw_init_def wait_self_test_def using b1(1) b2(1) b5(1) b6(1) b7(1) by simp
  then show ?thesis using m by (auto simp: mouse_only_def keeps_def text_state_def sim_bus_def)
qed

section \<open>The whole startup\<close>

lemma irq_init_keeps: "sim_bus b \<Longrightarrow> \<exists>b'. irq_init b = Some b' \<and> keeps b b' \<and> pic_state (pic (devs_of b')) = PIC_STATE_IDLE"
proof -
  assume b: "sim_bus b"
  obtain p where "irq_init b = Some (set_devs ((devs_of b)\<lparr>pic := p\<rparr>) b)" "pic_state p = PIC_STATE_IDLE" using irq_init_pic [OF b] by blast
  then show ?thesis by (simp add: keeps_def)
qed

lemma keeps_bus: "keeps b b' \<Longrightarrow> sim_bus b' = sim_bus b"
  by (simp add: keeps_def)

text \<open>Everything between the vectors and the card.\<close>

lemma devices_init:
  assumes "sim_bus b" "\<not> serial_stdio b"
  shows "\<exists>b'. keeps b b' \<and> text_ready b' \<and> (\<forall>f. do {
     b \<leftarrow> irq_init b;
     b \<leftarrow> bda_init b;
     b \<leftarrow> display_init b;
     b \<leftarrow> putstr banner b;
     b \<leftarrow> printk (''Cache: %uKB'' @ [CHR 0x0a]) [VaInt cache] b;
     b \<leftarrow> printk (''Pseudo-286: %s'' @ [CHR 0x0a]) [VaStr s] b;
     b \<leftarrow> putstr [0x0a] b;
     b \<leftarrow> init_timer b;
     b \<leftarrow> keyboard_init b;
     (_, b) \<leftarrow> mouse_hw_init b;
     f b
   } = (f b' :: bios option))"
proof -
  obtain b1 where b1: "irq_init b = Some b1" "keeps b b1" "pic_state (pic (devs_of b1)) = PIC_STATE_IDLE" using irq_init_keeps [OF assms(1)] by blast
  obtain m where m: "bda_init b1 = Some (set_mem m b1)" "keeps b1 (set_mem m b1)" using bda_init_keeps by blast
  let ?b2 = "set_mem m b1"
  have k2: "keeps b ?b2" by (rule keeps_trans [OF b1(2) m(2)])
  have s2: "sim_bus ?b2" "\<not> serial_stdio ?b2" using k2 assms by (simp_all add: keeps_def)
  obtain b3 where b3: "display_init ?b2 = Some b3" "keeps ?b2 b3" "pic (devs_of b3) = pic (devs_of ?b2)" "text_ready b3"
    using display_init_ready [OF s2] by blast
  have s3: "sim_bus b3" using keeps_bus [OF b3(2)] s2(1) by simp
  obtain b4 where b4: "do { b \<leftarrow> putstr banner b3; b \<leftarrow> printk (''Cache: %uKB'' @ [CHR 0x0a]) [VaInt cache] b;
      b \<leftarrow> printk (''Pseudo-286: %s'' @ [CHR 0x0a]) [VaStr s] b; putstr [0x0a] b } = Some b4" "keeps_pic b3 b4" "text_ready b4"
    using banner_text [OF s3 b3(4)] by blast
  have s4: "sim_bus b4" "pic_state (pic (devs_of b4)) = PIC_STATE_IDLE"
    using b4(2) s3 b3(3) b1(3) by (simp_all add: keeps_pic_def keeps_def)
  obtain b5 where b5: "init_timer b4 = Some b5" "keeps b4 b5" "pic_state (pic (devs_of b5)) = PIC_STATE_IDLE" "text_state b5 = text_state b4"
    using init_timer_keeps [OF s4] by blast
  have s5: "sim_bus b5" using keeps_bus [OF b5(2)] s4(1) by simp
  obtain b6 where b6: "keyboard_init b5 = Some b6" "keeps b5 b6" "text_state b6 = text_state b5" using keyboard_init_keeps [OF s5 b5(3)] by blast
  have s6: "sim_bus b6" using keeps_bus [OF b6(2)] s5 by simp
  obtain b7 where b7: "mouse_hw_init b6 = Some (True, b7)" "keeps b6 b7" "text_state b7 = text_state b6" using mouse_hw_init_keeps [OF s6] by blast
  have "keeps b3 b4" using b4(2) by (simp add: keeps_pic_def)
  then have "keeps b b7" using k2 b3(2) b5(2) b6(2) b7(2) by (meson keeps_trans)
  moreover have "text_ready b7" using text_keeps [OF _ b4(3)] b5(4) b6(3) b7(3) by simp
  moreover have bind: "do { b \<leftarrow> putstr banner b3; b \<leftarrow> printk (''Cache: %uKB'' @ [CHR 0x0a]) [VaInt cache] b;
      b \<leftarrow> printk (''Pseudo-286: %s'' @ [CHR 0x0a]) [VaStr s] b; b \<leftarrow> putstr [0x0a] b; g b } = g b4" for g :: "bios \<Rightarrow> bios option"
    using arg_cong [OF b4(1), of "\<lambda>x. x \<bind> g"] by simp
  ultimately show ?thesis
    unfolding b1(1) m(1) b3(1) Option.bind.bind_lunit bind b5(1) b6(1) b7(1) by (intro exI [of _ b7]) simp
qed

text \<open>
  C6. The firmware starts the machine: \<open>root\<close>, on the simulated machine with an idle card that has at least one sector, whatever the memory and
  the other devices hold, returns. It has installed every one of the 256 interrupt vectors: in the code segment of the firmware, for the last
  entry of the vector table with that number, for the video parameters (1dh), or for the handler of unused interrupts; the first
  sector of the disk image is at 7c00h to 7dffh; and the processor continues there, with drive 80h in DL. The entries of the vector
  table have numbers below 256, and the console is the screen (no serial console).
\<close>

theorem firmware_starts:
  assumes "card_ready b" "\<not> serial_stdio b" "512 \<le> length (image_of b)" "\<forall>(n, h) \<in> set vectors. unat n < 256"
  shows "\<exists>b'. root vectors unused vpt banner cache p286 b = Some b' \<and>
    rget (sys b') CS = 0 \<and> rget (sys b') IP = 0x7c00 \<and> rget (sys b') DL = 0x80 \<and>
    (\<forall>i < 512. mem_bytes (mem (sys b')) (of_nat (0x7c00 + i)) = image_of b ! i) \<and>
    (\<forall>k < 256. vector_at (mem (sys b')) k =
      (Some (if k = 0x1d then vpt else case map_of (rev vectors) (of_nat k) of None \<Rightarrow> unused | Some h \<Rightarrow> h), Some (get_cs b)))"
proof -
  let ?v = "\<lambda>k. (Some (if k = 0x1d then vpt else case map_of (rev vectors) (of_nat k) of None \<Rightarrow> unused | Some h \<Rightarrow> h), Some (get_cs b))"
  obtain m0 where m0: "scrub_mem b = Some (set_mem m0 b)" using scrub_segments_mem unfolding scrub_mem_def by blast
  obtain m where m: "install_vectors vectors unused vpt (set_mem m0 b) = Some (set_mem m b)" "\<forall>k < 256. vector_at m k = ?v k"
    using install_vectors_at [OF assms(4), of unused vpt "set_mem m0 b", unfolded get_cs_mem] by blast
  let ?b = "set_mem m b" and ?s = "c_str (if p286 then ''enabled'' else ''disabled'')"
  have bus: "sim_bus ?b" "\<not> serial_stdio ?b" using assms(1,2) by (simp_all add: card_ready_def)
  obtain b1 where b1: "keeps ?b b1" "text_ready b1"
    and root: "root vectors unused vpt banner cache p286 b = (sd_init b1 \<bind> sd_boot)"
    using devices_init [OF bus, of banner cache ?s] unfolding root_def m0 m(1) Option.bind.bind_lunit by blast
  have "card_ready b1" "image_of b1 = image_of b" using b1(1) assms(1) by (simp_all add: keeps_def card_ready_def image_of_def)
  then obtain b' where b': "(sd_init b1 \<bind> sd_boot) = Some b'" "rget (sys b') CS = 0" "rget (sys b') IP = 0x7c00" "rget (sys b') DL = 0x80"
      "\<forall>i < 512. mem_bytes (mem (sys b')) (of_nat (0x7c00 + i)) = image_of b ! i"
      "\<forall>x. (unat x < 0x7c00 \<or> 0x7e00 \<le> unat x) \<and> (unat x < 0xb8000 \<or> 0xc0000 \<le> unat x) \<and> unat x \<noteq> 0x450 \<and> unat x \<noteq> 0x451 \<longrightarrow>
        mem_bytes (mem (sys b')) x = mem_bytes (mem (sys b1)) x"
    using sd_init_boot [of b1] b1(2) assms(3) by auto
  have "\<forall>x. unat x < 0x400 \<longrightarrow> mem_bytes (mem (sys b')) x = mem_bytes m x"
    using b'(6) b1(1) by (auto simp: keeps_def)
  then have "\<forall>k < 256. vector_at (mem (sys b')) k = ?v k" using m(2) vector_at_cong by metis
  then show ?thesis using root b'(1-5) by (intro exI [of _ b']) simp
qed

theorem firmware_starts_witness:
  "\<exists>b'. root [(0x10, 0x1234), (0x13, 0x5678)] 0x1111 0x2222 (c_str ''BIOS'') 8 True (demo_bios (replicate 512 0xea)) = Some b' \<and>
     rget (sys b') CS = 0 \<and> rget (sys b') IP = 0x7c00 \<and> fst (vector_at (mem (sys b')) 0x13) = Some 0x5678 \<and>
     fst (vector_at (mem (sys b')) 0x21) = Some 0x1111 \<and> fst (vector_at (mem (sys b')) 0x1d) = Some 0x2222"
proof -
  let ?b = "demo_bios (replicate 512 0xea)"
  have h1: "card_ready ?b" by (simp add: card_ready_def) (simp add: demo_bios_def SPI_new_def ready_def XFER_BUF_SIZE_def)
  have h2: "\<not> serial_stdio ?b" by (simp add: demo_bios_def)
  have h3: "512 \<le> length (image_of ?b)" by (simp add: image_of_def demo_bios_def SPI_new_def)
  have h4: "\<forall>(n, h) \<in> set [(0x10 :: u16, 0x1234 :: u16), (0x13, 0x5678)]. unat n < 256" by simp
  obtain b' where "root [(0x10, 0x1234), (0x13, 0x5678)] 0x1111 0x2222 (c_str ''BIOS'') 8 True ?b = Some b'"
      "rget (sys b') CS = 0" "rget (sys b') IP = 0x7c00"
      "\<forall>k < 256. vector_at (mem (sys b')) k = (Some (if k = 0x1d then 0x2222 else
        case map_of (rev [(0x10 :: u16, 0x1234), (0x13, 0x5678)]) (of_nat k) of None \<Rightarrow> 0x1111 | Some h \<Rightarrow> h), Some (get_cs ?b))"
    using firmware_starts [OF h1 h2 h3 h4, of "0x1111" "0x2222" "c_str ''BIOS''" 8 True] by blast
  then show ?thesis by (intro exI [of _ b']) simp
qed

end
