(* ===== verification/Snapshot.thy ===== *)
theory Snapshot
  imports Simulator
begin

text \<open>
  Snapshots of the simulator: the \<open>serialize\<close> methods of the devices and of \<open>Simulator\<close>, and the use of them in \<open>run_sim\<close>. An archive is
  the sequence of the values written to it; reading it back gives the same values in the same order, which is what the
  serialization library promises. The pointer to the memory that the adapter writes is restored by the library to the
  memory of the CPU, which precedes it in the archive.
\<close>

section \<open>Devices\<close>

type_synonym PIC_archive = "PIC_State \<times> CommandReadMode \<times> u8 \<times> u8 \<times> u8 \<times> u8"

definition PIC_save :: "PIC \<Rightarrow> PIC_archive" where
  "PIC_save p = (pic_state p, command_read_mode p, vector_address p, pic_mask p, isr p, irr p)"

definition PIC_load :: "PIC \<Rightarrow> PIC_archive \<Rightarrow> PIC" where
  "PIC_load p = (\<lambda>(st, crm, va, msk, is, ir).
     p\<lparr>pic_state := st, command_read_mode := crm, vector_address := va, pic_mask := msk, isr := is, irr := ir\<rparr>)"

definition UART_save :: "UART \<Rightarrow> u8 list" where
  "UART_save u = charbuf u"

definition UART_load :: "UART \<Rightarrow> u8 list \<Rightarrow> UART" where
  "UART_load u cs = u\<lparr>charbuf := cs\<rparr>"

type_synonym SPI_archive = "u16 \<times> u8 \<times> SPIState \<times> u8 list \<times> u8 list \<times> bool \<times> u32"

definition SPI_save :: "SPI \<Rightarrow> SPI_archive" where
  "SPI_save s = (control_reg s, rx_val s, spi_state s, mosi_buf s, miso_buf s, do_write s, write_count s)"

definition SPI_load :: "SPI \<Rightarrow> SPI_archive \<Rightarrow> SPI" where
  "SPI_load s = (\<lambda>(cr, rx, st, mosi, miso, dw, wc).
     s\<lparr>control_reg := cr, rx_val := rx, spi_state := st, mosi_buf := mosi, miso_buf := miso, do_write := dw, write_count := wc\<rparr>)"

type_synonym Timer_archive = "u8 \<times> u8 \<times> bool \<times> u16 \<times> bool \<times> u16 \<times> u32 \<times> bool"

definition TimerTick_save :: "TimerTick \<Rightarrow> Timer_archive" where
  "TimerTick_save t = (access t, operating_mode t, latched t, latched_val t, access_low t, reload t, count t, enabled t)"

definition TimerTick_load :: "TimerTick \<Rightarrow> Timer_archive \<Rightarrow> TimerTick" where
  "TimerTick_load t = (\<lambda>(ac, om, la, lv, al, rl, cn, en).
     t\<lparr>access := ac, operating_mode := om, latched := la, latched_val := lv, access_low := al, reload := rl, count := cn, enabled := en\<rparr>)"

text \<open>\<open>CGA::serialize\<close> runs for saving and for loading and sets the palette of the display in both.\<close>

type_synonym CGA_archive = "u8 \<times> (u8 \<Rightarrow> u8) \<times> u8 \<times> u8 \<times> u8 \<times> GraphicsPalette \<times> u8 \<times> u8"

definition CGA_palette :: "CGA \<Rightarrow> CGA" where
  "CGA_palette c = (if is_graphics_256 c then c\<lparr>display := set_graphics_palette (display c) (dac_palette c)\<rparr> else c)"

definition CGA_save :: "CGA \<Rightarrow> CGA_archive \<times> CGA" where
  "CGA_save c = ((reg_idx c, idx_regs c, cga_status c, mode_reg c, attribute_mode_control c, dac_palette c, dac_wr_sel c, dac_seq c), CGA_palette c)"

definition CGA_load :: "CGA \<Rightarrow> CGA_archive \<Rightarrow> CGA" where
  "CGA_load c = (\<lambda>(ri, ir, st, mr, amc, dac, ws, sq). CGA_palette
     (c\<lparr>reg_idx := ri, idx_regs := ir, cga_status := st, mode_reg := mr, attribute_mode_control := amc, dac_palette := dac,
        dac_wr_sel := ws, dac_seq := sq\<rparr>))"

section \<open>The simulator\<close>

record Simulator_archive =
  sa_cpu :: SimCPU_archive
  sa_uart :: "u8 list"
  sa_spi :: SPI_archive
  sa_timer :: Timer_archive
  sa_cga :: CGA_archive
  sa_pic :: PIC_archive
  sa_last_cycle :: u64

definition Simulator_save :: "sim \<Rightarrow> Simulator_archive \<times> sim" where
  "Simulator_save c =
     (let d = devs (emulator c); (g, cg) = CGA_save (cga d)
      in (\<lparr>sa_cpu = SimCPU_save c, sa_uart = UART_save (uart d), sa_spi = SPI_save (spi d), sa_timer = TimerTick_save (timer d),
           sa_cga = g, sa_pic = PIC_save (pic d), sa_last_cycle = last_cycle d\<rparr>,
          c\<lparr>emulator := (emulator c)\<lparr>devs := d\<lparr>cga := cg\<rparr>\<rparr>\<rparr>))"

definition Simulator_load :: "sim \<Rightarrow> Simulator_archive \<Rightarrow> sim" where
  "Simulator_load c ar =
     (let c = SimCPU_load c (sa_cpu ar); d = devs (emulator c)
      in c\<lparr>emulator := (emulator c)\<lparr>devs := d\<lparr>uart := UART_load (uart d) (sa_uart ar), spi := SPI_load (spi d) (sa_spi ar),
           timer := TimerTick_load (timer d) (sa_timer ar), cga := CGA_load (cga d) (sa_cga ar), pic := PIC_load (pic d) (sa_pic ar),
           last_cycle := sa_last_cycle ar\<rparr>\<rparr>\<rparr>)"

text \<open>
  \<open>run_sim\<close>: restoring into the simulator just constructed when a file was given, running, and the snapshot when there is a file
  to save to.
\<close>

definition run_sim :: "sim \<Rightarrow> bool \<Rightarrow> bool \<Rightarrow> Simulator_archive option \<Rightarrow> host_input list \<Rightarrow> (Simulator_archive option \<times> sim) option" where
  "run_sim sim detached save restore hs = do {
     let sim = (case restore of None \<Rightarrow> sim | Some ar \<Rightarrow> Simulator_load sim ar);
     sim \<leftarrow> run detached hs sim;
     Some (if save then (let (ar, sim) = Simulator_save sim in (Some ar, sim)) else (None, sim))
   }"

section \<open>What a snapshot restores\<close>

lemma device_save_load:
  "PIC_load p (PIC_save q) = q" "UART_load u (UART_save v) = u\<lparr>charbuf := charbuf v\<rparr>"
  "SPI_load s (SPI_save t) = t\<lparr>disk_image := disk_image s\<rparr>" "TimerTick_load x (TimerTick_save y) = y"
  by (simp_all add: PIC_load_def PIC_save_def UART_load_def UART_save_def SPI_load_def SPI_save_def TimerTick_load_def TimerTick_save_def)

lemma cga_save_load:
  "CGA_load c (fst (CGA_save e)) = e\<lparr>status_reads := status_reads c, display :=
     (if is_graphics_256 e then set_graphics_palette (display c) (dac_palette e) else display c)\<rparr>"
  by (simp add: CGA_load_def CGA_save_def CGA_palette_def is_graphics_256_def)

lemma Simulator_load_save:
  "Simulator_load d (fst (Simulator_save c)) =
     (let r = SimCPU_load d (SimCPU_save c); x = devs (emulator c); y = devs (emulator d) in
      r\<lparr>emulator := (emulator r)\<lparr>devs := y\<lparr>uart := (uart y)\<lparr>charbuf := charbuf (uart x)\<rparr>, spi := (spi x)\<lparr>disk_image := disk_image (spi y)\<rparr>,
        timer := timer x, cga := CGA_load (cga y) (fst (CGA_save (cga x))), pic := pic x, last_cycle := last_cycle x\<rparr>\<rparr>\<rparr>)"
  by (simp add: Simulator_load_def Simulator_save_def device_save_load SimCPU_load_def write_regs_fold write_flags_def case_prod_beta Let_def)



end
