(* ===== verification/VerilogDriver.thy ===== *)
theory VerilogDriver
  imports Prelude
begin

text \<open>
  The driver that clocks a design compiled by Verilator (tests/rtl/VerilogDriver.h). The template parameter, the class of the design, is
  the record \<open>dut_class\<close> of the members the driver uses. A closure handed to the driver is a value of a type \<open>'e\<close>,
  and \<open>run :: 'e \<Rightarrow> 's \<Rightarrow> 's option\<close> says what calling it does to the whole object, since the driver is the base
  class of the object the closures capture: the operations work on any extension of the record \<open>VerilogDriver\<close>.
  Waveform and coverage files, and the two counters that only time stamps are made of, are left out.
\<close>

datatype PeriodicEventType = ClockCapture | ClockSetup

definition evals_per_cycle :: nat where "evals_per_cycle = 10"
definition max_deferred_delta :: nat where "max_deferred_delta = 64"

record 't dut_class =
  get_clk :: "'t \<Rightarrow> bool"
  set_clk :: "bool \<Rightarrow> 't \<Rightarrow> 't"
  get_reset :: "'t \<Rightarrow> bool"
  set_reset :: "bool \<Rightarrow> 't \<Rightarrow> 't"
  eval :: "'t \<Rightarrow> 't"

record ('t, 'e) VerilogDriver =
  dut :: 't
  drv_cycle_num :: u64
  deferred_events :: "nat \<Rightarrow> 'e list"
  periodic_events :: "PeriodicEventType \<Rightarrow> 'e list"

definition VerilogDriver_new :: "'t dut_class \<Rightarrow> 't \<Rightarrow> ('t, 'e) VerilogDriver" where
  "VerilogDriver_new T d =
     \<lparr>dut = set_clk T False (set_reset T False d), drv_cycle_num = 0, deferred_events = (\<lambda>_. []), periodic_events = (\<lambda>_. [])\<rparr>"

definition at_cycle :: "u64 \<Rightarrow> 'e \<Rightarrow> ('t, 'e, 's) VerilogDriver_scheme \<Rightarrow> ('t, 'e, 's) VerilogDriver_scheme option" where
  "at_cycle target_cycle_num cb s =
     (if target_cycle_num \<ge> drv_cycle_num s \<and> target_cycle_num < drv_cycle_num s + of_nat max_deferred_delta
      then let target = unat (target_cycle_num mod of_nat max_deferred_delta)
           in Some (s\<lparr>deferred_events := (deferred_events s)(target := deferred_events s target @ [cb])\<rparr>)
      else None)"

definition after_n_cycles :: "u64 \<Rightarrow> 'e \<Rightarrow> ('t, 'e, 's) VerilogDriver_scheme \<Rightarrow> ('t, 'e, 's) VerilogDriver_scheme option" where
  "after_n_cycles delta cb s = at_cycle (drv_cycle_num s + delta) cb s"

definition periodic :: "PeriodicEventType \<Rightarrow> 'e \<Rightarrow> ('t, 'e, 's) VerilogDriver_scheme \<Rightarrow> ('t, 'e, 's) VerilogDriver_scheme" where
  "periodic edge_type fn s = s\<lparr>periodic_events := (periodic_events s)(edge_type := periodic_events s edge_type @ [fn])\<rparr>"

fun run_events :: "('e \<Rightarrow> 's \<Rightarrow> 's option) \<Rightarrow> 'e list \<Rightarrow> 's \<Rightarrow> 's option" where
  "run_events run [] s = Some s"
| "run_events run (e # es) s = run e s \<bind> run_events run es"

definition run_periodic_events :: "('e \<Rightarrow> ('t, 'e, 's) VerilogDriver_scheme \<Rightarrow> ('t, 'e, 's) VerilogDriver_scheme option)
    \<Rightarrow> PeriodicEventType \<Rightarrow> ('t, 'e, 's) VerilogDriver_scheme \<Rightarrow> ('t, 'e, 's) VerilogDriver_scheme option" where
  "run_periodic_events run edge_type s = run_events run (periodic_events s edge_type) s"

text \<open>The list of the cycle is taken out before its events run: one that an event adds to it runs when the ring comes round.\<close>

definition run_deferred_events :: "('e \<Rightarrow> ('t, 'e, 's) VerilogDriver_scheme \<Rightarrow> ('t, 'e, 's) VerilogDriver_scheme option)
    \<Rightarrow> ('t, 'e, 's) VerilogDriver_scheme \<Rightarrow> ('t, 'e, 's) VerilogDriver_scheme option" where
  "run_deferred_events run s =
     (let idx = unat (drv_cycle_num s mod of_nat max_deferred_delta);
          events = deferred_events s idx
      in run_events run events (s\<lparr>deferred_events := (deferred_events s)(idx := [])\<rparr>))"

definition dut_eval :: "'t dut_class \<Rightarrow> ('t, 'e, 's) VerilogDriver_scheme \<Rightarrow> ('t, 'e, 's) VerilogDriver_scheme" where
  "dut_eval T s = s\<lparr>dut := eval T (dut s)\<rparr>"

definition toggle_clk :: "'t dut_class \<Rightarrow> ('t, 'e, 's) VerilogDriver_scheme \<Rightarrow> ('t, 'e, 's) VerilogDriver_scheme" where
  "toggle_clk T s = s\<lparr>dut := set_clk T (\<not> get_clk T (dut s)) (dut s)\<rparr>"

definition cycle_part :: "'t dut_class \<Rightarrow> ('e \<Rightarrow> ('t, 'e, 's) VerilogDriver_scheme \<Rightarrow> ('t, 'e, 's) VerilogDriver_scheme option)
    \<Rightarrow> nat \<Rightarrow> ('t, 'e, 's) VerilogDriver_scheme \<Rightarrow> ('t, 'e, 's) VerilogDriver_scheme option" where
  "cycle_part T run j s =
     (if j = 0 then do {
        s \<leftarrow> run_periodic_events run ClockSetup s;
        s \<leftarrow> run_deferred_events run (dut_eval T (toggle_clk T s));
        run_periodic_events run ClockCapture (dut_eval T s)
      } else if j = evals_per_cycle div 2 then Some (dut_eval T (toggle_clk T s))
      else Some (dut_eval T s))"

definition cycle1 :: "'t dut_class \<Rightarrow> ('e \<Rightarrow> ('t, 'e, 's) VerilogDriver_scheme \<Rightarrow> ('t, 'e, 's) VerilogDriver_scheme option)
    \<Rightarrow> ('t, 'e, 's) VerilogDriver_scheme \<Rightarrow> ('t, 'e, 's) VerilogDriver_scheme option" where
  "cycle1 T run s = do {
     s \<leftarrow> run_events (cycle_part T run) [0..<evals_per_cycle] s;
     Some (s\<lparr>drv_cycle_num := drv_cycle_num s + 1\<rparr>)
   }"

fun cycle :: "'t dut_class \<Rightarrow> ('e \<Rightarrow> ('t, 'e, 's) VerilogDriver_scheme \<Rightarrow> ('t, 'e, 's) VerilogDriver_scheme option)
    \<Rightarrow> nat \<Rightarrow> ('t, 'e, 's) VerilogDriver_scheme \<Rightarrow> ('t, 'e, 's) VerilogDriver_scheme option" where
  "cycle T run 0 s = Some s"
| "cycle T run (Suc n) s = cycle1 T run s \<bind> cycle T run n"

partial_function (option) cycle_while :: "('s \<Rightarrow> 's option) \<Rightarrow> ('s \<Rightarrow> bool) \<Rightarrow> 's \<Rightarrow> 's option" where
  "cycle_while cyc b s = (if b s then do { s \<leftarrow> cyc s; cycle_while cyc b s } else Some s)"

text \<open>\<open>reset\<close>; \<open>end_event\<close> is the closure that releases the reset line.\<close>

definition driver_reset :: "'t dut_class \<Rightarrow> ('e \<Rightarrow> ('t, 'e, 's) VerilogDriver_scheme \<Rightarrow> ('t, 'e, 's) VerilogDriver_scheme option)
    \<Rightarrow> 'e \<Rightarrow> nat \<Rightarrow> ('t, 'e, 's) VerilogDriver_scheme \<Rightarrow> ('t, 'e, 's) VerilogDriver_scheme option" where
  "driver_reset T run end_event count s = do {
     let s = s\<lparr>dut := set_reset T True (dut s)\<rparr>;
     s \<leftarrow> after_n_cycles (of_nat count) end_event s;
     s \<leftarrow> cycle1 T run s;
     cycle_while (cycle1 T run) (\<lambda>s. get_reset T (dut s)) s
   }"

end
