(* ===== verification/RTLCPU.thy ===== *)
theory RTLCPU
  imports VerilogDriver RegisterFile Memory IOPorts
begin

text \<open>
  The RTL backend (sim/RTLCPU/Core.cpp and RTLCPU.h): the CPU interface over the processor of rtl/, compiled to C++ by Verilator.
  The compiled design is a parameter, the record \<open>Verilated\<close>: \<open>eval\<close> as a function of the input pins and the internal
  state (of any type \<open>'v\<close>), and the functions the design exports. The pins are those of RTLCPU.sv at their widths.

  The closures that Core.cpp hands to the driver are the values of \<open>event\<close>, with \<open>run_event\<close> as their bodies; the variables
  they capture by reference are alive and unchanged when they run. The loops that wait for the design are partial: a design that never
  answers makes them \<^term>\<open>None\<close>.
\<close>

section \<open>The design\<close>

record VRTLCPU_in =
  pin_clk :: bool
  pin_reset :: bool
  pin_nmi :: bool
  pin_intr :: bool
  pin_irq :: u8
  q_m_data_in :: u16
  q_m_ack :: bool
  io_m_data_in :: u16
  io_m_ack :: bool
  debug_seize :: bool
  debug_addr :: u8
  debug_run :: bool
  debug_wr_val :: u16
  debug_wr_en :: bool
  cache_enabled :: bool

record VRTLCPU_out =
  pin_inta :: bool
  q_m_addr :: "19 word"
  q_m_data_out :: u16
  q_m_access :: bool
  q_m_wr_en :: bool
  q_m_bytesel :: "2 word"
  io_m_addr :: "15 word"
  io_m_data_out :: u16
  io_m_access :: bool
  io_m_wr_en :: bool
  io_m_bytesel :: "2 word"
  d_io :: bool
  debug_stopped :: bool
  debug_val :: u16

record 'v VRTLCPU =
  dut_in :: VRTLCPU_in
  dut_out :: VRTLCPU_out
  dut_core :: 'v

record 'v Verilated =
  core_eval :: "VRTLCPU_in \<Rightarrow> 'v \<Rightarrow> VRTLCPU_out \<times> 'v"
  core_microcode_address :: "'v \<Rightarrow> u16"
  core_ext_int_yield :: "'v \<Rightarrow> bool"
  core_instr_length :: "'v \<Rightarrow> u32 \<times> 'v"

definition VRTLCPU_eval :: "'v Verilated \<Rightarrow> 'v VRTLCPU \<Rightarrow> 'v VRTLCPU" where
  "VRTLCPU_eval V d = (let (outs, c) = core_eval V (dut_in d) (dut_core d) in d\<lparr>dut_out := outs, dut_core := c\<rparr>)"

definition VRTLCPU_class :: "'v Verilated \<Rightarrow> 'v VRTLCPU dut_class" where
  "VRTLCPU_class V =
     \<lparr>get_clk = (\<lambda>d. pin_clk (dut_in d)), set_clk = (\<lambda>b d. d\<lparr>dut_in := (dut_in d)\<lparr>pin_clk := b\<rparr>\<rparr>),
      get_reset = (\<lambda>d. pin_reset (dut_in d)), set_reset = (\<lambda>b d. d\<lparr>dut_in := (dut_in d)\<lparr>pin_reset := b\<rparr>\<rparr>),
      eval = VRTLCPU_eval V\<rparr>"

section \<open>State\<close>

datatype event =
    Mem_access | Io_access | Mem_write | Io_write | Copy_stopped | Raise_intr | End_int
  | Mem_read | Mem_ack | Mem_done | Io_read | Io_ack | Io_done
  | Run u32 | Run_end | Detach | Write_data u16 | Write_data_end | Nmi | Nmi_end | Reset_end

record ('v, 'd) RTLCPU = "('v VRTLCPU, event) VerilogDriver" +
  rtl_mem :: Memory
  rtl_inta_handler :: "int \<Rightarrow> (unit, 'd) io_op"
  rtl_devs :: 'd
  mem_in_progress :: bool
  io_in_progress :: bool
  mem_latency :: nat
  is_stopped :: bool
  rtl_io :: "u16 \<rightharpoonup> 'd IOPorts"
  rtl_pending_irq :: u8
  int_in_progress :: bool

definition set_in :: "(VRTLCPU_in \<Rightarrow> VRTLCPU_in) \<Rightarrow> ('v, 'd) RTLCPU \<Rightarrow> ('v, 'd) RTLCPU" where
  "set_in f s = s\<lparr>dut := (dut s)\<lparr>dut_in := f (dut_in (dut s))\<rparr>\<rparr>"

abbreviation ins :: "('v, 'd) RTLCPU \<Rightarrow> VRTLCPU_in" where "ins s \<equiv> dut_in (dut s)"
abbreviation outs :: "('v, 'd) RTLCPU \<Rightarrow> VRTLCPU_out" where "outs s \<equiv> dut_out (dut s)"

definition RTLCPU_raise_irq :: "('v, 'd) RTLCPU \<Rightarrow> int \<Rightarrow> ('v, 'd) RTLCPU" where
  "RTLCPU_raise_irq s irq_num = s\<lparr>rtl_pending_irq := of_int irq_num\<rparr>"

text \<open>A call into the devices, with the interrupts they raise.\<close>

definition dev_call :: "('a, 'd) io_op \<Rightarrow> ('v, 'd) RTLCPU \<Rightarrow> ('a \<times> ('v, 'd) RTLCPU) option" where
  "dev_call f s = do {
     (v, d, irqs) \<leftarrow> f (rtl_devs s);
     Some (v, foldl RTLCPU_raise_irq (s\<lparr>rtl_devs := d\<rparr>) irqs)
   }"

definition RTLCPU_ack_int :: "int \<Rightarrow> ('v, 'd) RTLCPU \<Rightarrow> ('v, 'd) RTLCPU option" where
  "RTLCPU_ack_int irq_num s = map_option snd (dev_call (rtl_inta_handler s irq_num) s)"

section \<open>The closures\<close>

definition RTLCPU_mem_access :: "('v, 'd) RTLCPU \<Rightarrow> ('v, 'd) RTLCPU option" where
  "RTLCPU_mem_access s =
     (if pin_reset (ins s) \<or> \<not> q_m_access (outs s) \<or> d_io (outs s) \<or> mem_in_progress s then Some s
      else do {
        s \<leftarrow> after_n_cycles 0 Mem_read s;
        after_n_cycles (of_nat (mem_latency s)) Mem_ack (s\<lparr>mem_in_progress := True\<rparr>)
      })"

definition RTLCPU_io_access :: "('v, 'd) RTLCPU \<Rightarrow> ('v, 'd) RTLCPU option" where
  "RTLCPU_io_access s =
     (if pin_reset (ins s) \<or> \<not> io_m_access (outs s) \<or> \<not> d_io (outs s) \<or> io_in_progress s then Some s
      else do {
        s \<leftarrow> after_n_cycles 0 Io_read s;
        after_n_cycles (of_nat (mem_latency s)) Io_ack (s\<lparr>io_in_progress := True\<rparr>)
      })"

text \<open>The byte address of the word on the memory bus, and the port address on the I/O bus.\<close>

definition bus_addr :: "VRTLCPU_out \<Rightarrow> u32" where
  "bus_addr p = push_bit 1 (ucast (q_m_addr p))"

definition io_addr :: "VRTLCPU_out \<Rightarrow> u16" where
  "io_addr p = push_bit 1 (ucast (io_m_addr p))"

definition mem_read_event :: "('v, 'd) RTLCPU \<Rightarrow> ('v, 'd) RTLCPU option" where
  "mem_read_event s = do {
     v \<leftarrow> mem_read16 (rtl_mem s) (bus_addr (outs s));
     Some (set_in (\<lambda>p. p\<lparr>q_m_data_in := v\<rparr>) s)
   }"

definition mem_write_event :: "('v, 'd) RTLCPU \<Rightarrow> ('v, 'd) RTLCPU option" where
  "mem_write_event s =
     (let p = outs s in
      if q_m_access p \<and> \<not> d_io p \<and> q_m_wr_en p then do {
        m \<leftarrow> (if q_m_bytesel p AND push_bit 0 1 \<noteq> 0 then mem_write8 (rtl_mem s) (bus_addr p) (ucast (q_m_data_out p AND 0xff)) else Some (rtl_mem s));
        m \<leftarrow> (if q_m_bytesel p AND push_bit 1 1 \<noteq> 0
              then mem_write8 m (bus_addr p + 1) (ucast (drop_bit 8 (q_m_data_out p) AND 0xff)) else Some m);
        Some (s\<lparr>rtl_mem := m\<rparr>)
      } else Some s)"

definition io_read_event :: "('v, 'd) RTLCPU \<Rightarrow> ('v, 'd) RTLCPU option" where
  "io_read_event s =
     (let p = outs s; addr = io_addr p in
      if io_m_wr_en p then Some (set_in (\<lambda>p. p\<lparr>io_m_data_in := 0\<rparr>) s)
      else case rtl_io s addr of
        None \<Rightarrow> Some (set_in (\<lambda>p. p\<lparr>io_m_data_in := 0\<rparr>) s)
      | Some q \<Rightarrow>
          if io_m_bytesel p = 0x3 then do {
            (v, s) \<leftarrow> dev_call (io_read16 q (addr - port_base q)) s;
            Some (set_in (\<lambda>p. p\<lparr>io_m_data_in := v\<rparr>) s)
          } else if io_m_bytesel p AND 0x1 \<noteq> 0 then do {
            (v, s) \<leftarrow> dev_call (io_read8 q (addr - port_base q) 0) s;
            Some (set_in (\<lambda>p. p\<lparr>io_m_data_in := ucast v\<rparr>) s)
          } else if io_m_bytesel p AND 0x2 \<noteq> 0 then do {
            (v, s) \<leftarrow> dev_call (io_read8 q (addr - port_base q) 1) s;
            Some (set_in (\<lambda>p. p\<lparr>io_m_data_in := push_bit 8 (ucast v)\<rparr>) s)
          } else Some s)"

definition io_write_event :: "('v, 'd) RTLCPU \<Rightarrow> ('v, 'd) RTLCPU option" where
  "io_write_event s =
     (let p = outs s; addr = io_addr p in
      if io_m_access p \<and> d_io p \<and> io_m_wr_en p \<and> \<not> io_in_progress s then
        case rtl_io s addr of
          None \<Rightarrow> Some s
        | Some q \<Rightarrow>
            if io_m_bytesel p = 0x3 then map_option snd (dev_call (io_write16 q (addr - port_base q) (io_m_data_out p)) s)
            else if io_m_bytesel p AND push_bit 0 1 \<noteq> 0 then
              map_option snd (dev_call (io_write8 q (addr - port_base q) 0 (ucast (io_m_data_out p))) s)
            else if io_m_bytesel p AND push_bit 1 1 \<noteq> 0 then
              map_option snd (dev_call (io_write8 q (addr - port_base q) 1 (ucast (drop_bit 8 (io_m_data_out p)))) s)
            else Some s
      else Some s)"

definition raise_intr :: "('v, 'd) RTLCPU \<Rightarrow> ('v, 'd) RTLCPU option" where
  "raise_intr s =
     (if int_in_progress s \<or> rtl_pending_irq s = 0 then Some (set_in (\<lambda>p. p\<lparr>pin_intr := False\<rparr>) s)
      else if pin_inta (outs s) then
        let irq_num = rtl_pending_irq s in RTLCPU_ack_int (uint irq_num) (s\<lparr>rtl_pending_irq := 0\<rparr>)
      else Some (set_in (\<lambda>p. p\<lparr>pin_intr := True, pin_irq := rtl_pending_irq s\<rparr>) s))"

fun run_event :: "event \<Rightarrow> ('v, 'd) RTLCPU \<Rightarrow> ('v, 'd) RTLCPU option" where
  "run_event Mem_access s = RTLCPU_mem_access s"
| "run_event Io_access s = RTLCPU_io_access s"
| "run_event Mem_write s = mem_write_event s"
| "run_event Io_write s = io_write_event s"
| "run_event Copy_stopped s = Some (s\<lparr>is_stopped := debug_stopped (outs s)\<rparr>)"
| "run_event Raise_intr s = raise_intr s"
| "run_event End_int s = Some (if pin_inta (outs s) then s\<lparr>int_in_progress := False\<rparr> else s)"
| "run_event Mem_read s = mem_read_event s"
| "run_event Mem_ack s = after_n_cycles 1 Mem_done (set_in (\<lambda>p. p\<lparr>q_m_ack := True\<rparr>) s)"
| "run_event Mem_done s = Some ((set_in (\<lambda>p. p\<lparr>q_m_ack := False\<rparr>) s)\<lparr>mem_in_progress := False\<rparr>)"
| "run_event Io_read s = io_read_event s"
| "run_event Io_ack s = after_n_cycles 1 Io_done (set_in (\<lambda>p. p\<lparr>io_m_ack := True\<rparr>) s)"
| "run_event Io_done s = Some ((set_in (\<lambda>p. p\<lparr>io_m_ack := False\<rparr>) s)\<lparr>io_in_progress := False\<rparr>)"
| "run_event (Run addr) s = after_n_cycles 1 Run_end (set_in (\<lambda>p. p\<lparr>debug_addr := ucast addr, debug_run := True\<rparr>) s)"
| "run_event Run_end s = Some (set_in (\<lambda>p. p\<lparr>debug_run := False\<rparr>) s)"
| "run_event Detach s = after_n_cycles 1 Run_end (set_in (\<lambda>p. p\<lparr>debug_seize := False, debug_addr := 0, debug_run := True\<rparr>) s)"
| "run_event (Write_data val) s = after_n_cycles 1 Write_data_end (set_in (\<lambda>p. p\<lparr>debug_wr_en := True, debug_wr_val := val\<rparr>) s)"
| "run_event Write_data_end s = Some (set_in (\<lambda>p. p\<lparr>debug_wr_en := False\<rparr>) s)"
| "run_event Nmi s = after_n_cycles 1 Nmi_end (set_in (\<lambda>p. p\<lparr>pin_nmi := True\<rparr>) s)"
| "run_event Nmi_end s = Some (set_in (\<lambda>p. p\<lparr>pin_nmi := False\<rparr>) s)"
| "run_event Reset_end s = Some (set_in (\<lambda>p. p\<lparr>pin_reset := False\<rparr>) s)"

definition RTLCPU_cycle :: "'v Verilated \<Rightarrow> ('v, 'd) RTLCPU \<Rightarrow> ('v, 'd) RTLCPU option" where
  "RTLCPU_cycle V s = cycle1 (VRTLCPU_class V) run_event s"

section \<open>Running\<close>

definition get_microcode_address :: "'v Verilated \<Rightarrow> ('v, 'd) RTLCPU \<Rightarrow> u16" where
  "get_microcode_address V s = core_microcode_address V (dut_core (dut s))"

definition int_yield_ready :: "'v Verilated \<Rightarrow> ('v, 'd) RTLCPU \<Rightarrow> bool" where
  "int_yield_ready V s = core_ext_int_yield V (dut_core (dut s))"

definition get_and_clear_instr_length :: "'v Verilated \<Rightarrow> ('v, 'd) RTLCPU \<Rightarrow> u64 \<times> ('v, 'd) RTLCPU" where
  "get_and_clear_instr_length V s = (let (n, c) = core_instr_length V (dut_core (dut s)) in (scast n, s\<lparr>dut := (dut s)\<lparr>dut_core := c\<rparr>\<rparr>))"

definition null_io :: "u64 \<Rightarrow> (unit, 'd) io_op" where
  "null_io v d = Some ((), d, [])"

definition max_cycles_per_step :: nat where "max_cycles_per_step = 100000000"

text \<open>
  The second loop of \<open>debug_run_proc\<close>, with its counter. The counter is an \<open>int\<close>; a count beyond its range is far above the limit, which
  makes the call fail in any case.
\<close>

partial_function (option) run_to_stop :: "'v Verilated \<Rightarrow> (u64 \<Rightarrow> (unit, 'd) io_op) \<Rightarrow> nat \<Rightarrow> ('v, 'd) RTLCPU
    \<Rightarrow> (nat \<times> ('v, 'd) RTLCPU) option" where
  "run_to_stop V io_callback cycle_count s =
     (if is_stopped s then Some (cycle_count, s)
      else do {
        s \<leftarrow> RTLCPU_cycle V s;
        let addr = get_microcode_address V s;
        let cycle_count = (if addr \<noteq> 0x100 \<and> addr \<noteq> 0x102 then cycle_count + 1 else cycle_count);
        (_, s) \<leftarrow> dev_call (io_callback (drv_cycle_num s)) s;
        run_to_stop V io_callback cycle_count s
      })"

definition debug_run_proc :: "'v Verilated \<Rightarrow> u32 \<Rightarrow> (u64 \<Rightarrow> (unit, 'd) io_op) \<Rightarrow> ('v, 'd) RTLCPU \<Rightarrow> (nat \<times> ('v, 'd) RTLCPU) option" where
  "debug_run_proc V addr io_callback s = do {
     s \<leftarrow> after_n_cycles 0 (Run addr) s;
     s \<leftarrow> cycle_while (RTLCPU_cycle V) is_stopped s;
     (cycle_count, s) \<leftarrow> run_to_stop V io_callback 0 s;
     if cycle_count \<ge> max_cycles_per_step then None else Some (cycle_count, s)
   }"

definition run_proc :: "'v Verilated \<Rightarrow> u32 \<Rightarrow> ('v, 'd) RTLCPU \<Rightarrow> ('v, 'd) RTLCPU option" where
  "run_proc V addr s = map_option snd (debug_run_proc V addr null_io s)"

definition enable_cache :: "('v, 'd) RTLCPU \<Rightarrow> ('v, 'd) RTLCPU" where
  "enable_cache s = set_in (\<lambda>p. p\<lparr>cache_enabled := True\<rparr>) s"

definition debug_step :: "'v Verilated \<Rightarrow> (u64 \<Rightarrow> (unit, 'd) io_op) \<Rightarrow> ('v, 'd) RTLCPU \<Rightarrow> (nat \<times> ('v, 'd) RTLCPU) option" where
  "debug_step V io_callback s = (if is_stopped s then debug_run_proc V 0x00 io_callback s else None)"

definition RTLCPU_debug_detach :: "('v, 'd) RTLCPU \<Rightarrow> ('v, 'd) RTLCPU option" where
  "RTLCPU_debug_detach s = after_n_cycles 0 Detach s"

definition start_instruction :: "'v Verilated \<Rightarrow> ('v, 'd) RTLCPU \<Rightarrow> ('v, 'd) RTLCPU option" where
  "start_instruction V s =
     (if is_stopped s then do {
        s \<leftarrow> cycle (VRTLCPU_class V) run_event ((mem_latency s + 1) * 128) s;
        s \<leftarrow> after_n_cycles 0 (Run 0) s;
        cycle_while (RTLCPU_cycle V) is_stopped s
      } else None)"

definition complete_instruction :: "'v Verilated \<Rightarrow> ('v, 'd) RTLCPU \<Rightarrow> ('v, 'd) RTLCPU option" where
  "complete_instruction V s = cycle_while (RTLCPU_cycle V) (\<lambda>s. \<not> is_stopped s) s"

definition RTLCPU_reset :: "'v Verilated \<Rightarrow> ('v, 'd) RTLCPU \<Rightarrow> ('v, 'd) RTLCPU option" where
  "RTLCPU_reset V s = do {
     let s = set_in (\<lambda>p. p\<lparr>pin_nmi := False, pin_intr := False\<rparr>) s;
     let s = s\<lparr>rtl_pending_irq := 0, int_in_progress := False\<rparr>;
     s \<leftarrow> driver_reset (VRTLCPU_class V) run_event Reset_end 2 s;
     cycle_while (RTLCPU_cycle V) (\<lambda>s. get_microcode_address V s \<noteq> 0x102) s
   }"

text \<open>
  The constructor: \<open>d\<close> is the design as its own constructor leaves it, \<open>w\<close>, \<open>irq\<close> and \<open>inp\<close> the members without an initial value. The closures
  are registered after the reset.
\<close>

definition RTLCPU_new :: "'v Verilated \<Rightarrow> 'v VRTLCPU \<Rightarrow> 'd \<Rightarrow> bool \<Rightarrow> u8 \<Rightarrow> bool \<Rightarrow> ('v, 'd) RTLCPU option" where
  "RTLCPU_new V d dv w irq inp = do {
     let v = VerilogDriver_new (VRTLCPU_class V) d;
     let s = \<lparr>dut = dut v, drv_cycle_num = drv_cycle_num v, deferred_events = deferred_events v, periodic_events = periodic_events v,
                rtl_mem = Memory_new w, rtl_inta_handler = (\<lambda>_ d. Some ((), d, [])), rtl_devs = dv, mem_in_progress = False,
                io_in_progress = False, mem_latency = 0, is_stopped = True, rtl_io = Map.empty, rtl_pending_irq = irq, int_in_progress = inp\<rparr>;
     let s = set_in (\<lambda>p. p\<lparr>debug_seize := True, cache_enabled := False\<rparr>) s;
     s \<leftarrow> RTLCPU_reset V s;
     let s = periodic ClockSetup Mem_access s;
     let s = periodic ClockSetup Io_access s;
     let s = periodic ClockCapture Mem_write s;
     let s = periodic ClockCapture Io_write s;
     let s = periodic ClockCapture Copy_stopped s;
     let s = periodic ClockSetup Raise_intr s;
     Some (periodic ClockCapture End_int s)
   }"

section \<open>Registers\<close>

definition debug_write_data :: "'v Verilated \<Rightarrow> u16 \<Rightarrow> ('v, 'd) RTLCPU \<Rightarrow> ('v, 'd) RTLCPU option" where
  "debug_write_data V val s = do {
     s \<leftarrow> after_n_cycles 0 (Write_data val) s;
     RTLCPU_cycle V s
   }"

text \<open>The two bytes of \<open>union reg_converter\<close> on a little-endian host.\<close>

definition conv_get :: "u16 \<Rightarrow> bool \<Rightarrow> u8" where
  "conv_get v16 hi = (if hi then ucast (drop_bit 8 v16) else ucast v16)"

definition conv_set :: "u16 \<Rightarrow> bool \<Rightarrow> u8 \<Rightarrow> u16" where
  "conv_set v16 hi b = (if hi then (v16 AND 0x00ff) OR push_bit 8 (ucast b) else (v16 AND 0xff00) OR ucast b)"

definition read_ip :: "'v Verilated \<Rightarrow> ('v, 'd) RTLCPU \<Rightarrow> (u16 \<times> ('v, 'd) RTLCPU) option" where
  "read_ip V s =
     (if debug_stopped (outs s) then do { s \<leftarrow> run_proc V 0x0f s; Some (debug_val (outs s), s) } else None)"

definition read_sr :: "'v Verilated \<Rightarrow> GPR \<Rightarrow> ('v, 'd) RTLCPU \<Rightarrow> (u16 \<times> ('v, 'd) RTLCPU) option" where
  "read_sr V regnum s = do { s \<leftarrow> run_proc V (0x03 + of_nat (GPR_val regnum)) s; Some (debug_val (outs s), s) }"

definition read_gpr :: "'v Verilated \<Rightarrow> GPR \<Rightarrow> ('v, 'd) RTLCPU \<Rightarrow> (u16 \<times> ('v, 'd) RTLCPU) option" where
  "read_gpr V regnum s =
     (if GPR_val regnum < NUM_16BIT_REGS then do { s \<leftarrow> run_proc V (0x03 + of_nat (GPR_val regnum)) s; Some (debug_val (outs s), s) }
      else do {
        let regsel = (GPR_val regnum - GPR_val AL) mod 4;
        s \<leftarrow> run_proc V (0x03 + of_nat regsel) s;
        Some (ucast (conv_get (debug_val (outs s)) (GPR_val regnum \<ge> GPR_val AH)), s)
      })"

definition RTLCPU_read_reg :: "'v Verilated \<Rightarrow> GPR \<Rightarrow> ('v, 'd) RTLCPU \<Rightarrow> (u16 \<times> ('v, 'd) RTLCPU) option" where
  "RTLCPU_read_reg V regnum s =
     (if regnum = IP then read_ip V s
      else if GPR_val regnum \<ge> GPR_val ES \<and> GPR_val regnum \<le> GPR_val DS then read_sr V regnum s
      else read_gpr V regnum s)"

definition write_sr :: "'v Verilated \<Rightarrow> GPR \<Rightarrow> u16 \<Rightarrow> ('v, 'd) RTLCPU \<Rightarrow> ('v, 'd) RTLCPU option" where
  "write_sr V regnum val s = do { s \<leftarrow> debug_write_data V val s; run_proc V (0x13 + of_nat (GPR_val regnum)) s }"

definition write_ip :: "'v Verilated \<Rightarrow> u16 \<Rightarrow> ('v, 'd) RTLCPU \<Rightarrow> ('v, 'd) RTLCPU option" where
  "write_ip V val s = (if is_stopped s then do { s \<leftarrow> debug_write_data V val s; run_proc V 0x11 s } else None)"

definition write_gpr :: "'v Verilated \<Rightarrow> GPR \<Rightarrow> u16 \<Rightarrow> ('v, 'd) RTLCPU \<Rightarrow> ('v, 'd) RTLCPU option" where
  "write_gpr V regnum val s =
     (if GPR_val regnum < NUM_16BIT_REGS then do { s \<leftarrow> debug_write_data V val s; run_proc V (0x13 + of_nat (GPR_val regnum)) s }
      else do {
        let regsel = (GPR_val regnum - GPR_val AL) mod 4;
        (v16, s) \<leftarrow> RTLCPU_read_reg V (GPR_of regsel) s;
        s \<leftarrow> debug_write_data V (conv_set v16 (GPR_val regnum \<ge> GPR_val AH) (ucast val)) s;
        run_proc V (0x13 + of_nat regsel) s
      })"

definition RTLCPU_write_reg :: "'v Verilated \<Rightarrow> GPR \<Rightarrow> u16 \<Rightarrow> ('v, 'd) RTLCPU \<Rightarrow> ('v, 'd) RTLCPU option" where
  "RTLCPU_write_reg V regnum val s =
     (if regnum = IP then write_ip V val s
      else if GPR_val regnum \<ge> GPR_val ES \<and> GPR_val regnum \<le> GPR_val DS then write_sr V regnum val s
      else write_gpr V regnum val s)"

definition RTLCPU_write_flags :: "'v Verilated \<Rightarrow> u16 \<Rightarrow> ('v, 'd) RTLCPU \<Rightarrow> ('v, 'd) RTLCPU option" where
  "RTLCPU_write_flags V val s = do { s \<leftarrow> debug_write_data V val s; run_proc V 0x12 s }"

definition RTLCPU_read_flags :: "'v Verilated \<Rightarrow> ('v, 'd) RTLCPU \<Rightarrow> (u16 \<times> ('v, 'd) RTLCPU) option" where
  "RTLCPU_read_flags V s = do { s \<leftarrow> run_proc V 0x10 s; Some (debug_val (outs s), s) }"

definition write_mar :: "'v Verilated \<Rightarrow> u16 \<Rightarrow> ('v, 'd) RTLCPU \<Rightarrow> ('v, 'd) RTLCPU option" where
  "write_mar V v s = do { s \<leftarrow> debug_write_data V v s; run_proc V 0x1f s }"

definition write_mdr :: "'v Verilated \<Rightarrow> u16 \<Rightarrow> ('v, 'd) RTLCPU \<Rightarrow> ('v, 'd) RTLCPU option" where
  "write_mdr V v s = do { s \<leftarrow> debug_write_data V v s; run_proc V 0x20 s }"

section \<open>Memory and ports\<close>

definition RTLCPU_write_mem8 :: "'v Verilated \<Rightarrow> u16 \<Rightarrow> u16 \<Rightarrow> u8 \<Rightarrow> ('v, 'd) RTLCPU \<Rightarrow> ('v, 'd) RTLCPU option" where
  "RTLCPU_write_mem8 V segment addr val s = do {
     (prev_ds, s) \<leftarrow> RTLCPU_read_reg V DS s;
     s \<leftarrow> RTLCPU_write_reg V DS segment s;
     s \<leftarrow> write_mar V addr s;
     s \<leftarrow> write_mdr V (ucast val) s;
     s \<leftarrow> run_proc V 0x23 s;
     RTLCPU_write_reg V DS prev_ds s
   }"

definition RTLCPU_write_mem16 :: "'v Verilated \<Rightarrow> u16 \<Rightarrow> u16 \<Rightarrow> u16 \<Rightarrow> ('v, 'd) RTLCPU \<Rightarrow> ('v, 'd) RTLCPU option" where
  "RTLCPU_write_mem16 V segment addr val s = do {
     (prev_ds, s) \<leftarrow> RTLCPU_read_reg V DS s;
     s \<leftarrow> RTLCPU_write_reg V DS segment s;
     s \<leftarrow> write_mar V addr s;
     s \<leftarrow> write_mdr V val s;
     s \<leftarrow> run_proc V 0x24 s;
     RTLCPU_write_reg V DS prev_ds s
   }"

definition RTLCPU_write_mem32 :: "'v Verilated \<Rightarrow> u16 \<Rightarrow> u16 \<Rightarrow> u32 \<Rightarrow> ('v, 'd) RTLCPU \<Rightarrow> ('v, 'd) RTLCPU option" where
  "RTLCPU_write_mem32 V segment addr val s = do {
     s \<leftarrow> RTLCPU_write_mem16 V segment addr (ucast (val AND 0xffff)) s;
     RTLCPU_write_mem16 V segment (addr + 2) (ucast (drop_bit 16 val)) s
   }"

definition RTLCPU_write_vector8 :: "'v Verilated \<Rightarrow> u16 \<Rightarrow> u16 \<Rightarrow> u8 list \<Rightarrow> ('v, 'd) RTLCPU \<Rightarrow> ('v, 'd) RTLCPU option" where
  "RTLCPU_write_vector8 V segment addr v s = do {
     (prev_ds, s) \<leftarrow> RTLCPU_read_reg V DS s;
     s \<leftarrow> RTLCPU_write_reg V DS segment s;
     s \<leftarrow> write_mar V addr s;
     s \<leftarrow> run_events (\<lambda>b s. write_mdr V (ucast b) s \<bind> run_proc V 0x23) v s;
     RTLCPU_write_reg V DS prev_ds s
   }"

definition RTLCPU_write_vector16 :: "'v Verilated \<Rightarrow> u16 \<Rightarrow> u16 \<Rightarrow> u16 list \<Rightarrow> ('v, 'd) RTLCPU \<Rightarrow> ('v, 'd) RTLCPU option" where
  "RTLCPU_write_vector16 V segment addr v s = do {
     (prev_ds, s) \<leftarrow> RTLCPU_read_reg V DS s;
     s \<leftarrow> RTLCPU_write_reg V DS segment s;
     s \<leftarrow> write_mar V addr s;
     s \<leftarrow> run_events (\<lambda>b s. write_mdr V b s \<bind> run_proc V 0x24) v s;
     RTLCPU_write_reg V DS prev_ds s
   }"

definition RTLCPU_read_mem8 :: "'v Verilated \<Rightarrow> u16 \<Rightarrow> u16 \<Rightarrow> ('v, 'd) RTLCPU \<Rightarrow> (u8 \<times> ('v, 'd) RTLCPU) option" where
  "RTLCPU_read_mem8 V segment addr s = do {
     (prev_ds, s) \<leftarrow> RTLCPU_read_reg V DS s;
     s \<leftarrow> RTLCPU_write_reg V DS segment s;
     s \<leftarrow> write_mar V addr s;
     s \<leftarrow> run_proc V 0x21 s;
     let val = ucast (debug_val (outs s));
     s \<leftarrow> RTLCPU_write_reg V DS prev_ds s;
     Some (val, s)
   }"

definition RTLCPU_read_mem16 :: "'v Verilated \<Rightarrow> u16 \<Rightarrow> u16 \<Rightarrow> ('v, 'd) RTLCPU \<Rightarrow> (u16 \<times> ('v, 'd) RTLCPU) option" where
  "RTLCPU_read_mem16 V segment addr s = do {
     (prev_ds, s) \<leftarrow> RTLCPU_read_reg V DS s;
     s \<leftarrow> RTLCPU_write_reg V DS segment s;
     s \<leftarrow> write_mar V addr s;
     s \<leftarrow> run_proc V 0x22 s;
     let val = debug_val (outs s);
     s \<leftarrow> RTLCPU_write_reg V DS prev_ds s;
     Some (val, s)
   }"

text \<open>C++ does not fix the order of the two reads; this is the order from left to right.\<close>

definition RTLCPU_read_mem32 :: "'v Verilated \<Rightarrow> u16 \<Rightarrow> u16 \<Rightarrow> ('v, 'd) RTLCPU \<Rightarrow> (u32 \<times> ('v, 'd) RTLCPU) option" where
  "RTLCPU_read_mem32 V segment addr s = do {
     (lo, s) \<leftarrow> RTLCPU_read_mem16 V segment addr s;
     (hi, s) \<leftarrow> RTLCPU_read_mem16 V segment (addr + 2) s;
     Some (ucast lo OR push_bit 16 (ucast hi), s)
   }"

definition RTLCPU_write_io8 :: "'v Verilated \<Rightarrow> u32 \<Rightarrow> u8 \<Rightarrow> ('v, 'd) RTLCPU \<Rightarrow> ('v, 'd) RTLCPU option" where
  "RTLCPU_write_io8 V addr val s = do {
     s \<leftarrow> write_mar V (ucast addr) s;
     s \<leftarrow> write_mdr V (ucast val) s;
     run_proc V 0x27 s
   }"

definition RTLCPU_write_io16 :: "'v Verilated \<Rightarrow> u32 \<Rightarrow> u16 \<Rightarrow> ('v, 'd) RTLCPU \<Rightarrow> ('v, 'd) RTLCPU option" where
  "RTLCPU_write_io16 V addr val s = do {
     s \<leftarrow> write_mar V (ucast addr) s;
     s \<leftarrow> write_mdr V val s;
     run_proc V 0x28 s
   }"

definition RTLCPU_read_io8 :: "'v Verilated \<Rightarrow> u32 \<Rightarrow> ('v, 'd) RTLCPU \<Rightarrow> (u8 \<times> ('v, 'd) RTLCPU) option" where
  "RTLCPU_read_io8 V addr s = do {
     s \<leftarrow> write_mar V (ucast addr) s;
     s \<leftarrow> run_proc V 0x25 s;
     Some (ucast (debug_val (outs s)), s)
   }"

definition RTLCPU_read_io16 :: "'v Verilated \<Rightarrow> u32 \<Rightarrow> ('v, 'd) RTLCPU \<Rightarrow> (u16 \<times> ('v, 'd) RTLCPU) option" where
  "RTLCPU_read_io16 V addr s = do {
     s \<leftarrow> write_mar V (ucast addr) s;
     s \<leftarrow> run_proc V 0x26 s;
     Some (debug_val (outs s), s)
   }"

definition RTLCPU_add_ioport :: "('v, 'd) RTLCPU \<Rightarrow> 'd IOPorts \<Rightarrow> ('v, 'd) RTLCPU" where
  "RTLCPU_add_ioport s p = s\<lparr>rtl_io := foldl (\<lambda>t m. t(port_base p + of_nat (m * 2) \<mapsto> p)) (rtl_io s) [0..<num_ports p]\<rparr>"

definition RTLCPU_set_inta_handler :: "('v, 'd) RTLCPU \<Rightarrow> (int \<Rightarrow> (unit, 'd) io_op) \<Rightarrow> ('v, 'd) RTLCPU" where
  "RTLCPU_set_inta_handler s handler = s\<lparr>rtl_inta_handler := handler\<rparr>"

section \<open>Stepping\<close>

definition RTLCPU_step_with_io :: "'v Verilated \<Rightarrow> (u64 \<Rightarrow> (unit, 'd) io_op) \<Rightarrow> ('v, 'd) RTLCPU \<Rightarrow> (u64 \<times> ('v, 'd) RTLCPU) option" where
  "RTLCPU_step_with_io V io_callback s = do {
     let (_, s) = get_and_clear_instr_length V s;
     (_, s) \<leftarrow> debug_step V io_callback s;
     Some (get_and_clear_instr_length V s)
   }"

definition RTLCPU_step :: "'v Verilated \<Rightarrow> ('v, 'd) RTLCPU \<Rightarrow> (u64 \<times> ('v, 'd) RTLCPU) option" where
  "RTLCPU_step V s = RTLCPU_step_with_io V null_io s"

definition cycle_cpu_with_io :: "'v Verilated \<Rightarrow> (u64 \<Rightarrow> (unit, 'd) io_op) \<Rightarrow> ('v, 'd) RTLCPU \<Rightarrow> ('v, 'd) RTLCPU option" where
  "cycle_cpu_with_io V io_callback s = do {
     s \<leftarrow> RTLCPU_cycle V s;
     map_option snd (dev_call (io_callback (drv_cycle_num s)) s)
   }"

definition idle :: "'v Verilated \<Rightarrow> nat \<Rightarrow> ('v, 'd) RTLCPU \<Rightarrow> ('v, 'd) RTLCPU option" where
  "idle V count s = cycle (VRTLCPU_class V) run_event count s"

definition time_step :: "'v Verilated \<Rightarrow> ('v, 'd) RTLCPU \<Rightarrow> (nat \<times> ('v, 'd) RTLCPU) option" where
  "time_step V s = debug_step V null_io s"

definition RTLCPU_has_trapped :: "'v Verilated \<Rightarrow> ('v, 'd) RTLCPU \<Rightarrow> (bool \<times> ('v, 'd) RTLCPU) option" where
  "RTLCPU_has_trapped V s = do {
     (int_cs, s) \<leftarrow> RTLCPU_read_mem16 V 0 (12 + 2) s;
     (int_ip, s) \<leftarrow> RTLCPU_read_mem16 V 0 (12 + 0) s;
     (cs, s) \<leftarrow> read_sr V CS s;
     if cs = int_cs then do { (ip, s) \<leftarrow> read_ip V s; Some (ip = int_ip, s) } else Some (False, s)
   }"

definition RTLCPU_raise_nmi :: "'v Verilated \<Rightarrow> ('v, 'd) RTLCPU \<Rightarrow> ('v, 'd) RTLCPU option" where
  "RTLCPU_raise_nmi V s = do { s \<leftarrow> after_n_cycles 0 Nmi s; RTLCPU_cycle V s }"

definition RTLCPU_had_side_effects :: "('v, 'd) RTLCPU \<Rightarrow> bool" where
  "RTLCPU_had_side_effects s = mem_has_written (rtl_mem s)"

definition RTLCPU_clear_side_effects :: "('v, 'd) RTLCPU \<Rightarrow> ('v, 'd) RTLCPU" where
  "RTLCPU_clear_side_effects s = s\<lparr>rtl_mem := mem_clear_has_written (rtl_mem s)\<rparr>"

definition RTLCPU_cycle_count :: "('v, 'd) RTLCPU \<Rightarrow> u64" where
  "RTLCPU_cycle_count s = drv_cycle_num s"

end
