(* ===== verification/RTLBus.thy ===== *)
theory RTLBus
  imports RTLCPU
begin

text \<open>
  What one clock cycle of the RTL backend does, for any design: the phases of \<open>cycle\<close> with the closures of Core.cpp
  registered, and the bus protocols that follow.
\<close>

section \<open>The ring of deferred events\<close>

definition idx :: "('t, 'e, 's) VerilogDriver_scheme \<Rightarrow> nat" where
  "idx s = unat (drv_cycle_num s mod 64)"

abbreviation slot :: "('t, 'e, 's) VerilogDriver_scheme \<Rightarrow> 'e list" where
  "slot s \<equiv> deferred_events s (idx s)"

definition idx1 :: "('t, 'e, 's) VerilogDriver_scheme \<Rightarrow> nat" where
  "idx1 s = (idx s + 1) mod 64"

definition cycles_left :: "('t, 'e, 's) VerilogDriver_scheme \<Rightarrow> bool" where
  "cycles_left s \<longleftrightarrow> unat (drv_cycle_num s) + 64 < 2 ^ 64"

definition add_deferred :: "nat \<Rightarrow> 'e list \<Rightarrow> ('t, 'e, 's) VerilogDriver_scheme \<Rightarrow> ('t, 'e, 's) VerilogDriver_scheme" where
  "add_deferred i es s = s\<lparr>deferred_events := (deferred_events s)(i := deferred_events s i @ es)\<rparr>"

lemma unat_small_add: "unat (a :: u64) + n < 2 ^ 64 \<Longrightarrow> unat (a + of_nat n) = unat a + n"
  by (simp add: unat_word_ariths unat_of_nat mod_simps)

lemma unat_mod64: "unat ((a :: u64) mod 64) = unat a mod 64"
  by (simp add: unat_mod)

lemma at_cycle_within:
  assumes "cycles_left s" "k < 64"
  shows "after_n_cycles (of_nat k) e s = Some (add_deferred ((idx s + k) mod 64) [e] s)"
proof -
  have "unat (drv_cycle_num s + of_nat k) = unat (drv_cycle_num s) + k" "unat (drv_cycle_num s + 64) = unat (drv_cycle_num s) + 64"
    using assms unat_small_add [of "drv_cycle_num s" k] unat_small_add [of "drv_cycle_num s" 64] by (simp_all add: cycles_left_def)
  then show ?thesis using assms(2)
    by (simp add: after_n_cycles_def at_cycle_def max_deferred_delta_def word_le_nat_alt word_less_nat_alt unat_mod64 idx_def add_deferred_def Let_def mod_simps)
qed

lemma after_0: "cycles_left s \<Longrightarrow> after_n_cycles 0 e s = Some (add_deferred (idx s) [e] s)"
  using at_cycle_within [of s 0 e] by (simp add: idx_def unat_mod64)

lemma after_1: "cycles_left s \<Longrightarrow> after_n_cycles 1 e s = Some (add_deferred (idx1 s) [e] s)"
  using at_cycle_within [of s 1 e] by (simp add: idx1_def)

lemma idx_next: "cycles_left s \<Longrightarrow> idx (s\<lparr>drv_cycle_num := drv_cycle_num s + 1\<rparr>) = idx1 s"
  using unat_small_add [of "drv_cycle_num s" 1] by (simp add: idx_def idx1_def unat_mod64 cycles_left_def mod_simps)

lemma idx1_neq: "idx1 s \<noteq> idx s" "idx s \<noteq> idx1 s"
proof -
  have "idx s < 64" by (simp add: idx_def unat_mod64)
  then show "idx1 s \<noteq> idx s" by (cases "idx s = 63") (simp_all add: idx1_def)
  then show "idx s \<noteq> idx1 s" by simp
qed

lemma idx_simps [simp]:
  "idx (s\<lparr>dut := d\<rparr>) = idx s" "idx (s\<lparr>deferred_events := f\<rparr>) = idx s" "idx (add_deferred i es s) = idx s"
  "idx1 (s\<lparr>dut := d\<rparr>) = idx1 s" "idx1 (s\<lparr>deferred_events := f\<rparr>) = idx1 s" "idx1 (add_deferred i es s) = idx1 s"
  "cycles_left (s\<lparr>dut := d\<rparr>) = cycles_left s" "cycles_left (s\<lparr>deferred_events := f\<rparr>) = cycles_left s" "cycles_left (add_deferred i es s) = cycles_left s"
  by (simp_all add: idx_def idx1_def cycles_left_def add_deferred_def)

lemma idx_fields [simp]:
  "idx (s\<lparr>mem_in_progress := b\<rparr>) = idx s" "idx (s\<lparr>io_in_progress := b\<rparr>) = idx s" "idx (s\<lparr>rtl_mem := m\<rparr>) = idx s" "idx (set_in f s) = idx s"
  "idx1 (s\<lparr>mem_in_progress := b\<rparr>) = idx1 s" "idx1 (s\<lparr>io_in_progress := b\<rparr>) = idx1 s" "idx1 (s\<lparr>rtl_mem := m\<rparr>) = idx1 s" "idx1 (set_in f s) = idx1 s"
  "cycles_left (s\<lparr>mem_in_progress := b\<rparr>) = cycles_left s" "cycles_left (s\<lparr>io_in_progress := b\<rparr>) = cycles_left s" "cycles_left (s\<lparr>rtl_mem := m\<rparr>) = cycles_left s" "cycles_left (set_in f s) = cycles_left s"
  for s :: "('v, 'd) RTLCPU"
  by (simp_all add: idx_def idx1_def cycles_left_def set_in_def)

lemma add_deferred_sel [simp]:
  "dut (add_deferred i es s) = dut s" "drv_cycle_num (add_deferred i es s) = drv_cycle_num s" "periodic_events (add_deferred i es s) = periodic_events s"
  "deferred_events (add_deferred i es s) = (deferred_events s)(i := deferred_events s i @ es)"
  by (simp_all add: add_deferred_def)

lemma add_deferred_fields [simp]:
  "mem_in_progress (add_deferred i es s) = mem_in_progress s" "io_in_progress (add_deferred i es s) = io_in_progress s"
  "rtl_mem (add_deferred i es s) = rtl_mem s" "mem_latency (add_deferred i es s) = mem_latency s" "rtl_io (add_deferred i es s) = rtl_io s"
  "rtl_devs (add_deferred i es s) = rtl_devs s" "is_stopped (add_deferred i es s) = is_stopped s" "rtl_pending_irq (add_deferred i es s) = rtl_pending_irq s"
  "int_in_progress (add_deferred i es s) = int_in_progress s" "rtl_inta_handler (add_deferred i es s) = rtl_inta_handler s"
  for s :: "('v, 'd) RTLCPU"
  by (simp_all add: add_deferred_def)

lemma set_in_sel [simp]:
  "dut (set_in f s) = (dut s)\<lparr>dut_in := f (ins s)\<rparr>" "drv_cycle_num (set_in f s) = drv_cycle_num s" "periodic_events (set_in f s) = periodic_events s"
  "deferred_events (set_in f s) = deferred_events s"
  "mem_in_progress (set_in f s) = mem_in_progress s" "io_in_progress (set_in f s) = io_in_progress s"
  "rtl_mem (set_in f s) = rtl_mem s" "mem_latency (set_in f s) = mem_latency s" "rtl_io (set_in f s) = rtl_io s"
  "rtl_devs (set_in f s) = rtl_devs s" "is_stopped (set_in f s) = is_stopped s" "rtl_pending_irq (set_in f s) = rtl_pending_irq s"
  "int_in_progress (set_in f s) = int_in_progress s" "rtl_inta_handler (set_in f s) = rtl_inta_handler s"
  by (simp_all add: set_in_def)

section \<open>The phases of a cycle\<close>

text \<open>The rest of the cycle after the closures have run: four evaluations, the falling edge, four more.\<close>

definition toggled :: "'v VRTLCPU \<Rightarrow> 'v VRTLCPU" where
  "toggled d = d\<lparr>dut_in := (dut_in d)\<lparr>pin_clk := \<not> pin_clk (dut_in d)\<rparr>\<rparr>"

definition settle :: "'v Verilated \<Rightarrow> 'v VRTLCPU \<Rightarrow> 'v VRTLCPU" where
  "settle V d = (VRTLCPU_eval V ^^ 5) (toggled ((VRTLCPU_eval V ^^ 4) d))"

lemma class_simps:
  "toggle_clk (VRTLCPU_class V) s = s\<lparr>dut := toggled (dut s)\<rparr>" "dut_eval (VRTLCPU_class V) s = s\<lparr>dut := VRTLCPU_eval V (dut s)\<rparr>"
  by (simp_all add: toggle_clk_def VRTLCPU_class_def toggled_def dut_eval_def)

lemma cycle_phases:
  "RTLCPU_cycle V s = do {
     s \<leftarrow> run_periodic_events run_event ClockSetup s;
     s \<leftarrow> run_deferred_events run_event (s\<lparr>dut := VRTLCPU_eval V (toggled (dut s))\<rparr>);
     s \<leftarrow> run_periodic_events run_event ClockCapture (s\<lparr>dut := VRTLCPU_eval V (dut s)\<rparr>);
     Some (s\<lparr>dut := settle V (dut s), drv_cycle_num := drv_cycle_num s + 1\<rparr>)
   }"
proof -
  have p: "f ^^ 4 = (\<lambda>d. f (f (f (f d))))" "f ^^ 5 = (\<lambda>d. f (f (f (f (f d)))))" for f :: "'v VRTLCPU \<Rightarrow> 'v VRTLCPU"
    by (simp_all add: fun_eq_iff numeral_eq_Suc)
  have "[0..<evals_per_cycle] = [0, 1, 2, 3, 4, 5, 6, 7, 8, 9]" by (simp add: evals_per_cycle_def upt_rec)
  then show ?thesis
    by (simp add: RTLCPU_cycle_def cycle1_def cycle_part_def evals_per_cycle_def class_simps settle_def p)
qed

definition attached :: "('v, 'd) RTLCPU \<Rightarrow> bool" where
  "attached s \<longleftrightarrow> periodic_events s ClockSetup = [Mem_access, Io_access, Raise_intr] \<and>
     periodic_events s ClockCapture = [Mem_write, Io_write, Copy_stopped, End_int] \<and> mem_latency s = 0"

definition mem_request :: "('v, 'd) RTLCPU \<Rightarrow> bool" where
  "mem_request s \<longleftrightarrow> \<not> pin_reset (ins s) \<and> q_m_access (outs s) \<and> \<not> d_io (outs s) \<and> \<not> mem_in_progress s"

definition io_request :: "('v, 'd) RTLCPU \<Rightarrow> bool" where
  "io_request s \<longleftrightarrow> \<not> pin_reset (ins s) \<and> io_m_access (outs s) \<and> d_io (outs s) \<and> \<not> io_in_progress s"

definition requests :: "('v, 'd) RTLCPU \<Rightarrow> event list" where
  "requests s = (if mem_request s then [Mem_read, Mem_ack] else []) @ (if io_request s then [Io_read, Io_ack] else [])"

definition requested :: "('v, 'd) RTLCPU \<Rightarrow> ('v, 'd) RTLCPU" where
  "requested s = (add_deferred (idx s) (requests s) s)
     \<lparr>mem_in_progress := mem_in_progress s \<or> mem_request s, io_in_progress := io_in_progress s \<or> io_request s\<rparr>"

lemma run_events_last [simp]: "(m \<bind> run_events run []) = m"
  by (cases m) simp_all

lemma setup_phase:
  assumes "attached s" "cycles_left s"
  shows "run_periodic_events run_event ClockSetup s = raise_intr (requested s)"
proof -
  have l: "mem_latency s = 0" using assms(1) by (simp add: attached_def)
  have m: "RTLCPU_mem_access s = Some ((add_deferred (idx s) (if mem_request s then [Mem_read, Mem_ack] else []) s)
      \<lparr>mem_in_progress := mem_in_progress s \<or> mem_request s\<rparr>)" (is "_ = Some ?s")
    using assms(2) l by (auto simp: RTLCPU_mem_access_def mem_request_def after_0 add_deferred_def)
  have "cycles_left ?s" "mem_latency ?s = 0" "io_request ?s = io_request s" using assms l by (simp_all add: io_request_def)
  then have "RTLCPU_io_access ?s = Some (requested s)"
    unfolding RTLCPU_io_access_def requested_def requests_def io_request_def
    by (auto simp: after_0 add_deferred_def)
  then show ?thesis using assms(1) m by (simp add: run_periodic_events_def attached_def)
qed

text \<open>The events that neither read the bus nor call a device.\<close>

fun simple :: "event \<Rightarrow> bool" where
  "simple Mem_access = False" | "simple Io_access = False" | "simple Mem_write = False" | "simple Io_write = False"
| "simple Copy_stopped = False" | "simple Raise_intr = False" | "simple End_int = False" | "simple Mem_read = False" | "simple Io_read = False"
| "simple _ = True"

fun event_pins :: "event \<Rightarrow> VRTLCPU_in \<Rightarrow> VRTLCPU_in" where
  "event_pins Mem_ack p = p\<lparr>q_m_ack := True\<rparr>"
| "event_pins Mem_done p = p\<lparr>q_m_ack := False\<rparr>"
| "event_pins Io_ack p = p\<lparr>io_m_ack := True\<rparr>"
| "event_pins Io_done p = p\<lparr>io_m_ack := False\<rparr>"
| "event_pins (Run addr) p = p\<lparr>debug_addr := ucast addr, debug_run := True\<rparr>"
| "event_pins Run_end p = p\<lparr>debug_run := False\<rparr>"
| "event_pins Detach p = p\<lparr>debug_seize := False, debug_addr := 0, debug_run := True\<rparr>"
| "event_pins (Write_data val) p = p\<lparr>debug_wr_en := True, debug_wr_val := val\<rparr>"
| "event_pins Write_data_end p = p\<lparr>debug_wr_en := False\<rparr>"
| "event_pins Nmi p = p\<lparr>pin_nmi := True\<rparr>"
| "event_pins Nmi_end p = p\<lparr>pin_nmi := False\<rparr>"
| "event_pins Reset_end p = p\<lparr>pin_reset := False\<rparr>"
| "event_pins _ p = p"

fun follow :: "event \<Rightarrow> event list" where
  "follow Mem_ack = [Mem_done]" | "follow Io_ack = [Io_done]" | "follow (Run addr) = [Run_end]" | "follow Detach = [Run_end]"
| "follow (Write_data val) = [Write_data_end]" | "follow Nmi = [Nmi_end]" | "follow _ = []"

definition apply_event :: "event \<Rightarrow> ('v, 'd) RTLCPU \<Rightarrow> ('v, 'd) RTLCPU" where
  "apply_event e s = (add_deferred (idx1 s) (follow e) (set_in (event_pins e) s))
     \<lparr>mem_in_progress := mem_in_progress s \<and> Mem_done \<noteq> e, io_in_progress := io_in_progress s \<and> Io_done \<noteq> e\<rparr>"

lemma add_deferred_Nil [simp]: "add_deferred i [] s = s"
  by (simp add: add_deferred_def)

lemma run_simple: "simple e \<Longrightarrow> cycles_left s \<Longrightarrow> run_event e s = Some (apply_event e s)"
  by (cases e) (simp_all add: apply_event_def after_1)

lemma apply_event_sel [simp]:
  "cycles_left (apply_event e s) = cycles_left s" "idx (apply_event e s) = idx s" "idx1 (apply_event e s) = idx1 s"
  by (simp_all add: apply_event_def)

text \<open>What a list of simple events does.\<close>

definition apply_events :: "event list \<Rightarrow> ('v, 'd) RTLCPU \<Rightarrow> ('v, 'd) RTLCPU" where
  "apply_events es s = (add_deferred (idx1 s) (concat (map follow es)) (set_in (fold event_pins es) s))
     \<lparr>mem_in_progress := mem_in_progress s \<and> Mem_done \<notin> set es, io_in_progress := io_in_progress s \<and> Io_done \<notin> set es\<rparr>"

lemma apply_events_room [simp]: "cycles_left (apply_events es s) = cycles_left s" "idx1 (apply_events es s) = idx1 s"
  by (simp_all add: apply_events_def)

lemma apply_events_Cons: "apply_events es (apply_event e s) = apply_events (e # es) s"
  by (auto simp: apply_events_def apply_event_def add_deferred_def set_in_def)

lemma run_simples:
  "list_all simple es \<Longrightarrow> cycles_left s \<Longrightarrow> run_events run_event (es @ fs) s = run_events run_event fs (apply_events es s)"
proof (induction es arbitrary: s)
  case Nil
  then show ?case by (simp add: apply_events_def set_in_def)
next
  case (Cons e es)
  then show ?case by (simp add: run_simple apply_events_Cons)
qed

section \<open>The memory on the bus\<close>

lemma ucast_and_ff: "ucast (w AND 0xff :: u16) = (ucast w :: u8)"
  by (rule bit_word_eqI) (simp add: bit_simps mask_literals)

lemma bus_addr_range: "unat (bus_addr p) + 2 \<le> 2 ^ 20" "unat (bus_addr p + 1) + 1 \<le> 2 ^ 20"
proof -
  have u: "unat (q_m_addr p) < 2 ^ 19" using unsigned_less [of "q_m_addr p", where 'a = nat] by simp
  then have "unat (bus_addr p) = 2 * unat (q_m_addr p)" by (simp add: bus_addr_def push_bit_eq_mult unat_word_ariths unsigned_ucast_eq take_bit_nat_def)
  with u show "unat (bus_addr p) + 2 \<le> 2 ^ 20" "unat (bus_addr p + 1) + 1 \<le> 2 ^ 20" by (simp_all add: unat_word_ariths)
qed

definition bus_word :: "VRTLCPU_out \<Rightarrow> Memory \<Rightarrow> u16" where
  "bus_word p m = the (mem_read16 m (bus_addr p))"

lemma mem_read_bus: "mem_read_event s = Some (set_in (\<lambda>p. p\<lparr>q_m_data_in := bus_word (outs s) (rtl_mem s)\<rparr>) s)"
  using bus_addr_range(1) [of "outs s"] by (simp add: mem_read_event_def bus_word_def mem_read_def MEMORY_SIZE_def)

definition bus_write :: "VRTLCPU_out \<Rightarrow> Memory \<Rightarrow> Memory" where
  "bus_write p m = (if q_m_access p \<and> \<not> d_io p \<and> q_m_wr_en p \<and> q_m_bytesel p \<noteq> 0 then
     m\<lparr>mem_bytes := (\<lambda>a. if a = bus_addr p \<and> bit (q_m_bytesel p) 0 then ucast (q_m_data_out p)
                         else if a = bus_addr p + 1 \<and> bit (q_m_bytesel p) 1 then ucast (drop_bit 8 (q_m_data_out p)) else mem_bytes m a),
       mem_written := True\<rparr> else m)"

lemma bus_byte:
  "mem_write8 m (bus_addr p) v = Some (m\<lparr>mem_bytes := (mem_bytes m)(bus_addr p := v), mem_written := True\<rparr>)"
  "mem_write8 m (bus_addr p + 1) v = Some (m\<lparr>mem_bytes := (mem_bytes m)(bus_addr p + 1 := v), mem_written := True\<rparr>)"
  using bus_addr_range [of p] by (simp_all add: mem_write_def MEMORY_SIZE_def)

lemma mem_write_bus: "mem_write_event s = Some (s\<lparr>rtl_mem := bus_write (outs s) (rtl_mem s)\<rparr>)"
proof -
  let ?p = "outs s"
  have b: "(q_m_bytesel ?p AND push_bit n 1 \<noteq> 0) = bit (q_m_bytesel ?p) n" for n
    by (simp add: bit_iff_and_push_bit_not_eq_0)
  have z: "q_m_bytesel ?p = 0 \<longleftrightarrow> \<not> bit (q_m_bytesel ?p) 0 \<and> \<not> bit (q_m_bytesel ?p) 1"
    by (auto intro!: bit_word_eqI simp: less_2_cases_iff)
  have "mem_write_event s = do {
      m \<leftarrow> Some (if q_m_access ?p \<and> \<not> d_io ?p \<and> q_m_wr_en ?p \<and> bit (q_m_bytesel ?p) 0
                 then (rtl_mem s)\<lparr>mem_bytes := (mem_bytes (rtl_mem s))(bus_addr ?p := ucast (q_m_data_out ?p)), mem_written := True\<rparr> else rtl_mem s);
      m \<leftarrow> Some (if q_m_access ?p \<and> \<not> d_io ?p \<and> q_m_wr_en ?p \<and> bit (q_m_bytesel ?p) 1
                 then m\<lparr>mem_bytes := (mem_bytes m)(bus_addr ?p + 1 := ucast (drop_bit 8 (q_m_data_out ?p))), mem_written := True\<rparr> else m);
      Some (s\<lparr>rtl_mem := m\<rparr>)}"
    unfolding mem_write_event_def Let_def b bus_byte by (simp add: ucast_and_ff)
  also have "\<dots> = Some (s\<lparr>rtl_mem := bus_write ?p (rtl_mem s)\<rparr>)"
    unfolding bus_write_def z by (cases "bit (q_m_bytesel ?p) 0"; cases "bit (q_m_bytesel ?p) 1") (simp_all add: fun_upd_def fun_eq_iff)
  finally show ?thesis .
qed

section \<open>A whole cycle\<close>

text \<open>Calls into the devices change nothing but the devices and the interrupt they raise.\<close>

definition dev_only :: "('v, 'd) RTLCPU \<Rightarrow> ('v, 'd) RTLCPU \<Rightarrow> bool" where
  "dev_only s s' \<longleftrightarrow> (\<exists>d n. s' = s\<lparr>rtl_devs := d, rtl_pending_irq := n\<rparr>)"

lemma dev_onlyI: "dev_only s (s\<lparr>rtl_devs := d, rtl_pending_irq := n\<rparr>)"
  unfolding dev_only_def by (rule exI, rule exI, rule refl)

lemma dev_only_refl [simp]: "dev_only s s"
  using dev_onlyI [of s "rtl_pending_irq s" "rtl_devs s"] by simp

lemma dev_only_irq: "dev_only s s' \<Longrightarrow> dev_only s (RTLCPU_raise_irq s' n)"
  using dev_onlyI by (auto simp: dev_only_def RTLCPU_raise_irq_def)

lemma dev_only_base: "dev_only (s\<lparr>rtl_devs := d\<rparr>) s' \<Longrightarrow> dev_only s s'" "dev_only (s\<lparr>rtl_pending_irq := n\<rparr>) s' \<Longrightarrow> dev_only s s'"
  using dev_onlyI [of s] by (auto simp: dev_only_def)

lemma dev_only_set_in: "dev_only s s' \<Longrightarrow> dev_only (set_in f s) (set_in f s')"
proof -
  assume "dev_only s s'"
  then obtain d n where "s' = s\<lparr>rtl_devs := d, rtl_pending_irq := n\<rparr>" by (auto simp: dev_only_def)
  then have "set_in f s' = (set_in f s)\<lparr>rtl_devs := d, rtl_pending_irq := n\<rparr>" by (simp add: set_in_def)
  then show ?thesis using dev_onlyI by simp
qed

lemma raise_irqs: "dev_only s (foldl RTLCPU_raise_irq s irqs)"
  by (induction irqs rule: rev_induct) (simp_all add: dev_only_irq)

lemma dev_call_only: "dev_call f s = Some (v, s') \<Longrightarrow> dev_only s s'"
  using raise_irqs dev_only_base(1) by (force simp: dev_call_def bind_eq_Some)

lemma ack_int_only: "RTLCPU_ack_int n s = Some s' \<Longrightarrow> dev_only s s'"
  using dev_call_only by (auto simp: RTLCPU_ack_int_def)

lemma io_write_only: "io_write_event s = Some s' \<Longrightarrow> dev_only s s'"
  using dev_call_only by (fastforce simp: io_write_event_def Let_def split: if_splits option.splits)

text \<open>The same for a read, which also puts a value on the pins.\<close>

definition io_only :: "('v, 'd) RTLCPU \<Rightarrow> ('v, 'd) RTLCPU \<Rightarrow> bool" where
  "io_only s s' \<longleftrightarrow> (\<exists>v. dev_only (set_in (\<lambda>p. p\<lparr>io_m_data_in := v\<rparr>) s) s')"

lemma io_onlyI: "dev_only (set_in (\<lambda>p. p\<lparr>io_m_data_in := v\<rparr>) s) s' \<Longrightarrow> io_only s s'"
  unfolding io_only_def by (rule exI)

lemma io_only_base: "io_only s (set_in (\<lambda>p. p\<lparr>io_m_data_in := v\<rparr>) s)" "io_only s s"
  using io_onlyI [of v s] io_onlyI [of "io_m_data_in (ins s)" s s] by (simp_all add: set_in_def)

lemma set_after_call:
  "do { (v, s) \<leftarrow> dev_call f s; Some (set_in (\<lambda>p. p\<lparr>io_m_data_in := g v\<rparr>) s) } = Some s' \<Longrightarrow> io_only s s'"
  using dev_only_set_in [OF dev_call_only] io_onlyI by (fastforce simp: bind_eq_Some split: prod.splits)

lemma io_read_only:
  assumes "io_read_event s = Some s'"
  shows "io_only s s'"
proof (cases "rtl_io s (io_addr (outs s))")
  case None
  then show ?thesis using assms io_only_base(1) by (auto simp: io_read_event_def Let_def split: if_splits)
next
  case (Some q)
  then show ?thesis
    using assms io_only_base set_after_call [where g = "\<lambda>v. v" and s = s and s' = s'] set_after_call [where g = ucast and s = s and s' = s']
      set_after_call [where g = "\<lambda>v. push_bit 8 (ucast v)" and s = s and s' = s']
    by (auto simp: io_read_event_def Let_def split: if_splits)
qed

lemma dev_only_sel:
  assumes "dev_only s s'"
  shows "dut s' = dut s" "drv_cycle_num s' = drv_cycle_num s" "deferred_events s' = deferred_events s" "periodic_events s' = periodic_events s"
    "rtl_mem s' = rtl_mem s" "mem_in_progress s' = mem_in_progress s" "io_in_progress s' = io_in_progress s" "mem_latency s' = mem_latency s"
    "is_stopped s' = is_stopped s" "rtl_io s' = rtl_io s" "int_in_progress s' = int_in_progress s" "idx s' = idx s" "idx1 s' = idx1 s" "cycles_left s' = cycles_left s"
    "rtl_inta_handler s' = rtl_inta_handler s"
  using assms by (auto simp: dev_only_def idx_def idx1_def cycles_left_def)

text \<open>The interrupt pins after \<open>raise_intr\<close>.\<close>

definition intr_pins :: "('v, 'd) RTLCPU \<Rightarrow> VRTLCPU_in" where
  "intr_pins s = (if int_in_progress s \<or> rtl_pending_irq s = 0 then (ins s)\<lparr>pin_intr := False\<rparr>
     else if pin_inta (outs s) then ins s else (ins s)\<lparr>pin_intr := True, pin_irq := rtl_pending_irq s\<rparr>)"

lemma raise_intr_only: "raise_intr s = Some s' \<Longrightarrow> dev_only (set_in (\<lambda>_. intr_pins s) s) s'"
  using dev_only_base(2) [OF ack_int_only]
  by (auto simp: raise_intr_def intr_pins_def set_in_def Let_def split: if_splits)

text \<open>The design after the rising edge, before the deferred events.\<close>

definition edge :: "'v Verilated \<Rightarrow> ('v, 'd) RTLCPU \<Rightarrow> 'v VRTLCPU" where
  "edge V s = VRTLCPU_eval V (toggled ((dut s)\<lparr>dut_in := intr_pins s\<rparr>))"

definition after_edge :: "'v Verilated \<Rightarrow> ('v, 'd) RTLCPU \<Rightarrow> ('v, 'd) RTLCPU \<Rightarrow> ('v, 'd) RTLCPU" where
  "after_edge V s s1 =
     (let s2 = apply_events (slot s) (s1\<lparr>dut := VRTLCPU_eval V (toggled (dut s1)), deferred_events := (deferred_events s1)(idx s := [])\<rparr>)
      in if mem_request s then apply_event Mem_ack (set_in (\<lambda>p. p\<lparr>q_m_data_in := bus_word (outs s2) (rtl_mem s2)\<rparr>) s2) else s2)"

definition finish :: "'v Verilated \<Rightarrow> ('v, 'd) RTLCPU \<Rightarrow> ('v, 'd) RTLCPU" where
  "finish V s = s\<lparr>is_stopped := debug_stopped (outs s), int_in_progress := int_in_progress s \<and> \<not> pin_inta (outs s), dut := settle V (dut s),
     drv_cycle_num := drv_cycle_num s + 1\<rparr>"

lemma run_reads: "run_event Mem_read s = mem_read_event s" "run_event Io_read s = io_read_event s"
  by simp_all

lemma cycle_eq:
  assumes "attached s" "cycles_left s" "list_all simple (slot s)"
  shows "RTLCPU_cycle V s = do {
     s1 \<leftarrow> raise_intr (requested s);
     let s3 = after_edge V s s1;
     s4 \<leftarrow> (if io_request s then map_option (apply_event Io_ack) (io_read_event s3) else Some s3);
     let s5 = s4\<lparr>dut := VRTLCPU_eval V (dut s4)\<rparr>;
     s6 \<leftarrow> io_write_event (s5\<lparr>rtl_mem := bus_write (outs s5) (rtl_mem s5)\<rparr>);
     Some (finish V s6)
   }"
proof -
  note p = assms(1) [unfolded attached_def]
  have d: "run_deferred_events run_event (s1\<lparr>dut := VRTLCPU_eval V (toggled (dut s1))\<rparr>) =
      (if io_request s then map_option (apply_event Io_ack) (io_read_event (after_edge V s s1)) else Some (after_edge V s s1))"
    if "raise_intr (requested s) = Some s1" for s1
  proof -
    note o = dev_only_sel [OF raise_intr_only [OF that]]
    let ?t = "s1\<lparr>dut := VRTLCPU_eval V (toggled (dut s1)), deferred_events := (deferred_events s1)(idx s := [])\<rparr>"
    have l: "slot (s1\<lparr>dut := VRTLCPU_eval V (toggled (dut s1))\<rparr>) = slot s @ requests s" and r: "cycles_left ?t"
      using assms(2) by (simp_all add: o requested_def)
    have r': "cycles_left s4" if "io_read_event u = Some s4" "cycles_left u" for u s4 :: "('a, 'b) RTLCPU"
      using io_read_only [OF that(1)] that(2) dev_only_sel(14) by (fastforce simp: io_only_def)
    have "run_deferred_events run_event (s1\<lparr>dut := VRTLCPU_eval V (toggled (dut s1))\<rparr>) = run_events run_event (slot s @ requests s) ?t"
      using l by (simp add: run_deferred_events_def max_deferred_delta_def o requested_def idx_def [symmetric] Let_def)
    also have "\<dots> = run_events run_event (requests s) (apply_events (slot s) ?t)" by (rule run_simples [OF assms(3) r])
    also have "\<dots> = (if io_request s then map_option (apply_event Io_ack) (io_read_event (after_edge V s s1)) else Some (after_edge V s s1))"
      using r r' [of "after_edge V s s1"] by (cases "io_read_event (after_edge V s s1)"; cases "mem_request s")
        (auto simp: requests_def after_edge_def Let_def mem_read_bus run_simple run_reads simp del: run_event.simps)
    finally show ?thesis .
  qed
  have c: "run_periodic_events run_event ClockCapture u = do {
      s6 \<leftarrow> io_write_event (u\<lparr>rtl_mem := bus_write (outs u) (rtl_mem u)\<rparr>);
      Some (s6\<lparr>is_stopped := debug_stopped (outs s6), int_in_progress := int_in_progress s6 \<and> \<not> pin_inta (outs s6)\<rparr>)}"
    if "periodic_events u = periodic_events s" for u :: "('a, 'b) RTLCPU"
  proof -
    have "run_events run_event [Copy_stopped, End_int] = (\<lambda>s6 :: ('a, 'b) RTLCPU.
        Some (s6\<lparr>is_stopped := debug_stopped (outs s6), int_in_progress := int_in_progress s6 \<and> \<not> pin_inta (outs s6)\<rparr>))"
      by (rule ext) simp
    then show ?thesis using that p by (simp add: run_periodic_events_def mem_write_bus)
  qed
  show ?thesis
  proof (cases "raise_intr (requested s)")
    case (Some s1)
    note o = dev_only_sel [OF raise_intr_only [OF Some]]
    have "periodic_events (after_edge V s s1) = periodic_events s" by (simp add: after_edge_def Let_def apply_event_def apply_events_def o requested_def)
    moreover from this have "periodic_events s4 = periodic_events s" if "io_read_event (after_edge V s s1) = Some s4" for s4
      using dev_only_sel(4) io_read_only [OF that] by (fastforce simp: io_only_def)
    ultimately show ?thesis using Some d [OF Some] unfolding cycle_phases setup_phase [OF assms(1,2)]
      by (cases "io_read_event (after_edge V s s1)") (auto simp: c finish_def apply_event_def Let_def cong: bind_option_cong)
  qed (simp add: cycle_phases setup_phase [OF assms(1,2)])
qed

section \<open>The bus protocols\<close>

text \<open>
  The state between two cycles: what the deferred events will do agrees with the transfers in progress and with the
  acknowledge pins, and nothing is scheduled beyond the coming cycle.
\<close>

definition rtl_ok :: "('v, 'd) RTLCPU \<Rightarrow> bool" where
  "rtl_ok s \<longleftrightarrow> attached s \<and> list_all simple (slot s) \<and> Mem_ack \<notin> set (slot s) \<and> Io_ack \<notin> set (slot s) \<and>
     (\<forall>i. i \<noteq> idx s \<longrightarrow> deferred_events s i = []) \<and>
     (mem_in_progress s \<longleftrightarrow> Mem_done \<in> set (slot s)) \<and> (io_in_progress s \<longleftrightarrow> Io_done \<in> set (slot s)) \<and>
     (q_m_ack (ins s) \<longleftrightarrow> mem_in_progress s) \<and> (io_m_ack (ins s) \<longleftrightarrow> io_in_progress s)"

lemma rtl_okD:
  assumes "rtl_ok s"
  shows "attached s" "list_all simple (slot s)" "Mem_ack \<notin> set (slot s)" "Io_ack \<notin> set (slot s)"
    "mem_in_progress s \<longleftrightarrow> Mem_done \<in> set (slot s)" "io_in_progress s \<longleftrightarrow> Io_done \<in> set (slot s)"
    "q_m_ack (ins s) \<longleftrightarrow> mem_in_progress s" "io_m_ack (ins s) \<longleftrightarrow> io_in_progress s" "\<And>i. i \<noteq> idx s \<Longrightarrow> deferred_events s i = []"
  using assms by (auto simp: rtl_ok_def)

lemma event_pins_sel:
  "pin_clk (event_pins e p) = pin_clk p" "q_m_data_in (event_pins e p) = q_m_data_in p"
  "e \<noteq> Mem_ack \<Longrightarrow> q_m_ack (event_pins e p) \<longleftrightarrow> q_m_ack p \<and> e \<noteq> Mem_done"
  "e \<noteq> Io_ack \<Longrightarrow> io_m_ack (event_pins e p) \<longleftrightarrow> io_m_ack p \<and> e \<noteq> Io_done"
  by (cases e; simp)+

lemma fold_pins_sel:
  "pin_clk (fold event_pins es p) = pin_clk p" "q_m_data_in (fold event_pins es p) = q_m_data_in p"
  "Mem_ack \<notin> set es \<Longrightarrow> q_m_ack (fold event_pins es p) \<longleftrightarrow> q_m_ack p \<and> Mem_done \<notin> set es"
  "Io_ack \<notin> set es \<Longrightarrow> io_m_ack (fold event_pins es p) \<longleftrightarrow> io_m_ack p \<and> Io_done \<notin> set es"
  by (induction es arbitrary: p) (auto simp: event_pins_sel)

lemma follow_sel:
  "list_all simple (follow e)" "Mem_ack \<notin> set (follow e)" "Io_ack \<notin> set (follow e)"
  "e \<noteq> Mem_ack \<Longrightarrow> Mem_done \<notin> set (follow e)" "e \<noteq> Io_ack \<Longrightarrow> Io_done \<notin> set (follow e)"
  by (cases e; simp)+

definition follows :: "event list \<Rightarrow> event list" where
  "follows es = concat (map follow es)"

lemma follows_sel:
  "list_all simple (follows es)" "Mem_ack \<notin> set (follows es)" "Io_ack \<notin> set (follows es)"
  "Mem_ack \<notin> set es \<Longrightarrow> Mem_done \<notin> set (follows es)" "Io_ack \<notin> set es \<Longrightarrow> Io_done \<notin> set (follows es)"
  by (induction es) (auto simp: follows_def follow_sel)

lemma intr_pins_sel [simp]:
  "pin_clk (intr_pins s) = pin_clk (ins s)" "q_m_ack (intr_pins s) = q_m_ack (ins s)" "io_m_ack (intr_pins s) = io_m_ack (ins s)"
  by (simp_all add: intr_pins_def)

lemma eval_in [simp]: "dut_in (VRTLCPU_eval V d) = dut_in d"
  by (simp add: VRTLCPU_eval_def split_beta)

lemma eval_cong: "dut_in a = dut_in b \<Longrightarrow> dut_core a = dut_core b \<Longrightarrow> VRTLCPU_eval V a = VRTLCPU_eval V b"
  by (cases a; cases b) (simp add: VRTLCPU_eval_def split_beta)

lemma settle_in: "dut_in (settle V d) = (dut_in d)\<lparr>pin_clk := \<not> pin_clk (dut_in d)\<rparr>"
proof -
  have "dut_in ((VRTLCPU_eval V ^^ n) d) = dut_in d" for n d by (induction n) simp_all
  then show ?thesis by (simp add: settle_def toggled_def)
qed

lemma after_edge_sel:
  assumes "rtl_ok s" "raise_intr (requested s) = Some s1" "s3 = after_edge V s s1"
  shows "deferred_events s3 = (\<lambda>_. [])(idx1 s := follows (slot s) @ (if mem_request s then [Mem_done] else []))"
    "mem_in_progress s3 = mem_request s" "io_in_progress s3 = io_request s" "rtl_mem s3 = rtl_mem s" "periodic_events s3 = periodic_events s"
    "mem_latency s3 = mem_latency s" "drv_cycle_num s3 = drv_cycle_num s" "outs s3 = dut_out (edge V s)" "dut_core (dut s3) = dut_core (edge V s)" "q_m_ack (ins s3) = mem_request s"
    "\<not> io_m_ack (ins s3)" "pin_clk (ins s3) = (\<not> pin_clk (ins s))" "mem_request s \<longrightarrow> q_m_data_in (ins s3) = bus_word (dut_out (edge V s)) (rtl_mem s)"
    "idx s3 = idx s" "idx1 s3 = idx1 s" "rtl_io s3 = rtl_io s"
proof -
  note ok = rtl_okD [OF assms(1)] and o = dev_only_sel [OF raise_intr_only [OF assms(2)]]
  have p: "intr_pins (requested s) = intr_pins s" "idx s1 = idx s" "idx1 s1 = idx1 s"
    by (simp_all add: o requested_def intr_pins_def)
  have rq: "dut (requested s) = dut s" by (simp add: requested_def)
  have e: "VRTLCPU_eval V (toggled (dut s1)) = edge V s" by (simp add: o edge_def p(1) rq)
  have i: "dut_in (edge V s) = (intr_pins s)\<lparr>pin_clk := \<not> pin_clk (ins s)\<rparr>" by (simp add: edge_def toggled_def)
  let ?s2 = "apply_events (slot s) (s1\<lparr>dut := edge V s, deferred_events := (deferred_events s1)(idx s := [])\<rparr>)"
  have s3: "s3 = (if mem_request s then apply_event Mem_ack (set_in (\<lambda>p. p\<lparr>q_m_data_in := bus_word (outs ?s2) (rtl_mem ?s2)\<rparr>) ?s2) else ?s2)"
    by (simp add: assms(3) after_edge_def e Let_def)
  note d = apply_events_def apply_event_def o requested_def p add_deferred_def
  show "deferred_events s3 = (\<lambda>_. [])(idx1 s := follows (slot s) @ (if mem_request s then [Mem_done] else []))"
    using ok(9) by (auto simp: s3 d fun_eq_iff follows_def idx1_neq)
  show "mem_in_progress s3 = mem_request s" using ok(5) by (auto simp: s3 d mem_request_def)
  show "io_in_progress s3 = io_request s" using ok(6) by (auto simp: s3 d io_request_def)
  show "rtl_mem s3 = rtl_mem s" "periodic_events s3 = periodic_events s" "mem_latency s3 = mem_latency s" "drv_cycle_num s3 = drv_cycle_num s"
    "outs s3 = dut_out (edge V s)" "dut_core (dut s3) = dut_core (edge V s)" "idx s3 = idx s" "idx1 s3 = idx1 s" "rtl_io s3 = rtl_io s" by (simp_all add: s3 d)
  show "q_m_ack (ins s3) = mem_request s" "\<not> io_m_ack (ins s3)" "pin_clk (ins s3) = (\<not> pin_clk (ins s))"
    "mem_request s \<longrightarrow> q_m_data_in (ins s3) = bus_word (dut_out (edge V s)) (rtl_mem s)"
    using ok(3-8) by (simp_all add: s3 d fold_pins_sel i)
qed

text \<open>Devices that always answer.\<close>

definition device_answers :: "'d IOPorts \<Rightarrow> bool" where
  "device_answers q \<longleftrightarrow> (\<forall>p i d. io_read8 q p i d \<noteq> None) \<and> (\<forall>p d. io_read16 q p d \<noteq> None) \<and>
     (\<forall>p i v d. io_write8 q p i v d \<noteq> None) \<and> (\<forall>p v d. io_write16 q p v d \<noteq> None)"

definition devices_answer :: "('v, 'd) RTLCPU \<Rightarrow> bool" where
  "devices_answer s \<longleftrightarrow> (\<forall>n d. rtl_inta_handler s n d \<noteq> None) \<and> (\<forall>a q. rtl_io s a = Some q \<longrightarrow> device_answers q)"

lemma dev_call_answers:
  assumes "\<And>d. f d \<noteq> None"
  shows "\<exists>v s'. dev_call f s = Some (v, s')"
proof -
  obtain v d l where "f (rtl_devs s) = Some (v, d, l)" using assms [of "rtl_devs s"] by auto
  then show ?thesis by (simp add: dev_call_def)
qed

lemma call_snd_answers: "(\<And>d. f d \<noteq> None) \<Longrightarrow> \<exists>s'. map_option snd (dev_call f s) = Some s'"
  using dev_call_answers [of f s] by force

lemma io_write_answers:
  assumes "\<forall>a q. rtl_io s a = Some q \<longrightarrow> device_answers q"
  shows "\<exists>s'. io_write_event s = Some s'"
proof (cases "rtl_io s (io_addr (outs s))")
  case (Some q)
  then have "device_answers q" using assms by blast
  then show ?thesis using Some unfolding io_write_event_def Let_def device_answers_def
    by (simp del: map_option_eq_Some add: call_snd_answers)
qed (simp add: io_write_event_def Let_def)

lemma call_then_answers: "(\<And>d. f d \<noteq> None) \<Longrightarrow> \<exists>s'. do { (v, s) \<leftarrow> dev_call f s; Some (g v s) } = Some s'"
  using dev_call_answers [of f s] by force

lemma io_read_answers:
  assumes "\<forall>a q. rtl_io s a = Some q \<longrightarrow> device_answers q"
  shows "\<exists>s'. io_read_event s = Some s'"
proof (cases "rtl_io s (io_addr (outs s))")
  case (Some q)
  then have "device_answers q" using assms by blast
  then show ?thesis using Some
    by (auto simp: io_read_event_def Let_def device_answers_def intro!: call_then_answers)
qed (auto simp: io_read_event_def Let_def)

lemma ack_int_answers: "devices_answer s \<Longrightarrow> \<exists>s'. RTLCPU_ack_int n s = Some s'"
  using dev_call_answers [of "rtl_inta_handler s n" s] by (auto simp: RTLCPU_ack_int_def devices_answer_def)

lemma raise_intr_answers: "devices_answer s \<Longrightarrow> \<exists>s'. raise_intr s = Some s'"
  using ack_int_answers [of "s\<lparr>rtl_pending_irq := 0\<rparr>"] by (auto simp: raise_intr_def Let_def devices_answer_def)

text \<open>The outputs the closures of the end of the cycle see: those of the evaluation after the deferred events.\<close>

definition captured :: "'v Verilated \<Rightarrow> ('v, 'd) RTLCPU \<Rightarrow> ('v, 'd) RTLCPU \<Rightarrow> 'v VRTLCPU" where
  "captured V s s' = VRTLCPU_eval V ((edge V s)\<lparr>dut_in := (ins s')\<lparr>pin_clk := \<not> pin_clk (ins s)\<rparr>\<rparr>)"

lemma bus_cycle_chain:
  assumes "rtl_ok s" "cycles_left s" "RTLCPU_cycle V s = Some s'"
  obtains s1 s3 s4 s5 s6 where "raise_intr (requested s) = Some s1" "s3 = after_edge V s s1"
    "(if io_request s then map_option (apply_event Io_ack) (io_read_event s3) else Some s3) = Some s4"
    "s5 = s4\<lparr>dut := VRTLCPU_eval V (dut s4)\<rparr>" "io_write_event (s5\<lparr>rtl_mem := bus_write (outs s5) (rtl_mem s5)\<rparr>) = Some s6" "s' = finish V s6"
  using assms(3) unfolding cycle_eq [OF rtl_okD(1) [OF assms(1)] assms(2) rtl_okD(2) [OF assms(1)]]
  by (auto simp: bind_eq_Some Let_def)

lemma after_read_sel:
  assumes "rtl_ok s" "raise_intr (requested s) = Some s1" "s3 = after_edge V s s1"
    "(if io_request s then map_option (apply_event Io_ack) (io_read_event s3) else Some s3) = Some s4"
  shows "deferred_events s4 = (\<lambda>_. [])(idx1 s := follows (slot s) @ (if mem_request s then [Mem_done] else []) @ (if io_request s then [Io_done] else []))"
    "mem_in_progress s4 = mem_request s" "io_in_progress s4 = io_request s" "rtl_mem s4 = rtl_mem s" "periodic_events s4 = periodic_events s"
    "mem_latency s4 = mem_latency s" "drv_cycle_num s4 = drv_cycle_num s" "outs s4 = dut_out (edge V s)" "dut_core (dut s4) = dut_core (edge V s)" "q_m_ack (ins s4) = mem_request s"
    "io_m_ack (ins s4) = io_request s" "pin_clk (ins s4) = (\<not> pin_clk (ins s))"
    "mem_request s \<longrightarrow> q_m_data_in (ins s4) = bus_word (dut_out (edge V s)) (rtl_mem s)" "rtl_io s4 = rtl_io s"
proof -
  note e = after_edge_sel [OF assms(1-3)]
  consider "\<not> io_request s" "s4 = s3" | u v where "io_request s" "dev_only (set_in (\<lambda>p. p\<lparr>io_m_data_in := v\<rparr>) s3) u" "s4 = apply_event Io_ack u"
    using assms(4) io_read_only [of s3] by (auto simp: io_only_def split: if_splits)
  then show "deferred_events s4 = (\<lambda>_. [])(idx1 s := follows (slot s) @ (if mem_request s then [Mem_done] else []) @ (if io_request s then [Io_done] else []))"
    "mem_in_progress s4 = mem_request s" "io_in_progress s4 = io_request s" "rtl_mem s4 = rtl_mem s" "periodic_events s4 = periodic_events s"
    "mem_latency s4 = mem_latency s" "drv_cycle_num s4 = drv_cycle_num s" "outs s4 = dut_out (edge V s)" "dut_core (dut s4) = dut_core (edge V s)" "q_m_ack (ins s4) = mem_request s"
    "io_m_ack (ins s4) = io_request s" "pin_clk (ins s4) = (\<not> pin_clk (ins s))"
    "mem_request s \<longrightarrow> q_m_data_in (ins s4) = bus_word (dut_out (edge V s)) (rtl_mem s)" "rtl_io s4 = rtl_io s"
    by (cases; use e in \<open>simp add: apply_event_def dev_only_sel\<close>)+
qed

lemma chain_captured:
  assumes "rtl_ok s" "raise_intr (requested s) = Some s1" "s3 = after_edge V s s1"
    "(if io_request s then map_option (apply_event Io_ack) (io_read_event s3) else Some s3) = Some s4"
    "s5 = s4\<lparr>dut := VRTLCPU_eval V (dut s4)\<rparr>" "io_write_event (s5\<lparr>rtl_mem := bus_write (outs s5) (rtl_mem s5)\<rparr>) = Some s6" "s' = finish V s6"
  shows "ins s' = (ins s4)\<lparr>pin_clk := pin_clk (ins s)\<rparr>" "dut s5 = captured V s s'" "dut s6 = captured V s s'"
proof -
  note i4 = after_read_sel [OF assms(1-4)] and o = dev_only_sel [OF io_write_only [OF assms(6)]]
  show p: "ins s' = (ins s4)\<lparr>pin_clk := pin_clk (ins s)\<rparr>" using i4(12) by (simp add: assms(5,7) finish_def settle_in o)
  have "(ins s4)\<lparr>pin_clk := \<not> pin_clk (ins s)\<rparr> = ins s4" using i4(12) by (cases "ins s4") simp
  then show c: "dut s5 = captured V s s'" using i4(9) unfolding captured_def p assms(5) by (simp, intro eval_cong) simp_all
  then show "dut s6 = captured V s s'" by (simp add: o)
qed

lemma bus_cycle_facts:
  assumes "rtl_ok s" "cycles_left s" "RTLCPU_cycle V s = Some s'"
  shows "rtl_ok s'" "drv_cycle_num s' = drv_cycle_num s + 1" "q_m_ack (ins s') = mem_request s" "io_m_ack (ins s') = io_request s"
    "mem_request s \<longrightarrow> q_m_data_in (ins s') = bus_word (dut_out (edge V s)) (rtl_mem s)"
    "rtl_mem s' = bus_write (dut_out (captured V s s')) (rtl_mem s)" "is_stopped s' = debug_stopped (dut_out (captured V s s'))"
    "dut s' = settle V (captured V s s')" "slot s' = follows (slot s) @ (if mem_request s then [Mem_done] else []) @ (if io_request s then [Io_done] else [])"
    "rtl_io s' = rtl_io s" "pin_clk (ins s') = pin_clk (ins s)"
proof -
  obtain s1 s3 s4 s5 s6 where r: "raise_intr (requested s) = Some s1" and s3: "s3 = after_edge V s s1"
    and s4: "(if io_request s then map_option (apply_event Io_ack) (io_read_event s3) else Some s3) = Some s4"
    and s5: "s5 = s4\<lparr>dut := VRTLCPU_eval V (dut s4)\<rparr>" and s6: "io_write_event (s5\<lparr>rtl_mem := bus_write (outs s5) (rtl_mem s5)\<rparr>) = Some s6"
    and s': "s' = finish V s6"
    using bus_cycle_chain [OF assms] by blast
  note i4 = after_read_sel [OF assms(1) r s3 s4]
  note o = dev_only_sel [OF io_write_only [OF s6]]
  note p = chain_captured(1) [OF assms(1) r s3 s4 s5 s6 s'] and c = chain_captured(3) [OF assms(1) r s3 s4 s5 s6 s']
  have n: "drv_cycle_num s' = drv_cycle_num s + 1" using i4(7) by (simp add: s' finish_def o s5)
  have x: "idx s' = idx1 s" using idx_next [OF assms(2)] by (simp add: idx_def n)
  show "q_m_ack (ins s') = mem_request s" "io_m_ack (ins s') = io_request s" "pin_clk (ins s') = pin_clk (ins s)"
    "mem_request s \<longrightarrow> q_m_data_in (ins s') = bus_word (dut_out (edge V s)) (rtl_mem s)" using i4(10-13) by (simp_all add: p)
  show "drv_cycle_num s' = drv_cycle_num s + 1" "rtl_mem s' = bus_write (dut_out (captured V s s')) (rtl_mem s)" "rtl_io s' = rtl_io s"
    "is_stopped s' = debug_stopped (dut_out (captured V s s'))" "dut s' = settle V (captured V s s')"
    using i4(4,7,14) c by (simp_all add: s' finish_def o s5)
  show sl: "slot s' = follows (slot s) @ (if mem_request s then [Mem_done] else []) @ (if io_request s then [Io_done] else [])"
    using i4(1) by (simp add: x) (simp add: s' finish_def o s5)
  show "rtl_ok s'"
  proof -
    note ok = rtl_okD [OF assms(1)] and f = follows_sel [of "slot s"]
    have "attached s'" using ok(1) i4(5,6) by (simp add: attached_def s' finish_def o s5)
    moreover have "mem_in_progress s' = mem_request s" "io_in_progress s' = io_request s" using i4(2,3) by (simp_all add: s' finish_def o s5)
    moreover have "deferred_events s' i = []" if "i \<noteq> idx s'" for i using that i4(1) unfolding x by (simp add: s' finish_def o s5)
    moreover have "q_m_ack (ins s') = mem_request s" "io_m_ack (ins s') = io_request s" using i4(10,11) by (simp_all add: p)
    ultimately show ?thesis unfolding rtl_ok_def sl using f ok(3,4) by auto
  qed
qed

lemma bus_cycle_returns:
  assumes "rtl_ok s" "cycles_left s" "devices_answer s"
  shows "\<exists>s'. RTLCPU_cycle V s = Some s'"
proof -
  obtain s1 where r: "raise_intr (requested s) = Some s1"
    using raise_intr_answers [of "requested s"] assms(3) by (auto simp: devices_answer_def requested_def)
  let ?s3 = "after_edge V s s1"
  have d: "\<forall>a q. rtl_io s a = Some q \<longrightarrow> device_answers q" using assms(3) by (simp add: devices_answer_def)
  then have "\<exists>s4. (if io_request s then map_option (apply_event Io_ack) (io_read_event ?s3) else Some ?s3) = Some s4"
    using io_read_answers [of ?s3] after_edge_sel(16) [OF assms(1) r refl, of V] by auto
  then obtain s4 where s4: "(if io_request s then map_option (apply_event Io_ack) (io_read_event ?s3) else Some ?s3) = Some s4" by blast
  let ?s5 = "s4\<lparr>dut := VRTLCPU_eval V (dut s4)\<rparr>"
  have "\<exists>s6. io_write_event (?s5\<lparr>rtl_mem := bus_write (outs ?s5) (rtl_mem ?s5)\<rparr>) = Some s6"
    using d after_read_sel(14) [OF assms(1) r refl s4] by (intro io_write_answers) simp
  then show ?thesis
    unfolding cycle_eq [OF rtl_okD(1) [OF assms(1)] assms(2) rtl_okD(2) [OF assms(1)]] using r s4 by (auto simp: Let_def)
qed

end
