(* ===== verification/RTLRegs.thy ===== *)
theory RTLRegs
  imports RTLBus
begin

text \<open>
  The register accessors of the RTL backend against the register file of the software CPU. What the accessors rely on is the debug
  interface of the design (rtl/Core.sv, rtl/microcode/Microcode.sv.templ and debug.us): \<open>debug_port\<close> states it on the
  evaluation of the compiled design. A design whose internal state is the interface and nothing else shows that it can be met.
\<close>

section \<open>The debug interface of the design\<close>

text \<open>
  Stopped, or running the microcode procedure at an address (of which the low byte is given) for some more clock edges. The value is the temporary
  register that \<open>debug_val\<close> shows.
\<close>

datatype dbg_phase = Stopped | Running u8 nat

record dbg =
  dbg_phase :: dbg_phase
  dbg_tmp :: u16
  dbg_regs :: RegisterFile

text \<open>The procedures that read and write a register or the flags.\<close>

definition reg_proc :: "u8 \<Rightarrow> bool" where
  "reg_proc a \<longleftrightarrow> 0x03 \<le> a \<and> a \<le> 0x1e"

definition dbg_proc :: "u8 \<Rightarrow> dbg \<Rightarrow> dbg" where
  "dbg_proc a d =
     (let r = dbg_regs d in
      if a \<le> 0x0f then d\<lparr>dbg_tmp := registers r (GPR_of (unat a - 0x03))\<rparr>
      else if a = 0x10 then d\<lparr>dbg_tmp := get_flags r\<rparr>
      else if a = 0x11 then d\<lparr>dbg_regs := r\<lparr>registers := (registers r)(IP := dbg_tmp d)\<rparr>\<rparr>
      else if a = 0x12 then d\<lparr>dbg_regs := set_flags r (dbg_tmp d) 0xffff\<rparr>
      else d\<lparr>dbg_regs := r\<lparr>registers := (registers r)(GPR_of (unat a - 0x13) := dbg_tmp d)\<rparr>\<rparr>)"

definition dbg_next :: "VRTLCPU_in \<Rightarrow> dbg \<Rightarrow> dbg \<Rightarrow> bool" where
  "dbg_next p d d' \<longleftrightarrow>
     (case dbg_phase d of
        Stopped \<Rightarrow>
          (let d = d\<lparr>dbg_tmp := if debug_wr_en p then debug_wr_val p else dbg_tmp d\<rparr>
           in if debug_run p then \<exists>n<16. d' = d\<lparr>dbg_phase := Running (debug_addr p) n\<rparr> else d' = d)
      | Running a n \<Rightarrow>
          (case n of Suc m \<Rightarrow> d' = d\<lparr>dbg_phase := Running a m\<rparr> | 0 \<Rightarrow> d' = (dbg_proc a d)\<lparr>dbg_phase := Stopped\<rparr>))"

definition calm_phase :: "dbg \<Rightarrow> bool" where
  "calm_phase d \<longleftrightarrow> (case dbg_phase d of Stopped \<Rightarrow> True | Running a n \<Rightarrow> reg_proc a)"

text \<open>
  The design is clocked by rising edges (\<open>clk\<close> is the level it last saw); on an edge without reset it behaves as above. While stopped
  or in a register procedure it shows its state on the debug pins, does not write to the memory, does not access a port and acknowledges no
  interrupt. It may fetch instructions.
\<close>

definition debug_port :: "'v Verilated \<Rightarrow> ('v \<Rightarrow> bool) \<Rightarrow> ('v \<Rightarrow> dbg) \<Rightarrow> bool" where
  "debug_port V clk view \<longleftrightarrow> (\<forall>p c q c'. core_eval V p c = (q, c') \<longrightarrow>
     clk c' = pin_clk p \<and>
     ((pin_clk p \<longrightarrow> clk c) \<longrightarrow> view c' = view c) \<and>
     (pin_clk p \<and> \<not> clk c \<and> \<not> pin_reset p \<and> calm_phase (view c) \<longrightarrow> dbg_next p (view c) (view c')) \<and>
     (calm_phase (view c') \<longrightarrow> (debug_stopped q \<longleftrightarrow> dbg_phase (view c') = Stopped) \<and> debug_val q = dbg_tmp (view c') \<and>
        \<not> q_m_wr_en q \<and> \<not> io_m_access q \<and> \<not> pin_inta q))"

section \<open>A clock cycle\<close>

lemma eval_view:
  assumes "debug_port V clk view" "pin_clk (dut_in d) \<longrightarrow> clk (dut_core d)"
  shows "view (dut_core (VRTLCPU_eval V d)) = view (dut_core d)" "clk (dut_core (VRTLCPU_eval V d)) = pin_clk (dut_in d)"
    "calm_phase (view (dut_core d)) \<Longrightarrow> (debug_stopped (dut_out (VRTLCPU_eval V d)) \<longleftrightarrow> dbg_phase (view (dut_core d)) = Stopped) \<and>
       debug_val (dut_out (VRTLCPU_eval V d)) = dbg_tmp (view (dut_core d)) \<and> \<not> q_m_wr_en (dut_out (VRTLCPU_eval V d)) \<and>
       \<not> io_m_access (dut_out (VRTLCPU_eval V d)) \<and> \<not> pin_inta (dut_out (VRTLCPU_eval V d))"
proof -
  obtain q c' where c: "core_eval V (dut_in d) (dut_core d) = (q, c')" by fastforce
  from assms c have v: "view c' = view (dut_core d)" "clk c' = pin_clk (dut_in d)"
      "calm_phase (view c') \<longrightarrow> (debug_stopped q \<longleftrightarrow> dbg_phase (view c') = Stopped) \<and> debug_val q = dbg_tmp (view c') \<and>
        \<not> q_m_wr_en q \<and> \<not> io_m_access q \<and> \<not> pin_inta q"
    unfolding debug_port_def by blast+
  have e: "dut_core (VRTLCPU_eval V d) = c'" "dut_out (VRTLCPU_eval V d) = q" by (simp_all add: VRTLCPU_eval_def c)
  show "view (dut_core (VRTLCPU_eval V d)) = view (dut_core d)" "clk (dut_core (VRTLCPU_eval V d)) = pin_clk (dut_in d)"
    unfolding e by (rule v(1), rule v(2))
  show "(debug_stopped (dut_out (VRTLCPU_eval V d)) \<longleftrightarrow> dbg_phase (view (dut_core d)) = Stopped) \<and>
       debug_val (dut_out (VRTLCPU_eval V d)) = dbg_tmp (view (dut_core d)) \<and> \<not> q_m_wr_en (dut_out (VRTLCPU_eval V d)) \<and>
       \<not> io_m_access (dut_out (VRTLCPU_eval V d)) \<and> \<not> pin_inta (dut_out (VRTLCPU_eval V d))" if "calm_phase (view (dut_core d))"
    unfolding e using v that by simp
qed

lemma evals_view:
  assumes "debug_port V clk view" "pin_clk (dut_in d) \<longrightarrow> clk (dut_core d)"
  shows "view (dut_core ((VRTLCPU_eval V ^^ n) d)) = view (dut_core d) \<and> dut_in ((VRTLCPU_eval V ^^ n) d) = dut_in d \<and>
    (pin_clk (dut_in d) \<longrightarrow> clk (dut_core ((VRTLCPU_eval V ^^ n) d)))"
  using assms(2) by (induction n) (simp_all add: eval_view [OF assms(1)])

lemma settle_view:
  assumes "debug_port V clk view" "pin_clk (dut_in d)" "clk (dut_core d)" "calm_phase (view (dut_core d))"
  shows "view (dut_core (settle V d)) = view (dut_core d)" "\<not> clk (dut_core (settle V d))" "\<not> pin_clk (dut_in (settle V d))"
    "debug_stopped (dut_out (settle V d)) \<longleftrightarrow> dbg_phase (view (dut_core d)) = Stopped" "debug_val (dut_out (settle V d)) = dbg_tmp (view (dut_core d))"
    "\<not> q_m_wr_en (dut_out (settle V d))" "\<not> io_m_access (dut_out (settle V d))" "\<not> pin_inta (dut_out (settle V d))"
proof -
  let ?t = "toggled ((VRTLCPU_eval V ^^ 4) d)"
  have t: "\<not> pin_clk (dut_in ?t)" "view (dut_core ?t) = view (dut_core d)"
    using assms evals_view [OF assms(1), of d 4] by (simp_all add: toggled_def)
  let ?u = "(VRTLCPU_eval V ^^ 4) ?t"
  have u: "\<not> pin_clk (dut_in ?u)" "view (dut_core ?u) = view (dut_core d)" using t evals_view [OF assms(1), of ?t 4] by auto
  have s: "settle V d = VRTLCPU_eval V ?u" by (simp add: settle_def numeral_eq_Suc)
  show "view (dut_core (settle V d)) = view (dut_core d)" "\<not> clk (dut_core (settle V d))" "\<not> pin_clk (dut_in (settle V d))"
    "debug_stopped (dut_out (settle V d)) \<longleftrightarrow> dbg_phase (view (dut_core d)) = Stopped" "debug_val (dut_out (settle V d)) = dbg_tmp (view (dut_core d))"
    "\<not> q_m_wr_en (dut_out (settle V d))" "\<not> io_m_access (dut_out (settle V d))" "\<not> pin_inta (dut_out (settle V d))"
    unfolding s using u eval_view [OF assms(1), of ?u] assms(4) by simp_all
qed

text \<open>The pins the debug interface looks at.\<close>

definition dbg_pins :: "VRTLCPU_in \<Rightarrow> bool \<times> u8 \<times> bool \<times> u16 \<times> bool" where
  "dbg_pins p = (debug_run p, debug_addr p, debug_wr_en p, debug_wr_val p, pin_reset p)"

lemma event_pins_dbg: "dbg_pins p = dbg_pins p' \<Longrightarrow> dbg_pins (event_pins e p) = dbg_pins (event_pins e p')"
  by (cases e) (simp_all add: dbg_pins_def)

lemma fold_pins_dbg: "dbg_pins p = dbg_pins p' \<Longrightarrow> dbg_pins (fold event_pins es p) = dbg_pins (fold event_pins es p')"
proof (induction es arbitrary: p p')
  case (Cons e es)
  show ?case using Cons.IH [OF event_pins_dbg [OF Cons.prems]] by simp
qed simp

lemma intr_pins_dbg: "dbg_pins ((intr_pins s)\<lparr>pin_clk := b\<rparr>) = dbg_pins (ins s)"
  by (simp add: dbg_pins_def intr_pins_def)

lemma dbg_next_pins: "dbg_pins p = dbg_pins p' \<Longrightarrow> dbg_next p d d' = dbg_next p' d d'"
  by (cases "dbg_phase d") (simp_all add: dbg_next_def dbg_pins_def Let_def)

lemma quiet_cycle:
  assumes "rtl_ok s" "cycles_left s" "\<not> io_m_access (outs s)" "\<not> pin_inta (outs s)"
    and "\<And>p. pin_clk p \<noteq> pin_clk (ins s) \<Longrightarrow> \<not> io_m_access (dut_out (VRTLCPU_eval V ((edge V s)\<lparr>dut_in := p\<rparr>)))"
  shows "\<exists>s'. RTLCPU_cycle V s = Some s' \<and> rtl_devs s' = rtl_devs s \<and> dbg_pins (ins s') = dbg_pins (fold event_pins (slot s) (ins s))"
proof -
  let ?s1 = "set_in (\<lambda>_. intr_pins s) (requested s)"
  have r: "raise_intr (requested s) = Some ?s1"
    using assms(4) by (simp add: raise_intr_def intr_pins_def requested_def set_in_def)
  let ?s3 = "after_edge V s ?s1"
  note e = after_edge_sel [OF assms(1) r refl, of V]
  have io: "\<not> io_request s" using assms(3) by (simp add: io_request_def)
  have ed: "VRTLCPU_eval V (toggled (dut ?s1)) = edge V s" by (simp add: edge_def requested_def)
  have i: "dut_in (edge V s) = (intr_pins s)\<lparr>pin_clk := \<not> pin_clk (ins s)\<rparr>" by (simp add: edge_def toggled_def)
  have d: "rtl_devs ?s3 = rtl_devs s"
    by (simp add: after_edge_def Let_def apply_event_def apply_events_def requested_def)
  have "dbg_pins (ins ?s3) = dbg_pins (fold event_pins (slot s) (dut_in (edge V s)))"
    unfolding after_edge_def Let_def ed by (simp add: apply_event_def apply_events_def dbg_pins_def)
  also have "\<dots> = dbg_pins (fold event_pins (slot s) (ins s))" unfolding i by (rule fold_pins_dbg, rule intr_pins_dbg)
  finally have p: "dbg_pins (ins ?s3) = dbg_pins (fold event_pins (slot s) (ins s))" .
  have "VRTLCPU_eval V (dut ?s3) = VRTLCPU_eval V ((edge V s)\<lparr>dut_in := ins ?s3\<rparr>)" using e(9) by (intro eval_cong) simp_all
  then have o: "\<not> io_m_access (dut_out (VRTLCPU_eval V (dut ?s3)))" using assms(5) e(12) by simp
  let ?s5 = "?s3\<lparr>dut := VRTLCPU_eval V (dut ?s3)\<rparr>"
  let ?s6 = "?s5\<lparr>rtl_mem := bus_write (outs ?s5) (rtl_mem ?s5)\<rparr>"
  have "RTLCPU_cycle V s = Some (finish V ?s6)"
    using r io o unfolding cycle_eq [OF rtl_okD(1) [OF assms(1)] assms(2) rtl_okD(2) [OF assms(1)]]
    by (simp add: Let_def io_write_event_def)
  moreover have "rtl_devs (finish V ?s6) = rtl_devs s" "dbg_pins (ins (finish V ?s6)) = dbg_pins (ins ?s3)"
    using d by (simp_all add: finish_def settle_in dbg_pins_def)
  ultimately show ?thesis using p by simp
qed

abbreviation core :: "('v, 'd) RTLCPU \<Rightarrow> 'v" where "core s \<equiv> dut_core (dut s)"

fun debug_event :: "event \<Rightarrow> bool" where
  "debug_event Mem_done = True" | "debug_event Run_end = True" | "debug_event Write_data_end = True"
| "debug_event (Write_data v) = True" | "debug_event (Run a) = reg_proc (ucast a)" | "debug_event _ = False"

text \<open>The states between the cycles of a register access.\<close>

definition calm :: "('v \<Rightarrow> bool) \<Rightarrow> ('v \<Rightarrow> dbg) \<Rightarrow> ('v, 'd) RTLCPU \<Rightarrow> bool" where
  "calm clk view s \<longleftrightarrow> rtl_ok s \<and> \<not> pin_clk (ins s) \<and> \<not> clk (core s) \<and> \<not> pin_reset (ins s) \<and> calm_phase (view (core s)) \<and>
     \<not> io_m_access (outs s) \<and> \<not> pin_inta (outs s) \<and> (debug_run (ins s) \<longrightarrow> reg_proc (debug_addr (ins s))) \<and>
     (is_stopped s \<longleftrightarrow> dbg_phase (view (core s)) = Stopped) \<and> (debug_stopped (outs s) \<longleftrightarrow> dbg_phase (view (core s)) = Stopped) \<and>
     debug_val (outs s) = dbg_tmp (view (core s)) \<and> list_all debug_event (slot s)"

lemma calmD:
  assumes "calm clk view s"
  shows "rtl_ok s" "\<not> pin_clk (ins s)" "\<not> clk (core s)" "\<not> pin_reset (ins s)" "calm_phase (view (core s))" "\<not> io_m_access (outs s)" "\<not> pin_inta (outs s)"
    "debug_run (ins s) \<Longrightarrow> reg_proc (debug_addr (ins s))" "is_stopped s \<longleftrightarrow> dbg_phase (view (core s)) = Stopped"
    "debug_val (outs s) = dbg_tmp (view (core s))" "list_all debug_event (slot s)" "debug_stopped (outs s) \<longleftrightarrow> dbg_phase (view (core s)) = Stopped"
  using assms by (auto simp: calm_def)

lemma follows_debug: "list_all debug_event es \<Longrightarrow> list_all debug_event (follows es)"
proof (induction es)
  case (Cons e es)
  then show ?case by (cases e) (simp_all add: follows_def)
qed (simp add: follows_def)

lemma debug_event_pins:
  "debug_event e \<Longrightarrow> pin_reset (event_pins e p) = pin_reset p"
  "debug_event e \<Longrightarrow> (debug_run p \<longrightarrow> reg_proc (debug_addr p)) \<Longrightarrow> debug_run (event_pins e p) \<longrightarrow> reg_proc (debug_addr (event_pins e p))"
  by (cases e; simp)+

lemma debug_events_pins:
  "list_all debug_event es \<Longrightarrow> pin_reset (fold event_pins es p) = pin_reset p"
  "list_all debug_event es \<Longrightarrow> (debug_run p \<longrightarrow> reg_proc (debug_addr p)) \<Longrightarrow>
     debug_run (fold event_pins es p) \<longrightarrow> reg_proc (debug_addr (fold event_pins es p))"
  by (induction es arbitrary: p) (use debug_event_pins in \<open>auto simp: debug_event_pins(1)\<close>)

lemma dbg_next_calm: "dbg_next p d d' \<Longrightarrow> calm_phase d \<Longrightarrow> (debug_run p \<longrightarrow> reg_proc (debug_addr p)) \<Longrightarrow> calm_phase d'"
  by (auto simp: dbg_next_def calm_phase_def Let_def split: dbg_phase.splits nat.splits if_splits)

lemma debug_cycle:
  assumes "debug_port V clk view" "calm clk view s" "cycles_left s"
  shows "\<exists>s'. RTLCPU_cycle V s = Some s' \<and> calm clk view s' \<and> dbg_next (ins s) (view (core s)) (view (core s')) \<and>
    slot s' = follows (slot s) @ (if mem_request s then [Mem_done] else []) \<and> dbg_pins (ins s') = dbg_pins (fold event_pins (slot s) (ins s)) \<and>
    rtl_mem s' = rtl_mem s \<and> rtl_devs s' = rtl_devs s \<and> drv_cycle_num s' = drv_cycle_num s + 1"
proof -
  note c = calmD [OF assms(2)]
  let ?p = "(intr_pins s)\<lparr>pin_clk := True\<rparr>"
  obtain q c1 where e: "core_eval V ?p (core s) = (q, c1)" by fastforce
  have ed: "dut_core (edge V s) = c1" "pin_clk (dut_in (edge V s))"
    using e c(2) by (simp_all add: edge_def VRTLCPU_eval_def toggled_def)
  have pr: "\<not> pin_reset ?p" using c(4) by (simp add: intr_pins_def)
  have port: "clk c1" "dbg_next ?p (view (core s)) (view c1)"
    using assms(1) e pr c(3,5) unfolding debug_port_def by fastforce+
  have nx: "dbg_next (ins s) (view (core s)) (view c1)" using port(2) dbg_next_pins [OF intr_pins_dbg] by blast
  have cp: "calm_phase (view c1)" by (rule dbg_next_calm [OF nx c(5)]) (use c(8) in blast)
  have ev: "\<not> io_m_access (dut_out (VRTLCPU_eval V ((edge V s)\<lparr>dut_in := p\<rparr>)))" for p
    using eval_view(3) [OF assms(1), of "(edge V s)\<lparr>dut_in := p\<rparr>"] cp ed(1) port(1) by simp
  obtain s' where s': "RTLCPU_cycle V s = Some s'" "rtl_devs s' = rtl_devs s" "dbg_pins (ins s') = dbg_pins (fold event_pins (slot s) (ins s))"
    using quiet_cycle [OF c(1) assms(3) c(6,7) ev] by blast
  note b = bus_cycle_facts [OF c(1) assms(3) s'(1)]
  let ?d = "(edge V s)\<lparr>dut_in := (ins s')\<lparr>pin_clk := \<not> pin_clk (ins s)\<rparr>\<rparr>"
  have "pin_clk (dut_in ?d) \<longrightarrow> clk (dut_core ?d)" using ed(1) port(1) by simp
  note k = eval_view [OF assms(1) this]
  have cd: "captured V s s' = VRTLCPU_eval V ?d" by (simp add: captured_def)
  have cap: "view (dut_core (captured V s s')) = view c1" "clk (dut_core (captured V s s'))" "pin_clk (dut_in (captured V s s'))"
      "\<not> q_m_wr_en (dut_out (captured V s s'))" "debug_stopped (dut_out (captured V s s')) \<longleftrightarrow> dbg_phase (view c1) = Stopped"
    using k ed(1) cp c(2) unfolding cd by simp_all
  note st = settle_view [OF assms(1) cap(3,2)]
  have io: "\<not> io_request s" using c(6) by (simp add: io_request_def)
  have r: "\<not> pin_reset (ins s')" "debug_run (ins s') \<longrightarrow> reg_proc (debug_addr (ins s'))"
    using s'(3) debug_events_pins [OF c(11), of "ins s"] c(4,8) unfolding dbg_pins_def by auto
  have "calm clk view s'"
    unfolding calm_def b(7,8) using b(1,9) r io st cp cap(1,5) follows_debug [OF c(11)] b(8) by simp
  moreover have "rtl_mem s' = rtl_mem s" using b(6) cap(4) by (simp add: bus_write_def)
  moreover have "view (core s') = view c1" using st(1) cap(1) cp b(8) by simp
  ultimately show ?thesis using s' nx b(2,9) io by auto
qed

section \<open>A procedure\<close>

fun closing :: "event \<Rightarrow> bool" where
  "closing Mem_done = True" | "closing Run_end = True" | "closing Write_data_end = True" | "closing _ = False"

lemma closing_sel:
  "list_all closing es \<Longrightarrow> follows es = []"
  "list_all closing es \<Longrightarrow> debug_run (fold event_pins es p) \<longleftrightarrow> debug_run p \<and> Run_end \<notin> set es"
  "list_all closing es \<Longrightarrow> debug_wr_en (fold event_pins es p) \<longleftrightarrow> debug_wr_en p \<and> Write_data_end \<notin> set es"
  "list_all closing es \<Longrightarrow> debug_addr (fold event_pins es p) = debug_addr p"
  "list_all closing es \<Longrightarrow> debug_wr_val (fold event_pins es p) = debug_wr_val p"
proof (induction es arbitrary: p)
  case (Cons e es)
  { case 1 with Cons show ?case by (cases e) (simp_all add: follows_def) next
    case 2 with Cons show ?case by (cases e) simp_all next
    case 3 with Cons show ?case by (cases e) simp_all next
    case 4 with Cons show ?case by (cases e) simp_all next
    case 5 with Cons show ?case by (cases e) simp_all }
qed (simp_all add: follows_def)

definition clock :: "('v, 'd) RTLCPU \<Rightarrow> nat" where
  "clock s = unat (drv_cycle_num s)"

lemma clock_room: "clock s + 64 < 2 ^ 64 \<Longrightarrow> cycles_left s"
  by (simp add: cycles_left_def clock_def)

lemma clock_next: "drv_cycle_num s' = drv_cycle_num s + 1 \<Longrightarrow> clock s + 64 < 2 ^ 64 \<Longrightarrow> clock s' = clock s + 1"
  using unat_small_add [of "drv_cycle_num s" 1] by (simp add: clock_def)

text \<open>
  A call on the debug interface keeps memory and devices. \<open>ready\<close> is the state before and after a call: stopped, with no request on the debug pins and nothing scheduled but the
  end of a memory transfer. With \<open>loaded v\<close> the value \<open>v\<close> is on the pins instead, to be taken at the next edge.
\<close>

definition same_world :: "('v, 'd) RTLCPU \<Rightarrow> ('v, 'd) RTLCPU \<Rightarrow> bool" where
  "same_world s s' \<longleftrightarrow> rtl_mem s' = rtl_mem s \<and> rtl_devs s' = rtl_devs s"

definition stopped_at :: "('v \<Rightarrow> bool) \<Rightarrow> ('v \<Rightarrow> dbg) \<Rightarrow> u16 option \<Rightarrow> ('v, 'd) RTLCPU \<Rightarrow> bool" where
  "stopped_at clk view v s \<longleftrightarrow> calm clk view s \<and> dbg_phase (view (core s)) = Stopped \<and> list_all closing (slot s) \<and> \<not> debug_run (ins s) \<and>
     (case v of None \<Rightarrow> \<not> debug_wr_en (ins s) | Some w \<Rightarrow> debug_wr_en (ins s) \<and> debug_wr_val (ins s) = w \<and> Write_data_end \<in> set (slot s))"

lemma calm_add:
  assumes "calm clk view s" "debug_event e" "simple e" "e \<noteq> Mem_done"
  shows "calm clk view (add_deferred (idx s) [e] s)"
proof -
  have "e \<noteq> Mem_ack" "e \<noteq> Io_ack" "e \<noteq> Io_done" using assms(2) by auto
  then show ?thesis using assms by (auto simp: calm_def rtl_ok_def attached_def)
qed

lemma run_to_stop_spec:
  assumes "debug_port V clk view" "calm clk view s" "list_all closing (slot s)" "\<not> debug_run (ins s)" "\<not> debug_wr_en (ins s)"
    and "dbg_phase (view (core s)) = Running a n" "clock s + n + 65 < 2 ^ 64"
  shows "\<exists>k' s'. run_to_stop V null_io k s = Some (k', s') \<and> k' \<le> k + n + 1 \<and> stopped_at clk view None s' \<and>
    view (core s') = (dbg_proc a (view (core s)))\<lparr>dbg_phase := Stopped\<rparr> \<and> same_world s s' \<and> clock s' = clock s + n + 1"
  using assms(2-7)
proof (induction n arbitrary: s k)
  case 0
  have r: "cycles_left s" by (rule clock_room) (use 0(6) in simp)
  obtain s' where s': "RTLCPU_cycle V s = Some s'" "calm clk view s'" "dbg_next (ins s) (view (core s)) (view (core s'))"
      "slot s' = follows (slot s) @ (if mem_request s then [Mem_done] else [])" "dbg_pins (ins s') = dbg_pins (fold event_pins (slot s) (ins s))"
      "rtl_mem s' = rtl_mem s" "rtl_devs s' = rtl_devs s" "drv_cycle_num s' = drv_cycle_num s + 1"
    using debug_cycle [OF assms(1) 0(1) r] by blast
  note c = closing_sel [OF 0(2)]
  have v: "view (core s') = (dbg_proc a (view (core s)))\<lparr>dbg_phase := Stopped\<rparr>" using s'(3) 0(5) by (simp add: dbg_next_def)
  have st: "stopped_at clk view None s'" using s'(2,4,5) v c 0(3,4) by (simp add: stopped_at_def dbg_pins_def)
  have i: "\<not> is_stopped s" "is_stopped s'" using calmD(9) [OF 0(1)] calmD(9) [OF s'(2)] 0(5) v by simp_all
  have "\<exists>k'. run_to_stop V null_io k s = Some (k', s') \<and> k' \<le> k + 1"
    using i s'(1) by (simp add: run_to_stop.simps [of _ _ _ s] run_to_stop.simps [of _ _ _ s'] dev_call_def null_io_def Let_def)
  then show ?case using st v s'(6-8) clock_next [of s' s] 0(6) by (auto simp: same_world_def)
next
  case (Suc n)
  have r: "cycles_left s" by (rule clock_room) (use Suc.prems(6) in simp)
  obtain s' where s': "RTLCPU_cycle V s = Some s'" "calm clk view s'" "dbg_next (ins s) (view (core s)) (view (core s'))"
      "slot s' = follows (slot s) @ (if mem_request s then [Mem_done] else [])" "dbg_pins (ins s') = dbg_pins (fold event_pins (slot s) (ins s))"
      "rtl_mem s' = rtl_mem s" "rtl_devs s' = rtl_devs s" "drv_cycle_num s' = drv_cycle_num s + 1"
    using debug_cycle [OF assms(1) Suc.prems(1) r] by blast
  note c = closing_sel [OF Suc.prems(2)]
  have v: "view (core s') = (view (core s))\<lparr>dbg_phase := Running a n\<rparr>" using s'(3) Suc.prems(5) by (simp add: dbg_next_def)
  have cl: "clock s' = clock s + 1" using clock_next [OF s'(8)] Suc.prems(6) by simp
  have h: "list_all closing (slot s')" "\<not> debug_run (ins s')" "\<not> debug_wr_en (ins s')" "dbg_phase (view (core s')) = Running a n" "clock s' + n + 65 < 2 ^ 64"
    using s'(4,5) c Suc.prems(3,4,6) v cl by (simp_all add: dbg_pins_def)
  let ?k = "if get_microcode_address V s' \<noteq> 0x100 \<and> get_microcode_address V s' \<noteq> 0x102 then k + 1 else k"
  have rs: "run_to_stop V null_io k s = run_to_stop V null_io ?k s'"
    using calmD(9) [OF Suc.prems(1)] Suc.prems(5) s'(1) by (simp add: run_to_stop.simps [of _ _ _ s] dev_call_def null_io_def Let_def)
  obtain k' s2 where "run_to_stop V null_io ?k s' = Some (k', s2)" "k' \<le> ?k + n + 1" "stopped_at clk view None s2"
      "view (core s2) = (dbg_proc a (view (core s')))\<lparr>dbg_phase := Stopped\<rparr>" "same_world s' s2" "clock s2 = clock s' + n + 1"
    using Suc.IH [OF s'(2) h, of ?k] by blast
  moreover have "(dbg_proc a (view (core s')))\<lparr>dbg_phase := Stopped\<rparr> = (dbg_proc a (view (core s)))\<lparr>dbg_phase := Stopped\<rparr>"
    by (simp add: v dbg_proc_def Let_def)
  ultimately show ?case unfolding rs using s'(6,7) cl by (auto simp: same_world_def split: if_splits)
qed

definition loaded_tmp :: "u16 option \<Rightarrow> dbg \<Rightarrow> dbg" where
  "loaded_tmp v d = (case v of None \<Rightarrow> d | Some w \<Rightarrow> d\<lparr>dbg_tmp := w\<rparr>)"

lemma stopped_atD:
  assumes "stopped_at clk view v s"
  shows "calm clk view s" "dbg_phase (view (core s)) = Stopped" "list_all closing (slot s)" "\<not> debug_run (ins s)" "is_stopped s"
    "debug_wr_en (ins s) \<Longrightarrow> Write_data_end \<in> set (slot s)" "debug_stopped (outs s)" "debug_val (outs s) = dbg_tmp (view (core s))"
    "(view (core s))\<lparr>dbg_tmp := if debug_wr_en (ins s) then debug_wr_val (ins s) else dbg_tmp (view (core s))\<rparr> = loaded_tmp v (view (core s))"
  using assms calmD(9,10,12) [of clk view s] by (auto simp: stopped_at_def loaded_tmp_def split: option.splits)

text \<open>The first cycle of a call, in which an event \<open>e\<close> has been scheduled: the design takes a value that is on the pins.\<close>

lemma first_cycle:
  assumes "debug_port V clk view" "stopped_at clk view v s" "clock s + 64 < 2 ^ 64" "debug_event e" "simple e" "e \<noteq> Mem_done"
  shows "\<exists>s'. RTLCPU_cycle V (add_deferred (idx s) [e] s) = Some s' \<and> calm clk view s' \<and> view (core s') = loaded_tmp v (view (core s)) \<and>
    slot s' = follow e @ (if mem_request s then [Mem_done] else []) \<and> dbg_pins (ins s') = dbg_pins (event_pins e (fold event_pins (slot s) (ins s))) \<and>
    same_world s s' \<and> clock s' = clock s + 1"
proof -
  let ?s = "add_deferred (idx s) [e] s"
  note st = stopped_atD [OF assms(2)]
  have c: "calm clk view ?s" by (rule calm_add [OF st(1) assms(4-6)])
  have cl: "clock ?s = clock s" by (simp add: clock_def)
  have r: "cycles_left ?s" using clock_room [OF assms(3)] by simp
  obtain s' where s': "RTLCPU_cycle V ?s = Some s'" "calm clk view s'" "dbg_next (ins ?s) (view (core ?s)) (view (core s'))"
      "slot s' = follows (slot ?s) @ (if mem_request ?s then [Mem_done] else [])" "dbg_pins (ins s') = dbg_pins (fold event_pins (slot ?s) (ins ?s))"
      "rtl_mem s' = rtl_mem ?s" "rtl_devs s' = rtl_devs ?s" "drv_cycle_num s' = drv_cycle_num ?s + 1"
    using debug_cycle [OF assms(1) c r] by blast
  have "view (core s') = loaded_tmp v (view (core s))" using s'(3) st(2,4,9) by (simp add: dbg_next_def Let_def)
  moreover have "follows (slot ?s) = follow e" using closing_sel(1) [OF st(3)] by (simp add: follows_def)
  ultimately show ?thesis using s' clock_next [OF s'(8)] assms(3) cl by (auto simp: same_world_def mem_request_def)
qed

lemma debug_write_data_spec:
  assumes "debug_port V clk view" "stopped_at clk view None s" "clock s + 64 < 2 ^ 64"
  shows "\<exists>s'. debug_write_data V w s = Some s' \<and> stopped_at clk view (Some w) s' \<and> view (core s') = view (core s) \<and> same_world s s' \<and> clock s' = clock s + 1"
proof -
  note st = stopped_atD [OF assms(2)]
  obtain s' where s': "RTLCPU_cycle V (add_deferred (idx s) [Write_data w] s) = Some s'" "calm clk view s'" "view (core s') = loaded_tmp None (view (core s))"
      "slot s' = follow (Write_data w) @ (if mem_request s then [Mem_done] else [])" "dbg_pins (ins s') = dbg_pins (event_pins (Write_data w) (fold event_pins (slot s) (ins s)))"
      "same_world s s'" "clock s' = clock s + 1"
    using first_cycle [OF assms, of "Write_data w"] by auto
  have "stopped_at clk view (Some w) s'"
    using s'(2-5) st(2,4) closing_sel(2) [OF st(3)] by (simp add: stopped_at_def loaded_tmp_def dbg_pins_def)
  then show ?thesis using s' clock_room [OF assms(3)] by (simp add: debug_write_data_def after_0 loaded_tmp_def)
qed

lemma run_proc_spec:
  assumes "debug_port V clk view" "stopped_at clk view v s" "clock s + 128 < 2 ^ 64" "reg_proc (ucast a)"
  shows "\<exists>s'. run_proc V a s = Some s' \<and> stopped_at clk view None s' \<and>
    view (core s') = (dbg_proc (ucast a) (loaded_tmp v (view (core s))))\<lparr>dbg_phase := Stopped\<rparr> \<and> same_world s s' \<and> clock s' \<le> clock s + 18"
proof -
  note st = stopped_atD [OF assms(2)]
  obtain s1 where s1: "RTLCPU_cycle V (add_deferred (idx s) [Run a] s) = Some s1" "calm clk view s1" "view (core s1) = loaded_tmp v (view (core s))"
      "slot s1 = follow (Run a) @ (if mem_request s then [Mem_done] else [])" "dbg_pins (ins s1) = dbg_pins (event_pins (Run a) (fold event_pins (slot s) (ins s)))"
      "same_world s s1" "clock s1 = clock s + 1"
    using first_cycle [OF assms(1,2) _ _ _, of "Run a"] assms(3,4) by auto
  have r1: "cycles_left s1" by (rule clock_room) (use s1(7) assms(3) in simp)
  have p1: "debug_run (ins s1)" "debug_addr (ins s1) = ucast a" "\<not> debug_wr_en (ins s1)"
    using s1(5) closing_sel(3) [OF st(3), of "ins s"] st(6) by (auto simp: dbg_pins_def)
  have ph: "dbg_phase (view (core s1)) = Stopped" using st(2) s1(3) by (simp add: loaded_tmp_def split: option.splits)
  obtain s2 where s2: "RTLCPU_cycle V s1 = Some s2" "calm clk view s2" "dbg_next (ins s1) (view (core s1)) (view (core s2))"
      "slot s2 = follows (slot s1) @ (if mem_request s1 then [Mem_done] else [])" "dbg_pins (ins s2) = dbg_pins (fold event_pins (slot s1) (ins s1))"
      "rtl_mem s2 = rtl_mem s1" "rtl_devs s2 = rtl_devs s1" "drv_cycle_num s2 = drv_cycle_num s1 + 1"
    using debug_cycle [OF assms(1) s1(2) r1] by blast
  obtain n where n: "n < 16" "view (core s2) = (view (core s1))\<lparr>dbg_phase := Running (ucast a) n\<rparr>"
    using s2(3) ph p1 by (auto simp: dbg_next_def Let_def)
  have sl: "list_all closing (slot s1)" "Run_end \<in> set (slot s1)" using s1(4) by simp_all
  have cl2: "clock s2 = clock s + 2" using clock_next [OF s2(8)] s1(7) assms(3) by simp
  have h: "list_all closing (slot s2)" "\<not> debug_run (ins s2)" "\<not> debug_wr_en (ins s2)" "dbg_phase (view (core s2)) = Running (ucast a) n"
      "clock s2 + n + 65 < 2 ^ 64"
    using s2(4,5) closing_sel [OF sl(1)] sl(2) p1(3) n cl2 assms(3) by (simp_all add: dbg_pins_def)
  obtain k' s' where s': "run_to_stop V null_io 0 s2 = Some (k', s')" "k' \<le> 0 + n + 1" "stopped_at clk view None s'"
      "view (core s') = (dbg_proc (ucast a) (view (core s2)))\<lparr>dbg_phase := Stopped\<rparr>" "same_world s2 s'" "clock s' = clock s2 + n + 1"
    using run_to_stop_spec [OF assms(1) s2(2) h] by blast
  have i: "is_stopped s" "is_stopped s1" "\<not> is_stopped s2" using st(5) calmD(9) [OF s1(2)] calmD(9) [OF s2(2)] ph h(4) by simp_all
  have w: "cycle_while (RTLCPU_cycle V) is_stopped (add_deferred (idx s) [Run a] s) = Some s2"
    using i s1(1) s2(1) by (simp add: cycle_while.simps [of _ _ "add_deferred (idx s) [Run a] s"] cycle_while.simps [of _ _ s1] cycle_while.simps [of _ _ s2])
  have "cycles_left s" by (rule clock_room) (use assms(3) in simp)
  then have "run_proc V a s = Some s'" using w s'(1,2) n(1) by (simp add: run_proc_def debug_run_proc_def after_0 max_cycles_per_step_def)
  moreover have "view (core s') = (dbg_proc (ucast a) (loaded_tmp v (view (core s))))\<lparr>dbg_phase := Stopped\<rparr>"
    using s'(4) n(2) s1(3) by (simp add: dbg_proc_def Let_def)
  ultimately show ?thesis using s'(3,5,6) s1(6) s2(6,7) cl2 n(1) by (auto simp: same_world_def)
qed

section \<open>The accessors\<close>

abbreviation rtl_regs :: "('v \<Rightarrow> dbg) \<Rightarrow> ('v, 'd) RTLCPU \<Rightarrow> RegisterFile" where
  "rtl_regs view s \<equiv> dbg_regs (view (core s))"

text \<open>What one call of the debug interface does: a state it may start and end in, and how the registers and the clock have moved on.\<close>

definition debug_call :: "('v \<Rightarrow> bool) \<Rightarrow> ('v \<Rightarrow> dbg) \<Rightarrow> nat \<Rightarrow> (RegisterFile \<Rightarrow> RegisterFile) \<Rightarrow> ('v, 'd) RTLCPU \<Rightarrow> ('v, 'd) RTLCPU \<Rightarrow> bool" where
  "debug_call clk view n f s s' \<longleftrightarrow> stopped_at clk view None s' \<and> rtl_regs view s' = f (rtl_regs view s) \<and> same_world s s' \<and> clock s' \<le> clock s + n"

lemma read_proc:
  assumes "debug_port V clk view" "stopped_at clk view None s" "clock s + 128 < 2 ^ 64" "reg_proc (ucast a)"
    and "\<And>d. dbg_regs (dbg_proc (ucast a) d) = dbg_regs d" "\<And>d. dbg_tmp (dbg_proc (ucast a) d) = g (dbg_regs d)"
  shows "\<exists>s'. run_proc V a s = Some s' \<and> debug_val (outs s') = g (rtl_regs view s) \<and> debug_call clk view 18 id s s'"
  using run_proc_spec [OF assms(1-4)] assms(5,6) stopped_atD(8) by (fastforce simp: loaded_tmp_def debug_call_def)

lemma write_proc:
  assumes "debug_port V clk view" "stopped_at clk view None s" "clock s + 192 < 2 ^ 64" "reg_proc (ucast a)"
    and "\<And>d. dbg_regs (dbg_proc (ucast a) d) = f (dbg_tmp d) (dbg_regs d)"
  shows "\<exists>s'. do { s \<leftarrow> debug_write_data V w s; run_proc V a s } = Some s' \<and> debug_call clk view 19 (f w) s s'"
proof -
  obtain s1 where s1: "debug_write_data V w s = Some s1" "stopped_at clk view (Some w) s1" "view (core s1) = view (core s)" "same_world s s1" "clock s1 = clock s + 1"
    using debug_write_data_spec [OF assms(1,2)] assms(3) by fastforce
  have "clock s1 + 128 < 2 ^ 64" using s1(5) assms(3) by simp
  then show ?thesis using run_proc_spec [OF assms(1) s1(2) _ assms(4)] s1 assms(5)
    by (fastforce simp: loaded_tmp_def debug_call_def same_world_def)
qed

lemma proc_addr:
  assumes "GPR_val x < 13"
  shows "(ucast (0x03 + of_nat (GPR_val x) :: u32) :: u8) = 0x03 + of_nat (GPR_val x)" "unat (0x03 + of_nat (GPR_val x) :: u8) = 3 + GPR_val x"
    "(ucast (0x13 + of_nat (GPR_val x) :: u32) :: u8) = 0x13 + of_nat (GPR_val x)" "unat (0x13 + of_nat (GPR_val x) :: u8) = 0x13 + GPR_val x"
  using assms by (cases x; simp)+

lemma read_whole:
  assumes "debug_port V clk view" "stopped_at clk view None s" "clock s + 128 < 2 ^ 64" "GPR_val x < 13"
  shows "\<exists>s'. run_proc V (0x03 + of_nat (GPR_val x)) s = Some s' \<and> debug_val (outs s') = registers (rtl_regs view s) x \<and> debug_call clk view 18 id s s'"
proof (rule read_proc [OF assms(1-3)])
  show "reg_proc (ucast (0x03 + of_nat (GPR_val x) :: u32))" using assms(4) unfolding proc_addr(1) [OF assms(4)]
    by (simp add: reg_proc_def word_le_nat_alt proc_addr(2) [OF assms(4)])
  fix d
  have le: "(0x03 + of_nat (GPR_val x) :: u8) \<le> 0x0f" using assms(4) by (simp add: word_le_nat_alt proc_addr(2) [OF assms(4)])
  show "dbg_regs (dbg_proc (ucast (0x03 + of_nat (GPR_val x) :: u32)) d) = dbg_regs d"
    "dbg_tmp (dbg_proc (ucast (0x03 + of_nat (GPR_val x) :: u32)) d) = registers (dbg_regs d) x"
    unfolding proc_addr(1) [OF assms(4)] dbg_proc_def Let_def using le by (simp_all add: proc_addr(2) [OF assms(4)])
qed

lemma write_whole:
  assumes "debug_port V clk view" "stopped_at clk view None s" "clock s + 192 < 2 ^ 64" "GPR_val x < 12"
  shows "\<exists>s'. do { s \<leftarrow> debug_write_data V w s; run_proc V (0x13 + of_nat (GPR_val x)) s } = Some s' \<and>
    debug_call clk view 19 (\<lambda>r. r\<lparr>registers := (registers r)(x := w)\<rparr>) s s'"
proof (rule write_proc [OF assms(1-3)])
  have l: "GPR_val x < 13" using assms(4) by simp
  show "reg_proc (ucast (0x13 + of_nat (GPR_val x) :: u32))" using assms(4) unfolding proc_addr(3) [OF l]
    by (simp add: reg_proc_def word_le_nat_alt proc_addr(4) [OF l])
  fix d
  have "\<not> (0x13 + of_nat (GPR_val x) :: u8) \<le> 0x0f" "(0x13 + of_nat (GPR_val x) :: u8) \<noteq> 0x10" "(0x13 + of_nat (GPR_val x) :: u8) \<noteq> 0x11"
      "(0x13 + of_nat (GPR_val x) :: u8) \<noteq> 0x12" by (simp_all add: word_le_nat_alt word_unat_eq_iff proc_addr(4) [OF l])
  then show "dbg_regs (dbg_proc (ucast (0x13 + of_nat (GPR_val x) :: u32)) d) = (dbg_regs d)\<lparr>registers := (registers (dbg_regs d))(x := dbg_tmp d)\<rparr>"
    unfolding proc_addr(3) [OF l] dbg_proc_def Let_def by (simp add: proc_addr(4) [OF l])
qed

lemma byte_reg:
  assumes "\<not> GPR_val x < 13"
  shows "(GPR_val x - GPR_val AL) mod 4 = GPR_val (whole x)" "GPR_val (whole x) < 4" "GPR_val AH \<le> GPR_val x \<longleftrightarrow> is_high x"
    "reg_get r x = ucast (conv_get (registers r (whole x)) (is_high x))"
    "reg_set r x v = r\<lparr>registers := (registers r)(whole x := conv_set (registers r (whole x)) (is_high x) (ucast v)), reg_written := False\<rparr>"
proof -
  have b: "ucast (ucast w :: u8) = w AND 0xff" "drop_bit 8 w AND 0xff = drop_bit 8 w" "push_bit 8 w AND 0xff00 = push_bit 8 w" for w :: u16
    by (rule bit_word_eqI; auto simp: bit_simps mask_literals dest: bit_u16_high)+
  show "(GPR_val x - GPR_val AL) mod 4 = GPR_val (whole x)" "GPR_val (whole x) < 4" "GPR_val AH \<le> GPR_val x \<longleftrightarrow> is_high x"
    using assms by (cases x; simp)+
  show "reg_get r x = ucast (conv_get (registers r (whole x)) (is_high x))"
    using assms by (cases x) (simp_all add: reg_get_def conv_get_def b)
  show "reg_set r x v = r\<lparr>registers := (registers r)(whole x := conv_set (registers r (whole x)) (is_high x) (ucast v)), reg_written := False\<rparr>"
    using assms by (cases x) (simp_all add: reg_set_def set_low_def set_high_def conv_set_def b)
qed

lemma whole_reg: "GPR_val x < 13 \<Longrightarrow> reg_get r x = registers r x"
    "GPR_val x < 13 \<Longrightarrow> reg_set r x v = r\<lparr>registers := (registers r)(x := v), reg_written := reg_written r \<and> x = IP\<rparr>"
  by (cases x; simp add: reg_get_def reg_set_def)+

text \<open>The register file ignores the marker of writes, which the RTL backend does not have.\<close>

definition same_file :: "RegisterFile \<Rightarrow> RegisterFile \<Rightarrow> bool" where
  "same_file a b \<longleftrightarrow> registers a = registers b \<and> rflags a = rflags b \<and> pseudo_286 a = pseudo_286 b"

lemma read_reg_spec:
  assumes "debug_port V clk view" "stopped_at clk view None s" "clock s + 128 < 2 ^ 64"
  shows "\<exists>s'. RTLCPU_read_reg V x s = Some (reg_get (rtl_regs view s) x, s') \<and> debug_call clk view 18 id s s'"
proof (cases "GPR_val x < 13")
  case True
  have "x = IP \<Longrightarrow> 3 + of_nat (GPR_val x) = (0x0f :: u32)" by simp
  then show ?thesis using read_whole [OF assms True] True stopped_atD(7) [OF assms(2)]
    by (auto simp: RTLCPU_read_reg_def read_ip_def read_sr_def read_gpr_def NUM_16BIT_REGS_def whole_reg)
next
  case False
  have "GPR_val (whole x) < 13" using byte_reg(2) [OF False] by simp
  note w = read_whole [OF assms this]
  have "x \<noteq> IP" "\<not> (GPR_val ES \<le> GPR_val x \<and> GPR_val x \<le> GPR_val DS)" using False by auto
  then show ?thesis using w False unfolding byte_reg(4) [OF False]
    by (auto simp: RTLCPU_read_reg_def read_gpr_def NUM_16BIT_REGS_def Let_def byte_reg(1,3) [OF False, simplified])
qed

lemma write_reg_spec:
  assumes "debug_port V clk view" "stopped_at clk view None s" "clock s + 256 < 2 ^ 64"
  shows "\<exists>s'. RTLCPU_write_reg V x w s = Some s' \<and> debug_call clk view 37 (\<lambda>r. (reg_set r x w)\<lparr>reg_written := reg_written r\<rparr>) s s'"
proof -
  have r: "clock s + 192 < 2 ^ 64" "clock s + 128 < 2 ^ 64" using assms(3) by simp_all
  have up: "debug_call clk view 37 f s s'" if "debug_call clk view 19 f s s'" for f s' using that by (auto simp: debug_call_def)
  consider "x = IP" | "GPR_val x < 12" | "\<not> GPR_val x < 13" by (cases x) auto
  then show ?thesis
  proof cases
    case 1
    have "\<exists>s'. do { s \<leftarrow> debug_write_data V w s; run_proc V 0x11 s } = Some s' \<and> debug_call clk view 19 (\<lambda>r. r\<lparr>registers := (registers r)(IP := w)\<rparr>) s s'"
      by (rule write_proc [OF assms(1,2) r(1), where f = "\<lambda>v r. r\<lparr>registers := (registers r)(IP := v)\<rparr>"]) (simp_all add: reg_proc_def dbg_proc_def Let_def)
    then show ?thesis using up stopped_atD(5) [OF assms(2)] by (auto simp: 1 RTLCPU_write_reg_def write_ip_def whole_reg)
  next
    case 2
    then have "x \<noteq> IP" "GPR_val x < 13" by auto
    moreover obtain s' where "do { s \<leftarrow> debug_write_data V w s; run_proc V (0x13 + of_nat (GPR_val x)) s } = Some s'"
        "debug_call clk view 37 (\<lambda>r. r\<lparr>registers := (registers r)(x := w)\<rparr>) s s'"
      using write_whole [OF assms(1,2) r(1) 2, of w] up by blast
    ultimately show ?thesis
      by (auto simp: RTLCPU_write_reg_def write_sr_def write_gpr_def NUM_16BIT_REGS_def whole_reg)
  next
    case 3
    note b = byte_reg [OF 3]
    have n: "x \<noteq> IP" "\<not> (GPR_val ES \<le> GPR_val x \<and> GPR_val x \<le> GPR_val DS)" using 3 by auto
    obtain s1 where s1: "RTLCPU_read_reg V (whole x) s = Some (registers (rtl_regs view s) (whole x), s1)" "debug_call clk view 18 id s s1"
      using read_reg_spec [OF assms(1,2) r(2), of "whole x"] b(2) by (auto simp: whole_reg)
    have c: "clock s1 + 192 < 2 ^ 64" "stopped_at clk view None s1" "GPR_val (whole x) < 12" using s1(2) assms(3) b(2) by (auto simp: debug_call_def)
    show ?thesis using write_whole [OF assms(1) c(2,1,3), of "conv_set (registers (rtl_regs view s) (whole x)) (is_high x) (ucast w)"] s1 n 3
      by (auto simp: RTLCPU_write_reg_def write_gpr_def NUM_16BIT_REGS_def Let_def b(1,3) [simplified] b(5) debug_call_def same_world_def)
  qed
qed

lemma flags_spec:
  assumes "debug_port V clk view" "stopped_at clk view None s" "clock s + 192 < 2 ^ 64"
  shows "\<exists>s'. RTLCPU_read_flags V s = Some (get_flags (rtl_regs view s), s') \<and> debug_call clk view 18 id s s'"
    "\<exists>s'. RTLCPU_write_flags V w s = Some s' \<and> debug_call clk view 19 (\<lambda>r. set_flags r w 0xffff) s s'"
proof -
  have "\<exists>s'. run_proc V 0x10 s = Some s' \<and> debug_val (outs s') = get_flags (rtl_regs view s) \<and> debug_call clk view 18 id s s'"
    by (rule read_proc [OF assms(1,2)]) (use assms(3) in \<open>simp_all add: reg_proc_def dbg_proc_def Let_def\<close>)
  then show "\<exists>s'. RTLCPU_read_flags V s = Some (get_flags (rtl_regs view s), s') \<and> debug_call clk view 18 id s s'"
    by (auto simp: RTLCPU_read_flags_def)
  show "\<exists>s'. RTLCPU_write_flags V w s = Some s' \<and> debug_call clk view 19 (\<lambda>r. set_flags r w 0xffff) s s'"
    unfolding RTLCPU_write_flags_def by (rule write_proc [OF assms]) (simp_all add: reg_proc_def dbg_proc_def Let_def)
qed

end
