(* ===== verification/RTLProtocol.thy ===== *)
theory RTLProtocol
  imports RTLBus
begin

text \<open>
  What the RTL backend promises to the design on its buses and interrupt lines, for every design; and a design that plays a script on
  its pins, for the examples.
\<close>

section \<open>The calls into the devices\<close>

text \<open>The device call of an I/O write on the bus.\<close>

definition port_write :: "VRTLCPU_out \<Rightarrow> 'd IOPorts \<Rightarrow> (unit, 'd) io_op" where
  "port_write p q =
     (if io_m_bytesel p = 0x3 then io_write16 q (io_addr p - port_base q) (io_m_data_out p)
      else if bit (io_m_bytesel p) 0 then io_write8 q (io_addr p - port_base q) 0 (ucast (io_m_data_out p))
      else if bit (io_m_bytesel p) 1 then io_write8 q (io_addr p - port_base q) 1 (ucast (drop_bit 8 (io_m_data_out p)))
      else (\<lambda>d. Some ((), d, [])))"

definition writes_port :: "VRTLCPU_out \<Rightarrow> bool" where
  "writes_port p \<longleftrightarrow> io_m_access p \<and> d_io p \<and> io_m_wr_en p"

text \<open>A device call and the interrupt it leaves pending, the last one raised.\<close>

definition device_call :: "(unit, 'd) io_op \<Rightarrow> 'd \<times> u8 \<Rightarrow> 'd \<times> u8 \<Rightarrow> bool" where
  "device_call f x y \<longleftrightarrow> (\<exists>l. f (fst x) = Some ((), fst y, l) \<and> snd y = (if l = [] then snd x else of_int (last l)))"

abbreviation world :: "('v, 'd) RTLCPU \<Rightarrow> 'd \<times> u8" where
  "world s \<equiv> (rtl_devs s, rtl_pending_irq s)"

lemma foldl_irqs:
  "rtl_devs (foldl RTLCPU_raise_irq s l) = rtl_devs s"
  "rtl_pending_irq (foldl RTLCPU_raise_irq s l) = (if l = [] then rtl_pending_irq s else of_int (last l))"
  by (induction l rule: rev_induct) (simp_all add: RTLCPU_raise_irq_def)

lemma dev_call_world:
  assumes "map_option snd (dev_call f s) = Some s'"
  shows "device_call f (world s) (world s')"
proof -
  obtain d l where "f (rtl_devs s) = Some ((), d, l)" "s' = foldl RTLCPU_raise_irq (s\<lparr>rtl_devs := d\<rparr>) l"
    using assms by (auto simp: dev_call_def bind_eq_Some)
  then show ?thesis by (simp add: device_call_def foldl_irqs)
qed

lemma io_write_world:
  assumes "io_write_event s = Some s'"
  shows "writes_port (outs s) \<Longrightarrow> \<not> io_in_progress s \<Longrightarrow> rtl_io s (io_addr (outs s)) = Some q \<Longrightarrow>
      device_call (port_write (outs s) q) (world s) (world s')"
    "\<not> writes_port (outs s) \<or> io_in_progress s \<Longrightarrow> world s' = world s"
proof -
  have b: "(io_m_bytesel p AND push_bit n 1 \<noteq> 0) = bit (io_m_bytesel p) n" for p n by (simp add: bit_iff_and_push_bit_not_eq_0)
  have k: "device_call (\<lambda>d. Some ((), d, [])) x x" for x :: "'b \<times> u8" by (simp add: device_call_def)
  show "device_call (port_write (outs s) q) (world s) (world s')"
    if "writes_port (outs s)" "\<not> io_in_progress s" "rtl_io s (io_addr (outs s)) = Some q"
    using assms that dev_call_world k unfolding io_write_event_def port_write_def writes_port_def b Let_def
    by (auto simp del: map_option_eq_Some split: if_splits)
  show "world s' = world s" if "\<not> writes_port (outs s) \<or> io_in_progress s"
    using assms that by (auto simp: io_write_event_def writes_port_def Let_def split: if_splits)
qed

lemma cycle_world:
  assumes "rtl_ok s" "cycles_left s" "RTLCPU_cycle V s = Some s'" "p = dut_out (captured V s s')"
  obtains w where
    "int_in_progress s \<or> rtl_pending_irq s = 0 \<or> \<not> pin_inta (outs s) \<Longrightarrow> w = world s"
    "\<not> int_in_progress s \<Longrightarrow> rtl_pending_irq s \<noteq> 0 \<Longrightarrow> pin_inta (outs s) \<Longrightarrow>
       device_call (rtl_inta_handler s (uint (rtl_pending_irq s))) (rtl_devs s, 0) w"
    "\<not> io_request s \<Longrightarrow> writes_port p \<Longrightarrow> rtl_io s (io_addr p) = Some q \<Longrightarrow> device_call (port_write p q) w (world s')"
    "\<not> io_request s \<Longrightarrow> \<not> writes_port p \<Longrightarrow> world s' = w"
    "io_request s \<Longrightarrow> io_m_wr_en (dut_out (edge V s)) \<Longrightarrow> world s' = w"
proof -
  obtain s1 s3 s4 s5 s6 where r: "raise_intr (requested s) = Some s1" and s3: "s3 = after_edge V s s1"
    and s4: "(if io_request s then map_option (apply_event Io_ack) (io_read_event s3) else Some s3) = Some s4"
    and s5: "s5 = s4\<lparr>dut := VRTLCPU_eval V (dut s4)\<rparr>" and s6: "io_write_event (s5\<lparr>rtl_mem := bus_write (outs s5) (rtl_mem s5)\<rparr>) = Some s6"
    and s': "s' = finish V s6"
    using bus_cycle_chain [OF assms(1-3)] by blast
  note e = after_edge_sel [OF assms(1) r s3] and i4 = after_read_sel [OF assms(1) r s3 s4]
  have w3: "world s3 = world s1" by (simp add: s3 after_edge_def Let_def apply_event_def apply_events_def)
  have w4: "world s4 = world s3" if "\<not> io_request s \<or> io_m_wr_en (dut_out (edge V s))"
    using that s4 e(8) by (auto simp: io_read_event_def Let_def apply_event_def split: if_splits)
  have w': "world s' = world s6" by (simp add: s' finish_def)
  have p: "outs s5 = p" using chain_captured(2) [OF assms(1) r s3 s4 s5 s6 s'] assms(4) by simp
  note iw = io_write_world [OF s6]
  show thesis
  proof (rule that [of "world s1"])
    show "world s1 = world s" if "int_in_progress s \<or> rtl_pending_irq s = 0 \<or> \<not> pin_inta (outs s)"
      using r that by (auto simp: raise_intr_def requested_def split: if_splits)
    show "device_call (rtl_inta_handler s (uint (rtl_pending_irq s))) (rtl_devs s, 0) (world s1)"
      if "\<not> int_in_progress s" "rtl_pending_irq s \<noteq> 0" "pin_inta (outs s)"
      using r that dev_call_world [of "rtl_inta_handler s (uint (rtl_pending_irq s))" "(requested s)\<lparr>rtl_pending_irq := 0\<rparr>" s1]
      by (simp add: raise_intr_def requested_def RTLCPU_ack_int_def Let_def)
    show "device_call (port_write p q) (world s1) (world s')" if "\<not> io_request s" "writes_port p" "rtl_io s (io_addr p) = Some q"
      using iw(1) that i4(3,14) w3 w4 w' p by (simp add: s5)
    show "world s' = world s1" if "\<not> io_request s" "\<not> writes_port p" using iw(2) that w3 w4 w' p by (simp add: s5)
    show "world s' = world s1" if "io_request s" "io_m_wr_en (dut_out (edge V s))" using iw(2) that w3 w4 w' i4(3) by (simp add: s5)
  qed
qed

section \<open>Construction\<close>

lemma cycle_while_inv:
  assumes "cycle_while cyc b s = Some s'" "P s" "\<And>s s'. P s \<Longrightarrow> cyc s = Some s' \<Longrightarrow> P s'"
  shows "P s' \<and> \<not> b s'"
proof -
  have "(\<forall>s s'. P s \<longrightarrow> cyc s = Some s' \<longrightarrow> P s') \<longrightarrow> P s \<longrightarrow> P s' \<and> \<not> b s'"
  proof (rule cycle_while.raw_induct [where P = "\<lambda>cyc b s s'. (\<forall>s s'. P s \<longrightarrow> cyc s = Some s' \<longrightarrow> P s') \<longrightarrow> P s \<longrightarrow> P s' \<and> \<not> b s'", OF _ assms(1)])
    fix cw :: "('a \<Rightarrow> 'a option) \<Rightarrow> ('a \<Rightarrow> bool) \<Rightarrow> 'a \<Rightarrow> 'a option" and cyc b s s'
    assume "\<And>cyc b s s'. cw cyc b s = Some s' \<Longrightarrow> (\<forall>s s'. P s \<longrightarrow> cyc s = Some s' \<longrightarrow> P s') \<longrightarrow> P s \<longrightarrow> P s' \<and> \<not> b s'"
      and body: "(if b s then cyc s \<bind> (\<lambda>s. cw cyc b s) else Some s) = Some s'"
    note IH = this(1)
    show "(\<forall>s s'. P s \<longrightarrow> cyc s = Some s' \<longrightarrow> P s') \<longrightarrow> P s \<longrightarrow> P s' \<and> \<not> b s'"
    proof (intro impI)
      assume p: "\<forall>s s'. P s \<longrightarrow> cyc s = Some s' \<longrightarrow> P s'" "P s"
      show "P s' \<and> \<not> b s'"
      proof (cases "b s")
        case True
        then obtain s1 where "cyc s = Some s1" "cw cyc b s1 = Some s'" using body by (auto simp: bind_eq_Some)
        then show ?thesis using IH p by blast
      qed (use body p in simp)
    qed
  qed
  then show ?thesis using assms(2,3) by blast
qed

text \<open>While the constructor runs, no closure is registered and only the end of the reset is scheduled.\<close>

definition bare :: "('v, 'd) RTLCPU \<Rightarrow> bool" where
  "bare s \<longleftrightarrow> (\<forall>e. periodic_events s e = []) \<and> \<not> mem_in_progress s \<and> \<not> io_in_progress s \<and> \<not> int_in_progress s \<and> mem_latency s = 0 \<and> \<not> q_m_ack (ins s) \<and> \<not> io_m_ack (ins s) \<and>
     (if pin_reset (ins s) then \<exists>i. deferred_events s = (\<lambda>_. [])(i := [Reset_end]) else deferred_events s = (\<lambda>_. []))"

lemma bare_step:
  assumes "bare s"
  shows "slot s = [] \<Longrightarrow> RTLCPU_cycle V s = Some (s\<lparr>dut := settle V (VRTLCPU_eval V (VRTLCPU_eval V (toggled (dut s)))), drv_cycle_num := drv_cycle_num s + 1\<rparr>)"
    "slot s = [Reset_end] \<Longrightarrow> RTLCPU_cycle V s = Some (s\<lparr>deferred_events := (deferred_events s)(idx s := []),
       dut := settle V (VRTLCPU_eval V ((VRTLCPU_eval V (toggled (dut s)))\<lparr>dut_in := (dut_in (toggled (dut s)))\<lparr>pin_reset := False\<rparr>\<rparr>)), drv_cycle_num := drv_cycle_num s + 1\<rparr>)"
proof -
  have p: "periodic_events s e = []" for e using assms by (simp add: bare_def)
  have i: "unat (drv_cycle_num s mod of_nat max_deferred_delta) = idx s" by (simp add: idx_def max_deferred_delta_def)
  show "slot s = [] \<Longrightarrow> RTLCPU_cycle V s = Some (s\<lparr>dut := settle V (VRTLCPU_eval V (VRTLCPU_eval V (toggled (dut s)))), drv_cycle_num := drv_cycle_num s + 1\<rparr>)"
    by (simp add: cycle_phases run_periodic_events_def run_deferred_events_def p i fun_upd_idem)
  show "slot s = [Reset_end] \<Longrightarrow> RTLCPU_cycle V s = Some (s\<lparr>deferred_events := (deferred_events s)(idx s := []),
       dut := settle V (VRTLCPU_eval V ((VRTLCPU_eval V (toggled (dut s)))\<lparr>dut_in := (dut_in (toggled (dut s)))\<lparr>pin_reset := False\<rparr>\<rparr>)), drv_cycle_num := drv_cycle_num s + 1\<rparr>)"
    by (simp add: cycle_phases run_periodic_events_def run_deferred_events_def p i set_in_def)
qed

lemma bare_cycle:
  assumes "bare s" "RTLCPU_cycle V s = Some s'"
  shows "bare s' \<and> (pin_reset (ins s') \<longrightarrow> pin_reset (ins s)) \<and> drv_cycle_num s' = drv_cycle_num s + 1 \<and>
    deferred_events s' = (deferred_events s)(idx s := [])"
proof -
  have e: "(\<lambda>_. [])(i := [Reset_end], i := []) = (\<lambda>_. [] :: event list)" for i :: nat by auto
  consider "slot s = []" | "slot s = [Reset_end]" "pin_reset (ins s)" "deferred_events s = (\<lambda>_. [])(idx s := [Reset_end])"
  proof (cases "pin_reset (ins s)")
    case True
    then obtain i where "deferred_events s = (\<lambda>_. [])(i := [Reset_end])" using assms(1) by (auto simp: bare_def)
    then show thesis using that True by (cases "idx s = i") simp_all
  qed (use assms(1) that in \<open>simp add: bare_def\<close>)
  then show ?thesis
  proof cases
    case 1
    then show ?thesis using assms by (auto simp: bare_step(1) [OF assms(1)] bare_def settle_in toggled_def fun_upd_idem)
  next
    case 2
    have d: "(deferred_events s)(idx s := []) = (\<lambda>_. [])" unfolding 2(3) by auto
    then show ?thesis using assms 2(1) by (auto simp: bare_step(2) [OF assms(1)] d bare_def settle_in toggled_def)
  qed
qed

lemma bare_attached:
  assumes "bare s" "\<not> pin_reset (ins s)" "s' = periodic ClockCapture End_int (periodic ClockSetup Raise_intr (periodic ClockCapture Copy_stopped (periodic ClockCapture Io_write
      (periodic ClockCapture Mem_write (periodic ClockSetup Io_access (periodic ClockSetup Mem_access s))))))"
  shows "rtl_ok s'" "\<not> int_in_progress s'" "dut s' = dut s"
  using assms(1,2) by (simp_all add: assms(3) periodic_def bare_def rtl_ok_def attached_def)

lemma driver_reset_RTL:
  "driver_reset (VRTLCPU_class V) run_event Reset_end 2 s = do {
     s \<leftarrow> after_n_cycles 2 Reset_end (set_in (\<lambda>p. p\<lparr>pin_reset := True\<rparr>) s);
     s \<leftarrow> RTLCPU_cycle V s;
     cycle_while (RTLCPU_cycle V) (\<lambda>s. pin_reset (ins s)) s
   }"
proof -
  have "(RTLCPU_cycle V :: ('a, 'b) RTLCPU \<Rightarrow> _) = cycle1 (VRTLCPU_class V) run_event" by (simp add: fun_eq_iff RTLCPU_cycle_def)
  moreover have "set_reset (VRTLCPU_class V) = (\<lambda>b d. d\<lparr>dut_in := (dut_in d)\<lparr>pin_reset := b\<rparr>\<rparr>)" "get_reset (VRTLCPU_class V) = (\<lambda>d. pin_reset (dut_in d))"
    by (simp_all add: VRTLCPU_class_def)
  ultimately show ?thesis by (simp add: driver_reset_def set_in_def)
qed

lemma RTLCPU_reset_bare:
  assumes "RTLCPU_reset V s = Some s'" "bare (s\<lparr>int_in_progress := False\<rparr>)" "\<not> pin_reset (ins s)" "drv_cycle_num s = 0"
  shows "bare s'" "\<not> pin_reset (ins s')" "get_microcode_address V s' = 0x102"
proof -
  let ?t = "set_in (\<lambda>p. p\<lparr>pin_reset := True\<rparr>) ((set_in (\<lambda>p. p\<lparr>pin_nmi := False, pin_intr := False\<rparr>) s)\<lparr>rtl_pending_irq := 0, int_in_progress := False\<rparr>)"
  let ?u = "add_deferred 2 [Reset_end] ?t"
  have b0: "bare ?u" using assms(2,3) by (auto simp: bare_def add_deferred_def)
  have "cycles_left ?t" "idx ?t = 0" using assms(4) by (simp_all add: cycles_left_def idx_def)
  then have a: "after_n_cycles 2 Reset_end ?t = Some ?u" using at_cycle_within [of ?t 2 Reset_end] by (simp add: numeral_2_eq_2)
  obtain s1 s2 where s: "RTLCPU_cycle V ?u = Some s1" "cycle_while (RTLCPU_cycle V) (\<lambda>s. pin_reset (ins s)) s1 = Some s2"
      "cycle_while (RTLCPU_cycle V) (\<lambda>s. get_microcode_address V s \<noteq> 0x102) s2 = Some s'"
    using assms(1) a by (auto simp: RTLCPU_reset_def driver_reset_RTL bind_eq_Some Let_def)
  have p: "bare s2 \<and> \<not> pin_reset (ins s2)" using cycle_while_inv [where P = bare, OF s(2) conjunct1 [OF bare_cycle [OF b0 s(1)]]] bare_cycle by blast
  have "(bare s' \<and> \<not> pin_reset (ins s')) \<and> \<not> get_microcode_address V s' \<noteq> 0x102"
    by (rule cycle_while_inv [where P = "\<lambda>s. bare s \<and> \<not> pin_reset (ins s)", OF s(3) p]) (use bare_cycle in blast)
  then show "bare s'" "\<not> pin_reset (ins s')" "get_microcode_address V s' = 0x102" by auto
qed

lemma RTLCPU_new_ok:
  assumes "RTLCPU_new V d dv w irq inp = Some s" "\<not> q_m_ack (dut_in d)" "\<not> io_m_ack (dut_in d)"
  shows "rtl_ok s" "\<not> int_in_progress s" "get_microcode_address V s = 0x102"
proof -
  let ?v = "VerilogDriver_new (VRTLCPU_class V) d :: ('a VRTLCPU, event) VerilogDriver"
  let ?t = "set_in (\<lambda>p. p\<lparr>debug_seize := True, cache_enabled := False\<rparr>)
     \<lparr>dut = dut ?v, drv_cycle_num = drv_cycle_num ?v, deferred_events = deferred_events ?v, periodic_events = periodic_events ?v,
      rtl_mem = Memory_new w, rtl_inta_handler = (\<lambda>_ d. Some ((), d, [])), rtl_devs = dv, mem_in_progress = False,
      io_in_progress = False, mem_latency = 0, is_stopped = True, rtl_io = Map.empty, rtl_pending_irq = irq, int_in_progress = inp\<rparr>"
  obtain s1 where s1: "RTLCPU_reset V ?t = Some s1" "s = periodic ClockCapture End_int (periodic ClockSetup Raise_intr (periodic ClockCapture Copy_stopped (periodic ClockCapture Io_write
      (periodic ClockCapture Mem_write (periodic ClockSetup Io_access (periodic ClockSetup Mem_access s1))))))"
    using assms(1) by (auto simp: RTLCPU_new_def bind_eq_Some Let_def)
  have "bare (?t\<lparr>int_in_progress := False\<rparr>)" "\<not> pin_reset (ins ?t)" "drv_cycle_num ?t = 0"
    using assms(2,3) by (simp_all add: bare_def VerilogDriver_new_def VRTLCPU_class_def)
  note b = RTLCPU_reset_bare [OF s1(1) this]
  note a = bare_attached [OF b(1,2) s1(2)]
  show "rtl_ok s" "\<not> int_in_progress s" "get_microcode_address V s = 0x102" using a b(3) by (simp_all add: get_microcode_address_def)
qed

section \<open>Reachable states\<close>

text \<open>
  The states between the cycles of a session: construction, cycles, the calls that schedule an event for the next cycle (of \<open>debug_run_proc\<close>,
  \<open>debug_write_data\<close>, \<open>debug_detach\<close> and \<open>raise_nmi\<close>), ports added, the handler set, interrupts raised and devices run by the callbacks. Verilator clears the pins of a new design.
\<close>

inductive rtl_reachable :: "'v Verilated \<Rightarrow> ('v, 'd) RTLCPU \<Rightarrow> bool" for V where
  new: "RTLCPU_new V d dv w irq inp = Some s \<Longrightarrow> \<not> q_m_ack (dut_in d) \<Longrightarrow> \<not> io_m_ack (dut_in d) \<Longrightarrow> rtl_reachable V s"
| cycle: "rtl_reachable V s \<Longrightarrow> cycles_left s \<Longrightarrow> RTLCPU_cycle V s = Some s' \<Longrightarrow> rtl_reachable V s'"
| schedule: "rtl_reachable V s \<Longrightarrow> cycles_left s \<Longrightarrow> e \<in> {Run a, Write_data v, Detach, Nmi} \<Longrightarrow> after_n_cycles 0 e s = Some s' \<Longrightarrow> rtl_reachable V s'"
| port: "rtl_reachable V s \<Longrightarrow> rtl_reachable V (RTLCPU_add_ioport s p)"
| handler: "rtl_reachable V s \<Longrightarrow> rtl_reachable V (RTLCPU_set_inta_handler s h)"
| irq: "rtl_reachable V s \<Longrightarrow> rtl_reachable V (RTLCPU_raise_irq s n)"
| devices: "rtl_reachable V s \<Longrightarrow> rtl_reachable V (s\<lparr>rtl_devs := d\<rparr>)"

lemma reset_pins: "pin_reset (fold event_pins es p) \<longleftrightarrow> pin_reset p \<and> Reset_end \<notin> set es"
proof (induction es arbitrary: p)
  case (Cons e es)
  then show ?case by (cases e) simp_all
qed simp

lemma cycle_keeps:
  assumes "rtl_ok s" "cycles_left s" "RTLCPU_cycle V s = Some s'"
  shows "int_in_progress s' \<Longrightarrow> int_in_progress s" "rtl_inta_handler s' = rtl_inta_handler s"
    "pin_reset (ins s') \<longleftrightarrow> pin_reset (ins s) \<and> Reset_end \<notin> set (slot s)"
proof -
  obtain s1 s3 s4 s5 s6 where r: "raise_intr (requested s) = Some s1" and s3: "s3 = after_edge V s s1"
    and s4: "(if io_request s then map_option (apply_event Io_ack) (io_read_event s3) else Some s3) = Some s4"
    and s5: "s5 = s4\<lparr>dut := VRTLCPU_eval V (dut s4)\<rparr>" and s6: "io_write_event (s5\<lparr>rtl_mem := bus_write (outs s5) (rtl_mem s5)\<rparr>) = Some s6"
    and s': "s' = finish V s6"
    using bus_cycle_chain [OF assms(1-3)] by blast
  note o1 = dev_only_sel [OF raise_intr_only [OF r]]
  have "int_in_progress s3 = int_in_progress s \<and> rtl_inta_handler s3 = rtl_inta_handler s \<and> pin_reset (ins s3) = (pin_reset (ins s) \<and> Reset_end \<notin> set (slot s))"
    by (simp add: s3 after_edge_def Let_def apply_event_def apply_events_def o1 requested_def reset_pins toggled_def intr_pins_def)
  moreover obtain u v where "dev_only (set_in (\<lambda>p. p\<lparr>io_m_data_in := v\<rparr>) s3) u" "s4 = apply_event Io_ack u \<or> s4 = s3"
    using s4 io_read_only [of s3] io_only_base(2) [of s3] unfolding io_only_def by (auto split: if_splits)
  ultimately have "int_in_progress s4 = int_in_progress s \<and> rtl_inta_handler s4 = rtl_inta_handler s \<and> pin_reset (ins s4) = (pin_reset (ins s) \<and> Reset_end \<notin> set (slot s))"
    by (auto simp: apply_event_def dev_only_sel)
  then show "int_in_progress s' \<Longrightarrow> int_in_progress s" "rtl_inta_handler s' = rtl_inta_handler s"
    "pin_reset (ins s') \<longleftrightarrow> pin_reset (ins s) \<and> Reset_end \<notin> set (slot s)"
    using chain_captured(1) [OF assms(1) r s3 s4 s5 s6 s'] by (simp_all add: s' finish_def dev_only_sel [OF io_write_only [OF s6]] s5)
qed

lemma cycle_answers: "rtl_ok s \<Longrightarrow> cycles_left s \<Longrightarrow> RTLCPU_cycle V s = Some s' \<Longrightarrow> devices_answer s \<Longrightarrow> devices_answer s'"
  using cycle_keeps(2) [of s V s'] bus_cycle_facts(10) [of s V s'] by (simp add: devices_answer_def)

lemma schedule_ok: "rtl_ok s \<Longrightarrow> e \<in> {Run a, Write_data v, Detach, Nmi} \<Longrightarrow> rtl_ok (add_deferred (idx s) [e] s)"
  by (auto simp: rtl_ok_def attached_def)

lemma fields_ok:
  "rtl_ok s \<Longrightarrow> rtl_ok (s\<lparr>rtl_devs := d\<rparr>)" "rtl_ok s \<Longrightarrow> rtl_ok (s\<lparr>rtl_pending_irq := n\<rparr>)" "rtl_ok s \<Longrightarrow> rtl_ok (s\<lparr>rtl_io := t\<rparr>)"
  "rtl_ok s \<Longrightarrow> rtl_ok (s\<lparr>rtl_inta_handler := h\<rparr>)"
  by (simp_all add: rtl_ok_def attached_def idx_def)


section \<open>A scripted design\<close>

text \<open>A design that shows the outputs \<open>f n\<close> from its \<open>n\<close>-th clock edge on, for the examples.\<close>

definition scripted :: "(nat \<Rightarrow> VRTLCPU_out) \<Rightarrow> (bool \<times> nat) Verilated" where
  "scripted f = \<lparr>core_eval = (\<lambda>p (k, n). let n' = (if pin_clk p \<and> \<not> k then n + 1 else n) in (f n', (pin_clk p, n'))),
     core_microcode_address = (\<lambda>_. 0x102), core_ext_int_yield = (\<lambda>_. False), core_instr_length = (\<lambda>c. (0, c))\<rparr>"

definition idle_out :: VRTLCPU_out where
  "idle_out = \<lparr>pin_inta = False, q_m_addr = 0, q_m_data_out = 0, q_m_access = False, q_m_wr_en = False, q_m_bytesel = 0, io_m_addr = 0, io_m_data_out = 0,
     io_m_access = False, io_m_wr_en = False, io_m_bytesel = 0, d_io = False, debug_stopped = True, debug_val = 0\<rparr>"

definition clear_in :: VRTLCPU_in where
  "clear_in = \<lparr>pin_clk = False, pin_reset = False, pin_nmi = False, pin_intr = False, pin_irq = 0, q_m_data_in = 0, q_m_ack = False, io_m_data_in = 0,
     io_m_ack = False, debug_seize = False, debug_addr = 0, debug_run = False, debug_wr_val = 0, debug_wr_en = False, cache_enabled = False\<rparr>"

definition scripted_dut :: "(bool \<times> nat) VRTLCPU" where
  "scripted_dut = \<lparr>dut_in = clear_in, dut_out = idle_out, dut_core = (False, 0)\<rparr>"

definition playing :: "(nat \<Rightarrow> VRTLCPU_out) \<Rightarrow> nat \<Rightarrow> (bool \<times> nat) VRTLCPU \<Rightarrow> bool" where
  "playing f n d \<longleftrightarrow> dut_core d = (False, n) \<and> \<not> pin_clk (dut_in d)"

lemma scripted_eval:
  "dut_core d = (k, n) \<Longrightarrow> VRTLCPU_eval (scripted f) d =
     (let n' = (if pin_clk (dut_in d) \<and> \<not> k then n + 1 else n) in d\<lparr>dut_out := f n', dut_core := (pin_clk (dut_in d), n')\<rparr>)"
  by (simp add: VRTLCPU_eval_def scripted_def Let_def)

lemma scripted_settle:
  assumes "dut_core d = (True, n)" "pin_clk (dut_in d)"
  shows "settle (scripted f) d = d\<lparr>dut_in := (dut_in d)\<lparr>pin_clk := False\<rparr>, dut_out := f n, dut_core := (False, n)\<rparr>"
proof -
  let ?e = "VRTLCPU_eval (scripted f)"
  let ?a = "d\<lparr>dut_out := f n\<rparr>" and ?b = "d\<lparr>dut_in := (dut_in d)\<lparr>pin_clk := False\<rparr>, dut_out := f n, dut_core := (False, n)\<rparr>"
  have fx: "(?e ^^ Suc m) x = y" if "?e x = y" "?e y = y" for m x y using that by (induction m) simp_all
  have a: "?e d = ?a" "?e ?a = ?a" using assms by (cases d, simp add: scripted_eval)+
  have b: "?e (toggled ?a) = ?b" "?e ?b = ?b"
    using assms scripted_eval [of "toggled ?a" True n f] scripted_eval [of ?b False n f] by (simp_all add: toggled_def)
  have n: "(4 :: nat) = Suc 3" "(5 :: nat) = Suc 4" by simp_all
  show ?thesis unfolding settle_def n fx [OF a] fx [OF b] ..
qed

lemma toggled_in: "dut_in (toggled d) = (dut_in d)\<lparr>pin_clk := \<not> pin_clk (dut_in d)\<rparr>"
  by (simp add: toggled_def)

lemma scripted_edge:
  assumes "dut_core d = (False, n)" "\<not> pin_clk (dut_in d)"
  shows "VRTLCPU_eval (scripted f) (toggled d) = d\<lparr>dut_in := (dut_in d)\<lparr>pin_clk := True\<rparr>, dut_out := f (n + 1), dut_core := (True, n + 1)\<rparr>"
  using assms by (simp add: scripted_eval toggled_def)

lemma scripted_cycle:
  assumes "rtl_ok s" "cycles_left s" "playing f n (dut s)" "RTLCPU_cycle (scripted f) s = Some s'"
  shows "rtl_ok s'" "playing f (n + 1) (dut s')" "outs s' = f (n + 1)" "dut_out (edge (scripted f) s) = f (n + 1)"
    "dut_out (captured (scripted f) s s') = f (n + 1)"
proof -
  have e: "edge (scripted f) s = (dut s)\<lparr>dut_in := (intr_pins s)\<lparr>pin_clk := True\<rparr>, dut_out := f (n + 1), dut_core := (True, n + 1)\<rparr>"
    using assms(3) by (simp add: edge_def playing_def scripted_edge)
  then have c: "dut_core (captured (scripted f) s s') = (True, n + 1)" "pin_clk (dut_in (captured (scripted f) s s'))"
      "dut_out (captured (scripted f) s s') = f (n + 1)"
    using assms(3) by (simp_all add: captured_def playing_def scripted_eval)
  note b = bus_cycle_facts [OF assms(1,2,4)]
  show "rtl_ok s'" by (rule b(1))
  show "playing f (n + 1) (dut s')" "outs s' = f (n + 1)" unfolding b(8) by (simp_all add: scripted_settle [OF c(1,2)] playing_def)
  show "dut_out (edge (scripted f) s) = f (n + 1)" "dut_out (captured (scripted f) s s') = f (n + 1)" using e c(3) by simp_all
qed

lemma bare_scripted:
  assumes "bare s" "playing f n (dut s)" "slot s = [] \<or> slot s = [Reset_end]"
  shows "\<exists>s'. RTLCPU_cycle (scripted f) s = Some s' \<and> playing f (n + 1) (dut s') \<and> outs s' = f (n + 1) \<and> world s' = world s \<and> rtl_io s' = rtl_io s \<and>
    rtl_mem s' = rtl_mem s \<and> rtl_inta_handler s' = rtl_inta_handler s \<and> pin_reset (ins s') = (pin_reset (ins s) \<and> slot s = [])"
  using assms(2,3) by (auto simp: bare_step [OF assms(1)] playing_def scripted_edge scripted_eval scripted_settle toggled_in)

text \<open>Construction takes the three cycles of the reset: the script is at its third entry.\<close>

lemma scripted_new:
  "\<exists>s. RTLCPU_new (scripted f) scripted_dut dv w irq inp = Some s \<and> playing f 3 (dut s) \<and> outs s = f 3 \<and> drv_cycle_num s = 3 \<and> world s = (dv, 0) \<and>
     rtl_io s = Map.empty \<and> \<not> pin_reset (ins s) \<and> slot s = [] \<and> rtl_mem s = Memory_new w \<and> rtl_inta_handler s = (\<lambda>_ d. Some ((), d, []))"
proof -
  let ?V = "scripted f"
  let ?v = "VerilogDriver_new (VRTLCPU_class ?V) scripted_dut :: ((bool \<times> nat) VRTLCPU, event) VerilogDriver"
  let ?t = "set_in (\<lambda>p. p\<lparr>debug_seize := True, cache_enabled := False\<rparr>)
     \<lparr>dut = dut ?v, drv_cycle_num = drv_cycle_num ?v, deferred_events = deferred_events ?v, periodic_events = periodic_events ?v,
      rtl_mem = Memory_new w, rtl_inta_handler = (\<lambda>_ d. Some ((), d, [])), rtl_devs = dv, mem_in_progress = False,
      io_in_progress = False, mem_latency = 0, is_stopped = True, rtl_io = Map.empty, rtl_pending_irq = irq, int_in_progress = inp\<rparr>"
  let ?r = "set_in (\<lambda>p. p\<lparr>pin_reset := True\<rparr>) ((set_in (\<lambda>p. p\<lparr>pin_nmi := False, pin_intr := False\<rparr>) ?t)\<lparr>rtl_pending_irq := 0, int_in_progress := False\<rparr>)"
  define u where "u = add_deferred 2 [Reset_end] ?r"
  note new = VerilogDriver_new_def VRTLCPU_class_def scripted_dut_def clear_in_def idle_out_def
  have "cycles_left ?r" "idx ?r = 0" by (simp_all add: cycles_left_def idx_def new)
  then have a: "after_n_cycles 2 Reset_end ?r = Some u" using at_cycle_within [of ?r 2 Reset_end] by (simp add: numeral_2_eq_2 u_def)
  have u: "bare u" "playing f 0 (dut u)" "pin_reset (ins u)" "drv_cycle_num u = 0" "deferred_events u = (\<lambda>_. [])(2 := [Reset_end])"
      "world u = (dv, 0)" "rtl_io u = Map.empty" "rtl_mem u = Memory_new w" "rtl_inta_handler u = (\<lambda>_ d. Some ((), d, []))"
    by (auto simp: u_def bare_def playing_def new add_deferred_def)
  have step: "\<exists>s'. RTLCPU_cycle ?V s = Some s' \<and> bare s' \<and> playing f (n + 1) (dut s') \<and> outs s' = f (n + 1) \<and> world s' = world s \<and> rtl_io s' = rtl_io s \<and>
      rtl_mem s' = rtl_mem s \<and> rtl_inta_handler s' = rtl_inta_handler s \<and> pin_reset (ins s') = (pin_reset (ins s) \<and> slot s = []) \<and> drv_cycle_num s' = drv_cycle_num s + 1 \<and>
      deferred_events s' = (deferred_events s)(idx s := [])"
    if "bare s" "playing f n (dut s)" "slot s = [] \<or> slot s = [Reset_end]" for s :: "(bool \<times> nat, 'a) RTLCPU" and n
    using bare_scripted [OF that] bare_cycle [OF that(1)] by blast
  have i: "idx s = unat (drv_cycle_num s) mod 64" for s :: "(bool \<times> nat, 'a) RTLCPU" by (simp add: idx_def unat_mod64)
  obtain s1 where s1: "RTLCPU_cycle ?V u = Some s1" "bare s1" "playing f 1 (dut s1)" "world s1 = (dv, 0)" "rtl_io s1 = Map.empty" "rtl_mem s1 = Memory_new w" "rtl_inta_handler s1 = (\<lambda>_ d. Some ((), d, []))"
      "pin_reset (ins s1)" "drv_cycle_num s1 = 1" "deferred_events s1 = (\<lambda>_. [])(2 := [Reset_end])"
    using step [OF u(1,2)] u by (auto simp: i fun_eq_iff)
  obtain s2 where s2: "RTLCPU_cycle ?V s1 = Some s2" "bare s2" "playing f 2 (dut s2)" "world s2 = (dv, 0)" "rtl_io s2 = Map.empty" "rtl_mem s2 = Memory_new w" "rtl_inta_handler s2 = (\<lambda>_ d. Some ((), d, []))"
      "pin_reset (ins s2)" "drv_cycle_num s2 = 2" "deferred_events s2 = (\<lambda>_. [])(2 := [Reset_end])"
    using step [OF s1(2,3)] s1 by (auto simp: i fun_eq_iff numeral_2_eq_2)
  obtain s3 where s3: "RTLCPU_cycle ?V s2 = Some s3" "bare s3" "playing f 3 (dut s3)" "outs s3 = f 3" "world s3 = (dv, 0)" "rtl_io s3 = Map.empty" "rtl_mem s3 = Memory_new w" "rtl_inta_handler s3 = (\<lambda>_ d. Some ((), d, []))"
      "\<not> pin_reset (ins s3)" "drv_cycle_num s3 = 3"
    using step [OF s2(2,3)] s2 by (auto simp: i)
  have "cycle_while (RTLCPU_cycle ?V) (\<lambda>s. pin_reset (ins s)) s1 = Some s3"
    using s1(8) s2(1,8) s3(1,9) by (simp add: cycle_while.simps [of _ _ s1] cycle_while.simps [of _ _ s2] cycle_while.simps [of _ _ s3])
  moreover have "cycle_while (RTLCPU_cycle ?V) (\<lambda>s. get_microcode_address ?V s \<noteq> 0x102) s3 = Some s3"
    by (simp add: cycle_while.simps [of _ _ s3] get_microcode_address_def scripted_def)
  ultimately have "RTLCPU_reset ?V ?t = Some s3" using a s1(1) by (simp add: RTLCPU_reset_def driver_reset_RTL)
  then show ?thesis using s3 by (simp add: RTLCPU_new_def Let_def periodic_def bare_def idx_def)
qed


section \<open>What the buses promise\<close>

text \<open>
  C9. The memory bus, for every design: a cycle from a state in which the deferred events agree with the transfers (\<^const>\<open>rtl_ok\<close>) leads to
  such a state, and returns if the devices do. A request is acknowledged
  in the cycle in which it is first seen and for one cycle, a request during the acknowledge is not; with the
  acknowledge comes the word the memory holds at the address on the bus after the clock edge; and memory changes exactly in the bytes that
  the outputs at the end of the cycle select for writing. No access is out of range. The I/O bus is acknowledged in the same way.
\<close>

theorem memory_bus:
  assumes "rtl_ok s" "cycles_left s"
  shows "(devices_answer s \<longrightarrow> (\<exists>s'. RTLCPU_cycle V s = Some s')) \<and>
    (\<forall>s'. RTLCPU_cycle V s = Some s' \<longrightarrow> rtl_ok s' \<and> q_m_ack (ins s') = mem_request s \<and>
       (mem_request s \<longrightarrow> mem_read16 (rtl_mem s) (bus_addr (dut_out (edge V s))) = Some (q_m_data_in (ins s'))) \<and>
       rtl_mem s' = bus_write (dut_out (captured V s s')) (rtl_mem s) \<and> io_m_ack (ins s') = io_request s)"
proof -
  have "mem_read16 m (bus_addr p) = Some (bus_word p m)" for m p
    using bus_addr_range(1) [of p] by (simp add: bus_word_def mem_read_def MEMORY_SIZE_def)
  then show ?thesis using bus_cycle_returns [OF assms] bus_cycle_facts [OF assms] by simp
qed

text \<open>A script that requests the word at address \<open>10\<close> for reading.\<close>

definition reading :: VRTLCPU_out where
  "reading = idle_out\<lparr>q_m_access := True, q_m_addr := 5\<rparr>"

theorem memory_bus_witness:
  "\<exists>s s'. RTLCPU_new (scripted (\<lambda>_. reading)) scripted_dut () False 0 False = Some s \<and> RTLCPU_cycle (scripted (\<lambda>_. reading)) s = Some s' \<and>
     q_m_ack (ins s') \<and> Some (q_m_data_in (ins s')) = mem_read16 (Memory_new False) 10"
proof -
  let ?V = "scripted (\<lambda>_. reading)"
  obtain s where s: "RTLCPU_new ?V scripted_dut () False 0 False = Some s" "playing (\<lambda>_. reading) 3 (dut s)" "outs s = reading" "drv_cycle_num s = 3"
      "rtl_io s = Map.empty" "\<not> pin_reset (ins s)" "slot s = []" "rtl_mem s = Memory_new False" "rtl_inta_handler s = (\<lambda>_ d. Some ((), d, []))"
    using scripted_new [of "\<lambda>_. reading" "()" False 0 False] by auto
  have ok: "rtl_ok s" using RTLCPU_new_ok [OF s(1)] by (simp add: scripted_dut_def clear_in_def)
  have r: "cycles_left s" using s(4) by (simp add: cycles_left_def)
  have "mem_request s" using s(3,6,7) rtl_okD(5) [OF ok] by (simp add: mem_request_def reading_def idle_out_def)
  moreover have "devices_answer s" using s(5,9) by (simp add: devices_answer_def)
  ultimately obtain s' where s': "RTLCPU_cycle ?V s = Some s'" "q_m_ack (ins s')" "mem_read16 (rtl_mem s) (bus_addr (dut_out (edge ?V s))) = Some (q_m_data_in (ins s'))"
    using memory_bus [OF ok r, of ?V] by blast
  moreover have "bus_addr (dut_out (edge ?V s)) = 10" using scripted_cycle(4) [OF ok r s(2) s'(1)] by (simp add: reading_def idle_out_def bus_addr_def)
  ultimately show ?thesis using s(1,8) by auto
qed

text \<open>
  C10. An I/O write reaches its device exactly once, for every design that keeps its request on the bus until it is acknowledged: the request \<open>p\<close> appears
  in the first cycle and stays through the second, in which it is acknowledged, and is gone in the third. The device has then been called once, with
  the value and the offset of the port in its range, as a word or as the selected byte; what it raised meanwhile is the pending interrupt; and the
  acknowledge pin was high for one cycle. No interrupt is acknowledged in these cycles.
\<close>

theorem port_write_once:
  assumes "rtl_ok s" "unat (drv_cycle_num s) + 66 < 2 ^ 64" "RTLCPU_cycle V s = Some s1" "RTLCPU_cycle V s1 = Some s2" "RTLCPU_cycle V s2 = Some s3"
    and "\<not> io_m_access (outs s)" "writes_port p" "rtl_io s (io_addr p) = Some q"
    and "dut_out (captured V s s1) = p" "outs s1 = p" "dut_out (edge V s1) = p" "\<not> writes_port (dut_out (captured V s2 s3))"
    and "\<not> pin_reset (ins s1)" "\<not> pin_inta (outs s)" "\<not> pin_inta (outs s1)" "\<not> pin_inta (outs s2)"
  shows "device_call (port_write p q) (world s) (world s3) \<and> \<not> io_m_ack (ins s1) \<and> io_m_ack (ins s2) \<and> \<not> io_m_ack (ins s3)"
proof -
  have r: "cycles_left s" using assms(2) by (simp add: cycles_left_def)
  note b = bus_cycle_facts [OF assms(1) r assms(3)]
  have r1: "cycles_left s1" using assms(2) b(2) unat_small_add [of "drv_cycle_num s" 1] by (simp add: cycles_left_def)
  note b1 = bus_cycle_facts [OF b(1) r1 assms(4)]
  have r2: "cycles_left s2" using assms(2) b(2) b1(2) unat_small_add [of "drv_cycle_num s" 2] by (simp add: cycles_left_def add.commute)
  note b2 = bus_cycle_facts [OF b1(1) r2 assms(5)]
  have q0: "\<not> io_request s" using assms(6) by (simp add: io_request_def)
  have q1: "io_request s1" using b(4) q0 assms(7,10,13) rtl_okD(8) [OF b(1)] by (simp add: io_request_def writes_port_def)
  have q2: "\<not> io_request s2" using b1(4) q1 rtl_okD(8) [OF b1(1)] by (simp add: io_request_def)
  obtain w0 where "w0 = world s" "device_call (port_write p q) w0 (world s1)"
    using cycle_world [OF assms(1) r assms(3) assms(9) [symmetric], of q] q0 assms(7,8,14) by metis
  moreover have "world s2 = world s1"
    using cycle_world [OF b(1) r1 assms(4) refl, of q] q1 assms(7,11,15) unfolding writes_port_def by metis
  moreover have "world s3 = world s2"
    using cycle_world [OF b1(1) r2 assms(5) refl, of q] q2 assms(12,16) by metis
  ultimately show ?thesis using b(4) b1(4) b2(4) q0 q1 q2 by simp
qed

text \<open>A script that writes \<open>1234\<close> to port \<open>60\<close> (both hexadecimal) as a word, and a device that keeps the last word.\<close>

definition writing :: VRTLCPU_out where
  "writing = idle_out\<lparr>io_m_access := True, d_io := True, io_m_wr_en := True, io_m_bytesel := 3, io_m_addr := 0x30, io_m_data_out := 0x1234\<rparr>"

definition word_device :: "u16 IOPorts" where
  "word_device = \<lparr>port_base = 0x60, num_ports = 1, io_read8 = (\<lambda>_ _ d. Some (0, d, [])), io_read16 = (\<lambda>_ d. Some (d, d, [])),
     io_write8 = (\<lambda>_ _ _ d. Some ((), d, [])), io_write16 = (\<lambda>_ v d. Some ((), v, []))\<rparr>"

theorem port_write_once_witness:
  "\<exists>s s1 s2 s3. rtl_devs s = (0 :: u16) \<and> RTLCPU_cycle (scripted (\<lambda>n. if n \<in> {4, 5} then writing else idle_out)) s = Some s1 \<and>
     RTLCPU_cycle (scripted (\<lambda>n. if n \<in> {4, 5} then writing else idle_out)) s1 = Some s2 \<and>
     RTLCPU_cycle (scripted (\<lambda>n. if n \<in> {4, 5} then writing else idle_out)) s2 = Some s3 \<and> rtl_devs s3 = 0x1234 \<and> io_m_ack (ins s2)"
proof -
  let ?f = "\<lambda>n. if n \<in> {4, 5 :: nat} then writing else idle_out"
  let ?V = "scripted ?f"
  obtain t where t: "RTLCPU_new ?V scripted_dut (0 :: u16) False 0 False = Some t" "playing ?f 3 (dut t)" "outs t = idle_out" "drv_cycle_num t = 3"
      "world t = (0, 0)" "rtl_io t = Map.empty" "\<not> pin_reset (ins t)" "slot t = []" "rtl_inta_handler t = (\<lambda>_ d. Some ((), d, []))"
    using scripted_new [of ?f "0 :: u16" False 0 False] by auto
  define s where "s = t\<lparr>rtl_io := [0x60 \<mapsto> word_device]\<rparr>"
  have ok: "rtl_ok s" unfolding s_def by (rule fields_ok(3), rule RTLCPU_new_ok(1) [OF t(1)]) (simp_all add: scripted_dut_def clear_in_def)
  have s: "playing ?f 3 (dut s)" "outs s = idle_out" "drv_cycle_num s = 3" "rtl_devs s = 0" "rtl_io s = [0x60 \<mapsto> word_device]" "devices_answer s"
    using t by (simp_all add: s_def devices_answer_def device_answers_def word_device_def)
  have r: "cycles_left s" using s(3) by (simp add: cycles_left_def)
  obtain s1 where s1: "RTLCPU_cycle ?V s = Some s1" using bus_cycle_returns [OF ok r s(6)] by blast
  note c1 = scripted_cycle [OF ok r s(1) s1] and b1 = bus_cycle_facts [OF ok r s1]
  have r1: "cycles_left s1" using s(3) b1(2) by (simp add: cycles_left_def)
  obtain s2 where s2: "RTLCPU_cycle ?V s1 = Some s2" using bus_cycle_returns [OF c1(1) r1 cycle_answers [OF ok r s1 s(6)]] by blast
  note c2 = scripted_cycle [OF c1(1) r1 c1(2) s2] and b2 = bus_cycle_facts [OF c1(1) r1 s2]
  have r2: "cycles_left s2" using s(3) b1(2) b2(2) by (simp add: cycles_left_def)
  obtain s3 where s3: "RTLCPU_cycle ?V s2 = Some s3"
    using bus_cycle_returns [OF c2(1) r2 cycle_answers [OF c1(1) r1 s2 cycle_answers [OF ok r s1 s(6)]]] by blast
  note c3 = scripted_cycle [OF c2(1) r2 c2(2) s3]
  have p: "writes_port writing" "io_addr writing = 0x60" "\<not> writes_port idle_out" "\<not> io_m_access idle_out" "\<not> pin_inta idle_out" "\<not> pin_inta writing"
    by (simp_all add: writes_port_def writing_def idle_out_def io_addr_def)
  have pr: "\<not> pin_reset (ins s1)" using cycle_keeps(3) [OF ok r s1] t(7) by (simp add: s_def)
  have "device_call (port_write writing word_device) (world s) (world s3) \<and> \<not> io_m_ack (ins s1) \<and> io_m_ack (ins s2) \<and> \<not> io_m_ack (ins s3)"
    by (rule port_write_once [OF ok _ s1 s2 s3]) (use s c1 c2 c3 p pr in simp_all)
  moreover have "port_write writing word_device = (\<lambda>d. Some ((), 0x1234, []))" by (simp add: port_write_def writing_def word_device_def)
  ultimately show ?thesis using s(4) s1 s2 s3 by (intro exI [of _ s] exI [of _ s1] exI [of _ s2] exI [of _ s3]) (simp add: device_call_def)
qed

text \<open>
  C21. The interrupt line, for every design, in a cycle without I/O: while an interrupt is pending and the design does not acknowledge, the line is high with
  the number of the interrupt at every clock edge, and it stays pending; when the design acknowledges, the handler of the
  interrupt controller is called once with that number, and only what the handler itself raises is pending afterwards; with nothing pending
  the line is low.
\<close>

theorem interrupt_line:
  assumes "rtl_ok s" "cycles_left s" "\<not> int_in_progress s" "RTLCPU_cycle V s = Some s'" "\<not> io_request s" "\<not> writes_port (dut_out (captured V s s'))"
  shows "if rtl_pending_irq s = 0 then \<not> pin_intr (dut_in (edge V s)) \<and> world s' = world s
    else if pin_inta (outs s) then device_call (rtl_inta_handler s (uint (rtl_pending_irq s))) (rtl_devs s, 0) (world s')
    else pin_intr (dut_in (edge V s)) \<and> pin_irq (dut_in (edge V s)) = rtl_pending_irq s \<and> world s' = world s"
proof -
  obtain w where w: "rtl_pending_irq s = 0 \<or> \<not> pin_inta (outs s) \<Longrightarrow> w = world s"
      "rtl_pending_irq s \<noteq> 0 \<Longrightarrow> pin_inta (outs s) \<Longrightarrow> device_call (rtl_inta_handler s (uint (rtl_pending_irq s))) (rtl_devs s, 0) w" "world s' = w"
    using cycle_world [OF assms(1,2,4) refl] assms(3,5,6) by metis
  have "dut_in (edge V s) = (intr_pins s)\<lparr>pin_clk := \<not> pin_clk (ins s)\<rparr>" by (simp add: edge_def toggled_def)
  then show ?thesis using w assms(3) by (auto simp: intr_pins_def)
qed

theorem interrupt_line_witness:
  "\<exists>s s'. rtl_pending_irq s = 9 \<and> RTLCPU_cycle (scripted (\<lambda>_. idle_out)) s = Some s' \<and>
     pin_irq (dut_in (edge (scripted (\<lambda>_. idle_out)) s)) = 9 \<and> world s' = ((), 9)"
proof -
  let ?V = "scripted (\<lambda>_. idle_out)"
  obtain t where t: "RTLCPU_new ?V scripted_dut () False 0 False = Some t" "playing (\<lambda>_. idle_out) 3 (dut t)" "outs t = idle_out" "drv_cycle_num t = 3"
      "rtl_io t = Map.empty" "rtl_inta_handler t = (\<lambda>_ d. Some ((), d, []))"
    using scripted_new [of "\<lambda>_. idle_out" "()" False 0 False] by auto
  have new: "rtl_ok t" "\<not> int_in_progress t" using RTLCPU_new_ok(1,2) [OF t(1)] by (simp_all add: scripted_dut_def clear_in_def)
  define s where "s = RTLCPU_raise_irq t 9"
  have s: "rtl_ok s" "\<not> int_in_progress s" "rtl_pending_irq s = 9" "outs s = idle_out" "cycles_left s" "devices_answer s" "playing (\<lambda>_. idle_out) 3 (dut s)"
    using new t fields_ok(2) [OF new(1)] by (simp_all add: s_def RTLCPU_raise_irq_def cycles_left_def devices_answer_def)
  obtain s' where s': "RTLCPU_cycle ?V s = Some s'" using bus_cycle_returns [OF s(1,5,6)] by blast
  have "\<not> io_request s" "\<not> pin_inta (outs s)" using s(4) by (simp_all add: io_request_def idle_out_def)
  moreover have "\<not> writes_port (dut_out (captured ?V s s'))" using scripted_cycle(5) [OF s(1,5,7) s'] by (simp add: writes_port_def idle_out_def)
  ultimately show ?thesis using interrupt_line [OF s(1,5,2) s'] s(3) s' by auto
qed

end
