(* ===== verification/RTLAgree.thy ===== *)
theory RTLAgree
  imports RTLRegs RTLProtocol SoftwareCPU
begin

text \<open>The two backends of the simulator side by side: the register interface, through which the tests, the debugger and the snapshots see a CPU.\<close>

datatype reg_op = Read_reg GPR | Write_reg GPR u16 | Read_flags | Write_flags u16

fun rtl_ops :: "'v Verilated \<Rightarrow> reg_op list \<Rightarrow> ('v, 'd) RTLCPU \<Rightarrow> (u16 list \<times> ('v, 'd) RTLCPU) option" where
  "rtl_ops V [] s = Some ([], s)"
| "rtl_ops V (Read_reg x # ops) s = do { (v, s) \<leftarrow> RTLCPU_read_reg V x s; (vs, s) \<leftarrow> rtl_ops V ops s; Some (v # vs, s) }"
| "rtl_ops V (Write_reg x w # ops) s = do { s \<leftarrow> RTLCPU_write_reg V x w s; rtl_ops V ops s }"
| "rtl_ops V (Read_flags # ops) s = do { (v, s) \<leftarrow> RTLCPU_read_flags V s; (vs, s) \<leftarrow> rtl_ops V ops s; Some (v # vs, s) }"
| "rtl_ops V (Write_flags w # ops) s = do { s \<leftarrow> RTLCPU_write_flags V w s; rtl_ops V ops s }"

fun soft_ops :: "reg_op list \<Rightarrow> 'e SoftwareCPU \<Rightarrow> u16 list \<times> 'e SoftwareCPU" where
  "soft_ops [] c = ([], c)"
| "soft_ops (Read_reg x # ops) c = (let (vs, c') = soft_ops ops c in (read_reg c x # vs, c'))"
| "soft_ops (Write_reg x w # ops) c = soft_ops ops (write_reg c x w)"
| "soft_ops (Read_flags # ops) c = (let (vs, c') = soft_ops ops c in (read_flags c # vs, c'))"
| "soft_ops (Write_flags w # ops) c = soft_ops ops (write_flags c w)"

lemma same_file_get: "same_file a b \<Longrightarrow> reg_get a x = reg_get b x" "same_file a b \<Longrightarrow> get_flags a = get_flags b"
  by (cases x; simp add: same_file_def reg_get_def) (simp add: same_file_def get_flags_def)

lemma same_file_set:
  "same_file a b \<Longrightarrow> same_file ((reg_set a x w)\<lparr>reg_written := r\<rparr>) (reg_set b x w)"
  "same_file a b \<Longrightarrow> same_file (set_flags a w m) (set_flags b w m)"
  by (cases x; simp add: same_file_def reg_set_def set_low_def set_high_def) (simp add: same_file_def set_flags_def Let_def)

lemma debug_call_trans:
  assumes "debug_call clk view n f s s1" "same_file (f (rtl_regs view s)) r" "clock s + 64 * Suc k + 256 < 2 ^ 64" "n \<le> 64"
  shows "stopped_at clk view None s1" "same_file (rtl_regs view s1) r" "clock s1 + 64 * k + 256 < 2 ^ 64" "same_world s s1"
  using assms by (auto simp: debug_call_def)


text \<open>A design that is nothing but the debug interface, and the backend around it.\<close>

definition dbg_step :: "VRTLCPU_in \<Rightarrow> dbg \<Rightarrow> dbg" where
  "dbg_step p d =
     (case dbg_phase d of
        Stopped \<Rightarrow> d\<lparr>dbg_tmp := if debug_wr_en p then debug_wr_val p else dbg_tmp d, dbg_phase := if debug_run p then Running (debug_addr p) 0 else Stopped\<rparr>
      | Running a (Suc n) \<Rightarrow> d\<lparr>dbg_phase := Running a n\<rparr>
      | Running a 0 \<Rightarrow> (dbg_proc a d)\<lparr>dbg_phase := Stopped\<rparr>)"

definition debug_design :: "(bool \<times> dbg) Verilated" where
  "debug_design = \<lparr>core_eval = (\<lambda>p (k, d). let d' = (if pin_clk p \<and> \<not> k then dbg_step p d else d)
       in (idle_out\<lparr>debug_stopped := dbg_phase d' = Stopped, debug_val := dbg_tmp d'\<rparr>, (pin_clk p, d'))),
     core_microcode_address = (\<lambda>_. 0x102), core_ext_int_yield = (\<lambda>_. False), core_instr_length = (\<lambda>c. (0, c))\<rparr>"

definition debug_backend :: "(bool \<times> dbg, unit) RTLCPU" where
  "debug_backend =
     \<lparr>dut = \<lparr>dut_in = clear_in, dut_out = idle_out, dut_core = (False, \<lparr>dbg_phase = Stopped, dbg_tmp = 0, dbg_regs = RegisterFile_new False\<rparr>)\<rparr>,
      drv_cycle_num = 0, deferred_events = (\<lambda>_. []),
      periodic_events = (\<lambda>e. case e of ClockSetup \<Rightarrow> [Mem_access, Io_access, Raise_intr] | ClockCapture \<Rightarrow> [Mem_write, Io_write, Copy_stopped, End_int]),
      rtl_mem = Memory_new False, rtl_inta_handler = (\<lambda>_ d. Some ((), d, [])), rtl_devs = (), mem_in_progress = False, io_in_progress = False,
      mem_latency = 0, is_stopped = True, rtl_io = Map.empty, rtl_pending_irq = 0, int_in_progress = False\<rparr>"

lemma debug_design_port: "debug_port debug_design fst snd"
proof -
  have n: "dbg_next p d (dbg_step p d)" for p d
    by (cases "dbg_phase d") (auto simp: dbg_next_def dbg_step_def Let_def intro!: exI [of _ 0] split: nat.splits)
  show ?thesis unfolding debug_port_def using n by (auto simp: debug_design_def Let_def idle_out_def split: prod.splits)
qed


end
